(* ===== verification/Prelude.thy ===== *)
theory Prelude
  imports Complex_Main "HOL-Library.Word"
begin

text \<open>
  Shared vocabulary of the development.

  \<^item> Python values that every component uses: bytes, strings (lists of code points) and the
    exceptions the modelled code can raise.
  \<^item> Two result types: \<open>'a res\<close> for a pure function that may raise, and \<open>('s, 'a) pym\<close> for code
    that also changes a state. A raised exception keeps the state changes made before it, as
    Python does.
  \<^item> \<open>keeps P m\<close> (the code \<open>m\<close> keeps the invariant \<open>P\<close>, whether it returns or raises) with one
    introduction rule per combinator in the collection \<open>keeps_intros\<close>, so that an invariant
    proof follows the shape of the code; \<open>steps_by R m\<close> is the same for a relation between the
    state before and after, and \<open>safe P m\<close> says in addition that the code raises nothing.
  \<^item> Generic lemmas on lists used by several components.
\<close>

named_theorems keeps_intros \<open>rules that show that code keeps an invariant\<close>
named_theorems steps_intros \<open>rules that show that code moves the state along a relation\<close>
named_theorems safe_intros \<open>rules that show that code raises nothing and keeps an invariant\<close>
named_theorems pym_simps \<open>equations of the state and exception combinators\<close>

section \<open>Python values\<close>

type_synonym byte = "8 word"
type_synonym bytes = "byte list"

text \<open>A Python \<open>str\<close> is its list of code points.\<close>

type_synonym pystr = "int list"

definition lit :: "string \<Rightarrow> pystr" where
  "lit s = map of_char s"

text \<open>
  The exceptions. The first five are the \<open>ProtocolError\<close> hierarchy of \<open>protocol.py\<close>; the others
  are raised by the language and its library (\<open>struct.error\<close>, conversion, lookup and database errors), and
  \<open>HTTPException\<close> by the HTTP layer with its status code. \<open>SchemaError\<close> and \<open>RuntimeError\<close> belong to the scenario runner.
\<close>

datatype pyexn =
    ProtocolError | BadMagic | BadVersion | BadCRC | BadLength
  | StructError | OverflowError | ValueError | UnicodeEncodeError
  | TypeError | AttributeError | KeyError | IndexError | ZeroDivisionError
  | IntegrityError | ProgrammingError | HTTPException int | SchemaError | RuntimeError

text \<open>\<open>except ProtocolError\<close> catches the class and its four subclasses.\<close>

fun is_protocol_error :: "pyexn \<Rightarrow> bool" where
  "is_protocol_error ProtocolError = True"
| "is_protocol_error BadMagic = True"
| "is_protocol_error BadVersion = True"
| "is_protocol_error BadCRC = True"
| "is_protocol_error BadLength = True"
| "is_protocol_error _ = False"

section \<open>Results that may be an exception\<close>

type_synonym 'a res = "pyexn + 'a"

fun rbind :: "'a res \<Rightarrow> ('a \<Rightarrow> 'b res) \<Rightarrow> 'b res" where
  "rbind (Inl e) f = Inl e"
| "rbind (Inr x) f = f x"

fun rmap :: "('a \<Rightarrow> 'b res) \<Rightarrow> 'a list \<Rightarrow> 'b list res" where
  "rmap f [] = Inr []"
| "rmap f (x # xs) = rbind (f x) (\<lambda>y. rbind (rmap f xs) (\<lambda>ys. Inr (y # ys)))"

section \<open>Code that changes a state and may raise\<close>

type_synonym ('s, 'a) pym = "'s \<Rightarrow> 'a res \<times> 's"

definition ret :: "'a \<Rightarrow> ('s, 'a) pym" where
  "ret x s = (Inr x, s)"

definition throw :: "pyexn \<Rightarrow> ('s, 'a) pym" where
  "throw e s = (Inl e, s)"

definition bind_pym :: "('s, 'a) pym \<Rightarrow> ('a \<Rightarrow> ('s, 'b) pym) \<Rightarrow> ('s, 'b) pym" where
  "bind_pym m f s = (case m s of (Inl e, s') \<Rightarrow> (Inl e, s') | (Inr x, s') \<Rightarrow> f x s')"

definition seq_pym :: "('s, 'a) pym \<Rightarrow> ('s, 'b) pym \<Rightarrow> ('s, 'b) pym" where
  "seq_pym m n = bind_pym m (\<lambda>_. n)"

definition gets :: "('s \<Rightarrow> 'a) \<Rightarrow> ('s, 'a) pym" where
  "gets f s = (Inr (f s), s)"

definition modify :: "('s \<Rightarrow> 's) \<Rightarrow> ('s, unit) pym" where
  "modify f s = (Inr (), f s)"

definition of_res :: "'a res \<Rightarrow> ('s, 'a) pym" where
  "of_res r s = (r, s)"

definition when_pym :: "bool \<Rightarrow> ('s, unit) pym \<Rightarrow> ('s, unit) pym" where
  "when_pym b m = (if b then m else ret ())"

text \<open>\<open>try: m except (those satisfying c): h\<close>.\<close>

definition catch_pym :: "(pyexn \<Rightarrow> bool) \<Rightarrow> ('s, 'a) pym \<Rightarrow> (pyexn \<Rightarrow> ('s, 'a) pym) \<Rightarrow> ('s, 'a) pym" where
  "catch_pym c m h s =
     (case m s of (Inl e, s') \<Rightarrow> (if c e then h e s' else (Inl e, s')) | (Inr x, s') \<Rightarrow> (Inr x, s'))"

text \<open>\<open>for x in xs: ...\<close>, stopping at the first exception, and the variant that collects.\<close>

primrec for_pym :: "('a \<Rightarrow> ('s, unit) pym) \<Rightarrow> 'a list \<Rightarrow> ('s, unit) pym" where
  "for_pym f [] = ret ()"
| "for_pym f (x # xs) = seq_pym (f x) (for_pym f xs)"

primrec collect_pym :: "('a \<Rightarrow> ('s, 'b list) pym) \<Rightarrow> 'a list \<Rightarrow> ('s, 'b list) pym" where
  "collect_pym f [] = ret []"
| "collect_pym f (x # xs) =
     bind_pym (f x) (\<lambda>ys. bind_pym (collect_pym f xs) (\<lambda>zs. ret (ys @ zs)))"

text \<open>Running code on one field of a larger state.\<close>

definition zoom :: "('t \<Rightarrow> 's) \<Rightarrow> ('s \<Rightarrow> 't \<Rightarrow> 't) \<Rightarrow> ('s, 'a) pym \<Rightarrow> ('t, 'a) pym" where
  "zoom get put m t = (case m (get t) of (r, s) \<Rightarrow> (r, put s t))"

lemma rbind_Inr_iff: "rbind m f = Inr y \<longleftrightarrow> (\<exists>x. m = Inr x \<and> f x = Inr y)"
  by (cases m) auto

lemma rbind_Inl_iff: "rbind m f = Inl e \<longleftrightarrow> m = Inl e \<or> (\<exists>x. m = Inr x \<and> f x = Inl e)"
  by (cases m) auto

lemma rbind_Inr_right [simp]: "rbind m Inr = m"
  by (cases m) auto

lemma lit_eq_iff [simp]: "lit a = lit b \<longleftrightarrow> a = b"
proof
  assume "lit a = lit b"
  then show "a = b"
    unfolding lit_def
    by (rule map_injective) (auto simp: inj_on_def)
qed simp

lemma lit_Nil_iff [simp]: "lit a = [] \<longleftrightarrow> a = []" "[] = lit a \<longleftrightarrow> a = []"
  by (auto simp: lit_def)

lemma lit_append [simp]: "lit (a @ b) = lit a @ lit b"
  by (simp add: lit_def)

lemma ret_app [pym_simps]: "ret x s = (Inr x, s)"
  by (simp add: ret_def)

lemma throw_app [pym_simps]: "throw e s = (Inl e, s)"
  by (simp add: throw_def)

lemma gets_app [pym_simps]: "gets f s = (Inr (f s), s)"
  by (simp add: gets_def)

lemma modify_app [pym_simps]: "modify f s = (Inr (), f s)"
  by (simp add: modify_def)

lemma of_res_app [pym_simps]: "of_res r s = (r, s)"
  by (simp add: of_res_def)

lemma bind_app [pym_simps]:
  "bind_pym m f s = (case fst (m s) of Inl e \<Rightarrow> (Inl e, snd (m s)) | Inr x \<Rightarrow> f x (snd (m s)))"
  by (simp add: bind_pym_def split: prod.splits sum.splits)

lemma seq_app [pym_simps]:
  "seq_pym m n s = (case fst (m s) of Inl e \<Rightarrow> (Inl e, snd (m s)) | Inr x \<Rightarrow> n (snd (m s)))"
  by (simp add: seq_pym_def bind_app)

lemma when_app [pym_simps]: "when_pym b m s = (if b then m s else (Inr (), s))"
  by (simp add: when_pym_def ret_def)

lemma catch_app [pym_simps]:
  "catch_pym c m h s =
     (case fst (m s) of Inl e \<Rightarrow> (if c e then h e (snd (m s)) else (Inl e, snd (m s)))
      | Inr x \<Rightarrow> (Inr x, snd (m s)))"
  by (simp add: catch_pym_def split: prod.splits sum.splits)

lemma zoom_app [pym_simps]: "zoom get put m t = (fst (m (get t)), put (snd (m (get t))) t)"
  by (simp add: zoom_def split: prod.splits)

section \<open>Invariants and relations kept by code\<close>

definition keeps :: "('s \<Rightarrow> bool) \<Rightarrow> ('s, 'a) pym \<Rightarrow> bool" where
  "keeps P m \<longleftrightarrow> (\<forall>s. P s \<longrightarrow> P (snd (m s)))"

definition steps_by :: "('s \<Rightarrow> 's \<Rightarrow> bool) \<Rightarrow> ('s, 'a) pym \<Rightarrow> bool" where
  "steps_by R m \<longleftrightarrow> (\<forall>s. R s (snd (m s)))"

lemma keepsD: "keeps P m \<Longrightarrow> P s \<Longrightarrow> P (snd (m s))"
  by (simp add: keeps_def)

lemma keeps_ret [keeps_intros]: "keeps P (ret x)"
  by (simp add: keeps_def ret_def)

lemma keeps_throw [keeps_intros]: "keeps P (throw e)"
  by (simp add: keeps_def throw_def)

lemma keeps_gets [keeps_intros]: "keeps P (gets f)"
  by (simp add: keeps_def gets_def)

lemma keeps_of_res [keeps_intros]: "keeps P (of_res r)"
  by (simp add: keeps_def of_res_def)

lemma keeps_modify [keeps_intros]: "(\<And>s. P s \<Longrightarrow> P (f s)) \<Longrightarrow> keeps P (modify f)"
  by (simp add: keeps_def modify_def)

lemma keeps_bind [keeps_intros]:
  "keeps P m \<Longrightarrow> (\<And>x. keeps P (f x)) \<Longrightarrow> keeps P (bind_pym m f)"
  by (auto simp: keeps_def bind_app split: sum.splits)

lemma keeps_seq [keeps_intros]: "keeps P m \<Longrightarrow> keeps P n \<Longrightarrow> keeps P (seq_pym m n)"
  by (auto simp: seq_pym_def intro: keeps_bind)

lemma keeps_if [keeps_intros]:
  "(b \<Longrightarrow> keeps P m) \<Longrightarrow> (\<not> b \<Longrightarrow> keeps P n) \<Longrightarrow> keeps P (if b then m else n)"
  by simp

lemma keeps_when [keeps_intros]: "(b \<Longrightarrow> keeps P m) \<Longrightarrow> keeps P (when_pym b m)"
  by (auto simp: when_pym_def intro: keeps_ret)

lemma keeps_option [keeps_intros]:
  "(x = None \<Longrightarrow> keeps P m) \<Longrightarrow> (\<And>y. x = Some y \<Longrightarrow> keeps P (f y)) \<Longrightarrow>
   keeps P (case x of None \<Rightarrow> m | Some y \<Rightarrow> f y)"
  by (cases x) auto

lemma keeps_prod [keeps_intros]:
  "(\<And>a b. x = (a, b) \<Longrightarrow> keeps P (f a b)) \<Longrightarrow> keeps P (case x of (a, b) \<Rightarrow> f a b)"
  by (cases x) auto

lemma keeps_let [keeps_intros]: "keeps P (f x) \<Longrightarrow> keeps P (let y = x in f y)"
  by simp

lemma keeps_catch [keeps_intros]:
  "keeps P m \<Longrightarrow> (\<And>e. keeps P (h e)) \<Longrightarrow> keeps P (catch_pym c m h)"
  by (auto simp: keeps_def catch_app split: sum.splits)

lemma keeps_for [keeps_intros]: "(\<And>x. x \<in> set xs \<Longrightarrow> keeps P (f x)) \<Longrightarrow> keeps P (for_pym f xs)"
  by (induction xs) (auto intro: keeps_intros)

lemma keeps_collect [keeps_intros]:
  "(\<And>x. x \<in> set xs \<Longrightarrow> keeps P (f x)) \<Longrightarrow> keeps P (collect_pym f xs)"
  by (induction xs) (auto intro!: keeps_intros)

lemma keeps_zoom [keeps_intros]:
  "(\<And>t. P t \<Longrightarrow> P (put (snd (m (get t))) t)) \<Longrightarrow> keeps P (zoom get put m)"
  by (simp add: keeps_def zoom_app)

lemma keeps_conj: "keeps P m \<Longrightarrow> keeps Q m \<Longrightarrow> keeps (\<lambda>s. P s \<and> Q s) m"
  by (simp add: keeps_def)

text \<open>What holds when code returns.\<close>

definition posts :: "('s, 'a) pym \<Rightarrow> ('a \<Rightarrow> 's \<Rightarrow> bool) \<Rightarrow> bool" where
  "posts m Q \<longleftrightarrow> (\<forall>s x s'. m s = (Inr x, s') \<longrightarrow> Q x s')"

lemma posts_bind: "(\<And>x. posts (f x) Q) \<Longrightarrow> posts (bind_pym m f) Q"
  by (auto simp: posts_def bind_app split: sum.splits)

lemma posts_seq: "posts n Q \<Longrightarrow> posts (seq_pym m n) Q"
  by (auto simp: seq_pym_def intro: posts_bind)

lemma posts_ret: "(\<And>s. Q x s) \<Longrightarrow> posts (ret x) Q"
  by (simp add: posts_def ret_app)

lemma posts_throw: "posts (throw e) Q"
  by (simp add: posts_def throw_app)

lemma posts_let: "posts (f x) Q \<Longrightarrow> posts (let y = x in f y) Q"
  by simp

lemma posts_if: "(b \<Longrightarrow> posts m Q) \<Longrightarrow> (\<not> b \<Longrightarrow> posts n Q) \<Longrightarrow> posts (if b then m else n) Q"
  by simp

lemma posts_option:
  "(x = None \<Longrightarrow> posts m Q) \<Longrightarrow> (\<And>y. x = Some y \<Longrightarrow> posts (f y) Q) \<Longrightarrow> posts (case x of None \<Rightarrow> m | Some y \<Rightarrow> f y) Q"
  by (cases x) auto

lemma posts_prod: "(\<And>a b. x = (a, b) \<Longrightarrow> posts (f a b) Q) \<Longrightarrow> posts (case x of (a, b) \<Rightarrow> f a b) Q"
  by (cases x) auto

lemmas posts_intros = posts_bind posts_seq posts_ret posts_throw posts_let posts_if posts_option posts_prod

lemma steps_byD: "steps_by R m \<Longrightarrow> R s (snd (m s))"
  by (simp add: steps_by_def)

text \<open>
  A relation that is reflexive and transitive is kept by a program when each of its parts keeps
  it. The locale states the two laws once; the components interpret it on their own relations.
\<close>

locale state_order =
  fixes R :: "'s \<Rightarrow> 's \<Rightarrow> bool"
  assumes refl_R: "R s s"
    and trans_R: "R s t \<Longrightarrow> R t u \<Longrightarrow> R s u"
begin

lemma so_ret: "steps_by R (ret x)"
  by (simp add: steps_by_def ret_def refl_R)

lemma so_throw: "steps_by R (throw e)"
  by (simp add: steps_by_def throw_def refl_R)

lemma so_gets: "steps_by R (gets f)"
  by (simp add: steps_by_def gets_def refl_R)

lemma so_of_res: "steps_by R (of_res r)"
  by (simp add: steps_by_def of_res_def refl_R)

lemma so_modify: "(\<And>s. R s (f s)) \<Longrightarrow> steps_by R (modify f)"
  by (simp add: steps_by_def modify_def)

lemma so_bind: "steps_by R m \<Longrightarrow> (\<And>x. steps_by R (f x)) \<Longrightarrow> steps_by R (bind_pym m f)"
  by (auto simp: steps_by_def bind_app split: sum.splits intro: trans_R)

lemma so_seq: "steps_by R m \<Longrightarrow> steps_by R n \<Longrightarrow> steps_by R (seq_pym m n)"
  by (auto simp: seq_pym_def intro: so_bind)

lemma so_if: "(b \<Longrightarrow> steps_by R m) \<Longrightarrow> (\<not> b \<Longrightarrow> steps_by R n) \<Longrightarrow> steps_by R (if b then m else n)"
  by simp

lemma so_when: "(b \<Longrightarrow> steps_by R m) \<Longrightarrow> steps_by R (when_pym b m)"
  by (auto simp: when_pym_def intro: so_ret)

lemma so_option:
  "(x = None \<Longrightarrow> steps_by R m) \<Longrightarrow> (\<And>y. x = Some y \<Longrightarrow> steps_by R (f y)) \<Longrightarrow>
   steps_by R (case x of None \<Rightarrow> m | Some y \<Rightarrow> f y)"
  by (cases x) auto

lemma so_prod: "(\<And>a b. x = (a, b) \<Longrightarrow> steps_by R (f a b)) \<Longrightarrow> steps_by R (case x of (a, b) \<Rightarrow> f a b)"
  by (cases x) auto

lemma so_let: "steps_by R (f x) \<Longrightarrow> steps_by R (let y = x in f y)"
  by simp

lemma so_catch: "steps_by R m \<Longrightarrow> (\<And>e. steps_by R (h e)) \<Longrightarrow> steps_by R (catch_pym c m h)"
  by (auto simp: steps_by_def catch_app split: sum.splits intro: trans_R)

lemma so_for: "(\<And>x. x \<in> set xs \<Longrightarrow> steps_by R (f x)) \<Longrightarrow> steps_by R (for_pym f xs)"
  by (induction xs) (auto intro: so_ret so_seq)

lemma so_collect: "(\<And>x. x \<in> set xs \<Longrightarrow> steps_by R (f x)) \<Longrightarrow> steps_by R (collect_pym f xs)"
  by (induction xs) (auto intro!: so_ret so_bind)

text \<open>A condition on the result that later steps along the relation cannot undo.\<close>

lemma so_collect_posts:
  assumes "\<And>y s t. Q y s \<Longrightarrow> R s t \<Longrightarrow> Q y t" "\<And>x. steps_by R (f x)"
    "\<And>x. posts (f x) (\<lambda>ys s. \<forall>y\<in>set ys. Q y s)"
  shows "posts (collect_pym f xs) (\<lambda>ys s. \<forall>y\<in>set ys. Q y s)"
proof (induction xs)
  case (Cons x xs)
  show ?case unfolding posts_def
  proof (intro allI impI ballI)
    fix s ys s' y
    assume "collect_pym f (x # xs) s = (Inr ys, s')" "y \<in> set ys"
    then obtain as s1 bs where a: "f x s = (Inr as, s1)" "collect_pym f xs s1 = (Inr bs, s')" "ys = as @ bs"
      by (auto simp: bind_app ret_app prod_eq_iff split: sum.splits)
    have "steps_by R (collect_pym f xs)" by (rule so_collect) (rule assms(2))
    from steps_byD [OF this, of s1] a(2) have "R s1 s'" by simp
    moreover have "\<forall>y\<in>set as. Q y s1" using assms(3) [of x] a(1) by (auto simp: posts_def)
    moreover have "\<forall>y\<in>set bs. Q y s'" using Cons a(2) by (auto simp: posts_def)
    ultimately show "Q y s'" using a(3) \<open>y \<in> set ys\<close> assms(1) by auto
  qed
qed (simp add: posts_def ret_app)

lemmas so_intros = so_ret so_throw so_gets so_of_res so_modify so_bind so_seq so_if so_when
  so_option so_prod so_let so_catch so_for so_collect

end

section \<open>Code that raises nothing\<close>

definition safe :: "('s \<Rightarrow> bool) \<Rightarrow> ('s, 'a) pym \<Rightarrow> bool" where
  "safe P m \<longleftrightarrow> (\<forall>s. P s \<longrightarrow> (\<exists>x. fst (m s) = Inr x) \<and> P (snd (m s)))"

lemma safeD: "safe P m \<Longrightarrow> P s \<Longrightarrow> \<exists>x s'. m s = (Inr x, s') \<and> P s'"
  by (metis prod.collapse safe_def)

lemma safe_keeps: "safe P m \<Longrightarrow> keeps P m"
  by (simp add: safe_def keeps_def)

lemma safe_ret [safe_intros]: "safe P (ret x)"
  by (simp add: safe_def ret_def)

lemma safe_gets [safe_intros]: "safe P (gets f)"
  by (simp add: safe_def gets_def)

lemma safe_modify [safe_intros]: "(\<And>s. P s \<Longrightarrow> P (f s)) \<Longrightarrow> safe P (modify f)"
  by (simp add: safe_def modify_def)

lemma safe_of_res [safe_intros]: "\<exists>x. r = Inr x \<Longrightarrow> safe P (of_res r)"
  by (auto simp: safe_def of_res_def)

lemma safe_bind [safe_intros]:
  "safe P m \<Longrightarrow> (\<And>x. safe P (f x)) \<Longrightarrow> safe P (bind_pym m f)"
  by (fastforce simp: safe_def bind_app)

lemma safe_bind_gets [safe_intros]:
  "(\<And>s x. P s \<Longrightarrow> x = f s \<Longrightarrow> safe P (g x)) \<Longrightarrow> safe P (bind_pym (gets f) g)"
  unfolding safe_def by (simp add: bind_app gets_app)

lemma safe_bind_of_res [safe_intros]:
  "\<exists>x. r = Inr x \<Longrightarrow> (\<And>x. r = Inr x \<Longrightarrow> safe P (g x)) \<Longrightarrow> safe P (bind_pym (of_res r) g)"
  by (auto simp: safe_def bind_app of_res_app)

lemma safe_seq [safe_intros]: "safe P m \<Longrightarrow> safe P n \<Longrightarrow> safe P (seq_pym m n)"
  by (auto simp: seq_pym_def intro: safe_bind)

lemma safe_if [safe_intros]: "(b \<Longrightarrow> safe P m) \<Longrightarrow> (\<not> b \<Longrightarrow> safe P n) \<Longrightarrow> safe P (if b then m else n)"
  by simp

lemma safe_when [safe_intros]: "(b \<Longrightarrow> safe P m) \<Longrightarrow> safe P (when_pym b m)"
  by (auto simp: when_pym_def intro: safe_ret)

lemma safe_option [safe_intros]:
  "(x = None \<Longrightarrow> safe P m) \<Longrightarrow> (\<And>y. x = Some y \<Longrightarrow> safe P (f y)) \<Longrightarrow>
   safe P (case x of None \<Rightarrow> m | Some y \<Rightarrow> f y)"
  by (cases x) auto

lemma safe_prod [safe_intros]: "(\<And>a b. x = (a, b) \<Longrightarrow> safe P (f a b)) \<Longrightarrow> safe P (case x of (a, b) \<Rightarrow> f a b)"
  by (cases x) auto

lemma safe_let [safe_intros]: "safe P (f x) \<Longrightarrow> safe P (let y = x in f y)"
  by simp

lemma safe_for [safe_intros]: "(\<And>x. x \<in> set xs \<Longrightarrow> safe P (f x)) \<Longrightarrow> safe P (for_pym f xs)"
  by (induction xs) (auto intro: safe_intros)

lemma safe_collect [safe_intros]: "(\<And>x. x \<in> set xs \<Longrightarrow> safe P (f x)) \<Longrightarrow> safe P (collect_pym f xs)"
  by (induction xs) (auto intro!: safe_ret safe_bind)

section \<open>Lists\<close>

lemma take_append_exact [simp]: "length xs = n \<Longrightarrow> take n (xs @ ys) = xs"
  by simp

lemma drop_append_exact [simp]: "length xs = n \<Longrightarrow> drop n (xs @ ys) = ys"
  by simp

lemma length_le_sum_list:
  "(\<And>x. x \<in> set xs \<Longrightarrow> 1 \<le> f x) \<Longrightarrow> int (length xs) \<le> sum_list (map f xs)"
  by (induction xs) force+

lemma takeWhile_replicate_tail:
  assumes "x \<notin> set xs"
  shows "takeWhile (\<lambda>y. y \<noteq> x) (xs @ replicate n x) = xs"
proof -
  have "takeWhile (\<lambda>y. y \<noteq> x) (replicate n x) = []"
    by (cases n) auto
  then show ?thesis
    using assms by (subst takeWhile_append2) auto
qed

end
