(* ===== verification/Py_Float.thy ===== *)
theory Py_Float
  imports Prelude
begin

text \<open>
  Python's \<open>float\<close>: IEEE 754 binary64 with round-to-nearest, ties to even.

  A finite float is its rational value (\<open>Fin\<close>), with the negative zero, the infinities and NaN
  as separate constructors; NaN payloads, which no Python operation of the program observes, are
  not kept. Every operation computes exactly on the rationals and rounds once (\<open>rnd64\<close>).
  \<open>rmag\<close> is the rounding of a magnitude to a format with \<open>p\<close> fraction bits and least exponent
  \<open>q\<close>: binary64 is \<open>(52, -1074)\<close>, binary32 is \<open>(23, -149)\<close>. The lemmas show that rounding is
  monotone, that it fixes the values of the format, and that the bit encodings used by
  \<open>struct.pack\<close> (\<open>bits_of\<close>, \<open>of_bits\<close>) are inverse to each other.
\<close>

section \<open>Powers of two and the binary exponent of a rational\<close>

fun blen :: "int \<Rightarrow> int" where
  "blen n = (if n \<le> 0 then 0 else 1 + blen (n div 2))"

declare blen.simps [simp del]

definition pow2 :: "int \<Rightarrow> rat" where
  "pow2 e = (if 0 \<le> e then 2 ^ nat e else 1 / 2 ^ nat (- e))"

definition flog2 :: "rat \<Rightarrow> int" where
  "flog2 r = (let (n, d) = quotient_of r; l = blen n - blen d in if pow2 l \<le> r then l else l - 1)"

text \<open>Rounding to an integer, ties to even.\<close>

definition rhe :: "rat \<Rightarrow> int" where
  "rhe r = (let f = \<lfloor>r\<rfloor>; d = r - of_int f in if d < 1/2 \<or> (d = 1/2 \<and> even f) then f else f + 1)"

section \<open>Rounding a magnitude to a binary format, and its bit pattern\<close>

definition uexp :: "nat \<Rightarrow> int \<Rightarrow> rat \<Rightarrow> int" where
  "uexp p q r = max q (flog2 r - int p)"

definition rmag :: "nat \<Rightarrow> int \<Rightarrow> rat \<Rightarrow> rat" where
  "rmag p q r =
     (if r \<le> 0 then 0 else of_int (rhe (r / pow2 (uexp p q r))) * pow2 (uexp p q r))"

definition bits_of :: "nat \<Rightarrow> int \<Rightarrow> rat \<Rightarrow> int" where
  "bits_of p q m =
     (if m \<le> 0 then 0 else (uexp p q m - q) * 2 ^ p + \<lfloor>m / pow2 (uexp p q m)\<rfloor>)"

definition of_bits :: "nat \<Rightarrow> int \<Rightarrow> int \<Rightarrow> rat" where
  "of_bits p q k =
     (if k < 2 ^ p then of_int k * pow2 q
      else of_int (2 ^ p + k mod 2 ^ p) * pow2 (q + k div 2 ^ p - 1))"

section \<open>Floats and their operations\<close>

datatype pyfloat = Fin rat | NegZero | Infty bool | NaN

fun fval :: "pyfloat \<Rightarrow> rat" where
  "fval (Fin r) = r"
| "fval _ = 0"

fun ffinite :: "pyfloat \<Rightarrow> bool" where
  "ffinite (Fin r) = True"
| "ffinite NegZero = True"
| "ffinite _ = False"

fun fsign :: "pyfloat \<Rightarrow> bool" where
  "fsign (Fin r) = (r < 0)"
| "fsign NegZero = True"
| "fsign (Infty s) = s"
| "fsign NaN = False"

definition rnd64 :: "rat \<Rightarrow> pyfloat" where
  "rnd64 r =
     (let m = rmag 52 (-1074) \<bar>r\<bar>
      in if pow2 1024 \<le> m then Infty (r < 0)
         else if m = 0 then (if r < 0 then NegZero else Fin 0)
         else Fin (if r < 0 then - m else m))"

text \<open>The floats that are doubles.\<close>

fun is_f64 :: "pyfloat \<Rightarrow> bool" where
  "is_f64 (Fin r) = (rnd64 r = Fin r)"
| "is_f64 _ = True"

definition fzero :: "pyfloat \<Rightarrow> bool" where
  "fzero x \<longleftrightarrow> x = Fin 0 \<or> x = NegZero"

definition zero_of :: "bool \<Rightarrow> pyfloat" where
  "zero_of s = (if s then NegZero else Fin 0)"

fun fneg :: "pyfloat \<Rightarrow> pyfloat" where
  "fneg (Fin r) = (if r = 0 then NegZero else Fin (- r))"
| "fneg NegZero = Fin 0"
| "fneg (Infty s) = Infty (\<not> s)"
| "fneg NaN = NaN"

definition fabs :: "pyfloat \<Rightarrow> pyfloat" where
  "fabs x = (if fsign x then fneg x else x)"

fun fadd :: "pyfloat \<Rightarrow> pyfloat \<Rightarrow> pyfloat" where
  "fadd NaN y = NaN"
| "fadd x NaN = NaN"
| "fadd (Infty a) (Infty b) = (if a = b then Infty a else NaN)"
| "fadd (Infty a) y = Infty a"
| "fadd x (Infty b) = Infty b"
| "fadd NegZero NegZero = NegZero"
| "fadd x y = rnd64 (fval x + fval y)"

definition fsub :: "pyfloat \<Rightarrow> pyfloat \<Rightarrow> pyfloat" where
  "fsub x y = fadd x (fneg y)"

definition fmul :: "pyfloat \<Rightarrow> pyfloat \<Rightarrow> pyfloat" where
  "fmul x y =
     (if x = NaN \<or> y = NaN then NaN
      else let s = (fsign x \<noteq> fsign y) in
        if \<not> ffinite x \<or> \<not> ffinite y then (if fzero x \<or> fzero y then NaN else Infty s)
        else if fval x * fval y = 0 then zero_of s
        else rnd64 (fval x * fval y))"

text \<open>Python raises on division by a zero of either sign, whatever the dividend.\<close>

definition fdiv :: "pyfloat \<Rightarrow> pyfloat \<Rightarrow> pyfloat res" where
  "fdiv x y =
     (if fzero y then Inl ZeroDivisionError
      else if x = NaN \<or> y = NaN then Inr NaN
      else let s = (fsign x \<noteq> fsign y) in
        if \<not> ffinite x then Inr (if ffinite y then Infty s else NaN)
        else if \<not> ffinite y \<or> fval x = 0 then Inr (zero_of s)
        else Inr (rnd64 (fval x / fval y)))"

fun fless :: "pyfloat \<Rightarrow> pyfloat \<Rightarrow> bool" where
  "fless NaN y = False"
| "fless x NaN = False"
| "fless (Infty a) (Infty b) = (a \<and> \<not> b)"
| "fless (Infty a) y = a"
| "fless x (Infty b) = (\<not> b)"
| "fless x y = (fval x < fval y)"

fun feq :: "pyfloat \<Rightarrow> pyfloat \<Rightarrow> bool" where
  "feq NaN y = False"
| "feq x NaN = False"
| "feq (Infty a) (Infty b) = (a = b)"
| "feq (Infty a) y = False"
| "feq x (Infty b) = False"
| "feq x y = (fval x = fval y)"

definition fle :: "pyfloat \<Rightarrow> pyfloat \<Rightarrow> bool" where
  "fle x y \<longleftrightarrow> fless x y \<or> feq x y"

text \<open>Python's \<open>max(a, b)\<close> keeps the first argument unless the second is greater.\<close>

definition fmax :: "pyfloat \<Rightarrow> pyfloat \<Rightarrow> pyfloat" where
  "fmax a b = (if fless a b then b else a)"

definition float_of_int :: "int \<Rightarrow> pyfloat res" where
  "float_of_int i = (case rnd64 (of_int i) of Infty _ \<Rightarrow> Inl OverflowError | x \<Rightarrow> Inr x)"

text \<open>\<open>int(x)\<close> truncates towards zero.\<close>

fun int_of_float :: "pyfloat \<Rightarrow> int res" where
  "int_of_float (Fin r) = Inr (if r < 0 then - \<lfloor>- r\<rfloor> else \<lfloor>r\<rfloor>)"
| "int_of_float NegZero = Inr 0"
| "int_of_float (Infty s) = Inl OverflowError"
| "int_of_float NaN = Inl ValueError"

text \<open>\<open>round(x, n)\<close> with \<open>n \<ge> 0\<close>: the exact decimal rounding, then the nearest double.\<close>

fun round_nd :: "nat \<Rightarrow> pyfloat \<Rightarrow> pyfloat" where
  "round_nd n (Fin r) =
     (let y = rnd64 (of_int (rhe (r * 10 ^ n)) / 10 ^ n)
      in if fzero y then zero_of (r < 0) else y)"
| "round_nd n x = x"

text \<open>
  \<open>sum\<close> of a list of floats: since version 3.12 the language carries a compensation for the rounding
  errors along.
\<close>

fun cs_add :: "pyfloat \<times> pyfloat \<Rightarrow> pyfloat \<Rightarrow> pyfloat \<times> pyfloat" where
  "cs_add (hi, lo) x =
     (let t = fadd hi x;
          c = (if fle (fabs x) (fabs hi) then fadd (fsub hi t) x else fadd (fsub x t) hi)
      in (t, fadd lo c))"

definition float_sum :: "pyfloat list \<Rightarrow> pyfloat" where
  "float_sum xs =
     (case xs of
        [] \<Rightarrow> Fin 0
      | x # ys \<Rightarrow> (case foldl cs_add (fadd (Fin 0) x, Fin 0) ys of
          (hi, lo) \<Rightarrow> if \<not> fzero lo \<and> ffinite lo then fadd hi lo else hi))"

text \<open>
  \<open>math.sqrt\<close>: the integer square root of the value scaled by \<open>4 ^ t\<close> has at least 60 bits, more
  than a double has, so when the root is not exact half a unit above its integer part rounds the
  way the exact root does.
\<close>

fun isqrt :: "int \<Rightarrow> int" where
  "isqrt n =
     (if n \<le> 0 then 0
      else let s = 2 * isqrt (n div 4) in if (s + 1) * (s + 1) \<le> n then s + 1 else s)"

declare isqrt.simps [simp del]

fun fsqrt :: "pyfloat \<Rightarrow> pyfloat res" where
  "fsqrt (Fin r) =
     (if r < 0 then Inl ValueError
      else if r = 0 then Inr (Fin 0)
      else let t = 60 - flog2 r div 2; x = r * pow2 (2 * t); s = isqrt \<lfloor>x\<rfloor>
           in Inr (rnd64 ((of_int s + (if of_int (s * s) = x then 0 else 1 / 2)) / pow2 t)))"
| "fsqrt NegZero = Inr NegZero"
| "fsqrt (Infty s) = (if s then Inl ValueError else Inr (Infty False))"
| "fsqrt NaN = Inr NaN"

section \<open>The bit patterns of \<open>struct\<close>'s f and d\<close>

definition sign_bit :: "nat \<Rightarrow> bool \<Rightarrow> int" where
  "sign_bit n s = (if s then 2 ^ n else 0)"

text \<open>\<open>struct.pack\<close> of a float as f: a finite value that rounds to infinity raises.\<close>

fun pack_f32 :: "pyfloat \<Rightarrow> int res" where
  "pack_f32 (Fin r) =
     (let m = rmag 23 (-149) \<bar>r\<bar>
      in if pow2 128 \<le> m then Inl OverflowError
         else Inr (sign_bit 31 (r < 0) + bits_of 23 (-149) m))"
| "pack_f32 NegZero = Inr (sign_bit 31 True)"
| "pack_f32 (Infty s) = Inr (sign_bit 31 s + 0x7F800000)"
| "pack_f32 NaN = Inr 0x7FC00000"

definition unpack_f32 :: "int \<Rightarrow> pyfloat" where
  "unpack_f32 w =
     (let s = (2 ^ 31 \<le> w); k = w mod 2 ^ 31
      in if 0x7F800000 < k then NaN
         else if k = 0x7F800000 then Infty s
         else if k = 0 then zero_of s
         else Fin (if s then - of_bits 23 (-149) k else of_bits 23 (-149) k))"

fun pack_f64 :: "pyfloat \<Rightarrow> int" where
  "pack_f64 (Fin r) = sign_bit 63 (r < 0) + bits_of 52 (-1074) \<bar>r\<bar>"
| "pack_f64 NegZero = sign_bit 63 True"
| "pack_f64 (Infty s) = sign_bit 63 s + 0x7FF0000000000000"
| "pack_f64 NaN = 0x7FF8000000000000"

definition unpack_f64 :: "int \<Rightarrow> pyfloat" where
  "unpack_f64 w =
     (let s = (2 ^ 63 \<le> w); k = w mod 2 ^ 63
      in if 0x7FF0000000000000 < k then NaN
         else if k = 0x7FF0000000000000 then Infty s
         else if k = 0 then zero_of s
         else Fin (if s then - of_bits 52 (-1074) k else of_bits 52 (-1074) k))"

section \<open>Powers of two\<close>

lemma pow2_powi: "pow2 e = 2 powi e"
  unfolding pow2_def power_int_def by (simp add: inverse_eq_divide power_one_over)

lemma pow2_pos [simp]: "0 < pow2 e"
  by (simp add: pow2_def)

lemma pow2_nonzero [simp]: "pow2 e \<noteq> 0"
  using pow2_pos [of e] by linarith

lemma pow2_ge0 [simp]: "0 \<le> pow2 e"
  using pow2_pos [of e] by linarith

lemma pow2_not_le0 [simp]: "\<not> pow2 e \<le> 0"
  by (simp add: not_le)

lemma pow2_0 [simp]: "pow2 0 = 1"
  by (simp add: pow2_def)

lemma pow2_add: "pow2 (a + b) = pow2 a * pow2 b"
  by (simp add: pow2_powi power_int_add)

lemma pow2_1 [simp]: "pow2 1 = 2"
  by (simp add: pow2_def)

lemma pow2_Suc: "pow2 (a + 1) = 2 * pow2 a"
  by (simp only: pow2_add pow2_1 mult.commute)

lemma pow2_diff: "pow2 (a - b) = pow2 a / pow2 b"
  by (simp add: pow2_powi power_int_diff)

lemma pow2_nat: "pow2 (int n) = 2 ^ n"
  by (simp add: pow2_def)

lemma pow2_less_iff [simp]: "pow2 a < pow2 b \<longleftrightarrow> a < b"
proof
  assume *: "pow2 a < pow2 b"
  show "a < b"
  proof (rule ccontr)
    assume "\<not> a < b"
    then have "pow2 b \<le> pow2 a"
      unfolding pow2_powi by (intro power_int_increasing) auto
    with * show False by simp
  qed
qed (simp add: pow2_powi power_int_strict_increasing)

lemma pow2_le_iff [simp]: "pow2 a \<le> pow2 b \<longleftrightarrow> a \<le> b"
  using pow2_less_iff [of b a] by linarith

lemma pow2_int: "0 \<le> e \<Longrightarrow> pow2 e = of_int (2 ^ nat e)"
  by (simp add: pow2_def)

lemma blen_pos: "0 < n \<Longrightarrow> 0 < blen n"
proof (induction n rule: blen.induct)
  case (1 n)
  show ?case
  proof (cases "n = 1")
    case True
    then show ?thesis by (simp add: blen.simps)
  next
    case False
    with 1 have "0 < blen (n div 2)" by auto
    with 1 show ?thesis by (subst blen.simps) simp
  qed
qed

lemma blen_bounds: "0 < n \<Longrightarrow> pow2 (blen n - 1) \<le> of_int n \<and> of_int n < pow2 (blen n)"
proof (induction n rule: blen.induct)
  case (1 n)
  show ?case
  proof (cases "n = 1")
    case True
    then show ?thesis by (simp add: blen.simps pow2_def)
  next
    case False
    let ?h = "n div 2"
    have h: "0 < ?h" using False 1 by auto
    have IH: "pow2 (blen ?h - 1) \<le> of_int ?h" "of_int ?h < pow2 (blen ?h)"
      using 1 h by auto
    have b: "blen n = blen ?h + 1" using 1 by (subst blen.simps) simp
    have ne: "0 < blen ?h" using h by (rule blen_pos)
    have "2 * ?h \<le> n" "n < 2 * (?h + 1)" by presburger+
    then have lo: "2 * (of_int ?h :: rat) \<le> of_int n" and hi: "(of_int n :: rat) < 2 * of_int (?h + 1)"
      by linarith+
    have "pow2 (blen ?h) = 2 * pow2 (blen ?h - 1)" using pow2_Suc [of "blen ?h - 1"] by simp
    then have 1: "pow2 (blen n - 1) \<le> of_int n" using IH(1) lo b by simp
    have "of_int ?h < (of_int (2 ^ nat (blen ?h)) :: rat)" using IH(2) ne by (simp add: pow2_int)
    then have "?h + 1 \<le> 2 ^ nat (blen ?h)" by (simp only: of_int_less_iff)
    then have "(of_int (?h + 1) :: rat) \<le> of_int (2 ^ nat (blen ?h))" by (simp only: of_int_le_iff)
    then have "(of_int (?h + 1) :: rat) \<le> pow2 (blen ?h)" using ne by (simp add: pow2_int)
    then have "of_int n < pow2 (blen n)" using hi b pow2_Suc [of "blen ?h"] by simp
    with 1 show ?thesis by simp
  qed
qed

lemma flog2_bounds:
  assumes "0 < r"
  shows "pow2 (flog2 r) \<le> r" "r < pow2 (flog2 r + 1)"
proof -
  obtain n d where nd: "quotient_of r = (n, d)" by fastforce
  then have r: "r = of_int n / of_int d" and d: "0 < d"
    by (auto dest: quotient_of_div quotient_of_denom_pos)
  with assms have n: "0 < n" by (simp add: zero_less_divide_iff)
  let ?l = "blen n - blen d"
  note bn = blen_bounds [OF n] and bd = blen_bounds [OF d]
  have d': "(0::rat) < of_int d" using d by simp
  have "pow2 (?l - 1) * of_int d \<le> pow2 (?l - 1) * pow2 (blen d)"
    using bd by (intro mult_left_mono) auto
  also have "\<dots> = pow2 (blen n - 1)" by (simp flip: pow2_add)
  also have "\<dots> \<le> of_int n" using bn by simp
  finally have lo: "pow2 (?l - 1) \<le> r" using d' by (simp add: r pos_le_divide_eq)
  have "of_int n < pow2 (?l + 1) * pow2 (blen d - 1)" using bn by (simp flip: pow2_add)
  also have "\<dots> \<le> pow2 (?l + 1) * of_int d" using bd by (intro mult_left_mono) auto
  finally have hi: "r < pow2 (?l + 1)" using d' by (simp add: r pos_divide_less_eq)
  have f: "flog2 r = (if pow2 ?l \<le> r then ?l else ?l - 1)" by (simp add: flog2_def nd)
  show "pow2 (flog2 r) \<le> r" using f lo by auto
  show "r < pow2 (flog2 r + 1)" using f hi by auto
qed

lemma flog2_unique:
  assumes "pow2 l \<le> r" "r < pow2 (l + 1)"
  shows "flog2 r = l"
proof -
  have "0 < r" using assms(1) pow2_pos [of l] by linarith
  note b = flog2_bounds [OF this]
  have "pow2 l < pow2 (flog2 r + 1)" "pow2 (flog2 r) < pow2 (l + 1)"
    using assms b by linarith+
  then show ?thesis by simp
qed

lemma flog2_mono: "0 < r \<Longrightarrow> r \<le> s \<Longrightarrow> flog2 r \<le> flog2 s"
proof -
  assume *: "0 < r" "r \<le> s"
  then have "pow2 (flog2 r) < pow2 (flog2 s + 1)"
    using flog2_bounds [of r] flog2_bounds [of s] by linarith
  then show ?thesis by simp
qed

lemma flog2_pow2 [simp]: "flog2 (pow2 e) = e"
  by (rule flog2_unique) auto

section \<open>Rounding to an integer\<close>

lemma rhe_of_int [simp]: "rhe (of_int i) = i"
  by (simp add: rhe_def)

lemma rhe_ge_floor: "\<lfloor>r\<rfloor> \<le> rhe r"
  by (simp add: rhe_def Let_def)

lemma rhe_le_floor1: "rhe r \<le> \<lfloor>r\<rfloor> + 1"
  by (simp add: rhe_def Let_def)

lemma rhe_mono:
  assumes "r \<le> s"
  shows "rhe r \<le> rhe s"
proof (cases "\<lfloor>r\<rfloor> = \<lfloor>s\<rfloor>")
  case True
  with assms show ?thesis by (auto simp: rhe_def Let_def)
next
  case False
  with floor_mono [OF assms] have "\<lfloor>r\<rfloor> + 1 \<le> \<lfloor>s\<rfloor>" by simp
  with rhe_le_floor1 [of r] rhe_ge_floor [of s] show ?thesis by linarith
qed

lemma rhe_le_int: "r \<le> of_int i \<Longrightarrow> rhe r \<le> i"
  using rhe_mono [of r "of_int i"] by simp

lemma rhe_ge_int: "of_int i \<le> r \<Longrightarrow> i \<le> rhe r"
  using rhe_mono [of "of_int i" r] by simp

lemma rhe_error: "\<bar>of_int (rhe r) - r\<bar> \<le> 1 / 2"
  by (auto simp: rhe_def Let_def abs_if) linarith+

section \<open>The values of a format\<close>

definition fmt :: "nat \<Rightarrow> int \<Rightarrow> rat \<Rightarrow> bool" where
  "fmt p q r \<longleftrightarrow> (\<exists>m e. r = of_int m * pow2 e \<and> q \<le> e \<and> 0 \<le> m \<and> m < 2 ^ (p + 1))"

lemma fmtI: "r = of_int m * pow2 e \<Longrightarrow> q \<le> e \<Longrightarrow> 0 \<le> m \<Longrightarrow> m < 2 ^ (p + 1) \<Longrightarrow> fmt p q r"
  by (auto simp: fmt_def)

lemma fmt_nonneg: "fmt p q r \<Longrightarrow> 0 \<le> r"
  by (auto simp: fmt_def)

lemma fmt_0 [simp]: "fmt p q 0"
  by (rule fmtI [of _ 0 q]) auto

lemma fmt_weaken: "fmt p q r \<Longrightarrow> p \<le> p' \<Longrightarrow> q' \<le> q \<Longrightarrow> fmt p' q' r"
proof -
  assume "fmt p q r" and le: "p \<le> p'" "q' \<le> q"
  then obtain m e where "r = of_int m * pow2 e" "q \<le> e" "0 \<le> m" "m < 2 ^ (p + 1)"
    by (auto simp: fmt_def)
  moreover have "(2::int) ^ (p + 1) \<le> 2 ^ (p' + 1)" using le by (intro power_increasing) auto
  ultimately show ?thesis using le by (intro fmtI [of r m e]) linarith+
qed

lemma fmt_pow2: "q \<le> e \<Longrightarrow> fmt p q (pow2 e)"
proof -
  assume "q \<le> e"
  moreover have "(1::int) < 2 ^ (p + 1)" by (rule one_less_power) auto
  ultimately show ?thesis by (intro fmtI [of _ 1 e]) simp_all
qed

lemma of_int_pow2: "a \<le> b \<Longrightarrow> pow2 b / pow2 a = of_int (2 ^ nat (b - a))"
  by (simp add: pow2_int flip: pow2_diff)

lemma quot_lt: "0 < r \<Longrightarrow> r / pow2 (uexp p q r) < of_int (2 ^ (p + 1))"
proof -
  assume r: "0 < r"
  let ?e = "uexp p q r"
  have "r < pow2 (flog2 r + 1)" using r by (rule flog2_bounds)
  also have "\<dots> \<le> pow2 (?e + int (p + 1))" by (auto simp: uexp_def)
  also have "\<dots> = pow2 ?e * of_int (2 ^ (p + 1))" using pow2_nat [of "p + 1"] by (simp only: pow2_add) simp
  finally show ?thesis by (simp add: pos_divide_less_eq mult.commute)
qed

lemma fmt_uexp_le:
  assumes "0 < r" "r = of_int m * pow2 e" "q \<le> e" "m < 2 ^ (p + 1)"
  shows "uexp p q r \<le> e"
proof -
  have "pow2 (flog2 r) \<le> r" using assms by (intro flog2_bounds)
  also have "r < of_int (2 ^ (p + 1)) * pow2 e"
    unfolding assms(2) using assms(4) by (intro mult_strict_right_mono) (simp_all only: of_int_less_iff pow2_pos)
  also have "\<dots> = pow2 (int (p + 1) + e)" using pow2_nat [of "p + 1"] by (simp add: pow2_add)
  finally have "flog2 r \<le> int p + e" by simp
  then show ?thesis using assms(3) by (simp add: uexp_def)
qed

text \<open>A value of the format is an integral number of its own units.\<close>

lemma fmt_units:
  assumes "0 < r" "fmt p q r"
  obtains M where "r / pow2 (uexp p q r) = of_int M" "0 < M" "M < 2 ^ (p + 1)"
proof -
  from assms(2) obtain m e where m: "r = of_int m * pow2 e" "q \<le> e" "m < 2 ^ (p + 1)"
    by (auto simp: fmt_def)
  let ?u = "uexp p q r"
  have le: "?u \<le> e" using assms(1) m by (rule fmt_uexp_le)
  have eq: "r / pow2 ?u = of_int (m * 2 ^ nat (e - ?u))"
    using of_int_pow2 [OF le] m(1) by (metis of_int_mult times_divide_eq_right)
  have "0 < r / pow2 ?u" using assms(1) by simp
  moreover have "r / pow2 ?u < of_int (2 ^ (p + 1))" using assms(1) by (rule quot_lt)
  ultimately have "0 < m * 2 ^ nat (e - ?u)" "m * 2 ^ nat (e - ?u) < 2 ^ (p + 1)"
    unfolding eq by (simp_all only: of_int_less_iff of_int_0_less_iff)
  with eq that show ?thesis by blast
qed

lemma rmag_fmt_id: "fmt p q r \<Longrightarrow> rmag p q r = r"
proof (cases "0 < r")
  case True
  assume "fmt p q r"
  with True obtain M where M: "r / pow2 (uexp p q r) = of_int M" by (rule fmt_units)
  have "rmag p q r = of_int M * pow2 (uexp p q r)" using True M by (simp add: rmag_def)
  then show ?thesis unfolding M [symmetric] by simp
next
  case False
  assume "fmt p q r"
  with False have "r = 0" using fmt_nonneg [of p q r] by linarith
  then show ?thesis by (simp add: rmag_def)
qed

lemma rmag_in_fmt: "fmt p q (rmag p q r)"
proof (cases "0 < r")
  case True
  let ?e = "uexp p q r"
  let ?M = "rhe (r / pow2 ?e)"
  have e: "q \<le> ?e" by (simp add: uexp_def)
  have lo: "0 \<le> ?M" using True by (intro rhe_ge_int) simp
  have hi: "?M \<le> 2 ^ (p + 1)" using quot_lt [OF True, of p q] by (intro rhe_le_int) (rule less_imp_le)
  have eq: "rmag p q r = of_int ?M * pow2 ?e" using True by (simp add: rmag_def)
  show ?thesis
  proof (cases "?M = 2 ^ (p + 1)")
    case True
    have "rmag p q r = of_int (2 ^ p) * pow2 (?e + 1)"
      unfolding eq True by (simp add: pow2_Suc)
    then show ?thesis using e by (intro fmtI [of _ "2 ^ p" "?e + 1"]) auto
  next
    case False
    with hi have "?M < 2 ^ (p + 1)" by simp
    with eq e lo show ?thesis by (intro fmtI [of _ ?M ?e])
  qed
next
  case False
  then show ?thesis by (simp add: rmag_def)
qed

lemma rmag_nonneg [simp]: "0 \<le> rmag p q r"
  using rmag_in_fmt by (rule fmt_nonneg)

lemma rmag_idem [simp]: "rmag p q (rmag p q r) = rmag p q r"
  using rmag_in_fmt by (rule rmag_fmt_id)

lemma rmag_le_pow2:
  assumes "0 < r" "r \<le> pow2 k" "uexp p q r \<le> k"
  shows "rmag p q r \<le> pow2 k"
proof -
  let ?e = "uexp p q r"
  have "r / pow2 ?e \<le> pow2 k / pow2 ?e" using assms(2) by (intro divide_right_mono) auto
  also have "\<dots> = of_int (2 ^ nat (k - ?e))" using assms(3) by (rule of_int_pow2)
  finally have "rhe (r / pow2 ?e) \<le> 2 ^ nat (k - ?e)" by (rule rhe_le_int)
  then have "of_int (rhe (r / pow2 ?e)) * pow2 ?e \<le> of_int (2 ^ nat (k - ?e)) * pow2 ?e"
    by (intro mult_right_mono) (simp_all only: of_int_le_iff pow2_ge0)
  also have "\<dots> = pow2 k" using of_int_pow2 [OF assms(3)] by (simp add: field_simps)
  finally show ?thesis using assms(1) by (simp add: rmag_def)
qed

lemma rmag_ge_pow2:
  assumes "pow2 k \<le> r" "uexp p q r \<le> k"
  shows "pow2 k \<le> rmag p q r"
proof -
  let ?e = "uexp p q r"
  have r: "0 < r" using assms(1) pow2_pos [of k] by linarith
  have "of_int (2 ^ nat (k - ?e)) = pow2 k / pow2 ?e" using of_int_pow2 [OF assms(2)] by simp
  also have "\<dots> \<le> r / pow2 ?e" using assms(1) by (intro divide_right_mono) auto
  finally have "2 ^ nat (k - ?e) \<le> rhe (r / pow2 ?e)" by (rule rhe_ge_int)
  then have "of_int (2 ^ nat (k - ?e)) * pow2 ?e \<le> of_int (rhe (r / pow2 ?e)) * pow2 ?e"
    by (intro mult_right_mono) (simp_all only: of_int_le_iff pow2_ge0)
  moreover have "of_int (2 ^ nat (k - ?e)) * pow2 ?e = pow2 k"
    using of_int_pow2 [OF assms(2)] by (simp add: field_simps)
  ultimately have "pow2 k \<le> of_int (rhe (r / pow2 ?e)) * pow2 ?e" by linarith
  then show ?thesis using r by (simp add: rmag_def)
qed

lemma rmag_mono:
  assumes "r \<le> s"
  shows "rmag p q r \<le> rmag p q s"
proof (cases "0 < r")
  case False
  then show ?thesis by (simp add: rmag_def [of p q r])
next
  case True
  with assms have s: "0 < s" by simp
  have l: "flog2 r \<le> flog2 s" using True assms by (rule flog2_mono)
  show ?thesis
  proof (cases "uexp p q r = uexp p q s")
    case True
    let ?e = "uexp p q s"
    have "rhe (r / pow2 ?e) \<le> rhe (s / pow2 ?e)"
      using assms by (intro rhe_mono divide_right_mono) auto
    then show ?thesis using True \<open>0 < r\<close> s by (simp add: rmag_def mult_right_mono)
  next
    case False
    with l have ls: "uexp p q s = flog2 s - int p" "uexp p q r < uexp p q s" "flog2 r < flog2 s"
      by (auto simp: uexp_def)
    have "r < pow2 (flog2 r + 1)" using \<open>0 < r\<close> by (rule flog2_bounds)
    also have "\<dots> \<le> pow2 (flog2 s)" using ls by simp
    finally have "rmag p q r \<le> pow2 (flog2 s)" using \<open>0 < r\<close> ls by (intro rmag_le_pow2) auto
    also have "\<dots> \<le> rmag p q s" using flog2_bounds [OF s] ls by (intro rmag_ge_pow2) auto
    finally show ?thesis .
  qed
qed

section \<open>Bit patterns of magnitudes\<close>

lemma bits_of_units:
  assumes "0 < m" "m / pow2 (uexp p q m) = of_int M"
  shows "bits_of p q m = (uexp p q m - q) * 2 ^ p + M"
  using assms by (simp add: bits_of_def)

lemma units_ge:
  assumes "0 < m" "m / pow2 (uexp p q m) = of_int M" "uexp p q m \<noteq> q"
  shows "2 ^ p \<le> M"
proof -
  let ?e = "uexp p q m"
  have e: "?e = flog2 m - int p" using assms(3) by (auto simp: uexp_def)
  have "pow2 (flog2 m) / pow2 ?e \<le> m / pow2 ?e"
    using flog2_bounds(1) [OF assms(1)] by (intro divide_right_mono) auto
  moreover have "pow2 (flog2 m) / pow2 ?e = of_int (2 ^ p)"
    using of_int_pow2 [of ?e "flog2 m"] e by simp
  ultimately show ?thesis unfolding assms(2) by (simp only: of_int_le_iff)
qed

lemma of_bits_bits_of:
  assumes "fmt p q m"
  shows "of_bits p q (bits_of p q m) = m"
proof (cases "0 < m")
  case False
  with fmt_nonneg [OF assms] have "m = 0" by simp
  then show ?thesis by (simp add: bits_of_def of_bits_def)
next
  case True
  let ?e = "uexp p q m"
  from True assms obtain M where M: "m / pow2 ?e = of_int M" "0 < M" "M < 2 ^ (p + 1)"
    by (rule fmt_units)
  have m: "m = of_int M * pow2 ?e" using M(1) by (simp add: field_simps)
  have b: "bits_of p q m = (?e - q) * 2 ^ p + M" using True M(1) by (rule bits_of_units)
  have e: "q \<le> ?e" by (simp add: uexp_def)
  show ?thesis
  proof (cases "M < 2 ^ p")
    case True
    with units_ge [OF \<open>0 < m\<close> M(1)] have "?e = q" by auto
    with True b m show ?thesis by (simp add: of_bits_def)
  next
    case False
    define f where "f = M - 2 ^ p"
    have f: "M = 2 ^ p + f" "0 \<le> f" "f < 2 ^ p" using False M(3) by (auto simp: f_def)
    have b': "bits_of p q m = (?e - q + 1) * 2 ^ p + f" using b f(1) by (simp add: algebra_simps)
    have "bits_of p q m div 2 ^ p = ?e - q + 1" "bits_of p q m mod 2 ^ p = f"
      unfolding b' using f(2,3) by simp_all
    moreover have "2 ^ p \<le> bits_of p q m"
    proof -
      have "1 * 2 ^ p \<le> (?e - q + 1) * (2 ^ p :: int)" using e by (intro mult_right_mono) auto
      then show ?thesis unfolding b' using f(2) by linarith
    qed
    ultimately show ?thesis using m f(1) by (simp add: of_bits_def)
  qed
qed

lemma bits_of_nonneg [simp]: "0 \<le> bits_of p q m"
proof (cases "0 < m")
  case True
  have "0 \<le> \<lfloor>m / pow2 (uexp p q m)\<rfloor>" using True by simp
  moreover have "q \<le> uexp p q m" by (simp add: uexp_def)
  ultimately show ?thesis using True by (simp add: bits_of_def)
qed (simp add: bits_of_def)

lemma bits_of_less:
  assumes "m < pow2 L" "q \<le> L - int p - 1"
  shows "bits_of p q m < (L - int p - q + 1) * 2 ^ p"
proof (cases "0 < m")
  case False
  then show ?thesis using assms by (simp add: bits_of_def)
next
  case True
  let ?e = "uexp p q m"
  have "pow2 (flog2 m) < pow2 L" using flog2_bounds(1) [OF True] assms(1) by linarith
  then have "flog2 m \<le> L - 1" by simp
  then have "?e \<le> L - 1 - int p" using assms(2) by (simp add: uexp_def)
  then have "(?e - q) * 2 ^ p \<le> (L - 1 - int p - q) * 2 ^ p" by (intro mult_right_mono) auto
  moreover have "m / pow2 ?e < of_int (2 ^ (p + 1))" using True by (rule quot_lt)
  then have "\<lfloor>m / pow2 ?e\<rfloor> < 2 ^ (p + 1)" by (simp only: floor_less_iff)
  ultimately show ?thesis using True by (simp add: bits_of_def algebra_simps)
qed

lemma of_bits_fmt:
  assumes "0 \<le> k"
  shows "fmt p q (of_bits p q k)"
proof (cases "k < 2 ^ p")
  case True
  then show ?thesis using assms by (intro fmtI [of _ k q]) (auto simp: of_bits_def)
next
  case False
  then have "1 \<le> k div 2 ^ p" by (simp add: pos_imp_zdiv_pos_iff int_one_le_iff_zero_less)
  moreover have "0 \<le> k mod 2 ^ p" "k mod 2 ^ p < 2 ^ p" by simp_all
  ultimately show ?thesis using False
    by (intro fmtI [of _ "2 ^ p + k mod 2 ^ p" "q + k div 2 ^ p - 1"]) (auto simp: of_bits_def)
qed

lemma bits_of_of_bits:
  assumes "0 \<le> k"
  shows "bits_of p q (of_bits p q k) = k"
proof (cases "k < 2 ^ p")
  case True
  show ?thesis
  proof (cases "k = 0")
    case True
    then show ?thesis by (simp add: of_bits_def bits_of_def)
  next
    case False
    let ?m = "of_int k * pow2 q"
    have m: "of_bits p q k = ?m" using True by (simp add: of_bits_def)
    have pos: "0 < ?m" using False assms by simp
    have "k < 2 ^ (p + 1)" using True assms by simp
    then have "uexp p q ?m \<le> q" using pos by (intro fmt_uexp_le [of _ k q]) auto
    then have u: "uexp p q ?m = q" by (simp add: uexp_def)
    show ?thesis unfolding m using pos bits_of_units [of ?m p q k] u by simp
  qed
next
  case False
  define E where "E = k div 2 ^ p"
  define f where "f = k mod 2 ^ p"
  have f: "0 \<le> f" "f < 2 ^ p" "k = E * 2 ^ p + f"
    by (simp_all only: E_def f_def div_mult_mod_eq pos_mod_sign pos_mod_bound zero_less_power zero_less_numeral)
  have E: "1 \<le> E" using False by (simp add: E_def pos_imp_zdiv_pos_iff int_one_le_iff_zero_less)
  let ?e = "q + E - 1"
  let ?m = "of_int (2 ^ p + f) * pow2 ?e"
  have m: "of_bits p q k = ?m" using False by (simp add: of_bits_def E_def f_def)
  have pp: "pow2 (int p + ?e) = of_int (2 ^ p) * pow2 ?e" "pow2 (int p + ?e + 1) = of_int (2 ^ p + 2 ^ p) * pow2 ?e"
    using pow2_nat [of p] by (simp_all only: pow2_add pow2_Suc) (simp_all add: algebra_simps)
  have "of_int (2 ^ p) * pow2 ?e \<le> ?m"
    using f(1) by (intro mult_right_mono) (simp_all only: of_int_le_iff pow2_ge0)
  moreover have "?m < of_int (2 ^ p + 2 ^ p) * pow2 ?e"
    using f(2) by (intro mult_strict_right_mono) (simp_all only: of_int_less_iff pow2_pos)
  ultimately have l: "flog2 ?m = int p + ?e" by (intro flog2_unique) (simp_all only: pp)
  have u: "uexp p q ?m = ?e" unfolding uexp_def l using E by simp
  have "0 < 2 ^ p + f" using f(1) by (simp add: add_pos_nonneg)
  then have pos: "0 < ?m" by (intro mult_pos_pos) (simp_all only: of_int_0_less_iff pow2_pos)
  have "bits_of p q ?m = (?e - q) * 2 ^ p + (2 ^ p + f)"
    using bits_of_units [OF pos, of p q "2 ^ p + f"] u by simp
  also have "\<dots> = E * 2 ^ p + f" by (simp add: algebra_simps)
  finally show ?thesis unfolding m using f(3) by simp
qed

section \<open>Rounding to a double\<close>

lemma rnd64_exact: "fmt 52 (-1074) \<bar>r\<bar> \<Longrightarrow> \<bar>r\<bar> < pow2 1024 \<Longrightarrow> rnd64 r = Fin r"
  by (auto simp: rnd64_def rmag_fmt_id Let_def)

lemma is_f64_Fin: "is_f64 (Fin r) \<longleftrightarrow> fmt 52 (-1074) \<bar>r\<bar> \<and> \<bar>r\<bar> < pow2 1024"
proof
  assume *: "is_f64 (Fin r)"
  then have "\<bar>r\<bar> = rmag 52 (-1074) \<bar>r\<bar>" "\<bar>r\<bar> < pow2 1024"
    by (auto simp: rnd64_def Let_def rmag_def [of _ _ 0] split: if_splits)
  then show "fmt 52 (-1074) \<bar>r\<bar> \<and> \<bar>r\<bar> < pow2 1024" by (metis rmag_in_fmt)
qed (simp add: rnd64_exact)

lemma is_f64_rnd64 [simp]: "is_f64 (rnd64 r)"
proof -
  let ?m = "rmag 52 (-1074) \<bar>r\<bar>"
  have "is_f64 (Fin x)" if "\<bar>x\<bar> = ?m" "?m < pow2 1024" for x
    using that by (simp only: is_f64_Fin rmag_in_fmt simp_thms)
  then show ?thesis by (auto simp: rnd64_def Let_def simp del: is_f64.simps(1))
qed

lemma f64_int: "\<bar>i\<bar> < 2 ^ 53 \<Longrightarrow> is_f64 (Fin (of_int i))"
proof -
  assume i: "\<bar>i\<bar> < 2 ^ 53"
  then have "fmt 52 (-1074) \<bar>of_int i\<bar>"
    by (intro fmtI [of _ "\<bar>i\<bar>" 0]) (auto simp: of_int_abs)
  moreover have "\<bar>of_int i\<bar> < (of_int (2 ^ 53) :: rat)"
    using i by (simp only: of_int_less_iff flip: of_int_abs)
  then have "\<bar>of_int i\<bar> < pow2 53" using pow2_int [of 53] by simp
  then have "\<bar>of_int i\<bar> < pow2 1024" using pow2_less_iff [of 53 1024] by linarith
  ultimately show ?thesis by (simp only: is_f64_Fin simp_thms)
qed

lemma rnd64_int [simp]: "\<bar>i\<bar> < 2 ^ 53 \<Longrightarrow> rnd64 (of_int i) = Fin (of_int i)"
  using f64_int [of i] by simp

lemma rnd64_0 [simp]: "rnd64 0 = Fin 0" and rnd64_1 [simp]: "rnd64 1 = Fin 1"
  and rnd64_numeral_small: "rnd64 100 = Fin 100"
  using rnd64_int [of 0] rnd64_int [of 1] rnd64_int [of 100] by simp_all

text \<open>Rounding never crosses a double: the workhorse for bounds.\<close>

lemma rnd64_between:
  assumes a: "is_f64 (Fin a)" "0 \<le> a" and b: "is_f64 (Fin b)" and r: "a \<le> r" "r \<le> b"
  shows "\<exists>x. rnd64 r = Fin x \<and> a \<le> x \<and> x \<le> b"
proof -
  let ?m = "rmag 52 (-1074) r"
  have fa: "rmag 52 (-1074) a = a" and fb: "rmag 52 (-1074) b = b" "b < pow2 1024"
    using a b r by (auto simp: is_f64_Fin rmag_fmt_id simp del: is_f64.simps)
  have "a \<le> ?m" "?m \<le> b"
    using rmag_mono [OF r(1), of 52 "-1074"] rmag_mono [OF r(2), of 52 "-1074"] fa fb by auto
  then show ?thesis using a(2) r fb(2) by (auto simp: rnd64_def Let_def)
qed

lemma rnd64_nonneg: "0 \<le> r \<Longrightarrow> rnd64 r = Fin x \<Longrightarrow> 0 \<le> x"
  by (auto simp: rnd64_def Let_def split: if_splits)

lemma rnd64_cases:
  assumes "0 \<le> r"
  obtains x where "rnd64 r = Fin x" "0 \<le> x" | "rnd64 r = Infty False"
proof (cases "pow2 1024 \<le> rmag 52 (-1074) r")
  case True
  with assms that(2) show ?thesis by (simp add: rnd64_def)
next
  case False
  with assms that(1) [of "rmag 52 (-1074) r"] show ?thesis by (auto simp: rnd64_def Let_def)
qed

section \<open>Closure: operations on doubles give doubles\<close>

named_theorems f64_intros \<open>results of float operations are doubles\<close>

lemma is_f64_neg [f64_intros]: "is_f64 x \<Longrightarrow> is_f64 (fneg x)"
  by (cases x) (auto simp: is_f64_Fin simp del: is_f64.simps(1))

lemma is_f64_add [f64_intros]: "is_f64 (fadd x y)"
  by (cases "(x, y)" rule: fadd.cases) auto

lemma is_f64_sub [f64_intros]: "is_f64 (fsub x y)"
  by (simp add: fsub_def is_f64_add)

lemma is_f64_zero_of [f64_intros, simp]: "is_f64 (zero_of s)"
  by (simp add: zero_of_def)

lemma is_f64_mul [f64_intros]: "is_f64 (fmul x y)"
  by (simp add: fmul_def Let_def)

lemma is_f64_div [f64_intros]: "fdiv x y = Inr z \<Longrightarrow> is_f64 z"
  by (auto simp: fdiv_def Let_def split: if_splits)

lemma is_f64_abs [f64_intros]: "is_f64 x \<Longrightarrow> is_f64 (fabs x)"
  by (simp add: fabs_def is_f64_neg)

lemma is_f64_max [f64_intros]: "is_f64 x \<Longrightarrow> is_f64 y \<Longrightarrow> is_f64 (fmax x y)"
  by (simp add: fmax_def)

lemma is_f64_of_int [f64_intros]: "float_of_int i = Inr x \<Longrightarrow> is_f64 x"
  using is_f64_rnd64 [of "of_int i"]
  by (cases "rnd64 (of_int i)") (auto simp: float_of_int_def simp del: is_f64_rnd64)

lemma is_f64_round [f64_intros]: "is_f64 x \<Longrightarrow> is_f64 (round_nd n x)"
  by (cases x) (auto simp: Let_def)

lemma is_f64_sqrt [f64_intros]: "fsqrt x = Inr y \<Longrightarrow> is_f64 y"
  by (cases x) (auto simp: Let_def split: if_splits)

section \<open>Order\<close>

lemma fless_irrefl [simp]: "\<not> fless x x"
  by (cases x) auto

lemma fless_trans: "fless x y \<Longrightarrow> fless y z \<Longrightarrow> fless x z"
  by (cases x; cases y; cases z) auto

lemma fless_NaN [simp]: "\<not> fless x NaN" "\<not> fless NaN x"
  by (cases x; simp)+

lemma feq_NaN [simp]: "\<not> feq x NaN" "\<not> feq NaN x"
  by (cases x; simp)+

lemma fle_NaN [simp]: "\<not> fle x NaN" "\<not> fle NaN x"
  by (simp_all add: fle_def)

lemma fle_not_fless: "x \<noteq> NaN \<Longrightarrow> y \<noteq> NaN \<Longrightarrow> fle x y \<longleftrightarrow> \<not> fless y x"
  by (cases x; cases y) (auto simp: fle_def)

text \<open>Rounding keeps the order.\<close>

lemma fle_rnd64:
  assumes "a \<le> b"
  shows "fle (rnd64 a) (rnd64 b)"
proof -
  define m k where "m = rmag 52 (-1074) \<bar>a\<bar>" and "k = rmag 52 (-1074) \<bar>b\<bar>"
  have n: "0 \<le> m" "0 \<le> k" "0 < pow2 1024" by (simp_all add: m_def k_def)
  have "0 \<le> a \<Longrightarrow> m \<le> k" "b < 0 \<Longrightarrow> k \<le> m" using assms by (auto simp: m_def k_def intro!: rmag_mono)
  with n assms show ?thesis
    unfolding rnd64_def Let_def m_def [symmetric] k_def [symmetric] fle_def by auto
qed

lemma fle_zero_of: "fzero y \<Longrightarrow> fle (zero_of b) z \<longleftrightarrow> fle y z"
  by (cases y; cases z) (auto simp: fle_def zero_of_def fzero_def)

lemma fle_round_nd:
  assumes "r \<le> R"
  shows "fle (round_nd n (Fin r)) (rnd64 (of_int (rhe (R * 10 ^ n)) / 10 ^ n))"
proof -
  have "rhe (r * 10 ^ n) \<le> rhe (R * 10 ^ n)" using assms by (intro rhe_mono mult_right_mono) auto
  then have "fle (rnd64 (of_int (rhe (r * 10 ^ n)) / 10 ^ n)) (rnd64 (of_int (rhe (R * 10 ^ n)) / 10 ^ n))"
    by (intro fle_rnd64 divide_right_mono) auto
  then show ?thesis by (simp add: Let_def fle_zero_of)
qed

lemma fadd_NaN [simp]: "fadd x NaN = NaN"
  by (cases x) auto

lemma fsub_NaN [simp]: "fsub x NaN = NaN" "fsub NaN x = NaN"
  by (simp_all add: fsub_def)

lemma fmul_NaN [simp]: "fmul x NaN = NaN" "fmul NaN x = NaN"
  by (simp_all add: fmul_def)

lemma fabs_NaN [simp]: "fabs NaN = NaN"
  by (simp add: fabs_def)

section \<open>Floats as 32-bit and 64-bit patterns\<close>

text \<open>The floats a 32-bit field can carry exactly.\<close>

fun is_f32 :: "pyfloat \<Rightarrow> bool" where
  "is_f32 (Fin r) = (rmag 23 (-149) \<bar>r\<bar> = \<bar>r\<bar> \<and> \<bar>r\<bar> < pow2 128)"
| "is_f32 _ = True"

lemma is_f32_Fin: "is_f32 (Fin r) \<longleftrightarrow> fmt 23 (-149) \<bar>r\<bar> \<and> \<bar>r\<bar> < pow2 128"
  by (simp, metis rmag_fmt_id rmag_in_fmt)

lemma is_f32_f64: "is_f32 x \<Longrightarrow> is_f64 x"
proof (cases x)
  case (Fin r)
  assume "is_f32 x"
  then have *: "fmt 23 (-149) \<bar>r\<bar>" "\<bar>r\<bar> < pow2 128" using Fin by (simp_all only: is_f32_Fin)
  have "fmt 52 (-1074) \<bar>r\<bar>" using *(1) by (rule fmt_weaken) auto
  moreover have "\<bar>r\<bar> < pow2 1024" using *(2) pow2_less_iff [of 128 1024] by linarith
  ultimately show ?thesis using Fin by (simp only: is_f64_Fin)
qed auto

lemma of_bits_pos: "0 < k \<Longrightarrow> 0 < of_bits p q k"
proof -
  assume k: "0 < k"
  have "(0::int) < 2 ^ p + k mod 2 ^ p" by (simp add: add_pos_nonneg)
  then have "(0::rat) < of_int (2 ^ p + k mod 2 ^ p)" by (simp only: of_int_0_less_iff)
  then show ?thesis using k by (auto simp: of_bits_def simp del: of_int_add intro: mult_pos_pos)
qed

lemma bits_of_pos:
  assumes "0 < m" "fmt p q m"
  shows "0 < bits_of p q m"
proof -
  have "of_bits p q (bits_of p q m) = m" using assms(2) by (rule of_bits_bits_of)
  then have "bits_of p q m \<noteq> 0" using assms(1) by (auto simp: of_bits_def)
  then show ?thesis using bits_of_nonneg [of p q m] by linarith
qed

lemma of_bits_less:
  assumes "0 \<le> k" "k < (L - int p - q + 1) * 2 ^ p" "q \<le> L - int p - 1"
  shows "of_bits p q k < pow2 L"
proof (rule ccontr)
  assume "\<not> ?thesis"
  then have ge: "pow2 L \<le> of_bits p q k" by simp
  let ?m = "of_bits p q k"
  have pos: "0 < ?m" using ge pow2_pos [of L] by linarith
  have "flog2 (pow2 L) \<le> flog2 ?m" using ge by (intro flog2_mono) auto
  then have l: "L - int p \<le> uexp p q ?m" by (simp add: uexp_def)
  obtain M where M: "?m / pow2 (uexp p q ?m) = of_int M"
    using pos of_bits_fmt [OF assms(1), of p q] by (rule fmt_units)
  have "k = (uexp p q ?m - q) * 2 ^ p + M"
    using bits_of_units [OF pos M] bits_of_of_bits [OF assms(1), of p q] by simp
  moreover have "2 ^ p \<le> M" using pos M l assms(3) by (intro units_ge) auto
  moreover have "(L - int p - q) * 2 ^ p \<le> (uexp p q ?m - q) * 2 ^ p"
    using l by (intro mult_right_mono) auto
  ultimately show False using assms(2) by (simp add: algebra_simps)
qed

lemma sign_split:
  assumes "0 \<le> k" "k < 2 ^ n"
  shows "2 ^ n \<le> sign_bit n s + k \<longleftrightarrow> s" "(sign_bit n s + k) mod 2 ^ n = k"
    "0 \<le> sign_bit n s + k" "sign_bit n s + k < 2 ^ (n + 1)"
  using assms by (auto simp: sign_bit_def)

lemma sign_join:
  assumes "0 \<le> w" "w < 2 ^ (n + 1)"
  shows "sign_bit n (2 ^ n \<le> w) + w mod 2 ^ n = w"
proof (cases "2 ^ n \<le> w")
  case True
  have "w mod 2 ^ n = (w - 2 ^ n) mod 2 ^ n" by (metis diff_add_cancel mod_add_self2)
  also have "\<dots> = w - 2 ^ n" using True assms by (intro mod_pos_pos_trivial) auto
  finally have "w mod 2 ^ n = w - 2 ^ n" .
  with True show ?thesis by (simp add: sign_bit_def)
next
  case False
  with assms show ?thesis by (simp add: sign_bit_def)
qed

text \<open>The two formats share their proofs: a magnitude below the largest one has a pattern below the
  pattern of infinity, and both directions of the encoding are inverse.\<close>

lemma unpack_f32_finite:
  assumes "0 < k" "k < 0x7F800000"
  shows "unpack_f32 (sign_bit 31 s + k) = Fin (if s then - of_bits 23 (-149) k else of_bits 23 (-149) k)"
  using assms sign_split [of k 31 s] by (simp add: unpack_f32_def Let_def)

lemma unpack_f64_finite:
  assumes "0 < k" "k < 0x7FF0000000000000"
  shows "unpack_f64 (sign_bit 63 s + k) = Fin (if s then - of_bits 52 (-1074) k else of_bits 52 (-1074) k)"
  using assms sign_split [of k 63 s] by (simp add: unpack_f64_def Let_def)

lemma bits32_less: "m < pow2 128 \<Longrightarrow> bits_of 23 (-149) m < 0x7F800000"
  using bits_of_less [of m 128 "-149" 23] by simp

lemma bits64_less: "m < pow2 1024 \<Longrightarrow> bits_of 52 (-1074) m < 0x7FF0000000000000"
  using bits_of_less [of m 1024 "-1074" 52] by simp

lemma pack_f32_range: "pack_f32 x = Inr w \<Longrightarrow> 0 \<le> w \<and> w < 2 ^ 32"
proof (cases x)
  case (Fin r)
  assume *: "pack_f32 x = Inr w"
  let ?k = "bits_of 23 (-149) (rmag 23 (-149) \<bar>r\<bar>)"
  have "w = sign_bit 31 (r < 0) + ?k" "?k < 0x7F800000"
    using * Fin bits32_less by (auto simp: Let_def split: if_splits)
  then show ?thesis using sign_split(3,4) [of ?k 31 "r < 0"] by simp
qed (auto simp: sign_bit_def)

lemma pack_f64_range: "is_f64 x \<Longrightarrow> 0 \<le> pack_f64 x \<and> pack_f64 x < 2 ^ 64"
proof (cases x)
  case (Fin r)
  assume "is_f64 x"
  then have "bits_of 52 (-1074) \<bar>r\<bar> < 0x7FF0000000000000"
    using Fin by (intro bits64_less) (simp only: is_f64_Fin)
  then show ?thesis using Fin sign_split(3,4) [of "bits_of 52 (-1074) \<bar>r\<bar>" 63 "r < 0"] by simp
qed (auto simp: sign_bit_def)

lemma unpack_pack_f32:
  assumes "is_f32 x"
  shows "\<exists>w. pack_f32 x = Inr w \<and> unpack_f32 w = x"
proof (cases x)
  case (Fin r)
  let ?m = "\<bar>r\<bar>"
  let ?k = "bits_of 23 (-149) ?m"
  have f: "fmt 23 (-149) ?m" "?m < pow2 128" using assms Fin by (simp_all only: is_f32_Fin)
  have p: "pack_f32 x = Inr (sign_bit 31 (r < 0) + ?k)"
    using f Fin by (simp add: rmag_fmt_id Let_def)
  show ?thesis
  proof (cases "r = 0")
    case True
    then show ?thesis using p Fin by (simp add: bits_of_def sign_bit_def unpack_f32_def zero_of_def)
  next
    case False
    then have "0 < ?k" using f by (intro bits_of_pos) auto
    then have "unpack_f32 (sign_bit 31 (r < 0) + ?k) = Fin r"
      using f bits32_less by (subst unpack_f32_finite) (auto simp: of_bits_bits_of)
    with p Fin show ?thesis by simp
  qed
qed (auto simp: unpack_f32_def sign_bit_def zero_of_def)

lemma unpack_pack_f64:
  assumes "is_f64 x"
  shows "unpack_f64 (pack_f64 x) = x"
proof (cases x)
  case (Fin r)
  let ?k = "bits_of 52 (-1074) \<bar>r\<bar>"
  have f: "fmt 52 (-1074) \<bar>r\<bar>" "\<bar>r\<bar> < pow2 1024" using assms Fin by (simp_all only: is_f64_Fin)
  show ?thesis
  proof (cases "r = 0")
    case True
    then show ?thesis using Fin by (simp add: bits_of_def sign_bit_def unpack_f64_def zero_of_def)
  next
    case False
    then have "0 < ?k" using f by (intro bits_of_pos) auto
    then show ?thesis
      using Fin f bits64_less by (simp, subst unpack_f64_finite) (auto simp: of_bits_bits_of)
  qed
qed (auto simp: unpack_f64_def sign_bit_def zero_of_def)

lemma of_bits32: "0 < k \<Longrightarrow> k < 0x7F800000 \<Longrightarrow>
    fmt 23 (-149) (of_bits 23 (-149) k) \<and> of_bits 23 (-149) k < pow2 128 \<and> 0 < of_bits 23 (-149) k"
  using of_bits_fmt [of k 23 "-149"] of_bits_less [of k 128 23 "-149"] of_bits_pos [of k 23 "-149"] by simp

lemma of_bits64: "0 < k \<Longrightarrow> k < 0x7FF0000000000000 \<Longrightarrow>
    fmt 52 (-1074) (of_bits 52 (-1074) k) \<and> of_bits 52 (-1074) k < pow2 1024 \<and> 0 < of_bits 52 (-1074) k"
  using of_bits_fmt [of k 52 "-1074"] of_bits_less [of k 1024 52 "-1074"] of_bits_pos [of k 52 "-1074"] by simp

lemma is_f32_unpack: "is_f32 (unpack_f32 w)"
proof -
  have k: "0 \<le> w mod 2 ^ 31" by simp
  have "is_f32 (Fin (if s then - of_bits 23 (-149) k else of_bits 23 (-149) k))"
    if "0 < k" "k < 0x7F800000" for s k
    using of_bits32 [OF that] by (simp only: is_f32_Fin) auto
  moreover have "is_f32 (zero_of s)" for s by (simp add: zero_of_def rmag_def)
  ultimately show ?thesis using k by (auto simp: unpack_f32_def Let_def simp del: is_f32.simps(1))
qed

lemma is_f64_unpack: "is_f64 (unpack_f64 w)"
proof -
  have k: "0 \<le> w mod 2 ^ 63" by simp
  have "is_f64 (Fin (if s then - of_bits 52 (-1074) k else of_bits 52 (-1074) k))"
    if "0 < k" "k < 0x7FF0000000000000" for s k
    using of_bits64 [OF that] by (simp only: is_f64_Fin) auto
  then show ?thesis using k by (auto simp: unpack_f64_def Let_def simp del: is_f64.simps(1))
qed

lemma pack_unpack_f32:
  assumes "0 \<le> w" "w < 2 ^ 32" "unpack_f32 w \<noteq> NaN"
  shows "pack_f32 (unpack_f32 w) = Inr w"
proof -
  define s where "s = (2 ^ 31 \<le> w)"
  define k where "k = w mod 2 ^ 31"
  have w: "w = sign_bit 31 s + k" using sign_join [of w 31] assms by (simp add: s_def k_def)
  have k: "0 \<le> k" by (simp add: k_def)
  have u: "unpack_f32 w =
      (if 0x7F800000 < k then NaN else if k = 0x7F800000 then Infty s else if k = 0 then zero_of s
       else Fin (if s then - of_bits 23 (-149) k else of_bits 23 (-149) k))"
    by (simp add: unpack_f32_def Let_def s_def k_def)
  consider "k = 0x7F800000" | "k = 0" | "0 < k" "k < 0x7F800000"
    using assms(3) u k by (cases "0x7F800000 < k") (simp, linarith)
  then show ?thesis
  proof cases
    case 3
    then show ?thesis
      using u w of_bits32 [OF 3] bits_of_of_bits [of k 23 "-149"] by (auto simp: Let_def rmag_fmt_id)
  qed (use u w in \<open>auto simp: zero_of_def sign_bit_def bits_of_def rmag_def\<close>)
qed

lemma pack_unpack_f64:
  assumes "0 \<le> w" "w < 2 ^ 64" "unpack_f64 w \<noteq> NaN"
  shows "pack_f64 (unpack_f64 w) = w"
proof -
  define s where "s = (2 ^ 63 \<le> w)"
  define k where "k = w mod 2 ^ 63"
  have w: "w = sign_bit 63 s + k" using sign_join [of w 63] assms by (simp add: s_def k_def)
  have k: "0 \<le> k" by (simp add: k_def)
  have u: "unpack_f64 w =
      (if 0x7FF0000000000000 < k then NaN else if k = 0x7FF0000000000000 then Infty s
       else if k = 0 then zero_of s
       else Fin (if s then - of_bits 52 (-1074) k else of_bits 52 (-1074) k))"
    by (simp add: unpack_f64_def Let_def s_def k_def)
  consider "k = 0x7FF0000000000000" | "k = 0" | "0 < k" "k < 0x7FF0000000000000"
    using assms(3) u k by (cases "0x7FF0000000000000 < k") (simp, linarith)
  then show ?thesis
  proof cases
    case 3
    then show ?thesis
      using u w of_bits64 [OF 3] bits_of_of_bits [of k 52 "-1074"] by (auto simp: Let_def)
  qed (use u w in \<open>auto simp: zero_of_def sign_bit_def bits_of_def\<close>)
qed

section \<open>Square roots\<close>

lemma isqrt_spec: "0 \<le> isqrt n \<and> (0 \<le> n \<longrightarrow> isqrt n * isqrt n \<le> n \<and> n < (isqrt n + 1) * (isqrt n + 1))"
proof (induction n rule: isqrt.induct)
  case (1 n)
  show ?case
  proof (cases "n \<le> 0")
    case True
    then have "isqrt n = 0" by (subst isqrt.simps) simp
    with True show ?thesis by auto
  next
    case False
    let ?h = "isqrt (n div 4)"
    have IH: "0 \<le> ?h" "?h * ?h \<le> n div 4" "n div 4 < (?h + 1) * (?h + 1)"
      using 1 False by auto
    have "4 * (?h * ?h) \<le> n" "n < 4 * ((?h + 1) * (?h + 1))" using IH by presburger+
    moreover have "isqrt n = (if (2 * ?h + 1) * (2 * ?h + 1) \<le> n then 2 * ?h + 1 else 2 * ?h)"
      using False by (subst isqrt.simps) (simp add: Let_def)
    ultimately show ?thesis using IH(1) by (auto simp: algebra_simps)
  qed
qed

lemma fsqrt_nonneg: "0 \<le> r \<Longrightarrow> \<exists>y. fsqrt (Fin r) = Inr y \<and> (\<forall>x. y = Fin x \<longrightarrow> 0 \<le> x) \<and> y \<noteq> NaN \<and> y \<noteq> NegZero \<and> y \<noteq> Infty True"
proof (cases "r = 0")
  case False
  assume "0 \<le> r"
  with False have r: "0 < r" by simp
  define t where "t = 60 - flog2 r div 2"
  define s where "s = isqrt \<lfloor>r * pow2 (2 * t)\<rfloor>"
  define v where "v = (of_int s + (if of_int (s * s) = r * pow2 (2 * t) then 0 else 1 / 2)) / pow2 t"
  have "0 \<le> s" unfolding s_def using isqrt_spec by blast
  then have v: "0 \<le> v" by (auto simp: v_def)
  have "fsqrt (Fin r) = Inr (rnd64 v)" using r by (simp add: Let_def t_def s_def v_def)
  with v show ?thesis by (cases rule: rnd64_cases [OF v]) auto
qed simp

section \<open>Evaluation\<close>

text \<open>Code equations that evaluate a rounding without building the powers of two of the range limits.\<close>

fun p2 :: "int \<Rightarrow> int" where
  "p2 n = (if n \<le> 0 then 1 else 2 * p2 (n - 1))"

declare p2.simps [simp del]

lemma p2_power: "0 \<le> n \<Longrightarrow> p2 n = 2 ^ nat n"
proof (induction n rule: p2.induct)
  case (1 n)
  show ?case
  proof (cases "n = 0")
    case False
    with 1 have "nat n = Suc (nat (n - 1))" by simp
    with 1 False show ?thesis by (simp add: p2.simps [of n])
  qed (simp add: p2.simps)
qed

lemma pow2_code [code]: "pow2 e = (if 0 \<le> e then of_int (p2 e) else 1 / of_int (p2 (- e)))"
  by (simp add: pow2_def p2_power)

lemma pow2_le_flog2:
  assumes "0 < m"
  shows "pow2 k \<le> m \<longleftrightarrow> k \<le> flog2 m"
proof
  assume "pow2 k \<le> m"
  also have "m < pow2 (flog2 m + 1)" using assms by (rule flog2_bounds)
  finally show "k \<le> flog2 m" by simp
next
  assume "k \<le> flog2 m"
  then have "pow2 k \<le> pow2 (flog2 m)" by simp
  also have "\<dots> \<le> m" using assms by (rule flog2_bounds)
  finally show "pow2 k \<le> m" .
qed

lemma rnd64_code [code]:
  "rnd64 r =
     (let m = rmag 52 (-1074) \<bar>r\<bar>
      in if m = 0 then (if r < 0 then NegZero else Fin 0)
         else if 1024 \<le> flog2 m then Infty (r < 0)
         else Fin (if r < 0 then - m else m))"
proof -
  let ?m = "rmag 52 (-1074) \<bar>r\<bar>"
  have "0 < ?m" if "?m \<noteq> 0" using rmag_nonneg [of 52 "-1074" "\<bar>r\<bar>"] that by linarith
  with pow2_le_flog2 [of ?m 1024] show ?thesis by (auto simp: rnd64_def Let_def)
qed

end
