(* ===== verification/Py_Codec.thy ===== *)
theory Py_Codec
  imports Py_Float
begin

text \<open>
  The parts of Python's standard library that the wire protocol is written with:
  \<open>struct.pack\<close>/\<open>struct.unpack\<close> for little-endian formats, \<open>zlib.crc32\<close>, and the ASCII and UTF-8
  codecs with the error handler \<open>replace\<close>.

  A format is a list of fields. The lemmas show the sizes, the round trips of a format in both
  directions, that the checksum is a 32-bit value which any change confined to one byte changes,
  and that UTF-8 decoding inverts encoding.
\<close>

unbundle bit_operations_syntax

section \<open>Little-endian integers\<close>

primrec le_bytes :: "nat \<Rightarrow> int \<Rightarrow> bytes" where
  "le_bytes 0 i = []"
| "le_bytes (Suc n) i = word_of_int i # le_bytes n (i div 256)"

primrec le_int :: "bytes \<Rightarrow> int" where
  "le_int [] = 0"
| "le_int (b # bs) = uint b + 256 * le_int bs"

section \<open>Formats\<close>

text \<open>The format characters B, H, I, Q, f, d, \<open>n\<close>s and \<open>n\<close>x.\<close>

datatype fld = U8 | U16 | U32 | U64 | F32 | F64 | Chars nat | Pad nat

datatype pv = VInt int | VFloat pyfloat | VBytes bytes

fun fsize :: "fld \<Rightarrow> nat" where
  "fsize U8 = 1"
| "fsize U16 = 2"
| "fsize U32 = 4"
| "fsize U64 = 8"
| "fsize F32 = 4"
| "fsize F64 = 8"
| "fsize (Chars n) = n"
| "fsize (Pad n) = n"

primrec calcsize :: "fld list \<Rightarrow> nat" where
  "calcsize [] = 0"
| "calcsize (f # fs) = fsize f + calcsize fs"

definition pack_uint :: "nat \<Rightarrow> int \<Rightarrow> bytes res" where
  "pack_uint n i = (if 0 \<le> i \<and> i < 256 ^ n then Inr (le_bytes n i) else Inl StructError)"

text \<open>
  One field. An integer outside the field's range and a value of the wrong type raise
  \<open>struct.error\<close>; f and d take an integer by converting it.
\<close>

fun pack1 :: "fld \<Rightarrow> pv \<Rightarrow> bytes res" where
  "pack1 U8 (VInt i) = pack_uint 1 i"
| "pack1 U16 (VInt i) = pack_uint 2 i"
| "pack1 U32 (VInt i) = pack_uint 4 i"
| "pack1 U64 (VInt i) = pack_uint 8 i"
| "pack1 F32 (VFloat x) = rbind (pack_f32 x) (\<lambda>w. Inr (le_bytes 4 w))"
| "pack1 F32 (VInt i) = rbind (float_of_int i) (\<lambda>x. rbind (pack_f32 x) (\<lambda>w. Inr (le_bytes 4 w)))"
| "pack1 F64 (VFloat x) = Inr (le_bytes 8 (pack_f64 x))"
| "pack1 F64 (VInt i) = rbind (float_of_int i) (\<lambda>x. Inr (le_bytes 8 (pack_f64 x)))"
| "pack1 (Chars n) (VBytes b) = Inr (take n b @ replicate (n - length b) 0)"
| "pack1 _ _ = Inl StructError"

fun struct_pack :: "fld list \<Rightarrow> pv list \<Rightarrow> bytes res" where
  "struct_pack [] [] = Inr []"
| "struct_pack (Pad n # fs) vs = rbind (struct_pack fs vs) (\<lambda>r. Inr (replicate n 0 @ r))"
| "struct_pack (f # fs) (v # vs) =
     rbind (pack1 f v) (\<lambda>b. rbind (struct_pack fs vs) (\<lambda>r. Inr (b @ r)))"
| "struct_pack _ _ = Inl StructError"

fun unpack1 :: "fld \<Rightarrow> bytes \<Rightarrow> pv" where
  "unpack1 F32 b = VFloat (unpack_f32 (le_int b))"
| "unpack1 F64 b = VFloat (unpack_f64 (le_int b))"
| "unpack1 (Chars n) b = VBytes b"
| "unpack1 _ b = VInt (le_int b)"

fun unpack_fields :: "fld list \<Rightarrow> bytes \<Rightarrow> pv list" where
  "unpack_fields [] b = []"
| "unpack_fields (Pad n # fs) b = unpack_fields fs (drop n b)"
| "unpack_fields (f # fs) b = unpack1 f (take (fsize f) b) # unpack_fields fs (drop (fsize f) b)"

definition struct_unpack :: "fld list \<Rightarrow> bytes \<Rightarrow> pv list res" where
  "struct_unpack fs b = (if length b = calcsize fs then Inr (unpack_fields fs b) else Inl StructError)"

definition unpack_from :: "fld list \<Rightarrow> bytes \<Rightarrow> nat \<Rightarrow> pv list res" where
  "unpack_from fs b off =
     (if off + calcsize fs \<le> length b then Inr (unpack_fields fs (drop off b)) else Inl StructError)"

section \<open>CRC-32\<close>

text \<open>\<open>zlib.crc32\<close>: the reflected IEEE 802.3 polynomial, one bit at a time.\<close>

definition crc_poly :: int where
  "crc_poly = 0xEDB88320"

definition crc_step :: "int \<Rightarrow> int" where
  "crc_step c = (if odd c then (c div 2) XOR crc_poly else c div 2)"

primrec crc_steps :: "nat \<Rightarrow> int \<Rightarrow> int" where
  "crc_steps 0 c = c"
| "crc_steps (Suc n) c = crc_steps n (crc_step c)"

definition crc_byte :: "int \<Rightarrow> byte \<Rightarrow> int" where
  "crc_byte c b = crc_steps 8 (c XOR uint b)"

definition crc32 :: "bytes \<Rightarrow> int" where
  "crc32 bs = foldl crc_byte 0xFFFFFFFF bs XOR 0xFFFFFFFF"

section \<open>Text\<close>

text \<open>\<open>s.encode("ascii", "replace")\<close> and \<open>b.decode("ascii", "replace")\<close>.\<close>

definition ascii_encode :: "pystr \<Rightarrow> bytes" where
  "ascii_encode s = map (\<lambda>c. if 0 \<le> c \<and> c < 128 then word_of_int c else 63) s"

definition ascii_decode :: "bytes \<Rightarrow> pystr" where
  "ascii_decode b = map (\<lambda>x. if uint x < 128 then uint x else 0xFFFD) b"

definition is_ascii :: "pystr \<Rightarrow> bool" where
  "is_ascii s \<longleftrightarrow> (\<forall>c\<in>set s. 0 \<le> c \<and> c < 128)"

text \<open>UTF-8. Surrogates cannot be encoded.\<close>

definition utf8_enc1 :: "int \<Rightarrow> int list res" where
  "utf8_enc1 c =
     (if c < 0x80 then Inr [c]
      else if c < 0x800 then Inr [0xC0 + c div 64, 0x80 + c mod 64]
      else if 0xD800 \<le> c \<and> c < 0xE000 then Inl UnicodeEncodeError
      else if c < 0x10000 then Inr [0xE0 + c div 4096, 0x80 + c div 64 mod 64, 0x80 + c mod 64]
      else Inr [0xF0 + c div 262144, 0x80 + c div 4096 mod 64, 0x80 + c div 64 mod 64, 0x80 + c mod 64])"

definition utf8_encode :: "pystr \<Rightarrow> bytes res" where
  "utf8_encode s = rbind (rmap utf8_enc1 s) (\<lambda>bss. Inr (map word_of_int (concat bss)))"

text \<open>
  Decoding with \<open>replace\<close> emits one U+FFFD for each maximal prefix of a well-formed sequence that
  cannot be continued. \<open>utf8_dec1\<close> reads one character or one such prefix and says how many bytes
  it took.
\<close>

definition is_cont :: "int \<Rightarrow> bool" where
  "is_cont b \<longleftrightarrow> 0x80 \<le> b \<and> b < 0xC0"

definition second_ok :: "int \<Rightarrow> int \<Rightarrow> bool" where
  "second_ok b0 b1 \<longleftrightarrow>
     is_cont b1 \<and> (b0 = 0xE0 \<longrightarrow> 0xA0 \<le> b1) \<and> (b0 = 0xED \<longrightarrow> b1 < 0xA0) \<and>
     (b0 = 0xF0 \<longrightarrow> 0x90 \<le> b1) \<and> (b0 = 0xF4 \<longrightarrow> b1 < 0x90)"

definition utf8_dec1 :: "int \<Rightarrow> int list \<Rightarrow> int \<times> nat" where
  "utf8_dec1 b0 r =
     (if b0 < 0x80 then (b0, 0)
      else if b0 < 0xC2 \<or> 0xF5 \<le> b0 then (0xFFFD, 0)
      else case r of [] \<Rightarrow> (0xFFFD, 0) | b1 # r1 \<Rightarrow>
        if \<not> second_ok b0 b1 then (0xFFFD, 0)
        else if b0 < 0xE0 then ((b0 - 0xC0) * 64 + (b1 - 0x80), 1)
        else case r1 of [] \<Rightarrow> (0xFFFD, 1) | b2 # r2 \<Rightarrow>
          if \<not> is_cont b2 then (0xFFFD, 1)
          else if b0 < 0xF0 then ((b0 - 0xE0) * 4096 + (b1 - 0x80) * 64 + (b2 - 0x80), 2)
          else case r2 of [] \<Rightarrow> (0xFFFD, 2) | b3 # r3 \<Rightarrow>
            if \<not> is_cont b3 then (0xFFFD, 2)
            else ((b0 - 0xF0) * 262144 + (b1 - 0x80) * 4096 + (b2 - 0x80) * 64 + (b3 - 0x80), 3))"

fun utf8_decode_ints :: "int list \<Rightarrow> pystr" where
  "utf8_decode_ints [] = []"
| "utf8_decode_ints (b # bs) = (case utf8_dec1 b bs of (c, n) \<Rightarrow> c # utf8_decode_ints (drop n bs))"

definition utf8_decode :: "bytes \<Rightarrow> pystr" where
  "utf8_decode b = utf8_decode_ints (map uint b)"

definition is_scalar :: "int \<Rightarrow> bool" where
  "is_scalar c \<longleftrightarrow> 0 \<le> c \<and> c < 0x110000 \<and> \<not> (0xD800 \<le> c \<and> c < 0xE000)"

section \<open>Integers and formats\<close>

lemma length_le_bytes [simp]: "length (le_bytes n i) = n"
  by (induction n arbitrary: i) auto

lemma uint_word_of_int_byte: "uint (word_of_int i :: byte) = i mod 256"
  by (simp add: uint_word_of_int)

lemma le_int_le_bytes: "le_int (le_bytes n i) = i mod 256 ^ n"
proof (induction n arbitrary: i)
  case (Suc n)
  have "i mod 256 ^ Suc n = i mod 256 + 256 * (i div 256 mod 256 ^ n)"
    by (simp add: mod_mult2_eq' zmod_zmult2_eq)
  with Suc show ?case by (simp add: uint_word_of_int_byte)
qed simp

lemma le_int_bounds: "0 \<le> le_int b \<and> le_int b < 256 ^ length b"
proof (induction b)
  case (Cons x b)
  have "uint x < 256" using uint_lt2p [of x] by simp
  with Cons show ?case by auto
qed simp

lemma le_bytes_le_int: "le_bytes (length b) (le_int b) = b"
proof (induction b)
  case (Cons x b)
  have "0 \<le> uint x" "uint x < 256" using uint_lt2p [of x] by auto
  then have "(uint x + 256 * le_int b) div 256 = le_int b" by simp
  moreover have "word_of_int (uint x + 256 * le_int b) = x"
  proof -
    have "(uint x + 256 * le_int b) mod 256 = uint x" using \<open>0 \<le> uint x\<close> \<open>uint x < 256\<close> by simp
    then show ?thesis by (simp only: word_uint_eq_iff uint_word_of_int_byte)
  qed
  ultimately show ?case using Cons by simp
qed simp

lemma pack_uint_length: "pack_uint n i = Inr b \<Longrightarrow> length b = n"
  by (auto simp: pack_uint_def split: if_splits)

lemma pack1_length: "pack1 f v = Inr b \<Longrightarrow> length b = fsize f"
  by (cases "(f, v)" rule: pack1.cases) (auto simp: pack_uint_length rbind_Inr_iff)

lemma struct_pack_length: "struct_pack fs vs = Inr b \<Longrightarrow> length b = calcsize fs"
  by (induction fs vs arbitrary: b rule: struct_pack.induct)
    (auto simp: rbind_Inr_iff dest: pack1_length)

text \<open>The values a field carries exactly, and those of a whole format.\<close>

fun fits :: "fld \<Rightarrow> pv \<Rightarrow> bool" where
  "fits U8 (VInt i) = (0 \<le> i \<and> i < 2 ^ 8)"
| "fits U16 (VInt i) = (0 \<le> i \<and> i < 2 ^ 16)"
| "fits U32 (VInt i) = (0 \<le> i \<and> i < 2 ^ 32)"
| "fits U64 (VInt i) = (0 \<le> i \<and> i < 2 ^ 64)"
| "fits F32 (VFloat x) = is_f32 x"
| "fits F64 (VFloat x) = is_f64 x"
| "fits (Chars n) (VBytes b) = (length b = n)"
| "fits _ _ = False"

fun fits_all :: "fld list \<Rightarrow> pv list \<Rightarrow> bool" where
  "fits_all [] vs = (vs = [])"
| "fits_all (Pad n # fs) vs = fits_all fs vs"
| "fits_all (f # fs) [] = False"
| "fits_all (f # fs) (v # vs) = (fits f v \<and> fits_all fs vs)"

lemma pack_uint_fits:
  "0 \<le> i \<Longrightarrow> i < 256 ^ n \<Longrightarrow> pack_uint n i = Inr (le_bytes n i) \<and> le_int (le_bytes n i) = i"
  by (simp add: pack_uint_def le_int_le_bytes)

lemma pack1_fits: "fits f v \<Longrightarrow> \<exists>b. pack1 f v = Inr b \<and> length b = fsize f \<and> unpack1 f b = v"
proof (cases "(f, v)" rule: fits.cases)
  case (5 x)
  assume "fits f v"
  with 5 obtain w where w: "pack_f32 x = Inr w" "unpack_f32 w = x" by (auto dest: unpack_pack_f32)
  with pack_f32_range [OF w(1)] 5 show ?thesis by (auto simp: le_int_le_bytes)
next
  case (6 x)
  assume "fits f v"
  with 6 pack_f64_range [of x] show ?thesis by (auto simp: le_int_le_bytes unpack_pack_f64)
qed (auto simp: pack_uint_fits uint_word_of_int_byte)

lemma struct_pack_fits:
  "fits_all fs vs \<Longrightarrow> \<exists>b. struct_pack fs vs = Inr b \<and> (\<forall>r. unpack_fields fs (b @ r) = vs)"
proof (induction fs arbitrary: vs)
  case (Cons f fs)
  show ?case
  proof (cases "\<exists>n. f = Pad n")
    case True
    with Cons show ?thesis by fastforce
  next
    case False
    with Cons.prems obtain v ws where vs: "vs = v # ws" "fits f v" "fits_all fs ws"
      by (cases f; cases vs) auto
    from pack1_fits [OF vs(2)] obtain b where
      b: "pack1 f v = Inr b" "length b = fsize f" "unpack1 f b = v" by blast
    from Cons.IH [OF vs(3)] obtain c where
      c: "struct_pack fs ws = Inr c" "\<And>r. unpack_fields fs (c @ r) = ws" by blast
    have "struct_pack (f # fs) vs = Inr (b @ c)" using False vs(1) b(1) c(1) by (cases f) auto
    moreover have "unpack_fields (f # fs) ((b @ c) @ r) = vs" for r
      using False vs(1) b(2,3) c(2) by (cases f) auto
    ultimately show ?thesis by blast
  qed
qed simp

text \<open>Packing then unpacking gives the values back.\<close>

lemma struct_roundtrip:
  assumes "fits_all fs vs"
  obtains b where "struct_pack fs vs = Inr b" "length b = calcsize fs"
    "struct_unpack fs b = Inr vs" "\<And>r. unpack_fields fs (b @ r) = vs"
proof -
  from struct_pack_fits [OF assms] obtain b where
    b: "struct_pack fs vs = Inr b" "\<And>r. unpack_fields fs (b @ r) = vs" by blast
  moreover have "length b = calcsize fs" using b(1) by (rule struct_pack_length)
  moreover have "struct_unpack fs b = Inr vs"
    using b(2) [of "[]"] \<open>length b = calcsize fs\<close> by (simp add: struct_unpack_def)
  ultimately show ?thesis using that by blast
qed

lemma le_int_lt: "length b = n \<Longrightarrow> 0 \<le> le_int b \<and> le_int b < 256 ^ n"
  using le_int_bounds [of b] by simp

lemma unpack1_fits: "f \<noteq> Pad n \<Longrightarrow> length b = fsize f \<Longrightarrow> fits f (unpack1 f b) \<or> (\<exists>m. f = Pad m)"
  by (cases f) (auto simp: is_f32_unpack is_f64_unpack dest: le_int_lt)

text \<open>Whatever is unpacked fits the format, so every received value is in range.\<close>

lemma unpack_fields_fits: "calcsize fs \<le> length b \<Longrightarrow> fits_all fs (unpack_fields fs b)"
proof (induction fs arbitrary: b)
  case (Cons f fs)
  then have IH: "fits_all fs (unpack_fields fs (drop (fsize f) b))"
    and len: "length (take (fsize f) b) = fsize f" by auto
  show ?case
  proof (cases f)
    case (Pad n)
    with IH show ?thesis by simp
  qed (use IH len unpack1_fits [of f 0 "take (fsize f) b"] in auto)
qed simp

text \<open>Unpacking then packing gives the bytes back, when the padding is zero and no float is NaN.\<close>

fun canonical :: "fld list \<Rightarrow> bytes \<Rightarrow> bool" where
  "canonical [] b = (b = [])"
| "canonical (Pad n # fs) b = (n \<le> length b \<and> take n b = replicate n 0 \<and> canonical fs (drop n b))"
| "canonical (f # fs) b =
     (fsize f \<le> length b \<and> unpack1 f (take (fsize f) b) \<noteq> VFloat NaN \<and> canonical fs (drop (fsize f) b))"

lemma pack1_unpack1:
  assumes "length b = fsize f" "unpack1 f b \<noteq> VFloat NaN" "\<And>n. f \<noteq> Pad n"
  shows "pack1 f (unpack1 f b) = Inr b"
proof -
  have lb: "le_bytes (fsize f) (le_int b) = b" using assms(1) le_bytes_le_int [of b] by simp
  have r: "0 \<le> le_int b" "le_int b < 256 ^ fsize f" using le_int_lt [OF assms(1)] by auto
  show ?thesis
  proof (cases f)
    case F32
    then show ?thesis using assms(2) lb r by (simp add: pack_unpack_f32)
  next
    case F64
    then show ?thesis using assms(2) lb r by (simp add: pack_unpack_f64)
  next
    case (Pad n)
    then show ?thesis using assms(3) by simp
  qed (use assms(1) lb r in \<open>simp_all add: pack_uint_def\<close>)
qed

lemma struct_pack_canonical: "canonical fs b \<Longrightarrow> struct_pack fs (unpack_fields fs b) = Inr b"
proof (induction fs arbitrary: b)
  case (Cons f fs)
  show ?case
  proof (cases "\<exists>n. f = Pad n")
    case True
    then obtain n where n: "f = Pad n" by blast
    have "replicate n 0 @ drop n b = b" using Cons.prems n by (metis append_take_drop_id canonical.simps(2))
    with Cons n show ?thesis by auto
  next
    case False
    have c: "fsize f \<le> length b" "unpack1 f (take (fsize f) b) \<noteq> VFloat NaN" "canonical fs (drop (fsize f) b)"
      using Cons.prems False by (cases f; simp)+
    have "pack1 f (unpack1 f (take (fsize f) b)) = Inr (take (fsize f) b)"
      using c(1,2) False by (intro pack1_unpack1) auto
    moreover have "unpack_fields (f # fs) b = unpack1 f (take (fsize f) b) # unpack_fields fs (drop (fsize f) b)"
      using False by (cases f) auto
    moreover have "struct_pack (f # fs) (v # vs) = rbind (pack1 f v) (\<lambda>x. rbind (struct_pack fs vs) (\<lambda>r. Inr (x @ r)))" for v vs
      using False by (cases f) auto
    ultimately show ?thesis using Cons.IH [OF c(3)] by simp
  qed
qed simp

section \<open>The checksum\<close>

lemma xor_cancel: "a XOR c = b XOR c \<longleftrightarrow> a = (b :: int)"
  by (metis xor.assoc xor.right_neutral xor_self_eq)

definition is_u32 :: "int \<Rightarrow> bool" where
  "is_u32 c \<longleftrightarrow> 0 \<le> c \<and> c < 2 ^ 32"

lemma is_u32_xor: "is_u32 a \<Longrightarrow> is_u32 b \<Longrightarrow> is_u32 (a XOR b)"
  unfolding is_u32_def using XOR_lower [of a b] XOR_upper [of a 32 b] by auto

lemma is_u32_half: "is_u32 c \<Longrightarrow> is_u32 (c div 2)"
  unfolding is_u32_def by auto

lemma is_u32_poly: "is_u32 crc_poly"
  by (simp add: is_u32_def crc_poly_def)

lemma is_u32_ones: "is_u32 0xFFFFFFFF"
  by (simp add: is_u32_def)

lemma is_u32_byte: "is_u32 (uint (b :: byte))"
  using uint_lt2p [of b] by (simp add: is_u32_def)

lemma is_u32_step: "is_u32 c \<Longrightarrow> is_u32 (crc_step c)"
  by (simp add: crc_step_def is_u32_xor is_u32_half is_u32_poly)

text \<open>The top bit of the polynomial is set, so the top bit of the result tells the branch taken.\<close>

lemma crc_step_inj:
  assumes c: "is_u32 c" and d: "is_u32 d" and eq: "crc_step c = crc_step d"
  shows "c = d"
proof -
  have small: "\<not> bit (x div 2) 31" if "is_u32 x" for x :: int
  proof -
    have "0 \<le> x div 2" "x div 2 < 2 ^ 31" using that by (auto simp: is_u32_def)
    then have "x div 2 div 2 ^ 31 = 0" by (rule div_pos_pos_trivial)
    then show ?thesis by (simp add: bit_iff_odd)
  qed
  have poly: "bit crc_poly 31" by (simp add: crc_poly_def bit_iff_odd)
  have "odd c \<longleftrightarrow> odd d"
  proof (rule ccontr)
    assume "\<not> (odd c \<longleftrightarrow> odd d)"
    then have "bit (crc_step c) 31 \<noteq> bit (crc_step d) 31"
      using small [OF c] small [OF d] poly by (auto simp: crc_step_def bit_xor_iff)
    with eq show False by simp
  qed
  moreover from this eq have "c div 2 = d div 2" by (auto simp: crc_step_def xor_cancel split: if_splits)
  ultimately show ?thesis by presburger
qed

lemma is_u32_steps: "is_u32 c \<Longrightarrow> is_u32 (crc_steps n c)"
  by (induction n arbitrary: c) (simp_all add: is_u32_step)

lemma crc_steps_inj: "is_u32 c \<Longrightarrow> is_u32 d \<Longrightarrow> crc_steps n c = crc_steps n d \<Longrightarrow> c = d"
proof (induction n arbitrary: c d)
  case (Suc n)
  have "crc_step c = crc_step d"
    using Suc.prems by (simp add: Suc.IH is_u32_step)
  with Suc.prems(1,2) show ?case by (rule crc_step_inj)
qed simp

lemma is_u32_crc_byte: "is_u32 c \<Longrightarrow> is_u32 (crc_byte c b)"
  unfolding crc_byte_def by (intro is_u32_steps is_u32_xor is_u32_byte)

lemma crc_byte_inj:
  "is_u32 c \<Longrightarrow> is_u32 d \<Longrightarrow> crc_byte c b = crc_byte d b' \<Longrightarrow> c XOR uint b = d XOR uint b'"
  unfolding crc_byte_def by (erule crc_steps_inj [rotated 2]) (intro is_u32_xor is_u32_byte, assumption)+

lemma is_u32_fold: "is_u32 c \<Longrightarrow> is_u32 (foldl crc_byte c bs)"
  by (induction bs arbitrary: c) (simp_all add: is_u32_crc_byte)

lemma crc_fold_inj:
  "is_u32 c \<Longrightarrow> is_u32 d \<Longrightarrow> foldl crc_byte c bs = foldl crc_byte d bs \<Longrightarrow> c = d"
proof (induction bs arbitrary: c d)
  case (Cons b bs)
  have "crc_byte c b = crc_byte d b"
    by (rule Cons.IH) (use Cons.prems in \<open>simp_all add: is_u32_crc_byte\<close>)
  with Cons.prems(1,2) have "c XOR uint b = d XOR uint b" by (rule crc_byte_inj)
  then show ?case by (simp only: xor_cancel)
qed simp

lemma crc32_range: "is_u32 (crc32 bs)"
  unfolding crc32_def by (intro is_u32_xor is_u32_fold is_u32_ones)

lemma crc32_one_byte:
  assumes "crc32 (xs @ a # ys) = crc32 (xs @ b # ys)"
  shows "a = b"
proof -
  let ?c = "foldl crc_byte 0xFFFFFFFF xs"
  have c: "is_u32 ?c" by (intro is_u32_fold is_u32_ones)
  have "foldl crc_byte (crc_byte ?c a) ys = foldl crc_byte (crc_byte ?c b) ys"
    using assms by (simp only: crc32_def xor_cancel foldl_append foldl_Cons)
  with is_u32_crc_byte [OF c] is_u32_crc_byte [OF c] have "crc_byte ?c a = crc_byte ?c b"
    by (rule crc_fold_inj)
  with c c have "?c XOR uint a = ?c XOR uint b" by (rule crc_byte_inj)
  then have "uint a = uint b" by (simp only: xor.commute [of ?c] xor_cancel)
  then show "a = b" by (simp only: word_uint_eq_iff)
qed

section \<open>Text\<close>

lemma length_ascii_encode [simp]: "length (ascii_encode s) = length s"
  by (simp add: ascii_encode_def)

lemma ascii_roundtrip: "is_ascii s \<Longrightarrow> ascii_decode (ascii_encode s) = s"
  by (induction s) (auto simp: ascii_encode_def ascii_decode_def is_ascii_def uint_word_of_int_byte)

text \<open>The base-64 digits of a code point.\<close>

lemma digits64:
  fixes c :: int
  shows "c = (c div 4096) * 4096 + (c div 64 mod 64) * 64 + c mod 64"
    and "c = (c div 262144) * 262144 + (c div 4096 mod 64) * 4096 + (c div 64 mod 64) * 64 + c mod 64"
proof -
  have d: "c div 64 div 64 = c div 4096" "c div 4096 div 64 = c div 262144"
    using zdiv_zmult2_eq [of 64 c 64] zdiv_zmult2_eq [of 64 c 4096] by simp_all
  have a: "c = c div 64 * 64 + c mod 64" "c div 64 = c div 4096 * 64 + c div 64 mod 64"
    "c div 4096 = c div 262144 * 64 + c div 4096 mod 64"
    using div_mult_mod_eq [of c 64] div_mult_mod_eq [of "c div 64" 64]
      div_mult_mod_eq [of "c div 4096" 64] d by simp_all
  show "c = (c div 4096) * 4096 + (c div 64 mod 64) * 64 + c mod 64" using a by linarith
  show "c = (c div 262144) * 262144 + (c div 4096 mod 64) * 4096 + (c div 64 mod 64) * 64 + c mod 64"
    using a by linarith
qed

lemma digit64_bounds:
  fixes c :: int
  shows "0 \<le> c mod 64" "c mod 64 < 64"
  by simp_all

lemma utf8_enc1_range:
  assumes "is_scalar c" "utf8_enc1 c = Inr bs" "b \<in> set bs"
  shows "0 \<le> b \<and> b < 256"
proof -
  have "0 \<le> c" "c < 0x110000" using assms(1) by (auto simp: is_scalar_def)
  moreover from this have "0 \<le> c div 262144" "c div 262144 < 5" "0 \<le> c div 4096" "0 \<le> c div 64"
    by auto
  moreover have "c < 0x800 \<Longrightarrow> c div 64 < 32" "c < 0x10000 \<Longrightarrow> c div 4096 < 16" by auto
  moreover note digit64_bounds [of c] digit64_bounds [of "c div 64"] digit64_bounds [of "c div 4096"]
  ultimately show ?thesis using assms(2,3) by (auto simp: utf8_enc1_def split: if_splits)
qed

lemma utf8_enc1_total: "is_scalar c \<Longrightarrow> \<exists>b bs. utf8_enc1 c = Inr (b # bs)"
  by (auto simp: utf8_enc1_def is_scalar_def)

lemma utf8_dec1_enc1:
  assumes c: "is_scalar c" and e: "utf8_enc1 c = Inr (b # bs)"
  shows "utf8_dec1 b (bs @ r) = (c, length bs)"
proof -
  have r: "0 \<le> c" "c < 0x110000" "c < 0xD800 \<or> 0xE000 \<le> c" using c by (auto simp: is_scalar_def)
  define m0 m1 m2 q where "m0 = c mod 64" and "m1 = c div 64 mod 64" and "m2 = c div 4096 mod 64"
    and "q = c div 4096"
  have m: "0 \<le> m0" "m0 < 64" "0 \<le> m1" "m1 < 64" "0 \<le> m2" "m2 < 64"
    unfolding m0_def m1_def m2_def by (rule digit64_bounds)+
  consider "c < 0x80" | "0x80 \<le> c" "c < 0x800" | "0x800 \<le> c" "c < 0x10000" | "0x10000 \<le> c"
    by linarith
  then show ?thesis
  proof cases
    case 1
    with e show ?thesis by (auto simp: utf8_enc1_def utf8_dec1_def)
  next
    case 2
    then have "b = 0xC0 + c div 64" "bs = [0x80 + m0]" using e by (auto simp: utf8_enc1_def m0_def)
    moreover have "c = c div 64 * 64 + m0" unfolding m0_def by simp
    moreover from this have "2 \<le> c div 64" "c div 64 < 32" using 2 m by linarith+
    ultimately show ?thesis using m by (simp add: utf8_dec1_def second_ok_def is_cont_def)
  next
    case 3
    have b: "b = 0xE0 + q" "bs = [0x80 + m1, 0x80 + m0]"
      using e 3 r unfolding q_def m1_def m0_def by (auto simp: utf8_enc1_def)
    have d: "c = q * 4096 + m1 * 64 + m0" unfolding q_def m1_def m0_def by (rule digits64)
    have q: "0 \<le> q" "q < 16" using d 3 m by linarith+
    have "second_ok (0xE0 + q) (0x80 + m1)"
      unfolding second_ok_def is_cont_def using m r 3 d q by (intro conjI impI) linarith+
    then show ?thesis using b m q by (simp add: utf8_dec1_def is_cont_def) (use d in linarith)
  next
    case 4
    define h where "h = c div 262144"
    have b: "b = 0xF0 + h" "bs = [0x80 + m2, 0x80 + m1, 0x80 + m0]"
      using e 4 r unfolding h_def m2_def m1_def m0_def by (auto simp: utf8_enc1_def)
    have d: "c = h * 262144 + m2 * 4096 + m1 * 64 + m0"
      unfolding h_def m2_def m1_def m0_def by (rule digits64)
    have h: "0 \<le> h" "h < 5" using d r m by linarith+
    have "second_ok (0xF0 + h) (0x80 + m2)"
      unfolding second_ok_def is_cont_def using m r 4 d h by (intro conjI impI) linarith+
    then show ?thesis using b m h by (simp add: utf8_dec1_def is_cont_def) (use d in linarith)
  qed
qed

lemma utf8_ints_roundtrip:
  "(\<And>c. c \<in> set s \<Longrightarrow> is_scalar c) \<Longrightarrow>
   \<exists>bss. rmap utf8_enc1 s = Inr bss \<and> utf8_decode_ints (concat bss) = s
     \<and> (\<forall>b\<in>set (concat bss). 0 \<le> b \<and> b < 256)"
proof (induction s)
  case (Cons c s)
  then obtain bss where IH: "rmap utf8_enc1 s = Inr bss" "utf8_decode_ints (concat bss) = s"
    "\<forall>b\<in>set (concat bss). 0 \<le> b \<and> b < 256" by auto
  have c: "is_scalar c" using Cons.prems by simp
  then obtain b bs where b: "utf8_enc1 c = Inr (b # bs)" using utf8_enc1_total by blast
  have "utf8_dec1 b (bs @ concat bss) = (c, length bs)" using c b by (rule utf8_dec1_enc1)
  with IH b utf8_enc1_range [OF c b] show ?case by auto
qed simp

lemma utf8_roundtrip:
  assumes "\<And>c. c \<in> set s \<Longrightarrow> is_scalar c"
  shows "\<exists>b. utf8_encode s = Inr b \<and> utf8_decode b = s"
proof -
  obtain bss where b: "rmap utf8_enc1 s = Inr bss" "utf8_decode_ints (concat bss) = s"
    "\<forall>b\<in>set (concat bss). 0 \<le> b \<and> b < 256"
    using utf8_ints_roundtrip [of s] assms by blast
  have "map (uint \<circ> (word_of_int :: int \<Rightarrow> byte)) (concat bss) = concat bss"
    using b(3) by (intro map_idI) (auto simp: uint_word_of_int_byte)
  with b show ?thesis by (auto simp: utf8_encode_def utf8_decode_def)
qed

end
