(* ===== verification/Py_Text.thy ===== *)
theory Py_Text
  imports Py_Codec
begin

text \<open>
  The string methods the program uses: \<open>strip\<close>, \<open>upper\<close>, \<open>split\<close>, the conversion of an integer to
  its decimal digits and \<open>int\<close> of a string. The lemmas show that \<open>int\<close> reads back what \<open>str\<close>
  writes and that splitting undoes joining.
\<close>

section \<open>Characters\<close>

definition is_space :: "int \<Rightarrow> bool" where
  "is_space c \<longleftrightarrow>
     (9 \<le> c \<and> c \<le> 13) \<or> (0x1C \<le> c \<and> c \<le> 0x20) \<or> c = 0x85 \<or> c = 0xA0 \<or> c = 0x1680 \<or>
     (0x2000 \<le> c \<and> c \<le> 0x200A) \<or> c = 0x2028 \<or> c = 0x2029 \<or> c = 0x202F \<or> c = 0x205F \<or> c = 0x3000"

definition py_strip :: "pystr \<Rightarrow> pystr" where
  "py_strip s = rev (dropWhile is_space (rev (dropWhile is_space s)))"

text \<open>
  Upper case. Besides the ASCII letters only ten characters have an upper case form made of ASCII
  letters alone; every other character is kept, which changes no comparison with an ASCII name
  because its own upper case form is not ASCII either.
\<close>

definition upper1 :: "int \<Rightarrow> pystr" where
  "upper1 c =
     (if 97 \<le> c \<and> c \<le> 122 then [c - 32]
      else if c = 0xDF then lit ''SS''
      else if c = 0x131 then lit ''I''
      else if c = 0x17F then lit ''S''
      else if c = 0xFB00 then lit ''FF''
      else if c = 0xFB01 then lit ''FI''
      else if c = 0xFB02 then lit ''FL''
      else if c = 0xFB03 then lit ''FFI''
      else if c = 0xFB04 then lit ''FFL''
      else if c = 0xFB05 \<or> c = 0xFB06 then lit ''ST''
      else [c])"

definition py_upper :: "pystr \<Rightarrow> pystr" where
  "py_upper s = concat (map upper1 s)"

fun py_split :: "int \<Rightarrow> pystr \<Rightarrow> pystr list" where
  "py_split d [] = [[]]"
| "py_split d (c # cs) =
     (if c = d then [] # py_split d cs
      else case py_split d cs of [] \<Rightarrow> [[c]] | p # ps \<Rightarrow> (c # p) # ps)"

section \<open>Integers as text\<close>

fun digits_of :: "int \<Rightarrow> pystr" where
  "digits_of n = (if n < 10 then [48 + n] else digits_of (n div 10) @ [48 + n mod 10])"

declare digits_of.simps [simp del]

definition py_str_int :: "int \<Rightarrow> pystr" where
  "py_str_int i = (if i < 0 then 45 # digits_of (- i) else digits_of i)"

text \<open>The code points of the digit zero in the scripts that have decimal digits (Unicode 15).\<close>

definition nd_zeros :: "int list" where
  "nd_zeros =
     [0x660, 0x6F0, 0x7C0, 0x966, 0x9E6, 0xA66, 0xAE6, 0xB66, 0xBE6, 0xC66, 0xCE6, 0xD66, 0xDE6,
      0xE50, 0xED0, 0xF20, 0x1040, 0x1090, 0x17E0, 0x1810, 0x1946, 0x19D0, 0x1A80, 0x1A90, 0x1B50,
      0x1BB0, 0x1C40, 0x1C50, 0xA620, 0xA8D0, 0xA900, 0xA9D0, 0xA9F0, 0xAA50, 0xABF0, 0xFF10,
      0x104A0, 0x10D30, 0x11066, 0x110F0, 0x11136, 0x111D0, 0x112F0, 0x11450, 0x114D0, 0x11650,
      0x116C0, 0x11730, 0x118E0, 0x11950, 0x11C50, 0x11D50, 0x11DA0, 0x11F50, 0x16A60, 0x16AC0,
      0x16B50, 0x1D7CE, 0x1D7D8, 0x1D7E2, 0x1D7EC, 0x1D7F6, 0x1E140, 0x1E2F0, 0x1E4F0, 0x1E950,
      0x1FBF0]"

text \<open>Before \<open>int\<close> and \<open>float\<close> parse a string, spaces and decimal digits of any script become ASCII.\<close>

definition to_ascii_num :: "int \<Rightarrow> int" where
  "to_ascii_num c =
     (if c < 128 then c
      else if is_space c then 32
      else case find (\<lambda>z. z \<le> c \<and> c < z + 10) nd_zeros of Some z \<Rightarrow> 48 + (c - z) | None \<Rightarrow> 63)"

definition is_c_space :: "int \<Rightarrow> bool" where
  "is_c_space c \<longleftrightarrow> (9 \<le> c \<and> c \<le> 13) \<or> c = 32"

definition is_digit :: "int \<Rightarrow> bool" where
  "is_digit c \<longleftrightarrow> 48 \<le> c \<and> c \<le> 57"

definition c_strip :: "pystr \<Rightarrow> pystr" where
  "c_strip s = rev (dropWhile is_c_space (rev (dropWhile is_c_space s)))"

text \<open>Digits with single underscores between them.\<close>

fun parse_digits :: "int \<Rightarrow> bool \<Rightarrow> pystr \<Rightarrow> int option" where
  "parse_digits acc prev [] = (if prev then Some acc else None)"
| "parse_digits acc prev (c # cs) =
     (if is_digit c then parse_digits (acc * 10 + (c - 48)) True cs
      else if c = 95 \<and> prev then parse_digits acc False cs
      else None)"

text \<open>More than 4300 digits are refused.\<close>

definition parse_unsigned :: "pystr \<Rightarrow> int option" where
  "parse_unsigned s = (if 4300 < length (filter is_digit s) then None else parse_digits 0 False s)"

definition py_int_of_str :: "pystr \<Rightarrow> int res" where
  "py_int_of_str s =
     (case (case c_strip (map to_ascii_num s) of
              [] \<Rightarrow> None
            | c # cs \<Rightarrow> if c = 45 then map_option uminus (parse_unsigned cs)
                        else if c = 43 then parse_unsigned cs
                        else parse_unsigned (c # cs))
      of None \<Rightarrow> Inl ValueError | Some i \<Rightarrow> Inr i)"

section \<open>Digits\<close>

lemma digits_of_nonempty [simp]: "digits_of n \<noteq> []"
  by (subst digits_of.simps) simp

lemma digits_of_digit: "0 \<le> n \<Longrightarrow> c \<in> set (digits_of n) \<Longrightarrow> is_digit c"
proof (induction n rule: digits_of.induct)
  case (1 n)
  show ?case
  proof (cases "n < 10")
    case True
    with 1 show ?thesis by (simp add: digits_of.simps [of n] is_digit_def)
  next
    case False
    have "0 \<le> n mod 10" "n mod 10 < 10" by simp_all
    with 1 False show ?thesis by (auto simp: digits_of.simps [of n] is_digit_def)
  qed
qed

lemma parse_digits_append:
  "(\<And>c. c \<in> set xs \<Longrightarrow> is_digit c) \<Longrightarrow>
   parse_digits acc p (xs @ ys) = parse_digits (foldl (\<lambda>a c. a * 10 + (c - 48)) acc xs) (p \<or> xs \<noteq> []) ys"
  by (induction xs arbitrary: acc p) auto

lemma foldl_digits_of: "0 \<le> n \<Longrightarrow> foldl (\<lambda>a c. a * 10 + (c - 48)) 0 (digits_of n) = n"
proof (induction n rule: digits_of.induct)
  case (1 n)
  then show ?case by (cases "n < 10") (auto simp: digits_of.simps [of n])
qed

lemma parse_digits_of: "0 \<le> n \<Longrightarrow> parse_digits 0 False (digits_of n) = Some n"
  using parse_digits_append [of "digits_of n" 0 False "[]"] digits_of_digit [of n] foldl_digits_of [of n]
  by simp

lemma length_digits_of: "n < 10 ^ k \<Longrightarrow> 0 < k \<Longrightarrow> length (digits_of n) \<le> k"
proof (induction k arbitrary: n)
  case (Suc k)
  show ?case
  proof (cases "n < 10")
    case True
    then show ?thesis by (simp add: digits_of.simps [of n])
  next
    case False
    then have k: "0 < k" using Suc.prems by (cases k) auto
    have "n div 10 < 10 ^ k" using Suc.prems False by auto
    with Suc.IH k have "length (digits_of (n div 10)) \<le> k" by blast
    then show ?thesis using False by (simp add: digits_of.simps [of n])
  qed
qed simp

lemma dropWhile_none: "(\<And>c. c \<in> set s \<Longrightarrow> \<not> P c) \<Longrightarrow> dropWhile P s = s"
  by (cases s) auto

lemma py_strip_none: "(\<And>c. c \<in> set s \<Longrightarrow> \<not> is_space c) \<Longrightarrow> py_strip s = s"
  using dropWhile_none [of s is_space] dropWhile_none [of "rev s" is_space] by (simp add: py_strip_def)

lemma c_strip_none: "(\<And>c. c \<in> set s \<Longrightarrow> \<not> is_c_space c) \<Longrightarrow> c_strip s = s"
  using dropWhile_none [of s is_c_space] dropWhile_none [of "rev s" is_c_space] by (simp add: c_strip_def)

text \<open>\<open>int(str(n)) = n\<close>, for numbers below the digit limit.\<close>

lemma int_of_digits:
  assumes "0 \<le> n" "n < 10 ^ 4300"
  shows "py_int_of_str (digits_of n) = Inr n"
proof -
  have d: "is_digit c" if "c \<in> set (digits_of n)" for c
    using assms(1) that by (rule digits_of_digit)
  then have "map to_ascii_num (digits_of n) = digits_of n"
    by (intro map_idI) (auto simp: to_ascii_num_def is_digit_def dest!: d)
  moreover have "c_strip (digits_of n) = digits_of n"
    by (intro c_strip_none) (auto simp: is_c_space_def is_digit_def dest!: d)
  moreover obtain c cs where c: "digits_of n = c # cs" by (cases "digits_of n") auto
  moreover have "c \<noteq> 45" "c \<noteq> 43" using d [of c] c by (auto simp: is_digit_def)
  moreover have "parse_unsigned (digits_of n) = Some n"
  proof -
    have "length (filter is_digit (digits_of n)) \<le> length (digits_of n)" by simp
    also have "\<dots> \<le> 4300" by (rule length_digits_of [OF assms(2)]) simp
    finally show ?thesis using assms(1) by (simp add: parse_unsigned_def parse_digits_of)
  qed
  ultimately show ?thesis by (simp add: py_int_of_str_def)
qed

lemma py_split_none: "d \<notin> set s \<Longrightarrow> py_split d s = [s]"
  by (induction s) auto

lemma py_split_append: "d \<notin> set s \<Longrightarrow> py_split d (s @ d # r) = s # py_split d r"
  by (induction s) auto

end
