(* ===== verification/Py_Json.thy ===== *)
theory Py_Json
  imports Py_Text "HOL-Library.AList"
begin

text \<open>
  Dynamically typed values: what \<open>json.loads\<close> returns, and the operations of Python on them that the
  rule engine uses (\<open>get\<close>, truth, \<open>float\<close>, \<open>int\<close>, \<open>str\<close>, \<open>in\<close>, iteration), each with the exception
  it raises on a value of the wrong type; and the text of floats: \<open>repr\<close>, \<open>format(x, ".nf")\<close> and
  \<open>float(s)\<close>.
\<close>

datatype json =
    JNull | JBool bool | JInt int | JFloat pyfloat | JStr pystr | JList "json list"
  | JObj "(pystr \<times> json) list"

section \<open>Floats as text\<close>

definition pad_left :: "nat \<Rightarrow> pystr \<Rightarrow> pystr" where
  "pad_left n s = replicate (n - length s) 48 @ s"

text \<open>\<open>format(x, ".nf")\<close>.\<close>

definition fixed_digits :: "nat \<Rightarrow> rat \<Rightarrow> pystr" where
  "fixed_digits n r =
     (let ds = pad_left (n + 1) (digits_of (rhe (r * 10 ^ n))); k = length ds - n
      in take k ds @ (if n = 0 then [] else 46 # drop k ds))"

fun fmt_fixed :: "nat \<Rightarrow> pyfloat \<Rightarrow> pystr" where
  "fmt_fixed n NaN = lit ''nan''"
| "fmt_fixed n (Infty s) = (if s then lit ''-inf'' else lit ''inf'')"
| "fmt_fixed n NegZero = 45 # fixed_digits n 0"
| "fmt_fixed n (Fin r) = (if r < 0 then 45 # fixed_digits n (- r) else fixed_digits n r)"

text \<open>
  \<open>repr(x)\<close>: the shortest decimal that reads back as \<open>x\<close>, and of those the closest. \<open>dexp r\<close> is the
  exponent of the leading decimal digit of \<open>r\<close>.
\<close>

definition pow10 :: "int \<Rightarrow> rat" where
  "pow10 e = (if 0 \<le> e then 10 ^ nat e else 1 / 10 ^ nat (- e))"

fun dexp_from :: "nat \<Rightarrow> int \<Rightarrow> rat \<Rightarrow> int" where
  "dexp_from 0 e r = e"
| "dexp_from (Suc k) e r =
     (if r < pow10 e then dexp_from k (e - 1) r else if pow10 (e + 1) \<le> r then dexp_from k (e + 1) r else e)"

definition dexp :: "rat \<Rightarrow> int" where
  "dexp r = dexp_from 4 (flog2 r * 30103 div 100000) r"

definition reads_back :: "rat \<Rightarrow> int \<Rightarrow> rat \<Rightarrow> bool" where
  "reads_back r d u \<longleftrightarrow> rnd64 (of_int d * u) = Fin r"

fun shortest_from :: "nat \<Rightarrow> int \<Rightarrow> int \<Rightarrow> rat \<Rightarrow> int \<times> int" where
  "shortest_from 0 nd e r = (rhe (r / pow10 (e - 16)), e - 16)"
| "shortest_from (Suc k) nd e r =
     (let x = e - nd + 1; u = pow10 x; lo = \<lfloor>r / u\<rfloor>; near = rhe (r / u); far = lo + (lo + 1) - near
      in if reads_back r near u then (near, x)
         else if reads_back r far u then (far, x)
         else shortest_from k (nd + 1) e r)"

fun strip_zeros :: "int \<Rightarrow> int \<Rightarrow> int \<times> int" where
  "strip_zeros d x = (if d \<noteq> 0 \<and> d mod 10 = 0 then strip_zeros (d div 10) (x + 1) else (d, x))"

declare strip_zeros.simps [simp del]

definition exp_digits :: "int \<Rightarrow> pystr" where
  "exp_digits e = (if e < 0 then [45] else [43]) @ pad_left 2 (digits_of \<bar>e\<bar>)"

definition repr_pos :: "rat \<Rightarrow> pystr" where
  "repr_pos r =
     (let (d0, x0) = shortest_from 17 1 (dexp r) r; (d, x) = strip_zeros d0 x0;
          ds = digits_of d; n = int (length ds); e = n + x - 1
      in if -4 \<le> e \<and> e < 16 then
           (if e < 0 then lit ''0.'' @ replicate (nat (- e - 1)) 48 @ ds
            else if n \<le> e + 1 then ds @ replicate (nat (e + 1 - n)) 48 @ lit ''.0''
            else take (nat (e + 1)) ds @ 46 # drop (nat (e + 1)) ds)
         else
           take 1 ds @ (if n = 1 then [] else 46 # drop 1 ds) @ 101 # exp_digits e)"

fun float_repr :: "pyfloat \<Rightarrow> pystr" where
  "float_repr NaN = lit ''nan''"
| "float_repr (Infty s) = (if s then lit ''-inf'' else lit ''inf'')"
| "float_repr NegZero = lit ''-0.0''"
| "float_repr (Fin r) =
     (if r = 0 then lit ''0.0'' else if r < 0 then 45 # repr_pos (- r) else repr_pos r)"

text \<open>
  \<open>float(s)\<close>: surrounding white space, a sign, then \<open>inf\<close>, \<open>infinity\<close> or \<open>nan\<close> in any case, or decimal
  digits with an optional point and exponent; an underscore may stand between two digits.
\<close>

fun take_digits :: "bool \<Rightarrow> pystr \<Rightarrow> pystr \<times> pystr" where
  "take_digits prev (c # cs) =
     (if is_digit c then (case take_digits True cs of (ds, r) \<Rightarrow> (c # ds, r))
      else if c = 95 \<and> prev \<and> (case cs of d # _ \<Rightarrow> is_digit d | [] \<Rightarrow> False) then take_digits False cs
      else ([], c # cs))"
| "take_digits prev [] = ([], [])"

definition dec_value :: "pystr \<Rightarrow> int" where
  "dec_value ds = foldl (\<lambda>a c. a * 10 + (c - 48)) 0 ds"

fun parse_exponent :: "pystr \<Rightarrow> int option" where
  "parse_exponent [] = Some 0"
| "parse_exponent (c # cs) =
     (if c = 101 \<or> c = 69 then
        (let (neg, r) = (case cs of d # r \<Rightarrow> if d = 45 then (True, r) else if d = 43 then (False, r) else (False, cs)
                         | [] \<Rightarrow> (False, []));
             (ds, rest) = take_digits False r
         in if ds = [] \<or> rest \<noteq> [] then None else Some (if neg then - dec_value ds else dec_value ds))
      else None)"

definition parse_decimal :: "pystr \<Rightarrow> rat option" where
  "parse_decimal s =
     (let (ip, r1) = take_digits False s;
          (fp, r2) = (case r1 of c # r \<Rightarrow> if c = 46 then take_digits False r else ([], r1) | [] \<Rightarrow> ([], []))
      in if ip = [] \<and> fp = [] then None
         else case parse_exponent r2 of
           None \<Rightarrow> None
         | Some e \<Rightarrow> Some (of_int (dec_value (ip @ fp)) * pow10 (e - int (length fp))))"

definition py_float_of_str :: "pystr \<Rightarrow> pyfloat res" where
  "py_float_of_str s =
     (let a = c_strip (map to_ascii_num s);
          (neg, b) = (case a of c # r \<Rightarrow> if c = 45 then (True, r) else if c = 43 then (False, r) else (False, a)
                      | [] \<Rightarrow> (False, []));
          u = py_upper b
      in if u = lit ''INF'' \<or> u = lit ''INFINITY'' then Inr (Infty neg)
         else if u = lit ''NAN'' then Inr NaN
         else case parse_decimal b of
           None \<Rightarrow> Inl ValueError
         | Some r \<Rightarrow> Inr (if neg then fneg (rnd64 r) else rnd64 r))"

section \<open>Values\<close>

fun truthy :: "json \<Rightarrow> bool" where
  "truthy JNull = False"
| "truthy (JBool b) = b"
| "truthy (JInt i) = (i \<noteq> 0)"
| "truthy (JFloat x) = (\<not> fzero x)"
| "truthy (JStr s) = (s \<noteq> [])"
| "truthy (JList xs) = (xs \<noteq> [])"
| "truthy (JObj kvs) = (kvs \<noteq> [])"

text \<open>\<open>d.get(k)\<close> and \<open>d.get(k, dflt)\<close>: only a dict has the method.\<close>

fun py_get :: "json \<Rightarrow> pystr \<Rightarrow> json \<Rightarrow> json res" where
  "py_get (JObj kvs) k dflt = Inr (case map_of kvs k of Some v \<Rightarrow> v | None \<Rightarrow> dflt)"
| "py_get _ k dflt = Inl AttributeError"

text \<open>\<open>a or b\<close>.\<close>

definition py_or :: "json \<Rightarrow> json \<Rightarrow> json" where
  "py_or a b = (if truthy a then a else b)"

fun py_float :: "json \<Rightarrow> pyfloat res" where
  "py_float (JBool b) = Inr (if b then Fin 1 else Fin 0)"
| "py_float (JInt i) = float_of_int i"
| "py_float (JFloat x) = Inr x"
| "py_float (JStr s) = py_float_of_str s"
| "py_float _ = Inl TypeError"

fun py_int :: "json \<Rightarrow> int res" where
  "py_int (JBool b) = Inr (if b then 1 else 0)"
| "py_int (JInt i) = Inr i"
| "py_int (JFloat x) = int_of_float x"
| "py_int (JStr s) = py_int_of_str s"
| "py_int _ = Inl TypeError"

text \<open>What iterating over a value gives.\<close>

fun py_iter :: "json \<Rightarrow> json list res" where
  "py_iter (JList xs) = Inr xs"
| "py_iter (JObj kvs) = Inr (map (\<lambda>(k, v). JStr k) kvs)"
| "py_iter (JStr s) = Inr (map (\<lambda>c. JStr [c]) s)"
| "py_iter _ = Inl TypeError"

fun hashable :: "json \<Rightarrow> bool" where
  "hashable (JList _) = False"
| "hashable (JObj _) = False"
| "hashable _ = True"

text \<open>\<open>x in d\<close> for a dict with string keys.\<close>

fun py_in_keys :: "json \<Rightarrow> (pystr \<times> 'v) list \<Rightarrow> bool res" where
  "py_in_keys (JStr s) d = Inr (map_of d s \<noteq> None)"
| "py_in_keys x d = (if hashable x then Inr False else Inl TypeError)"

fun is_obj :: "json \<Rightarrow> bool" where
  "is_obj (JObj _) = True"
| "is_obj _ = False"

text \<open>
  \<open>str(x)\<close>, and \<open>repr\<close> of the elements of a container. Quotes and control characters of a quoted
  string are escaped; characters outside ASCII are taken as printable.
\<close>

definition hex_digit :: "int \<Rightarrow> int" where
  "hex_digit d = (if d < 10 then 48 + d else 87 + d)"

definition repr_char :: "int \<Rightarrow> int \<Rightarrow> pystr" where
  "repr_char q c =
     (if c = q \<or> c = 92 then [92, c]
      else if c = 10 then [92, 110] else if c = 13 then [92, 114] else if c = 9 then [92, 116]
      else if c < 32 \<or> c = 127 then [92, 120, hex_digit (c div 16), hex_digit (c mod 16)]
      else [c])"

definition repr_str :: "pystr \<Rightarrow> pystr" where
  "repr_str s = (let q = (if 39 \<in> set s \<and> 34 \<notin> set s then 34 else 39) in q # concat (map (repr_char q) s) @ [q])"

fun join_comma :: "pystr list \<Rightarrow> pystr" where
  "join_comma [] = []"
| "join_comma [s] = s"
| "join_comma (s # ss) = s @ lit '', '' @ join_comma ss"

fun py_repr :: "json \<Rightarrow> pystr" where
  "py_repr JNull = lit ''None''"
| "py_repr (JBool b) = (if b then lit ''True'' else lit ''False'')"
| "py_repr (JInt i) = py_str_int i"
| "py_repr (JFloat x) = float_repr x"
| "py_repr (JStr s) = repr_str s"
| "py_repr (JList xs) = 91 # join_comma (map py_repr xs) @ [93]"
| "py_repr (JObj kvs) = 123 # join_comma (map (\<lambda>(k, v). repr_str k @ lit '': '' @ py_repr v) kvs) @ [125]"

fun py_str :: "json \<Rightarrow> pystr" where
  "py_str (JStr s) = s"
| "py_str x = py_repr x"

section \<open>Checks of the text of floats\<close>

lemma repr_examples:
  "float_repr (rnd64 (1 / 10)) = lit ''0.1''" "float_repr (rnd64 10) = lit ''10.0''"
  "float_repr (rnd64 (5 / 2)) = lit ''2.5''" "float_repr (Fin (- 100)) = lit ''-100.0''"
  by code_simp+

lemma fixed_examples:
  "fmt_fixed 2 (rnd64 (1 / 8)) = lit ''0.12''" "fmt_fixed 1 (Fin (- 100)) = lit ''-100.0''"
  "fmt_fixed 0 (rnd64 (5 / 2)) = lit ''2''"
  by code_simp+

lemma float_examples:
  "py_float_of_str (lit ''15'') = Inr (Fin 15)" "py_float_of_str (lit '' 2.5e1 '') = Inr (Fin 25)"
  "py_float_of_str (lit ''1_0'') = Inr (Fin 10)" "py_float_of_str (lit ''x'') = Inl ValueError"
  by code_simp+

end
