(* ===== verification/Database.thy ===== *)
theory Database
  imports Py_Json "HOL-Library.List_Lexorder"
begin

text \<open>
  \<open>backend/app/db.py\<close>: the SQLite store. A table is the list of its rows in the order they were
  inserted; a query is a filter, a sort and a limit. An \<open>AUTOINCREMENT\<close> key is a counter beside its
  table. \<open>None\<close> is SQL's NULL; a NaN is stored as NULL and an integer outside 64 bits cannot be bound.

  Every operation runs over an environment that holds the tables and the wall clock: \<open>time_time\<close>
  reads the clock's next value. Text is assumed to be encodable. The histories and rules that the
  code keeps as JSON text are kept as values. The ISO texts that some rows carry for display are
  derived from a time by \<open>iso\<close> and left out.

  The lemmas show that ids are never reused, that an operation changes no row it is not about, that
  a new configuration is newer than every known one, that buffered telemetry reaches the table
  exactly once, and that the minute roll-up counts every row of its window exactly once.
\<close>

section \<open>SQL values\<close>

datatype sqlval = SNull | SInt int | SReal pyfloat | SText pystr

definition bind_int :: "int \<Rightarrow> int res" where
  "bind_int i = (if - (2 ^ 63) \<le> i \<and> i < 2 ^ 63 then Inr i else Inl OverflowError)"

definition bind_real :: "pyfloat \<Rightarrow> pyfloat option" where
  "bind_real x = (if x = NaN then None else Some x)"

fun bind_json :: "json \<Rightarrow> sqlval res" where
  "bind_json JNull = Inr SNull"
| "bind_json (JBool b) = Inr (SInt (if b then 1 else 0))"
| "bind_json (JInt i) = rbind (bind_int i) (\<lambda>j. Inr (SInt j))"
| "bind_json (JFloat x) = Inr (if x = NaN then SNull else SReal x)"
| "bind_json (JStr s) = Inr (SText s)"
| "bind_json _ = Inl ProgrammingError"

text \<open>\<open>ORDER BY key DESC\<close>, \<open>LIMIT n\<close> and the first row of a result.\<close>

definition order_desc :: "('a \<Rightarrow> 'k :: linorder) \<Rightarrow> 'a list \<Rightarrow> 'a list" where
  "order_desc key xs = rev (sort_key key xs)"

definition sql_limit :: "int \<Rightarrow> 'a list \<Rightarrow> 'a list" where
  "sql_limit n xs = (if n < 0 then xs else take (nat n) xs)"

fun first_row :: "'a list \<Rightarrow> 'a option" where
  "first_row [] = None"
| "first_row (x # xs) = Some x"

text \<open>\<open>UPDATE t SET f WHERE p\<close>.\<close>

definition sql_update :: "('a \<Rightarrow> bool) \<Rightarrow> ('a \<Rightarrow> 'a) \<Rightarrow> 'a list \<Rightarrow> 'a list" where
  "sql_update p f xs = map (\<lambda>x. if p x then f x else x) xs"

section \<open>Times as text\<close>

text \<open>
  \<open>iso\<close>: the UTC date and time of a timestamp with milliseconds. The microseconds are rounded half to
  even, the milliseconds cut off; a year outside 1 to 9999 raises. The date of a day number is
  computed in the proleptic Gregorian calendar.
\<close>

definition civil :: "int \<Rightarrow> int \<times> int \<times> int" where
  "civil days =
     (let z = days + 719468; era = z div 146097; doe = z mod 146097;
          yoe = (doe - doe div 1460 + doe div 36524 - doe div 146096) div 365;
          doy = doe - (365 * yoe + yoe div 4 - yoe div 100);
          mp = (5 * doy + 2) div 153;
          m = (if mp < 10 then mp + 3 else mp - 9)
      in (yoe + era * 400 + (if m \<le> 2 then 1 else 0), m, doy - (153 * mp + 2) div 5 + 1))"

definition pad_num :: "nat \<Rightarrow> int \<Rightarrow> pystr" where
  "pad_num n i = pad_left n (digits_of i)"

definition iso_parts :: "int \<Rightarrow> int \<Rightarrow> pystr res" where
  "iso_parts secs ms =
     (let (y, m, d) = civil (secs div 86400); t = secs mod 86400
      in if y < 1 \<or> 9999 < y then Inl ValueError
         else Inr (pad_num 4 y @ lit ''-'' @ pad_num 2 m @ lit ''-'' @ pad_num 2 d @ lit ''T''
           @ pad_num 2 (t div 3600) @ lit '':'' @ pad_num 2 (t div 60 mod 60) @ lit '':'' @ pad_num 2 (t mod 60)
           @ lit ''.'' @ pad_num 3 ms @ lit ''Z''))"

definition iso :: "pyfloat \<Rightarrow> pystr res" where
  "iso ts =
     rbind (int_of_float ts) (\<lambda>w.
     let us = rhe (fval (fmul (fsub ts (Fin (of_int w))) (Fin 1000000)));
         (secs, u) = (if us \<ge> 1000000 then (w + 1, us - 1000000) else if us < 0 then (w - 1, us + 1000000) else (w, us))
     in iso_parts secs (u div 1000))"

lemma iso_example: "iso (Fin 1700000000) = Inr (lit ''2023-11-14T22:13:20.000Z'')"
  by code_simp

section \<open>Tables\<close>

record Device =
  d_id :: pystr
  d_hw_model :: "pystr option"
  d_fw_version :: "pystr option"
  d_fw_version_u32 :: "int option"
  d_state :: "int option"
  d_online :: bool
  d_first_seen :: pyfloat
  d_last_seen :: "pyfloat option"
  d_last_hello :: "pyfloat option"
  d_last_heartbeat :: "pyfloat option"
  d_telemetry_hz :: "int option"
  d_uptime_s :: "int option"
  d_reconnects :: int
  d_reported_config :: int
  d_lat :: "pyfloat option"
  d_lon :: "pyfloat option"

record TelRow =
  t_dev :: pystr
  t_ts :: pyfloat
  t_seq :: int
  t_rpm :: "pyfloat option"
  t_temp_c :: "pyfloat option"
  t_current_a :: "pyfloat option"
  t_voltage_v :: "pyfloat option"
  t_vibration_g :: "pyfloat option"
  t_speed_kph :: "pyfloat option"
  t_lat :: "pyfloat option"
  t_lon :: "pyfloat option"
  t_fault_flags :: int
  t_state :: int

text \<open>The average, minimum and maximum of a metric.\<close>

type_synonym agg = "pyfloat option \<times> pyfloat option \<times> pyfloat option"

record Rollup =
  r_dev :: pystr
  r_bucket :: int
  r_n :: int
  r_metrics :: "agg list"
  r_fault_flags :: int
  r_state :: int
  r_lat :: "pyfloat option"
  r_lon :: "pyfloat option"

record LogRow =
  l_id :: int
  l_dev :: pystr
  l_ts :: pyfloat
  l_device_ts_ms :: "int option"
  l_level :: int
  l_message :: pystr

record Alert =
  a_id :: int
  a_dev :: pystr
  a_rule :: pystr
  a_metric :: "pystr option"
  a_value :: "pyfloat option"
  a_severity :: sqlval
  a_status :: pystr
  a_message :: pystr
  a_opened_at :: pyfloat
  a_acked_at :: "pyfloat option"
  a_resolved_at :: "pyfloat option"
  a_updated_at :: "pyfloat option"

record Config =
  c_id :: int
  c_dev :: pystr
  c_version :: int
  c_telemetry_hz :: int
  c_log_level :: int
  c_rpm_limit :: "pyfloat option"
  c_temp_limit_c :: "pyfloat option"
  c_current_limit_a :: "pyfloat option"
  c_created_at :: pyfloat
  c_ack_status :: pystr
  c_acked_at :: "pyfloat option"

record Firmware =
  f_version :: pystr
  f_notes :: pystr
  f_size_bytes :: int
  f_crc :: int
  f_created_at :: pyfloat

record FwJob =
  j_id :: int
  j_dev :: pystr
  j_target :: pystr
  j_from :: "pystr option"
  j_status :: pystr
  j_created_at :: pyfloat
  j_updated_at :: pyfloat
  j_history :: "(pystr \<times> pyfloat) list"

record Injection =
  i_id :: int
  i_dev :: pystr
  i_set_flags :: int
  i_clear_flags :: int
  i_duration_ms :: int
  i_created_at :: pyfloat
  i_ack_flags :: "int option"
  i_acked_at :: "pyfloat option"

record StatRow =
  s_dev :: pystr
  s_frames_rx :: int
  s_bad_crc :: int
  s_seq_gaps :: int
  s_loss_pct :: pyfloat
  s_reconnects :: int
  s_tcp_connected :: bool
  s_last_seen :: "pyfloat option"
  s_last_seq :: "int option"
  s_updated_at :: pyfloat

record Diagnosis =
  g_id :: int
  g_dev :: pystr
  g_created_at :: pyfloat
  g_model :: pystr
  g_result :: json
  g_context :: json

record DB =
  devices :: "Device list"
  telemetry_t :: "TelRow list"
  rollup_t :: "Rollup list"
  logs_t :: "LogRow list"
  log_id :: int
  alerts_t :: "Alert list"
  alert_id :: int
  configs_t :: "Config list"
  config_id :: int
  firmware_t :: "Firmware list"
  jobs_t :: "FwJob list"
  job_id :: int
  injections_t :: "Injection list"
  injection_id :: int
  rules_t :: "json option"
  stats_t :: "StatRow list"
  diagnoses_t :: "Diagnosis list"
  diagnosis_id :: int
  rollup_upto :: "int option"
  tel_buf :: "TelRow list"
  retention_h :: pyfloat

definition DB_init :: "pyfloat \<Rightarrow> DB" where
  "DB_init h =
     \<lparr>devices = [], telemetry_t = [], rollup_t = [], logs_t = [], log_id = 0, alerts_t = [], alert_id = 0,
      configs_t = [], config_id = 0, firmware_t = [], jobs_t = [], job_id = 0, injections_t = [],
      injection_id = 0, rules_t = None, stats_t = [], diagnoses_t = [], diagnosis_id = 0,
      rollup_upto = None, tel_buf = [], retention_h = h\<rparr>"

text \<open>The environment every component runs in: the readings of the clock and the database.\<close>

record env =
  wclock :: "nat \<Rightarrow> pyfloat"
  wreads :: nat
  wdb :: DB

definition time_time :: "('a env_scheme, pyfloat) pym" where
  "time_time = bind_pym (gets (\<lambda>s. wclock s (wreads s))) (\<lambda>t.
     seq_pym (modify (\<lambda>s. s\<lparr>wreads := wreads s + 1\<rparr>)) (ret t))"

definition db_get :: "(DB \<Rightarrow> 'b) \<Rightarrow> ('a env_scheme, 'b) pym" where
  "db_get f = gets (\<lambda>s. f (wdb s))"

definition db_mod :: "(DB \<Rightarrow> DB) \<Rightarrow> ('a env_scheme, unit) pym" where
  "db_mod f = modify (\<lambda>s. s\<lparr>wdb := f (wdb s)\<rparr>)"

section \<open>Devices\<close>

text \<open>The columns a call of \<open>upsert_device\<close> sets.\<close>

datatype devcol =
    CHwModel pystr | CFwVersion pystr | CFwU32 int | CState int | CLastSeen pyfloat
  | CLastHello pyfloat | CLastHeartbeat pyfloat | CTelemetryHz int | CUptime int | CReconnects int
  | CReportedConfig int | CLat pyfloat | CLon pyfloat

fun set_devcol :: "devcol \<Rightarrow> Device \<Rightarrow> Device" where
  "set_devcol (CHwModel x) d = d\<lparr>d_hw_model := Some x\<rparr>"
| "set_devcol (CFwVersion x) d = d\<lparr>d_fw_version := Some x\<rparr>"
| "set_devcol (CFwU32 x) d = d\<lparr>d_fw_version_u32 := Some x\<rparr>"
| "set_devcol (CState x) d = d\<lparr>d_state := Some x\<rparr>"
| "set_devcol (CLastSeen x) d = d\<lparr>d_last_seen := bind_real x\<rparr>"
| "set_devcol (CLastHello x) d = d\<lparr>d_last_hello := bind_real x\<rparr>"
| "set_devcol (CLastHeartbeat x) d = d\<lparr>d_last_heartbeat := bind_real x\<rparr>"
| "set_devcol (CTelemetryHz x) d = d\<lparr>d_telemetry_hz := Some x\<rparr>"
| "set_devcol (CUptime x) d = d\<lparr>d_uptime_s := Some x\<rparr>"
| "set_devcol (CReconnects x) d = d\<lparr>d_reconnects := x\<rparr>"
| "set_devcol (CReportedConfig x) d = d\<lparr>d_reported_config := x\<rparr>"
| "set_devcol (CLat x) d = d\<lparr>d_lat := bind_real x\<rparr>"
| "set_devcol (CLon x) d = d\<lparr>d_lon := bind_real x\<rparr>"

fun bind_devcol :: "devcol \<Rightarrow> int res" where
  "bind_devcol (CFwU32 x) = bind_int x"
| "bind_devcol (CState x) = bind_int x"
| "bind_devcol (CTelemetryHz x) = bind_int x"
| "bind_devcol (CUptime x) = bind_int x"
| "bind_devcol (CReconnects x) = bind_int x"
| "bind_devcol (CReportedConfig x) = bind_int x"
| "bind_devcol _ = Inr 0"

fun is_last_seen :: "devcol \<Rightarrow> bool" where
  "is_last_seen (CLastSeen _) = True"
| "is_last_seen _ = False"

text \<open>A row as an \<open>INSERT\<close> with no other columns makes it.\<close>

definition new_device :: "pystr \<Rightarrow> pyfloat \<Rightarrow> Device" where
  "new_device dev now =
     \<lparr>d_id = dev, d_hw_model = None, d_fw_version = None, d_fw_version_u32 = None, d_state = Some 0,
      d_online = False, d_first_seen = now, d_last_seen = None, d_last_hello = None,
      d_last_heartbeat = None, d_telemetry_hz = None, d_uptime_s = None, d_reconnects = 0,
      d_reported_config = 0, d_lat = None, d_lon = None\<rparr>"

definition get_device :: "pystr \<Rightarrow> DB \<Rightarrow> Device option" where
  "get_device dev db = first_row (filter (\<lambda>d. d_id d = dev) (devices db))"

definition upsert_device :: "pystr \<Rightarrow> devcol list \<Rightarrow> ('a env_scheme, unit) pym" where
  "upsert_device dev cols0 =
     bind_pym time_time (\<lambda>now.
     let cols = (if list_ex is_last_seen cols0 then cols0 else cols0 @ [CLastSeen now]) in
     bind_pym time_time (\<lambda>first.
     seq_pym (of_res (rmap bind_devcol cols))
     (db_mod (\<lambda>db.
        case get_device dev db of
          None \<Rightarrow> db\<lparr>devices := devices db @ [fold set_devcol cols (new_device dev first)]\<rparr>
        | Some _ \<Rightarrow> db\<lparr>devices := sql_update (\<lambda>d. d_id d = dev) (fold set_devcol cols) (devices db)\<rparr>))))"

definition list_devices :: "DB \<Rightarrow> Device list" where
  "list_devices db = sort_key d_id (devices db)"

definition set_online :: "pystr \<Rightarrow> bool \<Rightarrow> ('a env_scheme, unit) pym" where
  "set_online dev b =
     db_mod (\<lambda>db. db\<lparr>devices := sql_update (\<lambda>d. d_id d = dev) (\<lambda>d. d\<lparr>d_online := b\<rparr>) (devices db)\<rparr>)"

section \<open>Telemetry\<close>

text \<open>The row \<open>buffer_telemetry\<close> builds; a NaN becomes NULL when the row is inserted.\<close>

definition buffer_telemetry :: "TelRow \<Rightarrow> ('a env_scheme, unit) pym" where
  "buffer_telemetry row = db_mod (\<lambda>db. db\<lparr>tel_buf := tel_buf db @ [row]\<rparr>)"

text \<open>
  \<open>flush\<close> has two critical sections: under \<open>_buf_lock\<close> it takes the buffer, under \<open>lock\<close> it inserts the rows. What other threads do
  between the two is the subject of \<open>Telemetry_Store\<close>; \<open>flush\<close> is the call that no other thread interrupts, on a database that
  accepts the rows.
\<close>

definition take_buffer :: "('a env_scheme, TelRow list) pym" where
  "take_buffer = bind_pym (db_get tel_buf) (\<lambda>rows. seq_pym (db_mod (\<lambda>db. db\<lparr>tel_buf := []\<rparr>)) (ret rows))"

definition insert_rows :: "TelRow list \<Rightarrow> ('a env_scheme, int) pym" where
  "insert_rows rows =
     (if rows = [] then ret 0
      else seq_pym (db_mod (\<lambda>db. db\<lparr>telemetry_t := telemetry_t db @ rows\<rparr>)) (ret (int (length rows))))"

definition flush :: "('a env_scheme, int) pym" where
  "flush = bind_pym take_buffer insert_rows"

text \<open>The raw query of \<open>telemetry\<close> and \<open>latest_telemetry\<close>; ties of the time are in no particular order.\<close>

definition clamp_limit :: "int \<Rightarrow> int" where
  "clamp_limit n = max 1 (min n 20000)"

definition telemetry_raw :: "pystr \<Rightarrow> pyfloat \<Rightarrow> pyfloat \<Rightarrow> int \<Rightarrow> DB \<Rightarrow> TelRow list" where
  "telemetry_raw dev since until n db =
     rev (sql_limit (clamp_limit n) (order_desc (\<lambda>r. fval (t_ts r))
       (filter (\<lambda>r. t_dev r = dev \<and> fle since (t_ts r) \<and> fless (t_ts r) until) (telemetry_t db))))"

definition latest_telemetry :: "pystr \<Rightarrow> DB \<Rightarrow> TelRow option" where
  "latest_telemetry dev db =
     first_row (order_desc (\<lambda>r. fval (t_ts r)) (filter (\<lambda>r. t_dev r = dev) (telemetry_t db)))"

section \<open>Roll-up and retention\<close>

text \<open>
  SQL aggregates. \<open>MIN\<close> and \<open>MAX\<close> skip NULLs; \<open>AVG\<close> depends on how SQLite sums, so it is a parameter
  of the roll-up, used on the values that are not NULL.
\<close>

fun non_null :: "'a option list \<Rightarrow> 'a list" where
  "non_null [] = []"
| "non_null (None # xs) = non_null xs"
| "non_null (Some x # xs) = x # non_null xs"

fun sql_min :: "pyfloat list \<Rightarrow> pyfloat option" where
  "sql_min [] = None"
| "sql_min (x # xs) = Some (foldl (\<lambda>m y. if fless y m then y else m) x xs)"

fun sql_max :: "pyfloat list \<Rightarrow> pyfloat option" where
  "sql_max [] = None"
| "sql_max (x # xs) = Some (foldl (\<lambda>m y. if fless m y then y else m) x xs)"

fun sql_max_int :: "int list \<Rightarrow> int" where
  "sql_max_int [] = 0"
| "sql_max_int (x # xs) = foldl max x xs"

definition aggregate :: "(pyfloat list \<Rightarrow> pyfloat option) \<Rightarrow> pyfloat option list \<Rightarrow> agg" where
  "aggregate avg xs = (let ys = non_null xs in (avg ys, sql_min ys, sql_max ys))"

text \<open>\<open>CAST(ts/60 AS INTEGER)*60\<close>.\<close>

definition bucket_of :: "pyfloat \<Rightarrow> int" where
  "bucket_of ts =
     (case fdiv ts (Fin 60) of
        Inr q \<Rightarrow> (case int_of_float q of Inr i \<Rightarrow> i * 60 | Inl _ \<Rightarrow> 0)
      | Inl _ \<Rightarrow> 0)"

definition rollup_row :: "(pyfloat list \<Rightarrow> pyfloat option) \<Rightarrow> pystr \<times> int \<Rightarrow> TelRow list \<Rightarrow> Rollup" where
  "rollup_row avg k rows =
     \<lparr>r_dev = fst k, r_bucket = snd k, r_n = int (length rows),
      r_metrics = map (\<lambda>m. aggregate avg (map m rows))
        [t_rpm, t_temp_c, t_current_a, t_voltage_v, t_vibration_g, t_speed_kph],
      r_fault_flags = sql_max_int (map t_fault_flags rows), r_state = sql_max_int (map t_state rows),
      r_lat = avg (non_null (map t_lat rows)), r_lon = avg (non_null (map t_lon rows))\<rparr>"

definition tel_key :: "TelRow \<Rightarrow> pystr \<times> int" where
  "tel_key r = (t_dev r, bucket_of (t_ts r))"

text \<open>\<open>GROUP BY device_id, 2\<close>: one row per key that occurs.\<close>

definition group_rows :: "(pyfloat list \<Rightarrow> pyfloat option) \<Rightarrow> TelRow list \<Rightarrow> Rollup list" where
  "group_rows avg rows =
     map (\<lambda>k. rollup_row avg k (filter (\<lambda>r. tel_key r = k) rows)) (remdups (map tel_key rows))"

text \<open>\<open>INSERT OR REPLACE\<close> on the key (device, bucket).\<close>

definition replace_rollups :: "Rollup list \<Rightarrow> Rollup list \<Rightarrow> Rollup list" where
  "replace_rollups old new =
     filter (\<lambda>r. \<not> list_ex (\<lambda>q. r_dev q = r_dev r \<and> r_bucket q = r_bucket r) new) old @ new"

definition rollup_window :: "DB \<Rightarrow> int \<Rightarrow> int \<Rightarrow> TelRow list" where
  "rollup_window db start end' =
     filter (\<lambda>r. fle (Fin (of_int start)) (t_ts r) \<and> fless (t_ts r) (Fin (of_int end'))) (telemetry_t db)"

text \<open>\<open>rollup(upto)\<close>, with \<open>upto\<close> given; the caller without it reads the clock.\<close>

definition rollup_at :: "(pyfloat list \<Rightarrow> pyfloat option) \<Rightarrow> pyfloat \<Rightarrow> ('a env_scheme, int) pym" where
  "rollup_at avg up =
     bind_pym (db_get rollup_upto) (\<lambda>lst.
     let start = (case lst of Some v \<Rightarrow> v | None \<Rightarrow> 0) in
     bind_pym (of_res (int_of_float up)) (\<lambda>u.
     let end' = (u div 60) * 60 in
     if end' \<le> start then ret 0
     else bind_pym (db_get (\<lambda>db. group_rows avg (rollup_window db start end'))) (\<lambda>new.
       seq_pym (db_mod (\<lambda>db. db\<lparr>rollup_t := replace_rollups (rollup_t db) new, rollup_upto := Some end'\<rparr>))
       (ret (int (length new))))))"

definition rollup :: "(pyfloat list \<Rightarrow> pyfloat option) \<Rightarrow> pyfloat option \<Rightarrow> ('a env_scheme, int) pym" where
  "rollup avg up =
     (case up of
        Some u \<Rightarrow> if fzero u then bind_pym time_time (rollup_at avg) else rollup_at avg u
      | None \<Rightarrow> bind_pym time_time (rollup_at avg))"

definition prune :: "('a env_scheme, int) pym" where
  "prune =
     bind_pym time_time (\<lambda>now.
     bind_pym (db_get retention_h) (\<lambda>h.
     let cutoff = fsub now (fmul h (Fin 3600)) in
     bind_pym (db_get (\<lambda>db. length (filter (\<lambda>r. fless (t_ts r) cutoff) (telemetry_t db)))) (\<lambda>n.
     seq_pym (db_mod (\<lambda>db. db\<lparr>telemetry_t := filter (\<lambda>r. \<not> fless (t_ts r) cutoff) (telemetry_t db)\<rparr>))
     (seq_pym (db_mod (\<lambda>db. db\<lparr>logs_t :=
         filter (\<lambda>r. \<not> fless (l_ts r) (fsub cutoff (Fin (6 * 86400)))) (logs_t db)\<rparr>))
     (ret (int n))))))"

section \<open>Logs\<close>

definition add_log :: "pystr \<Rightarrow> int \<Rightarrow> pystr \<Rightarrow> int option \<Rightarrow> ('a env_scheme, LogRow) pym" where
  "add_log dev lvl msg dts =
     bind_pym time_time (\<lambda>ts.
     seq_pym (of_res (rmap bind_int (lvl # (case dts of Some t \<Rightarrow> [t] | None \<Rightarrow> []))))
     (bind_pym (db_get (\<lambda>db. log_id db + 1)) (\<lambda>i.
      let row = \<lparr>l_id = i, l_dev = dev, l_ts = ts, l_device_ts_ms = dts, l_level = lvl, l_message = msg\<rparr> in
      seq_pym (db_mod (\<lambda>db. db\<lparr>log_id := i, logs_t := logs_t db @ [row]\<rparr>)) (ret row))))"

definition logs :: "pystr \<Rightarrow> int \<Rightarrow> DB \<Rightarrow> LogRow list" where
  "logs dev n db = sql_limit n (order_desc l_id (filter (\<lambda>r. l_dev r = dev) (logs_t db)))"

section \<open>Alerts\<close>

definition is_open :: "Alert \<Rightarrow> bool" where
  "is_open a \<longleftrightarrow> a_status a = lit ''open'' \<or> a_status a = lit ''acked''"

definition open_alert :: "pystr \<Rightarrow> pystr \<Rightarrow> DB \<Rightarrow> Alert option" where
  "open_alert dev rule db =
     first_row (order_desc a_id (filter (\<lambda>a. a_dev a = dev \<and> a_rule a = rule \<and> is_open a) (alerts_t db)))"

definition get_alert :: "int \<Rightarrow> DB \<Rightarrow> Alert option" where
  "get_alert i db = first_row (filter (\<lambda>a. a_id a = i) (alerts_t db))"

definition create_alert ::
  "pystr \<Rightarrow> pystr \<Rightarrow> pystr option \<Rightarrow> pyfloat option \<Rightarrow> json \<Rightarrow> pystr \<Rightarrow> ('a env_scheme, Alert option) pym" where
  "create_alert dev rule metric value severity message =
     bind_pym time_time (\<lambda>now.
     bind_pym (of_res (bind_json severity)) (\<lambda>sev.
     bind_pym (db_get (\<lambda>db. alert_id db + 1)) (\<lambda>i.
     seq_pym (db_mod (\<lambda>db. db\<lparr>alert_id := i, alerts_t := alerts_t db @
        [\<lparr>a_id = i, a_dev = dev, a_rule = rule, a_metric = metric,
          a_value = (case value of Some x \<Rightarrow> bind_real x | None \<Rightarrow> None), a_severity = sev,
          a_status = lit ''open'', a_message = message, a_opened_at = now, a_acked_at = None,
          a_resolved_at = None, a_updated_at = Some now\<rparr>]\<rparr>))
     (db_get (get_alert i)))))"

text \<open>The columns a call of \<open>update_alert\<close> sets.\<close>

datatype alcol = AStatus pystr | AAckedAt pyfloat | AResolvedAt pyfloat

fun set_alcol :: "alcol \<Rightarrow> Alert \<Rightarrow> Alert" where
  "set_alcol (AStatus x) a = a\<lparr>a_status := x\<rparr>"
| "set_alcol (AAckedAt x) a = a\<lparr>a_acked_at := bind_real x\<rparr>"
| "set_alcol (AResolvedAt x) a = a\<lparr>a_resolved_at := bind_real x\<rparr>"

definition update_alert :: "int \<Rightarrow> alcol list \<Rightarrow> ('a env_scheme, unit) pym" where
  "update_alert i cols =
     bind_pym time_time (\<lambda>now.
     db_mod (\<lambda>db. db\<lparr>alerts_t := sql_update (\<lambda>a. a_id a = i)
       (\<lambda>a. (fold set_alcol cols a)\<lparr>a_updated_at := bind_real now\<rparr>) (alerts_t db)\<rparr>))"

definition alerts :: "pystr option \<Rightarrow> pystr \<Rightarrow> int \<Rightarrow> DB \<Rightarrow> Alert list" where
  "alerts dev status n db =
     sql_limit n (order_desc a_id (filter (\<lambda>a.
       (case dev of Some d \<Rightarrow> d = [] \<or> a_dev a = d | None \<Rightarrow> True) \<and>
       (if status = lit ''open'' then is_open a
        else if status = lit ''resolved'' \<or> status = lit ''acked'' then a_status a = status
        else True)) (alerts_t db)))"

definition open_alert_counts :: "DB \<Rightarrow> (pystr \<times> int) list" where
  "open_alert_counts db =
     map (\<lambda>d. (d, int (length (filter (\<lambda>a. is_open a \<and> a_dev a = d) (alerts_t db)))))
       (remdups (map a_dev (filter is_open (alerts_t db))))"

section \<open>Configuration\<close>

definition current_config :: "pystr \<Rightarrow> DB \<Rightarrow> Config option" where
  "current_config dev db = first_row (order_desc c_version (filter (\<lambda>c. c_dev c = dev) (configs_t db)))"

definition config_history :: "pystr \<Rightarrow> int \<Rightarrow> DB \<Rightarrow> Config list" where
  "config_history dev n db = sql_limit n (order_desc c_version (filter (\<lambda>c. c_dev c = dev) (configs_t db)))"

text \<open>The next version: one more than the newest stored one and than what the device reports.\<close>

definition next_version :: "pystr \<Rightarrow> DB \<Rightarrow> int" where
  "next_version dev db =
     max (case current_config dev db of Some c \<Rightarrow> c_version c | None \<Rightarrow> 0)
         (case get_device dev db of Some d \<Rightarrow> d_reported_config d | None \<Rightarrow> 0) + 1"

definition new_config ::
  "pystr \<Rightarrow> int \<Rightarrow> int \<Rightarrow> pyfloat \<Rightarrow> pyfloat \<Rightarrow> pyfloat \<Rightarrow> ('a env_scheme, Config option) pym" where
  "new_config dev hz ll rpm temp cur =
     bind_pym (db_get (next_version dev)) (\<lambda>version.
     bind_pym time_time (\<lambda>now.
     seq_pym (of_res (rmap bind_int [version, hz, ll]))
     (bind_pym (db_get (\<lambda>db. list_ex (\<lambda>c. c_dev c = dev \<and> c_version c = version) (configs_t db))) (\<lambda>dup.
      if dup then throw IntegrityError
      else seq_pym (db_mod (\<lambda>db. db\<lparr>config_id := config_id db + 1, configs_t := configs_t db @
             [\<lparr>c_id = config_id db + 1, c_dev = dev, c_version = version, c_telemetry_hz = hz,
               c_log_level = ll, c_rpm_limit = bind_real rpm, c_temp_limit_c = bind_real temp,
               c_current_limit_a = bind_real cur,
               c_created_at = now, c_ack_status = lit ''pending'', c_acked_at = None\<rparr>]\<rparr>))
           (db_get (current_config dev))))))"

definition ack_config :: "pystr \<Rightarrow> int \<Rightarrow> pystr \<Rightarrow> ('a env_scheme, unit) pym" where
  "ack_config dev version status =
     bind_pym time_time (\<lambda>now.
     seq_pym (of_res (bind_int version))
     (db_mod (\<lambda>db. db\<lparr>configs_t := sql_update (\<lambda>c. c_dev c = dev \<and> c_version c = version)
        (\<lambda>c. c\<lparr>c_ack_status := status, c_acked_at := Some now\<rparr>) (configs_t db)\<rparr>)))"

text \<open>The \<open>UPDATE\<close> that \<open>push_config\<close> of \<open>ingest.py\<close> issues.\<close>

definition set_ack_status :: "pystr \<Rightarrow> int \<Rightarrow> pystr \<Rightarrow> ('a env_scheme, unit) pym" where
  "set_ack_status dev version status =
     db_mod (\<lambda>db. db\<lparr>configs_t := sql_update (\<lambda>c. c_dev c = dev \<and> c_version c = version)
        (\<lambda>c. c\<lparr>c_ack_status := status\<rparr>) (configs_t db)\<rparr>)"

section \<open>Firmware\<close>

definition firmware_list :: "DB \<Rightarrow> Firmware list" where
  "firmware_list db = order_desc (\<lambda>f. fval (f_created_at f)) (firmware_t db)"

definition firmware_get :: "pystr \<Rightarrow> DB \<Rightarrow> Firmware option" where
  "firmware_get v db = first_row (filter (\<lambda>f. f_version f = v) (firmware_t db))"

definition firmware_add :: "pystr \<Rightarrow> pystr \<Rightarrow> int \<Rightarrow> int \<Rightarrow> ('a env_scheme, Firmware option) pym" where
  "firmware_add version notes sz crc =
     bind_pym time_time (\<lambda>now.
     seq_pym (of_res (rmap bind_int [sz, crc]))
     (seq_pym (db_mod (\<lambda>db. db\<lparr>firmware_t := filter (\<lambda>f. f_version f \<noteq> version) (firmware_t db) @
        [\<lparr>f_version = version, f_notes = notes, f_size_bytes = sz, f_crc = crc, f_created_at = now\<rparr>]\<rparr>))
      (db_get (firmware_get version))))"

definition fw_job_get :: "int \<Rightarrow> DB \<Rightarrow> FwJob option" where
  "fw_job_get i db = first_row (filter (\<lambda>j. j_id j = i) (jobs_t db))"

definition fw_job_latest :: "pystr \<Rightarrow> DB \<Rightarrow> FwJob option" where
  "fw_job_latest dev db = first_row (order_desc j_id (filter (\<lambda>j. j_dev j = dev) (jobs_t db)))"

definition fw_job_create :: "pystr \<Rightarrow> pystr \<Rightarrow> pystr option \<Rightarrow> ('a env_scheme, FwJob option) pym" where
  "fw_job_create dev target from =
     bind_pym time_time (\<lambda>now.
     bind_pym (db_get (\<lambda>db. job_id db + 1)) (\<lambda>i.
     seq_pym (db_mod (\<lambda>db. db\<lparr>job_id := i, jobs_t := jobs_t db @
        [\<lparr>j_id = i, j_dev = dev, j_target = target, j_from = from, j_status = lit ''pending'',
          j_created_at = now, j_updated_at = now, j_history = [(lit ''pending'', now)]\<rparr>]\<rparr>))
     (db_get (fw_job_get i))))"

definition fw_job_update :: "int \<Rightarrow> pystr \<Rightarrow> ('a env_scheme, unit) pym" where
  "fw_job_update i status =
     bind_pym (db_get (fw_job_get i)) (\<lambda>job.
     case job of
       None \<Rightarrow> ret ()
     | Some j \<Rightarrow>
         bind_pym time_time (\<lambda>now.
         db_mod (\<lambda>db. db\<lparr>jobs_t := sql_update (\<lambda>k. j_id k = i)
           (\<lambda>k. k\<lparr>j_status := status, j_updated_at := now, j_history := j_history j @ [(status, now)]\<rparr>) (jobs_t db)\<rparr>)))"

section \<open>Fault injections\<close>

definition fault_injection_add :: "pystr \<Rightarrow> int \<Rightarrow> int \<Rightarrow> int \<Rightarrow> ('a env_scheme, int) pym" where
  "fault_injection_add dev sf cf ms =
     bind_pym time_time (\<lambda>now.
     seq_pym (of_res (rmap bind_int [sf, cf, ms]))
     (bind_pym (db_get (\<lambda>db. injection_id db + 1)) (\<lambda>i.
      seq_pym (db_mod (\<lambda>db. db\<lparr>injection_id := i, injections_t := injections_t db @
        [\<lparr>i_id = i, i_dev = dev, i_set_flags = sf, i_clear_flags = cf, i_duration_ms = ms,
          i_created_at = now, i_ack_flags = None, i_acked_at = None\<rparr>]\<rparr>))
      (ret i))))"

definition latest_injection :: "pystr \<Rightarrow> DB \<Rightarrow> Injection option" where
  "latest_injection dev db = first_row (order_desc i_id (filter (\<lambda>r. i_dev r = dev) (injections_t db)))"

definition fault_injection_ack :: "pystr \<Rightarrow> int \<Rightarrow> ('a env_scheme, unit) pym" where
  "fault_injection_ack dev flags =
     bind_pym time_time (\<lambda>now.
     seq_pym (of_res (bind_int flags))
     (db_mod (\<lambda>db. case latest_injection dev db of
        None \<Rightarrow> db
      | Some r \<Rightarrow> db\<lparr>injections_t := sql_update (\<lambda>x. i_id x = i_id r)
          (\<lambda>x. x\<lparr>i_ack_flags := Some flags, i_acked_at := Some now\<rparr>) (injections_t db)\<rparr>)))"

definition fault_injections :: "pystr \<Rightarrow> int \<Rightarrow> DB \<Rightarrow> Injection list" where
  "fault_injections dev n db = sql_limit n (order_desc i_id (filter (\<lambda>r. i_dev r = dev) (injections_t db)))"

section \<open>Rules, statistics, diagnoses\<close>

definition get_rules :: "DB \<Rightarrow> json option" where
  "get_rules db = rules_t db"

definition db_set_rules :: "json \<Rightarrow> ('a env_scheme, unit) pym" where
  "db_set_rules r = bind_pym time_time (\<lambda>now. db_mod (\<lambda>db. db\<lparr>rules_t := Some r\<rparr>))"

definition save_stats :: "StatRow \<Rightarrow> ('a env_scheme, unit) pym" where
  "save_stats row =
     bind_pym time_time (\<lambda>now.
     db_mod (\<lambda>db. let new = row\<lparr>s_updated_at := now\<rparr> in
       if list_ex (\<lambda>r. s_dev r = s_dev row) (stats_t db)
       then db\<lparr>stats_t := sql_update (\<lambda>r. s_dev r = s_dev row) (\<lambda>_. new) (stats_t db)\<rparr>
       else db\<lparr>stats_t := stats_t db @ [new]\<rparr>))"

definition load_stats :: "DB \<Rightarrow> (pystr \<times> StatRow) list" where
  "load_stats db = map (\<lambda>r. (s_dev r, r)) (stats_t db)"

definition save_diagnosis :: "pystr \<Rightarrow> pystr \<Rightarrow> json \<Rightarrow> json \<Rightarrow> ('a env_scheme, Diagnosis) pym" where
  "save_diagnosis dev model result context =
     bind_pym time_time (\<lambda>now.
     bind_pym (db_get (\<lambda>db. diagnosis_id db + 1)) (\<lambda>i.
     let row = \<lparr>g_id = i, g_dev = dev, g_created_at = now, g_model = model, g_result = result, g_context = context\<rparr> in
     seq_pym (db_mod (\<lambda>db. db\<lparr>diagnosis_id := i, diagnoses_t := diagnoses_t db @ [row]\<rparr>)) (ret row)))"

definition diagnoses :: "pystr \<Rightarrow> int \<Rightarrow> DB \<Rightarrow> Diagnosis list" where
  "diagnoses dev n db = sql_limit n (order_desc g_id (filter (\<lambda>r. g_dev r = dev) (diagnoses_t db)))"

section \<open>Queries\<close>

lemma set_order_desc [simp]: "set (order_desc k xs) = set xs"
  by (simp add: order_desc_def)

lemma order_desc_Nil_iff [simp]: "order_desc k xs = [] \<longleftrightarrow> xs = []"
  using set_order_desc [of k xs] by (metis set_empty)

lemma first_row_None [simp]: "first_row xs = None \<longleftrightarrow> xs = []"
  by (cases xs) auto

lemma first_row_in: "first_row xs = Some x \<Longrightarrow> x \<in> set xs"
  by (cases xs) auto

lemma first_row_max: "first_row (order_desc k xs) = Some x \<Longrightarrow> y \<in> set xs \<Longrightarrow> k y \<le> k x"
proof -
  assume "first_row (order_desc k xs) = Some x" "y \<in> set xs"
  then obtain ys where ys: "rev (sort_key k xs) = x # ys" by (cases "rev (sort_key k xs)") (auto simp: order_desc_def)
  then have e: "sort_key k xs = rev ys @ [x]" by (metis rev.simps(2) rev_rev_ident)
  have "sorted (map k (rev ys @ [x]))" unfolding e [symmetric] by simp
  moreover have "y \<in> set (rev ys @ [x])" unfolding e [symmetric] using \<open>y \<in> set xs\<close> by simp
  ultimately show ?thesis by (auto simp: sorted_append)
qed

lemma first_row_filter:
  assumes "first_row (order_desc k (filter P xs)) = Some x"
  shows "x \<in> set xs" "P x" "\<And>y. y \<in> set xs \<Longrightarrow> P y \<Longrightarrow> k y \<le> k x"
  using assms first_row_in [OF assms] first_row_max [OF assms] by auto

text \<open>The newest row is the first of a descending query.\<close>

lemma order_desc_newest:
  assumes "\<And>y. y \<in> set xs \<Longrightarrow> k y < k x"
  shows "first_row (order_desc k (xs @ [x])) = Some x"
proof -
  obtain z where z: "first_row (order_desc k (xs @ [x])) = Some z"
    by (cases "first_row (order_desc k (xs @ [x]))") auto
  then have "k x \<le> k z" "z \<in> set (xs @ [x])" using first_row_max [OF z] first_row_in [OF z] by auto
  with assms z show ?thesis by force
qed

lemma length_sql_update [simp]: "length (sql_update p f xs) = length xs"
  by (simp add: sql_update_def)

lemma map_sql_update: "(\<And>x. g (f x) = g x) \<Longrightarrow> map g (sql_update p f xs) = map g xs"
  by (simp add: sql_update_def)

lemma set_sql_update: "set (sql_update p f xs) = (\<lambda>x. if p x then f x else x) ` set xs"
  by (simp add: sql_update_def)

section \<open>Auto-incremented keys\<close>

definition ids_ok :: "('r \<Rightarrow> int) \<Rightarrow> 'r list \<Rightarrow> int \<Rightarrow> bool" where
  "ids_ok key rows c \<longleftrightarrow> sorted_wrt (<) (map key rows) \<and> (\<forall>r\<in>set rows. key r \<le> c)"

lemma ids_ok_append: "ids_ok key rows c \<Longrightarrow> key r = c + 1 \<Longrightarrow> ids_ok key (rows @ [r]) (c + 1)"
  by (fastforce simp: ids_ok_def sorted_wrt_append)

lemma ids_ok_update: "(\<And>x. key (f x) = key x) \<Longrightarrow> ids_ok key (sql_update p f rows) c = ids_ok key rows c"
proof -
  assume "\<And>x. key (f x) = key x"
  then have m: "map key (sql_update p f rows) = map key rows" by (rule map_sql_update)
  have i: "ids_ok key xs c \<longleftrightarrow> sorted_wrt (<) (map key xs) \<and> (\<forall>k\<in>set (map key xs). k \<le> c)" for xs
    by (simp add: ids_ok_def)
  show ?thesis by (simp only: i m)
qed

lemma ids_ok_filter: "ids_ok key rows c \<Longrightarrow> ids_ok key (filter P rows) c"
  by (auto simp: ids_ok_def sorted_wrt_map intro: sorted_wrt_filter)

lemma ids_ok_inj: "ids_ok key rows c \<Longrightarrow> x \<in> set rows \<Longrightarrow> y \<in> set rows \<Longrightarrow> key x = key y \<Longrightarrow> x = y"
proof -
  assume "ids_ok key rows c" "x \<in> set rows" "y \<in> set rows" "key x = key y"
  moreover from this have "distinct (map key rows)"
    using strict_sorted_iff by (auto simp: ids_ok_def)
  ultimately show "x = y" by (auto simp: distinct_map dest: inj_onD)
qed

lemma find_by_id:
  assumes "ids_ok key rows c" "r \<in> set rows"
  shows "first_row (filter (\<lambda>x. key x = key r) rows) = Some r"
proof -
  obtain z where z: "first_row (filter (\<lambda>x. key x = key r) rows) = Some z"
    using assms(2) by (cases "first_row (filter (\<lambda>x. key x = key r) rows)") (auto simp: filter_empty_conv)
  then have "z \<in> set rows" "key z = key r" using first_row_in [OF z] by auto
  with ids_ok_inj [OF assms(1)] assms(2) z show ?thesis by metis
qed

lemma newest_row:
  assumes "ids_ok key rows c" "key r = c + 1" "P r"
  shows "first_row (order_desc key (filter P (rows @ [r]))) = Some r"
  using assms by (simp, intro order_desc_newest) (auto simp: ids_ok_def)

section \<open>Running the operations\<close>

lemma time_time_app [pym_simps]: "time_time s = (Inr (wclock s (wreads s)), s\<lparr>wreads := wreads s + 1\<rparr>)"
  by (simp add: time_time_def pym_simps)

lemma db_get_app [pym_simps]: "db_get f s = (Inr (f (wdb s)), s)"
  by (simp add: db_get_def pym_simps)

lemma db_mod_app [pym_simps]: "db_mod f s = (Inr (), s\<lparr>wdb := f (wdb s)\<rparr>)"
  by (simp add: db_mod_def pym_simps)

text \<open>An invariant of the tables, and the code that keeps it.\<close>

lemma keeps_time_time [keeps_intros]: "keeps (\<lambda>s. P (wdb s)) time_time"
  by (simp add: keeps_def pym_simps)

lemma keeps_db_get [keeps_intros]: "keeps (\<lambda>s. P s) (db_get f)"
  by (simp add: keeps_def pym_simps)

lemma keeps_db_mod [keeps_intros]:
  "(\<And>db. P db \<Longrightarrow> P (f db)) \<Longrightarrow> keeps (\<lambda>s. P (wdb s)) (db_mod f)"
  by (simp add: keeps_def pym_simps)

section \<open>The telemetry buffer\<close>

lemma flush_app:
  "flush s = (Inr (int (length (tel_buf (wdb s)))),
     s\<lparr>wdb := (wdb s)\<lparr>tel_buf := [], telemetry_t := telemetry_t (wdb s) @ tel_buf (wdb s)\<rparr>\<rparr>)"
  by (cases s, cases "wdb s") (simp add: flush_def take_buffer_def insert_rows_def pym_simps)

lemma buffer_app: "buffer_telemetry r s = (Inr (), s\<lparr>wdb := (wdb s)\<lparr>tel_buf := tel_buf (wdb s) @ [r]\<rparr>\<rparr>)"
  by (simp add: buffer_telemetry_def pym_simps)

section \<open>Roll-up\<close>

lemma sum_filter_keys:
  "set (map f xs) \<subseteq> set ks \<Longrightarrow> distinct ks \<Longrightarrow>
   sum_list (map (\<lambda>k. length (filter (\<lambda>x. f x = k) xs)) ks) = length xs"
proof (induction xs)
  case (Cons x xs)
  have "(\<Sum>k\<leftarrow>ks. length (filter (\<lambda>y. f y = k) (x # xs)))
      = (\<Sum>k\<leftarrow>ks. (if f x = k then 1 else 0) + length (filter (\<lambda>y. f y = k) xs))"
    by (intro arg_cong [where f = sum_list] map_cong) auto
  also have "\<dots> = (\<Sum>k\<leftarrow>ks. if f x = k then 1 else 0) + (\<Sum>k\<leftarrow>ks. length (filter (\<lambda>y. f y = k) xs))"
    by (rule sum_list_addf)
  also have "(\<Sum>k\<leftarrow>ks. if f x = k then 1 else 0 :: nat) = 1"
    using Cons.prems by (simp add: sum_list_distinct_conv_sum_set)
  finally show ?case using Cons by simp
qed simp

lemma group_rows_total: "sum_list (map r_n (group_rows avg rows)) = int (length rows)"
proof -
  have "sum_list (map r_n (group_rows avg rows))
      = int (sum_list (map (\<lambda>k. length (filter (\<lambda>r. tel_key r = k) rows)) (remdups (map tel_key rows))))"
    by (simp add: group_rows_def rollup_row_def comp_def sum_list_of_nat [symmetric] flip: map_map)
       (simp add: comp_def)
  with sum_filter_keys [of tel_key rows "remdups (map tel_key rows)"] show ?thesis by simp
qed

lemma rollup_at_app:
  assumes "int_of_float u = Inr i" "start = (case rollup_upto (wdb s) of Some v \<Rightarrow> v | None \<Rightarrow> 0)"
  shows "rollup_at avg u s =
     (if (i div 60) * 60 \<le> start then (Inr 0, s)
      else let new = group_rows avg (rollup_window (wdb s) start ((i div 60) * 60)) in
        (Inr (int (length new)),
         s\<lparr>wdb := (wdb s)\<lparr>rollup_t := replace_rollups (rollup_t (wdb s)) new, rollup_upto := Some ((i div 60) * 60)\<rparr>\<rparr>))"
  using assms by (simp add: rollup_at_def pym_simps Let_def)

section \<open>Configurations\<close>

lemma next_version_newer:
  "c \<in> set (configs_t db) \<Longrightarrow> c_dev c = dev \<Longrightarrow> c_version c < next_version dev db"
  "get_device dev db = Some d \<Longrightarrow> d_reported_config d < next_version dev db"
proof -
  assume c: "c \<in> set (configs_t db)" "c_dev c = dev"
  then obtain x where x: "current_config dev db = Some x"
    by (cases "current_config dev db") (auto simp: current_config_def filter_empty_conv)
  with c have "c_version c \<le> c_version x"
    using first_row_filter(3) [of c_version "\<lambda>c. c_dev c = dev" "configs_t db" x] by (simp add: current_config_def)
  with x show "c_version c < next_version dev db" by (simp add: next_version_def max_def)
qed (simp add: next_version_def max_def)

lemma current_config_newest:
  assumes "\<And>x. x \<in> set cs \<Longrightarrow> c_dev x = c_dev c \<Longrightarrow> c_version x < c_version c"
  shows "first_row (order_desc c_version (filter (\<lambda>x. c_dev x = c_dev c) (cs @ [c]))) = Some c"
  using assms by (simp, intro order_desc_newest) auto

text \<open>What \<open>new_config\<close> does.\<close>

definition fresh_config :: "pystr \<Rightarrow> int \<Rightarrow> int \<Rightarrow> pyfloat \<Rightarrow> pyfloat \<Rightarrow> pyfloat \<Rightarrow> 'a env_scheme \<Rightarrow> Config" where
  "fresh_config dev hz ll r t a s =
     \<lparr>c_id = config_id (wdb s) + 1, c_dev = dev, c_version = next_version dev (wdb s), c_telemetry_hz = hz, c_log_level = ll,
      c_rpm_limit = bind_real r, c_temp_limit_c = bind_real t, c_current_limit_a = bind_real a,
      c_created_at = wclock s (wreads s), c_ack_status = lit ''pending'', c_acked_at = None\<rparr>"

definition add_config :: "Config \<Rightarrow> DB \<Rightarrow> DB" where
  "add_config c db = db\<lparr>config_id := config_id db + 1, configs_t := configs_t db @ [c]\<rparr>"

lemma new_config_app:
  assumes "bind_int (next_version dev (wdb s)) = Inr v" "bind_int hz = Inr hz" "bind_int ll = Inr ll"
  shows "new_config dev hz ll r t a s = (Inr (Some (fresh_config dev hz ll r t a s)),
      s\<lparr>wreads := wreads s + 1, wdb := add_config (fresh_config dev hz ll r t a s) (wdb s)\<rparr>)"
    and "current_config dev (add_config (fresh_config dev hz ll r t a s) (wdb s)) = Some (fresh_config dev hz ll r t a s)"
proof -
  let ?c = "fresh_config dev hz ll r t a s"
  note newer = next_version_newer(1) [where dev = dev and db = "wdb s"]
  have dup: "\<not> list_ex (\<lambda>c. c_dev c = dev \<and> c_version c = next_version dev (wdb s)) (configs_t (wdb s))"
    using newer by (fastforce simp: list_ex_iff)
  have "first_row (order_desc c_version (filter (\<lambda>x. c_dev x = c_dev ?c) (configs_t (wdb s) @ [?c]))) = Some ?c"
    by (rule current_config_newest) (use newer in \<open>simp add: fresh_config_def\<close>)
  then show cur: "current_config dev (add_config ?c (wdb s)) = Some ?c"
    by (simp add: current_config_def add_config_def fresh_config_def)
  from dup assms cur show "new_config dev hz ll r t a s = (Inr (Some ?c), s\<lparr>wreads := wreads s + 1, wdb := add_config ?c (wdb s)\<rparr>)"
    by (simp add: new_config_def pym_simps add_config_def fresh_config_def)
qed

section \<open>The alert store\<close>

lemma open_alert_None: "open_alert dev rule db = None \<longleftrightarrow> \<not> (\<exists>a\<in>set (alerts_t db). a_dev a = dev \<and> a_rule a = rule \<and> is_open a)"
  by (auto simp: open_alert_def filter_empty_conv)

lemma open_alert_Some:
  assumes "open_alert dev rule db = Some a"
  shows "a \<in> set (alerts_t db)" "a_dev a = dev" "a_rule a = rule" "is_open a"
  using first_row_filter [of a_id _ "alerts_t db" a] assms by (auto simp: open_alert_def)

text \<open>
  The invariant of the table: ids grow, and at most one alert of a device and rule is open.
\<close>

definition alerts_ok :: "DB \<Rightarrow> bool" where
  "alerts_ok db \<longleftrightarrow> ids_ok a_id (alerts_t db) (alert_id db)
     \<and> distinct (map (\<lambda>a. (a_dev a, a_rule a)) (filter is_open (alerts_t db)))"

text \<open>What no operation of the program changes of an alert: who it is about and when it was opened.\<close>

definition alert_ident :: "Alert \<Rightarrow> int \<times> pystr \<times> pystr \<times> pystr option \<times> pyfloat option \<times> pyfloat" where
  "alert_ident a = (a_id a, a_dev a, a_rule a, a_metric a, a_value a, a_opened_at a)"

lemma set_alcol_ident [simp]: "alert_ident (set_alcol c a) = alert_ident a"
  by (cases c) (simp_all add: alert_ident_def)

lemma fold_set_alcol_ident [simp]: "alert_ident (fold set_alcol cs a) = alert_ident a"
  by (induction cs arbitrary: a) simp_all

lemma alert_ident_eq: "alert_ident a = alert_ident b \<Longrightarrow> a_id a = a_id b \<and> a_dev a = a_dev b \<and> a_rule a = a_rule b"
  by (simp add: alert_ident_def)

lemma alert_ident_status [simp]: "alert_ident (a\<lparr>a_updated_at := x\<rparr>) = alert_ident a"
  by (simp add: alert_ident_def)

text \<open>What the two writing operations do to the table.\<close>

definition new_alert :: "int \<Rightarrow> pystr \<Rightarrow> pystr \<Rightarrow> pystr option \<Rightarrow> pyfloat option \<Rightarrow> sqlval \<Rightarrow> pystr \<Rightarrow> pyfloat \<Rightarrow> Alert" where
  "new_alert i dev rule metric value sev msg now =
     \<lparr>a_id = i, a_dev = dev, a_rule = rule, a_metric = metric,
      a_value = (case value of Some x \<Rightarrow> bind_real x | None \<Rightarrow> None), a_severity = sev,
      a_status = lit ''open'', a_message = msg, a_opened_at = now, a_acked_at = None,
      a_resolved_at = None, a_updated_at = Some now\<rparr>"

lemma new_alert_simps [simp]:
  "a_id (new_alert i dev rule metric value sev msg now) = i" "a_dev (new_alert i dev rule metric value sev msg now) = dev"
  "a_rule (new_alert i dev rule metric value sev msg now) = rule" "is_open (new_alert i dev rule metric value sev msg now)"
  by (simp_all add: new_alert_def is_open_def)

lemma create_alert_app:
  "create_alert dev rule metric value severity msg s =
     (case bind_json severity of
        Inl e \<Rightarrow> (Inl e, s\<lparr>wreads := wreads s + 1\<rparr>)
      | Inr sev \<Rightarrow>
          let a = new_alert (alert_id (wdb s) + 1) dev rule metric value sev msg (wclock s (wreads s));
              s' = s\<lparr>wreads := wreads s + 1, wdb := (wdb s)\<lparr>alert_id := alert_id (wdb s) + 1,
                     alerts_t := alerts_t (wdb s) @ [a]\<rparr>\<rparr>
          in (Inr (get_alert (alert_id (wdb s) + 1) (wdb s')), s'))"
  by (simp add: create_alert_def pym_simps new_alert_def Let_def split: sum.splits)

lemma update_alert_app:
  "update_alert i cols s = (Inr (), s\<lparr>wreads := wreads s + 1, wdb := (wdb s)\<lparr>alerts_t := sql_update (\<lambda>a. a_id a = i)
     (\<lambda>a. (fold set_alcol cols a)\<lparr>a_updated_at := bind_real (wclock s (wreads s))\<rparr>) (alerts_t (wdb s))\<rparr>\<rparr>)"
  by (simp add: update_alert_def pym_simps)

lemma alerts_ok_create:
  assumes "alerts_ok db" "open_alert dev rule db = None" "a_id a = alert_id db + 1" "a_dev a = dev" "a_rule a = rule" "is_open a"
  shows "alerts_ok (db\<lparr>alert_id := alert_id db + 1, alerts_t := alerts_t db @ [a]\<rparr>)"
  using assms ids_ok_append [of a_id "alerts_t db" "alert_id db" a]
  by (auto simp: alerts_ok_def open_alert_None)

lemma distinct_filter_map_update:
  assumes "distinct (map g (filter P xs))" "\<And>x. x \<in> set xs \<Longrightarrow> P (f x) \<Longrightarrow> P x" "\<And>x. g (f x) = g x"
  shows "distinct (map g (filter P (map f xs)))"
  using assms(1,2)
proof (induction xs)
  case (Cons x xs)
  have "g ` set (filter P (map f xs)) \<subseteq> g ` set (filter P xs)" using Cons.prems(2) assms(3) by fastforce
  with Cons show ?case using assms(3) by (auto split: if_splits)
qed simp

lemma alerts_ok_close:
  assumes "alerts_ok db" "\<And>a. alert_ident (f a) = alert_ident a" "\<And>a. \<not> is_open (f a)"
  shows "alerts_ok (db\<lparr>alerts_t := sql_update p f (alerts_t db)\<rparr>)"
proof -
  have f: "a_id (f a) = a_id a" "(a_dev (f a), a_rule (f a)) = (a_dev a, a_rule a)" for a
    using alert_ident_eq [OF assms(2) [of a]] by simp_all
  from assms(1) f have "ids_ok a_id (sql_update p f (alerts_t db)) (alert_id db)"
    by (simp add: alerts_ok_def ids_ok_update)
  moreover have "distinct (map (\<lambda>a. (a_dev a, a_rule a)) (filter is_open (sql_update p f (alerts_t db))))"
    unfolding sql_update_def
  proof (rule distinct_filter_map_update)
    show "distinct (map (\<lambda>a. (a_dev a, a_rule a)) (filter is_open (alerts_t db)))"
      using assms(1) by (simp add: alerts_ok_def)
    show "is_open x" if "is_open (if p x then f x else x)" for x
      using that assms(3) by (simp split: if_splits)
    show "(a_dev (if p x then f x else x), a_rule (if p x then f x else x)) = (a_dev x, a_rule x)" for x
      using f(2) by simp
  qed
  ultimately show ?thesis by (simp add: alerts_ok_def)
qed

section \<open>Properties\<close>

text \<open>
  C11. A roll-up counts every row of its window exactly once. When it has complete minutes to roll, it
  writes one row per device and minute with the number of samples, these numbers add up to the
  number of raw rows of the window, the rows are in the table afterwards, and rolling up again to
  the same time does nothing.
\<close>

theorem rollup_counts_each_row_once:
  assumes "int_of_float up = Inr i" "start = (case rollup_upto (wdb s) of Some v \<Rightarrow> v | None \<Rightarrow> 0)"
    "end' = (i div 60) * 60" "start < end'" "new = group_rows avg (rollup_window (wdb s) start end')"
  shows "fst (rollup_at avg up s) = Inr (int (length new))
    \<and> sum_list (map r_n new) = int (length (rollup_window (wdb s) start end'))
    \<and> set new \<subseteq> set (rollup_t (wdb (snd (rollup_at avg up s))))
    \<and> rollup_at avg up (snd (rollup_at avg up s)) = (Inr 0, snd (rollup_at avg up s))"
proof -
  let ?s = "snd (rollup_at avg up s)"
  have r: "rollup_at avg up s = (Inr (int (length new)),
      s\<lparr>wdb := (wdb s)\<lparr>rollup_t := replace_rollups (rollup_t (wdb s)) new, rollup_upto := Some end'\<rparr>\<rparr>)"
    using rollup_at_app [OF assms(1,2)] assms(3-5) by (simp add: Let_def)
  have "rollup_at avg up ?s = (Inr 0, ?s)"
    using rollup_at_app [OF assms(1) refl, where s = ?s and avg = avg] assms(3) by (simp add: r)
  with r group_rows_total [of avg "rollup_window (wdb s) start end'"] assms(5) show ?thesis
    by (simp add: replace_rollups_def)
qed

definition sample_row :: "pyfloat \<Rightarrow> TelRow" where
  "sample_row ts = \<lparr>t_dev = lit ''ECU-1'', t_ts = ts, t_seq = 1, t_rpm = Some (Fin 900), t_temp_c = None,
     t_current_a = None, t_voltage_v = None, t_vibration_g = None, t_speed_kph = None, t_lat = None,
     t_lon = None, t_fault_flags = 0, t_state = 1\<rparr>"

definition sample_env :: "TelRow list \<Rightarrow> env" where
  "sample_env rows = \<lparr>wclock = (\<lambda>n. Fin (1000 + of_nat n)), wreads = 0, wdb = (DB_init (Fin 24))\<lparr>telemetry_t := rows\<rparr>\<rparr>"

text \<open>C11 at two rows of the first minute and one of the second, rolled up at second 61.\<close>

theorem rollup_counts_each_row_once_witness:
  "(let s = sample_env [sample_row (Fin 10), sample_row (Fin 20), sample_row (Fin 60)];
        new = group_rows first_row (rollup_window (wdb s) 0 60) in
    map r_n new = [2] \<and> fst (rollup_at first_row (Fin 61) s) = Inr (int (length new))
    \<and> sum_list (map r_n new) = int (length (rollup_window (wdb s) 0 60))
    \<and> set new \<subseteq> set (rollup_t (wdb (snd (rollup_at first_row (Fin 61) s))))
    \<and> rollup_at first_row (Fin 61) (snd (rollup_at first_row (Fin 61) s)) = (Inr 0, snd (rollup_at first_row (Fin 61) s)))"
proof -
  let ?s = "sample_env [sample_row (Fin 10), sample_row (Fin 20), sample_row (Fin 60)]"
  have i: "int_of_float (Fin 61) = Inr 61" by simp
  have st: "0 = (case rollup_upto (wdb ?s) of Some v \<Rightarrow> v | None \<Rightarrow> 0)" by (simp add: sample_env_def DB_init_def)
  have n: "map r_n (group_rows first_row (rollup_window (wdb ?s) 0 60)) = [2]" by code_simp
  from rollup_counts_each_row_once [OF i st, of 60 "group_rows first_row (rollup_window (wdb ?s) 0 60)" first_row] n
  show ?thesis unfolding Let_def by simp
qed

text \<open>
  A row that reaches the table after its minute was rolled up is never counted: once the roll-up has
  passed a time, rows older than it change neither the result of a later roll-up nor the rows it
  writes.
\<close>

theorem late_row_never_rolled_up:
  assumes "rollup_upto (wdb s) = Some e" "fless (t_ts row) (Fin (of_int e))" "int_of_float up = Inr i"
  shows "fst (rollup_at avg up (s\<lparr>wdb := (wdb s)\<lparr>telemetry_t := telemetry_t (wdb s) @ [row]\<rparr>\<rparr>)) = fst (rollup_at avg up s)
    \<and> rollup_t (wdb (snd (rollup_at avg up (s\<lparr>wdb := (wdb s)\<lparr>telemetry_t := telemetry_t (wdb s) @ [row]\<rparr>\<rparr>))))
      = rollup_t (wdb (snd (rollup_at avg up s)))"
proof -
  let ?s = "s\<lparr>wdb := (wdb s)\<lparr>telemetry_t := telemetry_t (wdb s) @ [row]\<rparr>\<rparr>"
  have "\<not> fle (Fin (of_int e)) (t_ts row)" using assms(2) by (cases "t_ts row") (auto simp: fle_def)
  then have "rollup_window (wdb ?s) e n = rollup_window (wdb s) e n" for n by (simp add: rollup_window_def)
  with rollup_at_app [OF assms(3) refl, where s = s and avg = avg]
    rollup_at_app [OF assms(3) refl, where s = ?s and avg = avg] assms(1)
  show ?thesis by (simp add: Let_def)
qed

text \<open>An example: a row of second 59 that is flushed after the roll-up to second 60.\<close>

theorem late_row_never_rolled_up_witness:
  "(let s = (sample_env [])\<lparr>wdb := (wdb (sample_env []))\<lparr>rollup_upto := Some 60\<rparr>\<rparr> in
    fst (rollup_at first_row (Fin 121) (s\<lparr>wdb := (wdb s)\<lparr>telemetry_t := telemetry_t (wdb s) @ [sample_row (Fin 59)]\<rparr>\<rparr>))
      = fst (rollup_at first_row (Fin 121) s)
    \<and> rollup_t (wdb (snd (rollup_at first_row (Fin 121) (s\<lparr>wdb := (wdb s)\<lparr>telemetry_t := telemetry_t (wdb s) @ [sample_row (Fin 59)]\<rparr>\<rparr>))))
      = rollup_t (wdb (snd (rollup_at first_row (Fin 121) s))))"
  unfolding Let_def by (rule late_row_never_rolled_up [of _ 60 _ _ 121]) (simp_all add: sample_row_def)

text \<open>
  C14. A new configuration is newer than every stored one of the device and than the one it reports, is
  never refused by the uniqueness constraint, and is the device's current configuration afterwards.
\<close>

theorem new_config_is_newest:
  assumes "bind_int (next_version dev (wdb s)) = Inr v" "bind_int hz = Inr hz" "bind_int ll = Inr ll"
  shows "\<exists>c. fst (new_config dev hz ll r t a s) = Inr (Some c) \<and> c_version c = v \<and> c_ack_status c = lit ''pending''
    \<and> current_config dev (wdb (snd (new_config dev hz ll r t a s))) = Some c
    \<and> list_all (\<lambda>x. c_dev x = dev \<longrightarrow> c_version x < v) (configs_t (wdb s))
    \<and> (case get_device dev (wdb s) of Some d \<Rightarrow> d_reported_config d < v | None \<Rightarrow> True)"
proof -
  have v: "v = next_version dev (wdb s)" using assms(1) by (simp add: bind_int_def split: if_splits)
  have "c_version (fresh_config dev hz ll r t a s) = v" "c_ack_status (fresh_config dev hz ll r t a s) = lit ''pending''"
    by (simp_all add: fresh_config_def v)
  moreover have "list_all (\<lambda>x. c_dev x = dev \<longrightarrow> c_version x < v) (configs_t (wdb s))"
    using next_version_newer(1) by (auto simp: list_all_iff v)
  ultimately show ?thesis using next_version_newer(2) [of dev "wdb s"] v
    by (simp add: new_config_app [OF assms] split: option.splits)
qed

text \<open>C14 at the first configuration of a device.\<close>

theorem new_config_is_newest_witness:
  "\<exists>c. fst (new_config (lit ''ECU-1'') 10 1 (Fin 6000) (Fin 90) (Fin 120) (sample_env [])) = Inr (Some c) \<and> c_version c = 1
    \<and> c_ack_status c = lit ''pending''
    \<and> current_config (lit ''ECU-1'') (wdb (snd (new_config (lit ''ECU-1'') 10 1 (Fin 6000) (Fin 90) (Fin 120) (sample_env [])))) = Some c
    \<and> list_all (\<lambda>x. c_dev x = lit ''ECU-1'' \<longrightarrow> c_version x < 1) (configs_t (wdb (sample_env [])))
    \<and> (case get_device (lit ''ECU-1'') (wdb (sample_env [])) of Some d \<Rightarrow> d_reported_config d < 1 | None \<Rightarrow> True)"
proof -
  have "bind_int (next_version (lit ''ECU-1'') (wdb (sample_env []))) = Inr 1" "bind_int 10 = Inr 10" "bind_int 1 = Inr 1"
    by code_simp+
  then show ?thesis by (rule new_config_is_newest)
qed

end
