(* ===== verification/Event_Bus.thy ===== *)
theory Event_Bus
  imports Py_Float "HOL-Library.AList"
begin

text \<open>
  \<open>backend/app/bus.py\<close>: the in-process broadcast bus behind the server-sent events.

  A subscriber holds an \<open>asyncio.Queue\<close>, modelled by its identity and its contents; the set of
  queues is an association list because the queues do not interact. \<open>publish\<close> drops the oldest
  event of a full queue. The lemmas show that a subscriber always sees the most
  recent events in order, and which telemetry is passed on: per device at most \<open>max_hz\<close> times a second, and otherwise all.
\<close>

section \<open>The bus\<close>

datatype queue_exn = QueueFull | QueueEmpty

record 'e EventBus =
  subs :: "(nat \<times> 'e list) list"
  next_q :: nat
  maxsize :: int
  last_tel :: "(pystr \<times> pyfloat) list"
  published :: int

definition EventBus_init :: "int \<Rightarrow> 'e EventBus" where
  "EventBus_init n = \<lparr>subs = [], next_q = 0, maxsize = n, last_tel = [], published = 0\<rparr>"

text \<open>\<open>asyncio.Queue\<close>: a size of zero or less means unbounded.\<close>

definition queue_full :: "int \<Rightarrow> 'e list \<Rightarrow> bool" where
  "queue_full n q \<longleftrightarrow> 0 < n \<and> n \<le> int (length q)"

definition put_nowait :: "int \<Rightarrow> 'e \<Rightarrow> 'e list \<Rightarrow> queue_exn + 'e list" where
  "put_nowait n e q = (if queue_full n q then Inl QueueFull else Inr (q @ [e]))"

fun get_nowait :: "'e list \<Rightarrow> queue_exn + 'e \<times> 'e list" where
  "get_nowait [] = Inl QueueEmpty"
| "get_nowait (x # q) = Inr (x, q)"

definition subscribe :: "'e EventBus \<Rightarrow> nat \<times> 'e EventBus" where
  "subscribe b = (next_q b, b\<lparr>subs := subs b @ [(next_q b, [])], next_q := next_q b + 1\<rparr>)"

definition unsubscribe :: "nat \<Rightarrow> 'e EventBus \<Rightarrow> 'e EventBus" where
  "unsubscribe i b = b\<lparr>subs := AList.delete i (subs b)\<rparr>"

text \<open>
  The body of the loop of \<open>publish\<close>. The inner \<open>except Exception: pass\<close> keeps what was done before
  the exception.
\<close>

definition publish_one :: "int \<Rightarrow> 'e \<Rightarrow> 'e list \<Rightarrow> 'e list" where
  "publish_one n e q =
     (case put_nowait n e q of
        Inr q' \<Rightarrow> q'
      | Inl _ \<Rightarrow> (case get_nowait q of
          Inl _ \<Rightarrow> q
        | Inr (_, q1) \<Rightarrow> (case put_nowait n e q1 of Inr q2 \<Rightarrow> q2 | Inl _ \<Rightarrow> q1)))"

definition publish :: "'e \<Rightarrow> 'e EventBus \<Rightarrow> 'e EventBus" where
  "publish e b =
     b\<lparr>published := published b + 1, subs := map (\<lambda>(i, q). (i, publish_one (maxsize b) e q)) (subs b)\<rparr>"

text \<open>
  \<open>publish_telemetry\<close>, with the reading of the monotonic clock as an argument. \<open>e\<close> is the event
  (\<open>"telemetry"\<close> with its data).
\<close>

definition publish_telemetry :: "pyfloat \<Rightarrow> pystr \<Rightarrow> 'e \<Rightarrow> pyfloat \<Rightarrow> 'e EventBus \<Rightarrow> bool res \<times> 'e EventBus" where
  "publish_telemetry now dev e max_hz b =
     (let last = (case map_of (last_tel b) dev of Some t \<Rightarrow> t | None \<Rightarrow> Fin 0) in
      case fdiv (Fin 1) max_hz of
        Inl x \<Rightarrow> (Inl x, b)
      | Inr p \<Rightarrow>
          if fless (fsub now last) p then (Inr False, b)
          else (Inr True, publish e (b\<lparr>last_tel := AList.update dev now (last_tel b)\<rparr>)))"

section \<open>The contract of a queue\<close>

text \<open>
  What the stream of a subscriber promises: putting an event keeps the queue within its bound,
  makes it the newest one, and removes nothing but the oldest event. A client that knows only
  this sees, after any run of events, the most recent ones in order.
\<close>

locale live_queue =
  fixes cap :: nat and put :: "'e \<Rightarrow> 'e list \<Rightarrow> 'e list"
  assumes cap_pos: "0 < cap"
    and put_room: "length q < cap \<Longrightarrow> put e q = q @ [e]"
    and put_drop: "length q = cap \<Longrightarrow> put e q = tl q @ [e]"
begin

lemma put_recent: "length q \<le> cap \<Longrightarrow> put e q = drop (length (q @ [e]) - cap) (q @ [e])"
  using cap_pos put_room [of q e] put_drop [of q e]
  by (cases "length q = cap") (cases q, auto)

lemma put_bound: "length q \<le> cap \<Longrightarrow> length (put e q) \<le> cap"
  by (simp add: put_recent)

lemma puts_recent:
  "length q \<le> cap \<Longrightarrow> fold put es q = drop (length (q @ es) - cap) (q @ es)"
proof (induction es arbitrary: q)
  case (Cons e es)
  let ?q = "put e q"
  have q: "?q = drop (length (q @ [e]) - cap) (q @ [e])" using Cons.prems by (rule put_recent)
  have "fold put (e # es) q = drop (length (?q @ es) - cap) (?q @ es)"
    using Cons.IH [OF put_bound [OF Cons.prems]] by simp
  also have "?q @ es = drop (length (q @ [e]) - cap) (q @ e # es)"
    unfolding q using Cons.prems cap_pos by (cases "length q = cap") auto
  finally show ?case using Cons.prems cap_pos by (cases "length q = cap") auto
qed simp

end

lemma publish_one_room: "length q < n \<Longrightarrow> publish_one (int n) e q = q @ [e]"
  by (simp add: publish_one_def put_nowait_def queue_full_def)

lemma publish_one_drop: "0 < n \<Longrightarrow> length q = n \<Longrightarrow> publish_one (int n) e q = tl q @ [e]"
  by (cases q) (simp_all add: publish_one_def put_nowait_def queue_full_def)

interpretation bus_queue: live_queue "Suc n" "publish_one (int (Suc n))" for n
  by unfold_locales (simp_all add: publish_one_room publish_one_drop del: of_nat_Suc)

section \<open>Invariant\<close>

definition bus_ok :: "'e EventBus \<Rightarrow> bool" where
  "bus_ok b \<longleftrightarrow> distinct (map fst (subs b)) \<and> (\<forall>(i, q)\<in>set (subs b). i < next_q b)
     \<and> (0 < maxsize b \<longrightarrow> (\<forall>(i, q)\<in>set (subs b). int (length q) \<le> maxsize b))"

lemma publish_one_bound:
  assumes "0 < n" "int (length q) \<le> n"
  shows "int (length (publish_one n e q)) \<le> n"
proof -
  obtain m where m: "n = int (Suc m)" using assms(1) by (metis gr0_implies_Suc zero_less_imp_eq_int)
  with bus_queue.put_bound [of q m e] assms(2) show ?thesis by simp
qed

lemma subs_publish: "map fst (subs (publish e b)) = map fst (subs b)"
  by (simp add: publish_def comp_def case_prod_unfold)

lemma bus_ok_publish: "bus_ok b \<Longrightarrow> bus_ok (publish e b)"
  unfolding bus_ok_def subs_publish
  by (auto simp: publish_def intro: publish_one_bound)

lemma bus_ok_subscribe: "bus_ok b \<Longrightarrow> bus_ok (snd (subscribe b))"
  by (fastforce simp: bus_ok_def subscribe_def)

lemma bus_ok_unsubscribe: "bus_ok b \<Longrightarrow> bus_ok (unsubscribe i b)"
  by (auto simp: bus_ok_def unsubscribe_def AList.delete_eq distinct_map_filter)

lemma bus_ok_last_tel [simp]: "bus_ok (b\<lparr>last_tel := t\<rparr>) = bus_ok b"
  by (simp add: bus_ok_def)

lemma bus_ok_publish_telemetry: "bus_ok b \<Longrightarrow> bus_ok (snd (publish_telemetry now dev e hz b))"
  by (simp add: publish_telemetry_def Let_def bus_ok_publish split: sum.splits)

section \<open>Runs\<close>

lemma map_of_publish:
  "map_of (subs (publish e b)) i = map_option (publish_one (maxsize b) e) (map_of (subs b) i)"
  by (simp add: publish_def map_of_map)

lemma maxsize_publish [simp]: "maxsize (publish e b) = maxsize b"
  by (simp add: publish_def)

lemma fold_publish:
  "map_of (subs (fold publish es b)) i = map_option (fold (publish_one (maxsize b)) es) (map_of (subs b) i)"
  "published (fold publish es b) = published b + int (length es)" "maxsize (fold publish es b) = maxsize b"
  by (induction es arbitrary: b)
    (auto simp: map_of_publish option.map_comp comp_def publish_def option.map_id map_of_map)

text \<open>The calls of \<open>publish_telemetry\<close> in order, and the device and time of those that were passed on.\<close>

fun telemetry_run :: "pyfloat \<Rightarrow> (pyfloat \<times> pystr \<times> 'e) list \<Rightarrow> 'e EventBus \<Rightarrow> (pystr \<times> pyfloat) list \<times> 'e EventBus" where
  "telemetry_run hz [] b = ([], b)"
| "telemetry_run hz ((now, dev, e) # cs) b =
     (case publish_telemetry now dev e hz b of
        (Inr True, b') \<Rightarrow> (case telemetry_run hz cs b' of (acc, b'') \<Rightarrow> ((dev, now) # acc, b''))
      | (_, b') \<Rightarrow> telemetry_run hz cs b')"

text \<open>
  What the thinning comes to: \<open>greedy\<close> for the calls of one device, and \<open>thinned\<close> for all of them, with the time of the last one passed on.
\<close>

fun greedy :: "pyfloat \<Rightarrow> pyfloat \<Rightarrow> (pyfloat \<times> pystr \<times> 'e) list \<Rightarrow> (pyfloat \<times> pystr \<times> 'e) list" where
  "greedy p l [] = []"
| "greedy p l ((t, c) # cs) = (if fless (fsub t l) p then greedy p l cs else (t, c) # greedy p t cs)"

fun thinned :: "pyfloat \<Rightarrow> (pystr \<Rightarrow> pyfloat) \<Rightarrow> (pyfloat \<times> pystr \<times> 'e) list \<Rightarrow> (pyfloat \<times> pystr \<times> 'e) list" where
  "thinned p l [] = []"
| "thinned p l ((t, d, e) # cs) = (if fless (fsub t (l d)) p then thinned p l cs else (t, d, e) # thinned p (l(d := t)) cs)"

definition last_time :: "'e EventBus \<Rightarrow> pystr \<Rightarrow> pyfloat" where
  "last_time b d = (case map_of (last_tel b) d of Some t \<Rightarrow> t | None \<Rightarrow> Fin 0)"

lemma thinned_device:
  "filter (\<lambda>(t, d', e). d' = d) (thinned p l cs) = greedy p (l d) (filter (\<lambda>(t, d', e). d' = d) cs)"
  by (induction p l cs rule: thinned.induct) (auto simp: fun_upd_def)

lemma greedy_first: "greedy p l cs = x # xs \<Longrightarrow> \<not> fless (fsub (fst x) l) p"
  by (induction p l cs rule: greedy.induct) (auto split: if_splits)

lemma greedy_spaced: "successively (\<lambda>(s, _) (t, _). \<not> fless (fsub t s) p) (greedy p l cs)"
proof (induction p l cs rule: greedy.induct)
  case (2 p l t c cs)
  then show ?case by (cases "greedy p t cs") (auto dest: greedy_first)
qed simp

lemma publish_telemetry_app:
  assumes "fdiv (Fin 1) hz = Inr p"
  shows "publish_telemetry now dev e hz b =
    (if fless (fsub now (last_time b dev)) p then (Inr False, b)
     else (Inr True, publish e (b\<lparr>last_tel := AList.update dev now (last_tel b)\<rparr>)))"
  using assms by (simp add: publish_telemetry_def last_time_def Let_def)

lemma last_time_publish: "last_time (publish e (b\<lparr>last_tel := AList.update dev now (last_tel b)\<rparr>)) = (last_time b)(dev := now)"
  by (simp add: last_time_def publish_def update_conv' fun_eq_iff)

lemma subs_publish_cong: "subs a = subs b \<Longrightarrow> maxsize a = maxsize b \<Longrightarrow> subs (fold publish es a) = subs (fold publish es b)"
  by (induction es arbitrary: a b) (simp_all add: publish_def)

lemma telemetry_run_thinned:
  assumes "fdiv (Fin 1) hz = Inr p"
  shows "fst (telemetry_run hz cs b) = map (\<lambda>(t, d, e). (d, t)) (thinned p (last_time b) cs)
    \<and> subs (snd (telemetry_run hz cs b)) = subs (fold publish (map (\<lambda>(t, d, e). e) (thinned p (last_time b) cs)) b)"
proof (induction cs arbitrary: b)
  case (Cons c cs)
  obtain now dev e where c: "c = (now, dev, e)" by (cases c)
  let ?b = "publish e (b\<lparr>last_tel := AList.update dev now (last_tel b)\<rparr>)"
  have "subs (fold publish es ?b) = subs (fold publish es (publish e b))" for es
    by (rule subs_publish_cong) (simp_all add: publish_def)
  with Cons.IH [of b] Cons.IH [of ?b] show ?case
    by (auto simp: c publish_telemetry_app [OF assms] last_time_publish fun_upd_def split: prod.splits)
qed simp

section \<open>Properties\<close>

text \<open>
  C6. A subscriber's queue holds the most recent events: after publishing a run of events, the queue is
  the last \<open>maxsize\<close> of what it held and the run, in order, so it is bounded, loses only the oldest
  events, and the bus counts every event.
\<close>

theorem publish_keeps_newest:
  assumes "0 < maxsize b" "map_of (subs b) i = Some q" "int (length q) \<le> maxsize b"
  shows "map_of (subs (fold publish es b)) i = Some (drop (length (q @ es) - nat (maxsize b)) (q @ es))
    \<and> published (fold publish es b) = published b + int (length es)"
proof -
  obtain m where m: "maxsize b = int (Suc m)" using assms(1) by (metis gr0_implies_Suc zero_less_imp_eq_int)
  have "fold (publish_one (int (Suc m))) es q = drop (length (q @ es) - Suc m) (q @ es)"
    by (rule bus_queue.puts_recent) (use assms(3) m in simp)
  with assms(2) m show ?thesis by (simp only: fold_publish option.map nat_int)
qed

text \<open>C6 at a queue of two that already holds one event.\<close>

theorem publish_keeps_newest_witness:
  "(let b = \<lparr>subs = [(0, [1 :: int])], next_q = 1, maxsize = 2, last_tel = [], published = 1\<rparr> in
    map_of (subs (fold publish [2, 3, 4] b)) 0 = Some [3, 4] \<and> published (fold publish [2, 3, 4] b) = 4)"
  using publish_keeps_newest [of "\<lparr>subs = [(0, [1 :: int])], next_q = 1, maxsize = 2, last_tel = [], published = 1\<rparr>"
      0 "[1]" "[2, 3, 4]"]
  by simp

text \<open>
  C7. Telemetry is thinned per device and nothing else happens to it: of any run of calls exactly those are passed on that come at least
  \<open>1 / max_hz\<close> seconds, by the comparison the code makes, after the last one of the same device that was passed on (after 0 on the monotonic clock for the
  first), whatever the calls for other devices; the subscribers get the events of these calls as if they had been published
  one by one; and two successive ones of a device are that far apart.
\<close>

theorem telemetry_thinned:
  assumes "fdiv (Fin 1) hz = Inr p" "last_tel b = []"
  shows "\<exists>ks. telemetry_run hz cs b = (map (\<lambda>(t, d, e). (d, t)) ks, snd (telemetry_run hz cs b))
    \<and> (\<forall>d. filter (\<lambda>(t, d', e). d' = d) ks = greedy p (Fin 0) (filter (\<lambda>(t, d', e). d' = d) cs))
    \<and> (\<forall>d. successively (\<lambda>(s, _) (t, _). \<not> fless (fsub t s) p) (filter (\<lambda>(t, d', e). d' = d) ks))
    \<and> subs (snd (telemetry_run hz cs b)) = subs (fold publish (map (\<lambda>(t, d, e). e) ks) b)"
proof (intro exI [of _ "thinned p (\<lambda>_. Fin 0) cs"] conjI allI)
  have l: "last_time b = (\<lambda>_. Fin 0)" using assms(2) by (simp add: last_time_def fun_eq_iff)
  show "telemetry_run hz cs b = (map (\<lambda>(t, d, e). (d, t)) (thinned p (\<lambda>_. Fin 0) cs), snd (telemetry_run hz cs b))"
    "subs (snd (telemetry_run hz cs b)) = subs (fold publish (map (\<lambda>(t, d, e). e) (thinned p (\<lambda>_. Fin 0) cs)) b)"
    using telemetry_run_thinned [OF assms(1), of cs b] by (simp_all add: l prod_eq_iff)
  show g: "filter (\<lambda>(t, d', e). d' = d) (thinned p (\<lambda>_. Fin 0) cs) = greedy p (Fin 0) (filter (\<lambda>(t, d', e). d' = d) cs)" for d
    by (rule thinned_device)
  show "successively (\<lambda>(s, _) (t, _). \<not> fless (fsub t s) p) (filter (\<lambda>(t, d', e). d' = d) (thinned p (\<lambda>_. Fin 0) cs))" for d
    unfolding g by (rule greedy_spaced)
qed

text \<open>C7 at three samples of one device, of which the second comes too early, and one of another device between them.\<close>

theorem telemetry_thinned_witness:
  "let cs = [(Fin 1, [65], 7), (Fin (5 / 4), [65], 8), (Fin (5 / 4), [66], 9), (Fin 2, [65], 10 :: int)];
       b = snd (subscribe (EventBus_init 3 :: int EventBus)) in
     (\<exists>ks. fst (telemetry_run (Fin 2) cs b) = map (\<lambda>(t, d, e). (d, t)) ks
        \<and> filter (\<lambda>(t, d', e). d' = [65]) ks = [(Fin 1, [65], 7), (Fin 2, [65], 10)]
        \<and> subs (snd (telemetry_run (Fin 2) cs b)) = subs (fold publish (map (\<lambda>(t, d, e). e) ks) b))
     \<and> map snd (subs (snd (telemetry_run (Fin 2) cs b))) = [[7, 9, 10]]"
proof -
  let ?cs = "[(Fin 1, [65], 7), (Fin (5 / 4), [65], 8), (Fin (5 / 4), [66], 9), (Fin 2, [65], 10)] :: (pyfloat \<times> pystr \<times> int) list"
  let ?b = "snd (subscribe (EventBus_init 3 :: int EventBus))"
  have p: "fdiv (Fin 1) (Fin 2) = Inr (Fin (1 / 2))" by code_simp
  have l: "last_tel ?b = []" by code_simp
  obtain ks where ks: "telemetry_run (Fin 2) ?cs ?b = (map (\<lambda>(t, d, e). (d, t)) ks, snd (telemetry_run (Fin 2) ?cs ?b))"
    "\<forall>d. filter (\<lambda>(t, d', e). d' = d) ks = greedy (Fin (1 / 2)) (Fin 0) (filter (\<lambda>(t, d', e). d' = d) ?cs)"
    "subs (snd (telemetry_run (Fin 2) ?cs ?b)) = subs (fold publish (map (\<lambda>(t, d, e). e) ks) ?b)"
    using telemetry_thinned [OF p l, of ?cs] by blast
  have "fst (telemetry_run (Fin 2) ?cs ?b) = map (\<lambda>(t, d, e). (d, t)) ks" by (subst ks(1)) simp
  moreover have "greedy (Fin (1 / 2)) (Fin 0) (filter (\<lambda>(t, d', e). d' = [65]) ?cs) = [(Fin 1, [65], 7), (Fin 2, [65], 10)]" by code_simp
  moreover have "map snd (subs (snd (telemetry_run (Fin 2) ?cs ?b))) = [[7, 9, 10]]" by code_simp
  ultimately show ?thesis using ks(2,3) unfolding Let_def by (intro conjI exI [of _ ks]) simp_all
qed

end
