(* ===== verification/Protocol.thy ===== *)
theory Protocol
  imports Py_Text
begin

text \<open>
  \<open>backend/app/protocol.py\<close>: the frame format of the wire protocol. A frame is a 36-byte header, a
  payload of at most 1024 bytes and a CRC-32 trailer.

  Every dataclass is a record, every \<open>pack\<close>/\<open>unpack\<close> method a function over the formats of
  \<open>Py_Codec\<close>, every \<open>raise\<close> a value of \<open>pyexn\<close>. The lemmas show that encoding then decoding gives
  the message back, that decoding raises nothing but \<open>ProtocolError\<close>s, that a frame with a
  corrupted byte is refused, and that firmware versions and fault flags convert back and forth.
\<close>

section \<open>Constants\<close>

definition MAGIC :: int where "MAGIC = 0x4554"
definition VERSION :: int where "VERSION = 1"
definition HEADER_LEN :: nat where "HEADER_LEN = 36"
definition MAX_PAYLOAD :: nat where "MAX_PAYLOAD = 1024"

definition HEADER_FMT :: "fld list" where
  "HEADER_FMT = [U16, U8, U8, Chars 12, U32, U64, U32, U16, U16]"

datatype MsgType =
    TELEMETRY | HELLO | HEARTBEAT | LOG | CONFIG_SET | CONFIG_ACK | FW_UPDATE | FW_ACK
  | FAULT_INJECT | FAULT_ACK | CMD

fun mt_val :: "MsgType \<Rightarrow> int" where
  "mt_val TELEMETRY = 0x01"
| "mt_val HELLO = 0x02"
| "mt_val HEARTBEAT = 0x03"
| "mt_val LOG = 0x04"
| "mt_val CONFIG_SET = 0x10"
| "mt_val CONFIG_ACK = 0x11"
| "mt_val FW_UPDATE = 0x12"
| "mt_val FW_ACK = 0x13"
| "mt_val FAULT_INJECT = 0x14"
| "mt_val FAULT_ACK = 0x15"
| "mt_val CMD = 0x20"

definition FAULT_FLAGS :: "(pystr \<times> int) list" where
  "FAULT_FLAGS =
     [(lit ''OVERTEMP'', 0x01), (lit ''OVERCURRENT'', 0x02), (lit ''UNDERVOLTAGE'', 0x04),
      (lit ''VIBRATION_HIGH'', 0x08), (lit ''SENSOR_STUCK'', 0x10), (lit ''GPS_LOST'', 0x20),
      (lit ''COMM_DEGRADED'', 0x40), (lit ''ENCODER_FAULT'', 0x80)]"

definition STATE_NAMES :: "(int \<times> pystr) list" where
  "STATE_NAMES = [(0, lit ''IDLE''), (1, lit ''RUNNING''), (2, lit ''DEGRADED''), (3, lit ''FAULT'')]"

definition LOG_LEVELS :: "(int \<times> pystr) list" where
  "LOG_LEVELS = [(0, lit ''debug''), (1, lit ''info''), (2, lit ''warn''), (3, lit ''error'')]"

definition LOG_LEVEL_IDS :: "(pystr \<times> int) list" where
  "LOG_LEVEL_IDS = map (\<lambda>(k, v). (v, k)) LOG_LEVELS"

definition CMD_IDS :: "(pystr \<times> int) list" where
  "CMD_IDS = [(lit ''reboot'', 0), (lit ''clear_faults'', 1), (lit ''request_hello'', 2)]"

definition CONFIG_ACK_STATUS :: "(int \<times> pystr) list" where
  "CONFIG_ACK_STATUS = [(0, lit ''applied''), (1, lit ''rejected'')]"

definition FW_ACK_STATUS :: "(int \<times> pystr) list" where
  "FW_ACK_STATUS =
     [(0, lit ''accepted''), (1, lit ''downloading''), (2, lit ''applied''), (3, lit ''rejected'')]"

text \<open>\<open>d.get(k, str(k))\<close>, the lookup of a status or level name.\<close>

definition name_or_str :: "(int \<times> pystr) list \<Rightarrow> int \<Rightarrow> pystr" where
  "name_or_str d k = (case map_of d k of Some n \<Rightarrow> n | None \<Rightarrow> py_str_int k)"

section \<open>Flags and firmware versions\<close>

definition flags_to_names :: "int \<Rightarrow> pystr list" where
  "flags_to_names flags = map fst (filter (\<lambda>(name, b). (flags AND b) \<noteq> 0) FAULT_FLAGS)"

fun names_to_flags_from :: "int \<Rightarrow> pystr list \<Rightarrow> int res" where
  "names_to_flags_from out [] = Inr out"
| "names_to_flags_from out (n # ns) =
     (let key = py_upper (py_strip n) in
      case map_of FAULT_FLAGS key of
        None \<Rightarrow> Inl ProtocolError
      | Some b \<Rightarrow> names_to_flags_from (out OR b) ns)"

definition names_to_flags :: "pystr list \<Rightarrow> int res" where
  "names_to_flags ns = names_to_flags_from 0 ns"

definition fw_encode :: "pystr \<Rightarrow> int res" where
  "fw_encode version =
     (case py_split 46 (py_strip version) of
        [a, b, c] \<Rightarrow>
          (case rmap py_int_of_str [a, b, c] of
             Inr [major, minor, patch] \<Rightarrow>
               if 0 \<le> major \<and> major < 65536 \<and> 0 \<le> minor \<and> minor < 256 \<and> 0 \<le> patch \<and> patch < 256
               then Inr (push_bit 16 major OR push_bit 8 minor OR patch)
               else Inl ProtocolError
           | _ \<Rightarrow> Inl ProtocolError)
      | _ \<Rightarrow> Inl ProtocolError)"

definition fw_decode :: "int \<Rightarrow> pystr" where
  "fw_decode v =
     py_str_int (drop_bit 16 v AND 0xFFFF) @ [46] @ py_str_int (drop_bit 8 v AND 0xFF) @ [46]
       @ py_str_int (v AND 0xFF)"

section \<open>Fixed-width strings\<close>

definition cstr :: "bytes \<Rightarrow> pystr" where
  "cstr raw = ascii_decode (takeWhile (\<lambda>b. b \<noteq> 0) raw)"

definition pad :: "pystr \<Rightarrow> nat \<Rightarrow> bytes" where
  "pad s n =
     (let e = ascii_encode s; b = (if n \<le> length e then take (n - 1) e else e)
      in b @ replicate (n - length b) 0)"

section \<open>The header\<close>

record Header =
  msg_type :: int
  device_id :: pystr
  seq :: int
  ts_ms :: int
  fw_version :: int
  payload_len :: int
  hversion :: int

definition Header_pack :: "Header \<Rightarrow> bytes res" where
  "Header_pack h =
     struct_pack HEADER_FMT
       [VInt MAGIC, VInt (hversion h), VInt (msg_type h), VBytes (pad (device_id h) 12),
        VInt (seq h AND 0xFFFFFFFF), VInt (ts_ms h AND 0xFFFFFFFFFFFFFFFF),
        VInt (fw_version h AND 0xFFFFFFFF), VInt (payload_len h), VInt 0]"

definition Header_unpack :: "bytes \<Rightarrow> Header res" where
  "Header_unpack buf =
     (if length buf < HEADER_LEN then Inl BadLength
      else rbind (unpack_from HEADER_FMT buf 0) (\<lambda>vs. case vs of
        [VInt magic, VInt ver, VInt mt, VBytes dev, VInt sq, VInt ts, VInt fw, VInt plen, VInt res] \<Rightarrow>
          if magic \<noteq> MAGIC then Inl BadMagic
          else if ver \<noteq> VERSION then Inl BadVersion
          else if int MAX_PAYLOAD < plen then Inl BadLength
          else Inr \<lparr>msg_type = mt, device_id = cstr dev, seq = sq, ts_ms = ts, fw_version = fw,
                    payload_len = plen, hversion = ver\<rparr>
      | _ \<Rightarrow> Inl StructError))"

section \<open>The payloads\<close>

record Telemetry =
  rpm :: pyfloat
  temp_c :: pyfloat
  current_a :: pyfloat
  voltage_v :: pyfloat
  vibration_g :: pyfloat
  speed_kph :: pyfloat
  lat :: pyfloat
  lon :: pyfloat
  fault_flags :: int
  state :: int

definition TELEMETRY_FMT :: "fld list" where
  "TELEMETRY_FMT = [F32, F32, F32, F32, F32, F32, F64, F64, U32, U8, Pad 3]"

definition Telemetry_pack :: "Telemetry \<Rightarrow> bytes res" where
  "Telemetry_pack t =
     struct_pack TELEMETRY_FMT
       [VFloat (rpm t), VFloat (temp_c t), VFloat (current_a t), VFloat (voltage_v t),
        VFloat (vibration_g t), VFloat (speed_kph t), VFloat (lat t), VFloat (lon t),
        VInt (fault_flags t AND 0xFFFFFFFF), VInt (state t AND 0xFF)]"

definition Telemetry_unpack :: "bytes \<Rightarrow> Telemetry res" where
  "Telemetry_unpack b =
     (if length b \<noteq> calcsize TELEMETRY_FMT then Inl BadLength
      else rbind (struct_unpack TELEMETRY_FMT b) (\<lambda>vs. case vs of
        [VFloat a, VFloat c, VFloat d, VFloat e, VFloat f, VFloat g, VFloat h, VFloat i, VInt ff, VInt st] \<Rightarrow>
          Inr \<lparr>rpm = a, temp_c = c, current_a = d, voltage_v = e, vibration_g = f, speed_kph = g,
               lat = h, lon = i, fault_flags = ff, state = st\<rparr>
      | _ \<Rightarrow> Inl StructError))"

text \<open>\<open>Telemetry.as_dict\<close>: the record with the two derived entries.\<close>

definition as_dict :: "Telemetry \<Rightarrow> Telemetry \<times> pystr \<times> pystr list" where
  "as_dict t = (t, name_or_str STATE_NAMES (state t), flags_to_names (fault_flags t))"

record Hello =
  fw_string :: pystr
  hw_model :: pystr
  he_config_version :: int
  he_telemetry_hz :: int

definition HELLO_FMT :: "fld list" where
  "HELLO_FMT = [Chars 16, Chars 16, U32, U16, U16]"

definition Hello_pack :: "Hello \<Rightarrow> bytes res" where
  "Hello_pack p =
     struct_pack HELLO_FMT
       [VBytes (pad (fw_string p) 16), VBytes (pad (hw_model p) 16), VInt (he_config_version p),
        VInt (he_telemetry_hz p), VInt 0]"

definition Hello_unpack :: "bytes \<Rightarrow> Hello res" where
  "Hello_unpack b =
     (if length b \<noteq> 40 then Inl BadLength
      else rbind (struct_unpack HELLO_FMT b) (\<lambda>vs. case vs of
        [VBytes fw, VBytes hw, VInt cv, VInt hz, VInt x] \<Rightarrow>
          Inr \<lparr>fw_string = cstr fw, hw_model = cstr hw, he_config_version = cv, he_telemetry_hz = hz\<rparr>
      | _ \<Rightarrow> Inl StructError))"

record Heartbeat =
  uptime_s :: int
  frames_sent :: int
  hb_config_version :: int
  hb_reconnects :: int

definition HEARTBEAT_FMT :: "fld list" where
  "HEARTBEAT_FMT = [U32, U32, U32, U32]"

definition Heartbeat_pack :: "Heartbeat \<Rightarrow> bytes res" where
  "Heartbeat_pack p =
     struct_pack HEARTBEAT_FMT
       [VInt (uptime_s p), VInt (frames_sent p), VInt (hb_config_version p), VInt (hb_reconnects p)]"

definition Heartbeat_unpack :: "bytes \<Rightarrow> Heartbeat res" where
  "Heartbeat_unpack b =
     (if length b \<noteq> 16 then Inl BadLength
      else rbind (struct_unpack HEARTBEAT_FMT b) (\<lambda>vs. case vs of
        [VInt u, VInt f, VInt c, VInt r] \<Rightarrow>
          Inr \<lparr>uptime_s = u, frames_sent = f, hb_config_version = c, hb_reconnects = r\<rparr>
      | _ \<Rightarrow> Inl StructError))"

record Log =
  level :: int
  message :: pystr

definition Log_pack :: "Log \<Rightarrow> bytes res" where
  "Log_pack p =
     rbind (struct_pack [U8, Pad 3] [VInt (level p)]) (\<lambda>a.
     rbind (utf8_encode (message p)) (\<lambda>m. Inr (a @ take (MAX_PAYLOAD - 4) m)))"

definition Log_unpack :: "bytes \<Rightarrow> Log res" where
  "Log_unpack b =
     (if length b < 4 then Inl BadLength
      else Inr \<lparr>level = uint (b ! 0), message = utf8_decode (drop 4 b)\<rparr>)"

definition level_name :: "Log \<Rightarrow> pystr" where
  "level_name p = name_or_str LOG_LEVELS (level p)"

record ConfigSet =
  cs_config_version :: int
  cs_telemetry_hz :: int
  cs_log_level :: int
  rpm_limit :: pyfloat
  temp_limit_c :: pyfloat
  current_limit_a :: pyfloat

definition CONFIG_SET_FMT :: "fld list" where
  "CONFIG_SET_FMT = [U32, U16, U8, U8, F32, F32, F32]"

definition ConfigSet_pack :: "ConfigSet \<Rightarrow> bytes res" where
  "ConfigSet_pack p =
     struct_pack CONFIG_SET_FMT
       [VInt (cs_config_version p), VInt (cs_telemetry_hz p), VInt (cs_log_level p), VInt 0,
        VFloat (rpm_limit p), VFloat (temp_limit_c p), VFloat (current_limit_a p)]"

definition ConfigSet_unpack :: "bytes \<Rightarrow> ConfigSet res" where
  "ConfigSet_unpack b =
     (if length b \<noteq> 20 then Inl BadLength
      else rbind (struct_unpack CONFIG_SET_FMT b) (\<lambda>vs. case vs of
        [VInt cv, VInt hz, VInt ll, VInt x, VFloat r, VFloat t, VFloat c] \<Rightarrow>
          Inr \<lparr>cs_config_version = cv, cs_telemetry_hz = hz, cs_log_level = ll, rpm_limit = r,
               temp_limit_c = t, current_limit_a = c\<rparr>
      | _ \<Rightarrow> Inl StructError))"

record ConfigAck =
  ca_config_version :: int
  ca_status :: int

definition ConfigAck_pack :: "ConfigAck \<Rightarrow> bytes res" where
  "ConfigAck_pack p = struct_pack [U32, U8, Pad 3] [VInt (ca_config_version p), VInt (ca_status p)]"

definition ConfigAck_unpack :: "bytes \<Rightarrow> ConfigAck res" where
  "ConfigAck_unpack b =
     (if length b \<noteq> 8 then Inl BadLength
      else rbind (struct_unpack [U32, U8, Pad 3] b) (\<lambda>vs. case vs of
        [VInt cv, VInt st] \<Rightarrow> Inr \<lparr>ca_config_version = cv, ca_status = st\<rparr> | _ \<Rightarrow> Inl StructError))"

definition ca_status_name :: "ConfigAck \<Rightarrow> pystr" where
  "ca_status_name p = name_or_str CONFIG_ACK_STATUS (ca_status p)"

record FwUpdate =
  target_version :: pystr
  image_size_bytes :: int
  image_crc :: int

definition FwUpdate_pack :: "FwUpdate \<Rightarrow> bytes res" where
  "FwUpdate_pack p =
     struct_pack [Chars 16, U32, U32]
       [VBytes (pad (target_version p) 16), VInt (image_size_bytes p), VInt (image_crc p)]"

definition FwUpdate_unpack :: "bytes \<Rightarrow> FwUpdate res" where
  "FwUpdate_unpack b =
     (if length b \<noteq> 24 then Inl BadLength
      else rbind (struct_unpack [Chars 16, U32, U32] b) (\<lambda>vs. case vs of
        [VBytes v, VInt sz, VInt crc] \<Rightarrow>
          Inr \<lparr>target_version = cstr v, image_size_bytes = sz, image_crc = crc\<rparr>
      | _ \<Rightarrow> Inl StructError))"

record FwAck =
  fa_status :: int
  fa_version :: pystr

definition FwAck_pack :: "FwAck \<Rightarrow> bytes res" where
  "FwAck_pack p =
     struct_pack [U8, Pad 3, Chars 16] [VInt (fa_status p), VBytes (pad (fa_version p) 16)]"

definition FwAck_unpack :: "bytes \<Rightarrow> FwAck res" where
  "FwAck_unpack b =
     (if length b \<noteq> 20 then Inl BadLength
      else rbind (struct_unpack [U8, Pad 3, Chars 16] b) (\<lambda>vs. case vs of
        [VInt st, VBytes v] \<Rightarrow> Inr \<lparr>fa_status = st, fa_version = cstr v\<rparr> | _ \<Rightarrow> Inl StructError))"

definition fa_status_name :: "FwAck \<Rightarrow> pystr" where
  "fa_status_name p = name_or_str FW_ACK_STATUS (fa_status p)"

record FaultInject =
  set_flags :: int
  clear_flags :: int
  duration_ms :: int

definition FaultInject_pack :: "FaultInject \<Rightarrow> bytes res" where
  "FaultInject_pack p =
     struct_pack [U32, U32, U32] [VInt (set_flags p), VInt (clear_flags p), VInt (duration_ms p)]"

definition FaultInject_unpack :: "bytes \<Rightarrow> FaultInject res" where
  "FaultInject_unpack b =
     (if length b \<noteq> 12 then Inl BadLength
      else rbind (struct_unpack [U32, U32, U32] b) (\<lambda>vs. case vs of
        [VInt s, VInt c, VInt d] \<Rightarrow> Inr \<lparr>set_flags = s, clear_flags = c, duration_ms = d\<rparr>
      | _ \<Rightarrow> Inl StructError))"

record FaultAck =
  active_flags :: int

definition FaultAck_pack :: "FaultAck \<Rightarrow> bytes res" where
  "FaultAck_pack p = struct_pack [U32] [VInt (active_flags p)]"

definition FaultAck_unpack :: "bytes \<Rightarrow> FaultAck res" where
  "FaultAck_unpack b =
     (if length b \<noteq> 4 then Inl BadLength
      else rbind (struct_unpack [U32] b) (\<lambda>vs. case vs of
        [VInt f] \<Rightarrow> Inr \<lparr>active_flags = f\<rparr> | _ \<Rightarrow> Inl StructError))"

record Cmd =
  cmd :: int

definition Cmd_pack :: "Cmd \<Rightarrow> bytes res" where
  "Cmd_pack p = struct_pack [U8, Pad 3] [VInt (cmd p)]"

definition Cmd_unpack :: "bytes \<Rightarrow> Cmd res" where
  "Cmd_unpack b = (if length b \<noteq> 4 then Inl BadLength else Inr \<lparr>cmd = uint (b ! 0)\<rparr>)"

text \<open>A payload object of one of the eleven classes, and the payload field of a frame.\<close>

datatype Payload =
    PTelemetry Telemetry | PHello Hello | PHeartbeat Heartbeat | PLog Log | PConfigSet ConfigSet
  | PConfigAck ConfigAck | PFwUpdate FwUpdate | PFwAck FwAck | PFaultInject FaultInject
  | PFaultAck FaultAck | PCmd Cmd

fun payload_type :: "Payload \<Rightarrow> MsgType" where
  "payload_type (PTelemetry _) = TELEMETRY"
| "payload_type (PHello _) = HELLO"
| "payload_type (PHeartbeat _) = HEARTBEAT"
| "payload_type (PLog _) = LOG"
| "payload_type (PConfigSet _) = CONFIG_SET"
| "payload_type (PConfigAck _) = CONFIG_ACK"
| "payload_type (PFwUpdate _) = FW_UPDATE"
| "payload_type (PFwAck _) = FW_ACK"
| "payload_type (PFaultInject _) = FAULT_INJECT"
| "payload_type (PFaultAck _) = FAULT_ACK"
| "payload_type (PCmd _) = CMD"

fun payload_pack :: "Payload \<Rightarrow> bytes res" where
  "payload_pack (PTelemetry p) = Telemetry_pack p"
| "payload_pack (PHello p) = Hello_pack p"
| "payload_pack (PHeartbeat p) = Heartbeat_pack p"
| "payload_pack (PLog p) = Log_pack p"
| "payload_pack (PConfigSet p) = ConfigSet_pack p"
| "payload_pack (PConfigAck p) = ConfigAck_pack p"
| "payload_pack (PFwUpdate p) = FwUpdate_pack p"
| "payload_pack (PFwAck p) = FwAck_pack p"
| "payload_pack (PFaultInject p) = FaultInject_pack p"
| "payload_pack (PFaultAck p) = FaultAck_pack p"
| "payload_pack (PCmd p) = Cmd_pack p"

definition res_map :: "('a \<Rightarrow> 'b) \<Rightarrow> 'a res \<Rightarrow> 'b res" where
  "res_map f r = rbind r (\<lambda>x. Inr (f x))"

text \<open>\<open>PAYLOAD_CLASSES\<close>: the \<open>unpack\<close> of the class registered for a message type, if any.\<close>

definition PAYLOAD_CLASSES :: "(int \<times> (bytes \<Rightarrow> Payload res)) list" where
  "PAYLOAD_CLASSES =
     [(mt_val TELEMETRY, \<lambda>b. res_map PTelemetry (Telemetry_unpack b)),
      (mt_val HELLO, \<lambda>b. res_map PHello (Hello_unpack b)),
      (mt_val HEARTBEAT, \<lambda>b. res_map PHeartbeat (Heartbeat_unpack b)),
      (mt_val LOG, \<lambda>b. res_map PLog (Log_unpack b)),
      (mt_val CONFIG_SET, \<lambda>b. res_map PConfigSet (ConfigSet_unpack b)),
      (mt_val CONFIG_ACK, \<lambda>b. res_map PConfigAck (ConfigAck_unpack b)),
      (mt_val FW_UPDATE, \<lambda>b. res_map PFwUpdate (FwUpdate_unpack b)),
      (mt_val FW_ACK, \<lambda>b. res_map PFwAck (FwAck_unpack b)),
      (mt_val FAULT_INJECT, \<lambda>b. res_map PFaultInject (FaultInject_unpack b)),
      (mt_val FAULT_ACK, \<lambda>b. res_map PFaultAck (FaultAck_unpack b)),
      (mt_val CMD, \<lambda>b. res_map PCmd (Cmd_unpack b))]"

section \<open>Frames\<close>

datatype body = Typed Payload | Raw bytes

record Frame =
  header :: Header
  payload :: body
  raw :: bytes

fun body_bytes :: "body \<Rightarrow> bytes res" where
  "body_bytes (Raw b) = Inr b"
| "body_bytes (Typed p) = payload_pack p"

definition encode :: "int \<Rightarrow> pystr \<Rightarrow> int \<Rightarrow> int \<Rightarrow> int \<Rightarrow> body \<Rightarrow> bytes res" where
  "encode mt dev sq ts fw p =
     rbind (body_bytes p) (\<lambda>b.
     if MAX_PAYLOAD < length b then Inl BadLength
     else rbind (Header_pack \<lparr>msg_type = mt, device_id = dev, seq = sq, ts_ms = ts, fw_version = fw,
                             payload_len = int (length b), hversion = VERSION\<rparr>) (\<lambda>hdr.
          let frame = hdr @ b
          in rbind (struct_pack [U32] [VInt (crc32 frame AND 0xFFFFFFFF)]) (\<lambda>c. Inr (frame @ c))))"

datatype fwarg = FwInt int | FwStr pystr

definition encode_frame :: "pystr \<Rightarrow> int \<Rightarrow> int \<Rightarrow> fwarg \<Rightarrow> Payload \<Rightarrow> bytes res" where
  "encode_frame dev sq ts fwv p =
     rbind (case fwv of FwStr s \<Rightarrow> fw_encode s | FwInt i \<Rightarrow> Inr i) (\<lambda>fw.
     encode (mt_val (payload_type p)) dev sq ts fw (Typed p))"

definition frame_length :: "bytes \<Rightarrow> nat option" where
  "frame_length buf =
     (if length buf < HEADER_LEN then None
      else Some (HEADER_LEN + nat (le_int (take 2 (drop 32 buf))) + 4))"

definition decode :: "bytes \<Rightarrow> Frame res" where
  "decode buf =
     rbind (Header_unpack buf) (\<lambda>hdr.
     let total = HEADER_LEN + nat (payload_len hdr) + 4 in
     if length buf < total then Inl BadLength
     else let bdy = take total buf in
       rbind (unpack_from [U32] bdy (total - 4)) (\<lambda>vs. case vs of
         [VInt crc] \<Rightarrow>
           if (crc32 (take (total - 4) bdy) AND 0xFFFFFFFF) \<noteq> crc then Inl BadCRC
           else let raw_payload = drop HEADER_LEN (take (total - 4) bdy) in
             rbind (case map_of PAYLOAD_CLASSES (msg_type hdr) of
                      Some unp \<Rightarrow> res_map Typed (unp raw_payload)
                    | None \<Rightarrow> Inr (Raw raw_payload)) (\<lambda>p.
             Inr \<lparr>header = hdr, payload = p, raw = bdy\<rparr>)
       | _ \<Rightarrow> Inl StructError))"


section \<open>What a message may hold\<close>

text \<open>
  The values each class carries exactly: integers in the range of their field, floats of the
  precision of their field, ASCII strings without NUL that leave room for the terminator.
\<close>

abbreviation u8 :: "int \<Rightarrow> bool" where "u8 i \<equiv> 0 \<le> i \<and> i < 2 ^ 8"
abbreviation u16 :: "int \<Rightarrow> bool" where "u16 i \<equiv> 0 \<le> i \<and> i < 2 ^ 16"
abbreviation u32 :: "int \<Rightarrow> bool" where "u32 i \<equiv> 0 \<le> i \<and> i < 2 ^ 32"
abbreviation u64 :: "int \<Rightarrow> bool" where "u64 i \<equiv> 0 \<le> i \<and> i < 2 ^ 64"

definition cfield :: "nat \<Rightarrow> pystr \<Rightarrow> bool" where
  "cfield n s \<longleftrightarrow> is_ascii s \<and> 0 \<notin> set s \<and> length s < n"

definition Telemetry_ok :: "Telemetry \<Rightarrow> bool" where
  "Telemetry_ok t \<longleftrightarrow>
     is_f32 (rpm t) \<and> is_f32 (temp_c t) \<and> is_f32 (current_a t) \<and> is_f32 (voltage_v t)
     \<and> is_f32 (vibration_g t) \<and> is_f32 (speed_kph t) \<and> is_f64 (lat t) \<and> is_f64 (lon t)
     \<and> u32 (fault_flags t) \<and> u8 (state t)"

definition Hello_ok :: "Hello \<Rightarrow> bool" where
  "Hello_ok p \<longleftrightarrow>
     cfield 16 (fw_string p) \<and> cfield 16 (hw_model p) \<and> u32 (he_config_version p) \<and> u16 (he_telemetry_hz p)"

definition Heartbeat_ok :: "Heartbeat \<Rightarrow> bool" where
  "Heartbeat_ok p \<longleftrightarrow>
     u32 (uptime_s p) \<and> u32 (frames_sent p) \<and> u32 (hb_config_version p) \<and> u32 (hb_reconnects p)"

definition Log_ok :: "Log \<Rightarrow> bool" where
  "Log_ok p \<longleftrightarrow> u8 (level p) \<and> (\<forall>c\<in>set (message p). is_scalar c)
     \<and> (case utf8_encode (message p) of Inr b \<Rightarrow> length b \<le> MAX_PAYLOAD - 4 | Inl _ \<Rightarrow> False)"

definition ConfigSet_ok :: "ConfigSet \<Rightarrow> bool" where
  "ConfigSet_ok p \<longleftrightarrow>
     u32 (cs_config_version p) \<and> u16 (cs_telemetry_hz p) \<and> u8 (cs_log_level p) \<and> is_f32 (rpm_limit p)
     \<and> is_f32 (temp_limit_c p) \<and> is_f32 (current_limit_a p)"

definition ConfigAck_ok :: "ConfigAck \<Rightarrow> bool" where
  "ConfigAck_ok p \<longleftrightarrow> u32 (ca_config_version p) \<and> u8 (ca_status p)"

definition FwUpdate_ok :: "FwUpdate \<Rightarrow> bool" where
  "FwUpdate_ok p \<longleftrightarrow> cfield 16 (target_version p) \<and> u32 (image_size_bytes p) \<and> u32 (image_crc p)"

definition FwAck_ok :: "FwAck \<Rightarrow> bool" where
  "FwAck_ok p \<longleftrightarrow> u8 (fa_status p) \<and> cfield 16 (fa_version p)"

definition FaultInject_ok :: "FaultInject \<Rightarrow> bool" where
  "FaultInject_ok p \<longleftrightarrow> u32 (set_flags p) \<and> u32 (clear_flags p) \<and> u32 (duration_ms p)"

definition FaultAck_ok :: "FaultAck \<Rightarrow> bool" where
  "FaultAck_ok p \<longleftrightarrow> u32 (active_flags p)"

definition Cmd_ok :: "Cmd \<Rightarrow> bool" where
  "Cmd_ok p \<longleftrightarrow> u8 (cmd p)"

fun payload_ok :: "Payload \<Rightarrow> bool" where
  "payload_ok (PTelemetry p) = Telemetry_ok p"
| "payload_ok (PHello p) = Hello_ok p"
| "payload_ok (PHeartbeat p) = Heartbeat_ok p"
| "payload_ok (PLog p) = Log_ok p"
| "payload_ok (PConfigSet p) = ConfigSet_ok p"
| "payload_ok (PConfigAck p) = ConfigAck_ok p"
| "payload_ok (PFwUpdate p) = FwUpdate_ok p"
| "payload_ok (PFwAck p) = FwAck_ok p"
| "payload_ok (PFaultInject p) = FaultInject_ok p"
| "payload_ok (PFaultAck p) = FaultAck_ok p"
| "payload_ok (PCmd p) = Cmd_ok p"

section \<open>Strings, masks, versions and flags\<close>

lemma length_pad [simp]: "0 < n \<Longrightarrow> length (pad s n) = n"
  by (simp add: pad_def Let_def)

lemma ascii_encode_no_nul:
  assumes "is_ascii s" "0 \<notin> set s"
  shows "0 \<notin> set (ascii_encode s)"
proof
  assume "0 \<in> set (ascii_encode s)"
  then obtain c where c: "c \<in> set s" "(word_of_int c :: byte) = 0" "0 \<le> c" "c < 128"
    using assms(1) by (auto simp: ascii_encode_def is_ascii_def split: if_splits)
  from c(2) have "uint (word_of_int c :: byte) = 0" by (simp only: unsigned_0)
  with c(3,4) have "c = 0" by (simp only: uint_word_of_int_byte) simp
  with c(1) assms(2) show False by simp
qed

lemma cstr_pad: "cfield n s \<Longrightarrow> cstr (pad s n) = s"
  using ascii_encode_no_nul [of s]
  by (simp add: cfield_def cstr_def pad_def takeWhile_replicate_tail ascii_roundtrip)

text \<open>A string that fills its field loses what does not fit before the terminator.\<close>

lemma cstr_pad_long:
  assumes "is_ascii s" "0 \<notin> set s" "0 < n" "n \<le> length s"
  shows "cstr (pad s n) = take (n - 1) s"
proof -
  have t: "is_ascii (take (n - 1) s)" "0 \<notin> set (take (n - 1) s)"
    using assms(1,2) by (auto simp: is_ascii_def dest: in_set_takeD)
  have "pad s n = ascii_encode (take (n - 1) s) @ replicate 1 0"
    using assms(3,4) by (simp add: pad_def ascii_encode_def take_map)
  with takeWhile_replicate_tail [OF ascii_encode_no_nul [OF t], of 1] show ?thesis
    by (simp only: cstr_def ascii_roundtrip [OF t(1)])
qed

lemma and_mask32: "i AND 0xFFFFFFFF = i mod (2 ^ 32 :: int)"
  using take_bit_eq_mask [of 32 i] by (simp add: mask_eq_exp_minus_1 take_bit_eq_mod)

lemma and_mask64: "i AND 0xFFFFFFFFFFFFFFFF = i mod (2 ^ 64 :: int)"
  using take_bit_eq_mask [of 64 i] by (simp add: mask_eq_exp_minus_1 take_bit_eq_mod)

lemma and_mask16: "i AND 0xFFFF = i mod (2 ^ 16 :: int)"
  using take_bit_eq_mask [of 16 i] by (simp add: mask_eq_exp_minus_1 take_bit_eq_mod)

lemma and_mask8: "i AND 0xFF = i mod (2 ^ 8 :: int)"
  using take_bit_eq_mask [of 8 i] by (simp add: mask_eq_exp_minus_1 take_bit_eq_mod)

lemmas and_masks = and_mask8 and_mask16 and_mask32 and_mask64


section \<open>The contract of a message class\<close>

text \<open>
  What the frame layer relies on: a message in range packs into a payload that unpacks to the
  same message, and the only exception \<open>unpack\<close> raises is \<open>BadLength\<close>.
\<close>

locale message_class =
  fixes pack :: "'a \<Rightarrow> bytes res" and unpack :: "bytes \<Rightarrow> 'a res" and ok :: "'a \<Rightarrow> bool"
  assumes unpack_pack: "ok p \<Longrightarrow> \<exists>b. pack p = Inr b \<and> length b \<le> MAX_PAYLOAD \<and> unpack b = Inr p"
    and unpack_error: "unpack b = Inl e \<Longrightarrow> e = BadLength"
begin

lemma pack_inj: "ok p \<Longrightarrow> ok q \<Longrightarrow> pack p = pack q \<Longrightarrow> p = q"
  using unpack_pack [of p] unpack_pack [of q] by auto

lemma wrapped:
  assumes "ok p"
  shows "\<exists>b. pack p = Inr b \<and> length b \<le> MAX_PAYLOAD \<and> res_map W (unpack b) = Inr (W p)"
  using unpack_pack [OF assms] by (auto simp: res_map_def)

lemma wrapped_error: "res_map W (unpack b) = Inl e \<Longrightarrow> e = BadLength"
  using unpack_error by (auto simp: res_map_def rbind_Inl_iff)

end

lemma packed_fields:
  assumes "fits_all fs vs"
  shows "\<exists>b. struct_pack fs vs = Inr b \<and> length b = calcsize fs \<and> struct_unpack fs b = Inr vs"
  using struct_roundtrip [OF assms] by metis

text \<open>The shape of what a format unpacks to.\<close>

lemma fits_all_Cons:
  "fits_all (f # fs) vs \<longleftrightarrow>
     (if \<exists>n. f = Pad n then fits_all fs vs else \<exists>v ws. vs = v # ws \<and> fits f v \<and> fits_all fs ws)"
  by (cases f; cases vs) auto

lemma fits_int: "fits U8 v \<longleftrightarrow> (\<exists>i. v = VInt i \<and> u8 i)" "fits U16 v \<longleftrightarrow> (\<exists>i. v = VInt i \<and> u16 i)"
  "fits U32 v \<longleftrightarrow> (\<exists>i. v = VInt i \<and> u32 i)" "fits U64 v \<longleftrightarrow> (\<exists>i. v = VInt i \<and> u64 i)"
  by (cases v; simp)+

lemma fits_other: "fits F32 v \<longleftrightarrow> (\<exists>x. v = VFloat x \<and> is_f32 x)" "fits F64 v \<longleftrightarrow> (\<exists>x. v = VFloat x \<and> is_f64 x)"
  "fits (Chars n) v \<longleftrightarrow> (\<exists>b. v = VBytes b \<and> length b = n)"
  by (cases v; simp)+

lemmas fits_shape = fits_all_Cons fits_int fits_other

lemma struct_unpack_shape:
  "length b = calcsize fs \<Longrightarrow> \<exists>vs. struct_unpack fs b = Inr vs \<and> fits_all fs vs"
  using unpack_fields_fits [of fs b] by (auto simp: struct_unpack_def)

lemmas Telemetry_defs = Telemetry_pack_def Telemetry_unpack_def Telemetry_ok_def TELEMETRY_FMT_def
lemmas Hello_defs = Hello_pack_def Hello_unpack_def Hello_ok_def HELLO_FMT_def

interpretation telemetry: message_class Telemetry_pack Telemetry_unpack Telemetry_ok
proof
  show "\<exists>b. Telemetry_pack p = Inr b \<and> length b \<le> MAX_PAYLOAD \<and> Telemetry_unpack b = Inr p"
    if "Telemetry_ok p" for p
    using that packed_fields [of TELEMETRY_FMT "[VFloat (rpm p), VFloat (temp_c p), VFloat (current_a p),
      VFloat (voltage_v p), VFloat (vibration_g p), VFloat (speed_kph p), VFloat (lat p), VFloat (lon p),
      VInt (fault_flags p), VInt (state p)]"]
    by (auto simp: Telemetry_defs MAX_PAYLOAD_def and_masks)
  show "e = BadLength" if "Telemetry_unpack b = Inl e" for b e
    using that struct_unpack_shape [of b TELEMETRY_FMT]
    by (cases "length b = calcsize TELEMETRY_FMT") (auto simp: Telemetry_defs fits_shape)
qed

interpretation hello: message_class Hello_pack Hello_unpack Hello_ok
proof
  show "\<exists>b. Hello_pack p = Inr b \<and> length b \<le> MAX_PAYLOAD \<and> Hello_unpack b = Inr p"
    if "Hello_ok p" for p
    using that packed_fields [of HELLO_FMT "[VBytes (pad (fw_string p) 16), VBytes (pad (hw_model p) 16),
      VInt (he_config_version p), VInt (he_telemetry_hz p), VInt 0]"]
    by (auto simp: Hello_defs MAX_PAYLOAD_def cstr_pad)
  show "e = BadLength" if "Hello_unpack b = Inl e" for b e
    using that struct_unpack_shape [of b HELLO_FMT]
    by (cases "length b = 40") (auto simp: Hello_defs fits_shape)
qed

lemmas Heartbeat_defs = Heartbeat_pack_def Heartbeat_unpack_def Heartbeat_ok_def HEARTBEAT_FMT_def
lemmas ConfigSet_defs = ConfigSet_pack_def ConfigSet_unpack_def ConfigSet_ok_def CONFIG_SET_FMT_def
lemmas ConfigAck_defs = ConfigAck_pack_def ConfigAck_unpack_def ConfigAck_ok_def
lemmas FwUpdate_defs = FwUpdate_pack_def FwUpdate_unpack_def FwUpdate_ok_def
lemmas FwAck_defs = FwAck_pack_def FwAck_unpack_def FwAck_ok_def
lemmas FaultInject_defs = FaultInject_pack_def FaultInject_unpack_def FaultInject_ok_def
lemmas FaultAck_defs = FaultAck_pack_def FaultAck_unpack_def FaultAck_ok_def

interpretation heartbeat: message_class Heartbeat_pack Heartbeat_unpack Heartbeat_ok
proof
  show "\<exists>b. Heartbeat_pack p = Inr b \<and> length b \<le> MAX_PAYLOAD \<and> Heartbeat_unpack b = Inr p"
    if "Heartbeat_ok p" for p
    using that packed_fields [of HEARTBEAT_FMT "[VInt (uptime_s p), VInt (frames_sent p), VInt (hb_config_version p),
      VInt (hb_reconnects p)]"]
    by (auto simp: Heartbeat_defs MAX_PAYLOAD_def)
  show "e = BadLength" if "Heartbeat_unpack b = Inl e" for b e
    using that struct_unpack_shape [of b HEARTBEAT_FMT]
    by (cases "length b = 16") (auto simp: Heartbeat_defs fits_shape)
qed

interpretation config_set: message_class ConfigSet_pack ConfigSet_unpack ConfigSet_ok
proof
  show "\<exists>b. ConfigSet_pack p = Inr b \<and> length b \<le> MAX_PAYLOAD \<and> ConfigSet_unpack b = Inr p"
    if "ConfigSet_ok p" for p
    using that packed_fields [of CONFIG_SET_FMT "[VInt (cs_config_version p), VInt (cs_telemetry_hz p),
      VInt (cs_log_level p), VInt 0, VFloat (rpm_limit p), VFloat (temp_limit_c p), VFloat (current_limit_a p)]"]
    by (auto simp: ConfigSet_defs MAX_PAYLOAD_def)
  show "e = BadLength" if "ConfigSet_unpack b = Inl e" for b e
    using that struct_unpack_shape [of b CONFIG_SET_FMT]
    by (cases "length b = 20") (auto simp: ConfigSet_defs fits_shape)
qed

interpretation config_ack: message_class ConfigAck_pack ConfigAck_unpack ConfigAck_ok
proof
  show "\<exists>b. ConfigAck_pack p = Inr b \<and> length b \<le> MAX_PAYLOAD \<and> ConfigAck_unpack b = Inr p"
    if "ConfigAck_ok p" for p
    using that packed_fields [of "[U32, U8, Pad 3]" "[VInt (ca_config_version p), VInt (ca_status p)]"]
    by (auto simp: ConfigAck_defs MAX_PAYLOAD_def)
  show "e = BadLength" if "ConfigAck_unpack b = Inl e" for b e
    using that struct_unpack_shape [of b "[U32, U8, Pad 3]"]
    by (cases "length b = 8") (auto simp: ConfigAck_defs fits_shape)
qed

interpretation fw_update: message_class FwUpdate_pack FwUpdate_unpack FwUpdate_ok
proof
  show "\<exists>b. FwUpdate_pack p = Inr b \<and> length b \<le> MAX_PAYLOAD \<and> FwUpdate_unpack b = Inr p"
    if "FwUpdate_ok p" for p
    using that packed_fields [of "[Chars 16, U32, U32]" "[VBytes (pad (target_version p) 16),
      VInt (image_size_bytes p), VInt (image_crc p)]"]
    by (auto simp: FwUpdate_defs MAX_PAYLOAD_def cstr_pad)
  show "e = BadLength" if "FwUpdate_unpack b = Inl e" for b e
    using that struct_unpack_shape [of b "[Chars 16, U32, U32]"]
    by (cases "length b = 24") (auto simp: FwUpdate_defs fits_shape)
qed

interpretation fw_ack: message_class FwAck_pack FwAck_unpack FwAck_ok
proof
  show "\<exists>b. FwAck_pack p = Inr b \<and> length b \<le> MAX_PAYLOAD \<and> FwAck_unpack b = Inr p"
    if "FwAck_ok p" for p
    using that packed_fields [of "[U8, Pad 3, Chars 16]" "[VInt (fa_status p), VBytes (pad (fa_version p) 16)]"]
    by (auto simp: FwAck_defs MAX_PAYLOAD_def cstr_pad)
  show "e = BadLength" if "FwAck_unpack b = Inl e" for b e
    using that struct_unpack_shape [of b "[U8, Pad 3, Chars 16]"]
    by (cases "length b = 20") (auto simp: FwAck_defs fits_shape)
qed

interpretation fault_inject: message_class FaultInject_pack FaultInject_unpack FaultInject_ok
proof
  show "\<exists>b. FaultInject_pack p = Inr b \<and> length b \<le> MAX_PAYLOAD \<and> FaultInject_unpack b = Inr p"
    if "FaultInject_ok p" for p
    using that packed_fields [of "[U32, U32, U32]" "[VInt (set_flags p), VInt (clear_flags p), VInt (duration_ms p)]"]
    by (auto simp: FaultInject_defs MAX_PAYLOAD_def)
  show "e = BadLength" if "FaultInject_unpack b = Inl e" for b e
    using that struct_unpack_shape [of b "[U32, U32, U32]"]
    by (cases "length b = 12") (auto simp: FaultInject_defs fits_shape)
qed

interpretation fault_ack: message_class FaultAck_pack FaultAck_unpack FaultAck_ok
proof
  show "\<exists>b. FaultAck_pack p = Inr b \<and> length b \<le> MAX_PAYLOAD \<and> FaultAck_unpack b = Inr p"
    if "FaultAck_ok p" for p
    using that packed_fields [of "[U32]" "[VInt (active_flags p)]"]
    by (auto simp: FaultAck_defs MAX_PAYLOAD_def)
  show "e = BadLength" if "FaultAck_unpack b = Inl e" for b e
    using that struct_unpack_shape [of b "[U32]"]
    by (cases "length b = 4") (auto simp: FaultAck_defs fits_shape)
qed

lemma struct_pack_byte:
  "u8 i \<Longrightarrow> struct_pack [U8, Pad 3] [VInt i] = Inr [word_of_int i, 0, 0, 0]"
  by (simp add: pack_uint_def numeral_3_eq_3)

interpretation cmd_msg: message_class Cmd_pack Cmd_unpack Cmd_ok
proof
  show "\<exists>b. Cmd_pack p = Inr b \<and> length b \<le> MAX_PAYLOAD \<and> Cmd_unpack b = Inr p" if "Cmd_ok p" for p
    using that struct_pack_byte [of "cmd p"]
    by (auto simp: Cmd_pack_def Cmd_unpack_def Cmd_ok_def MAX_PAYLOAD_def uint_word_of_int_byte)
  show "e = BadLength" if "Cmd_unpack b = Inl e" for b e
    using that by (auto simp: Cmd_unpack_def split: if_splits)
qed

interpretation log_msg: message_class Log_pack Log_unpack Log_ok
proof
  show "\<exists>b. Log_pack p = Inr b \<and> length b \<le> MAX_PAYLOAD \<and> Log_unpack b = Inr p" if "Log_ok p" for p
  proof -
    from that have u: "u8 (level p)" by (simp add: Log_ok_def)
    from that obtain m where m: "utf8_encode (message p) = Inr m" "utf8_decode m = message p"
      using utf8_roundtrip [of "message p"] by (auto simp: Log_ok_def)
    have "length m \<le> MAX_PAYLOAD - 4" using that m by (simp add: Log_ok_def)
    with m u show ?thesis
      by (auto simp: Log_pack_def Log_unpack_def struct_pack_byte uint_word_of_int_byte MAX_PAYLOAD_def
          simp del: struct_pack.simps)
  qed
  show "e = BadLength" if "Log_unpack b = Inl e" for b e
    using that by (auto simp: Log_unpack_def split: if_splits)
qed

section \<open>Payloads by message type\<close>

lemmas wrapped_all =
    telemetry.wrapped hello.wrapped heartbeat.wrapped log_msg.wrapped config_set.wrapped
    config_ack.wrapped fw_update.wrapped fw_ack.wrapped fault_inject.wrapped fault_ack.wrapped
    cmd_msg.wrapped

lemmas wrapped_errors =
    telemetry.wrapped_error hello.wrapped_error heartbeat.wrapped_error log_msg.wrapped_error
    config_set.wrapped_error config_ack.wrapped_error fw_update.wrapped_error fw_ack.wrapped_error
    fault_inject.wrapped_error fault_ack.wrapped_error cmd_msg.wrapped_error

lemma payload_roundtrip:
  assumes "payload_ok p"
  shows "\<exists>b u. payload_pack p = Inr b \<and> length b \<le> MAX_PAYLOAD
           \<and> map_of PAYLOAD_CLASSES (mt_val (payload_type p)) = Some u \<and> u b = Inr p"
  using assms by (cases p) (simp_all add: PAYLOAD_CLASSES_def wrapped_all)

lemma payload_classes_errors: "list_all (\<lambda>(t, u). \<forall>b e. u b = Inl e \<longrightarrow> e = BadLength) PAYLOAD_CLASSES"
  unfolding PAYLOAD_CLASSES_def list.pred_inject prod.case
  by (intro conjI allI impI list.pred_inject) (erule wrapped_errors)+

lemma payload_class_error: "map_of PAYLOAD_CLASSES t = Some u \<Longrightarrow> u b = Inl e \<Longrightarrow> e = BadLength"
  using payload_classes_errors by (fastforce simp: list_all_iff dest: map_of_SomeD)

text \<open>Received telemetry holds only values its fields can hold.\<close>

lemma Telemetry_unpack_ok:
  assumes "Telemetry_unpack b = Inr t"
  shows "Telemetry_ok t"
proof -
  have l: "length b = calcsize TELEMETRY_FMT"
    using assms by (auto simp: Telemetry_unpack_def split: if_splits)
  from struct_unpack_shape [OF l] assms l show ?thesis
    by (auto simp: Telemetry_defs fits_shape)
qed

section \<open>Headers\<close>

lemma unpack_fields_prefix:
  "calcsize fs \<le> length b \<Longrightarrow> unpack_fields fs (b @ r) = unpack_fields fs b"
proof (induction fs arbitrary: b)
  case (Cons f fs)
  then show ?case using Cons.IH [of "drop (fsize f) b"] by (cases f) auto
qed simp

lemma Header_unpack_append: "HEADER_LEN \<le> length b \<Longrightarrow> Header_unpack (b @ r) = Header_unpack b"
  by (simp add: Header_unpack_def unpack_from_def HEADER_LEN_def HEADER_FMT_def
      unpack_fields_prefix del: unpack_fields.simps)

lemma Header_unpack_take: "HEADER_LEN \<le> n \<Longrightarrow> n \<le> length b \<Longrightarrow> Header_unpack (take n b) = Header_unpack b"
  using Header_unpack_append [of "take n b" "drop n b"] by simp

lemma Header_roundtrip:
  assumes "u8 (msg_type h)" "0 \<le> payload_len h" "payload_len h \<le> int MAX_PAYLOAD" "hversion h = VERSION"
  obtains b where "Header_pack h = Inr b" "length b = HEADER_LEN"
    "Header_unpack b = Inr (h\<lparr>device_id := cstr (pad (device_id h) 12), seq := seq h mod 2 ^ 32,
       ts_ms := ts_ms h mod 2 ^ 64, fw_version := fw_version h mod 2 ^ 32\<rparr>)"
proof -
  let ?vs = "[VInt MAGIC, VInt (hversion h), VInt (msg_type h), VBytes (pad (device_id h) 12),
        VInt (seq h mod 2 ^ 32), VInt (ts_ms h mod 2 ^ 64), VInt (fw_version h mod 2 ^ 32),
        VInt (payload_len h), VInt 0]"
  have "fits_all HEADER_FMT ?vs"
    using assms by (simp add: HEADER_FMT_def MAGIC_def VERSION_def MAX_PAYLOAD_def)
  then obtain b where b: "struct_pack HEADER_FMT ?vs = Inr b" "length b = calcsize HEADER_FMT"
    "\<And>r. unpack_fields HEADER_FMT (b @ r) = ?vs"
    using struct_roundtrip by metis
  have l: "length b = HEADER_LEN" using b(2) by (simp add: HEADER_FMT_def HEADER_LEN_def)
  have p: "Header_pack h = Inr b" using b(1) by (simp only: Header_pack_def and_masks)
  have "unpack_from HEADER_FMT b 0 = Inr ?vs"
    using b(2) b(3) [of "[]"] by (simp add: unpack_from_def)
  with l assms have "Header_unpack b = Inr (h\<lparr>device_id := cstr (pad (device_id h) 12),
      seq := seq h mod 2 ^ 32, ts_ms := ts_ms h mod 2 ^ 64, fw_version := fw_version h mod 2 ^ 32\<rparr>)"
    by (simp add: Header_unpack_def)
  with p l show ?thesis by (rule that)
qed

lemma Header_fields:
  assumes "HEADER_LEN \<le> length b"
  obtains mg v mt d sq ts fw x where
    "unpack_from HEADER_FMT b 0 =
       Inr [VInt mg, VInt v, VInt mt, VBytes d, VInt sq, VInt ts, VInt fw,
            VInt (le_int (take 2 (drop 32 b))), VInt x]"
    "u8 mt" "u32 sq" "u64 ts" "u32 fw" "length d = 12"
proof -
  have "calcsize HEADER_FMT \<le> length b"
    using assms by (simp add: HEADER_FMT_def HEADER_LEN_def)
  then have f: "fits_all HEADER_FMT (unpack_fields HEADER_FMT b)"
    and u: "unpack_from HEADER_FMT b 0 = Inr (unpack_fields HEADER_FMT b)"
    by (simp_all add: unpack_fields_fits unpack_from_def)
  have l: "unpack_fields HEADER_FMT b ! 7 = VInt (le_int (take 2 (drop 32 b)))"
    by (simp add: HEADER_FMT_def)
  from f obtain mg v mt d sq ts fw pl x where
    "unpack_fields HEADER_FMT b =
       [VInt mg, VInt v, VInt mt, VBytes d, VInt sq, VInt ts, VInt fw, VInt pl, VInt x]"
    "u8 mt" "u32 sq" "u64 ts" "u32 fw" "length d = 12"
    unfolding HEADER_FMT_def fits_shape fits_all.simps by auto
  with u l that show ?thesis by simp
qed

lemma Header_unpack_cases:
  assumes "HEADER_LEN \<le> length b"
  obtains h where "Header_unpack b = Inr h"
      "payload_len h = le_int (take 2 (drop 32 b))" "payload_len h \<le> int MAX_PAYLOAD"
      "u8 (msg_type h)" "u32 (seq h)" "u64 (ts_ms h)" "u32 (fw_version h)"
    | e where "Header_unpack b = Inl e" "e = BadMagic \<or> e = BadVersion \<or> e = BadLength"
proof -
  obtain mg v mt d sq ts fw x where u: "unpack_from HEADER_FMT b 0 =
       Inr [VInt mg, VInt v, VInt mt, VBytes d, VInt sq, VInt ts, VInt fw,
            VInt (le_int (take 2 (drop 32 b))), VInt x]" "u8 mt" "u32 sq" "u64 ts" "u32 fw"
    using Header_fields [OF assms] by metis
  show ?thesis
  proof (cases "mg = MAGIC \<and> v = VERSION \<and> le_int (take 2 (drop 32 b)) \<le> int MAX_PAYLOAD")
    case True
    then show ?thesis using u assms by (intro that(1)) (auto simp: Header_unpack_def)
  next
    case False
    then have "\<exists>e. Header_unpack b = Inl e \<and> (e = BadMagic \<or> e = BadVersion \<or> e = BadLength)"
      using u assms by (auto simp: Header_unpack_def)
    with that(2) show ?thesis by blast
  qed
qed

section \<open>Frames\<close>

lemma crc32_mask: "crc32 b AND 0xFFFFFFFF = crc32 b"
  using crc32_range [of b] unfolding and_mask32 is_u32_def by simp

text \<open>What \<open>decode\<close> does once the header is accepted and the whole frame is there.\<close>

lemma decode_unfold:
  assumes "Header_unpack buf = Inr h" "n = HEADER_LEN + nat (payload_len h)" "n + 4 \<le> length buf"
  shows "decode buf =
     (if crc32 (take n buf) \<noteq> le_int (take 4 (drop n buf)) then Inl BadCRC
      else rbind (case map_of PAYLOAD_CLASSES (msg_type h) of
              Some unp \<Rightarrow> res_map Typed (unp (drop HEADER_LEN (take n buf)))
            | None \<Rightarrow> Inr (Raw (drop HEADER_LEN (take n buf))))
          (\<lambda>p. Inr \<lparr>header = h, payload = p, raw = take (n + 4) buf\<rparr>))"
proof -
  have n: "HEADER_LEN + nat (payload_len h) + 4 = n + 4" using assms(2) by simp
  have t: "unpack_from [U32] (take (n + 4) buf) (n + 4 - 4) = Inr [VInt (le_int (take 4 (drop n buf)))]"
    using assms(3) by (simp add: unpack_from_def drop_take)
  have "take (n + 4 - 4) (take (n + 4) buf) = take n buf" by (simp add: min_def)
  with t assms(1,3) show ?thesis by (simp only: decode_def rbind.simps n Let_def crc32_mask) simp
qed

lemma decode_short:
  assumes "Header_unpack buf = Inr h" "length buf < HEADER_LEN + nat (payload_len h) + 4"
  shows "decode buf = Inl BadLength"
  using assms by (simp add: decode_def)

lemma decode_bad_header: "Header_unpack buf = Inl e \<Longrightarrow> decode buf = Inl e"
  by (simp add: decode_def)

lemma payload_result_error:
  "rbind (case map_of PAYLOAD_CLASSES t of Some unp \<Rightarrow> res_map Typed (unp b) | None \<Rightarrow> Inr (Raw b)) (\<lambda>p. Inr (f p)) = Inl e
   \<Longrightarrow> e = BadLength"
  using payload_class_error [of t] by (auto simp: res_map_def rbind_Inl_iff split: option.splits)

lemma decode_error:
  assumes "decode buf = Inl e"
  shows "e \<in> {BadMagic, BadVersion, BadLength, BadCRC}"
proof (cases "HEADER_LEN \<le> length buf")
  case True
  then show ?thesis
  proof (cases rule: Header_unpack_cases)
    case (1 h)
    show ?thesis
    proof (cases "HEADER_LEN + nat (payload_len h) + 4 \<le> length buf")
      case True
      with assms decode_unfold [OF 1(1) refl] show ?thesis
        by (auto split: if_splits dest: payload_result_error)
    qed (use assms decode_short [OF 1(1)] in simp)
  qed (use assms decode_bad_header in auto)
qed (use assms in \<open>simp add: decode_def Header_unpack_def\<close>)

text \<open>The shape of an accepted buffer.\<close>

lemma decode_ok:
  assumes "decode buf = Inr fr"
  obtains h n where "Header_unpack buf = Inr h" "header fr = h" "n = HEADER_LEN + nat (payload_len h)"
    "n + 4 \<le> length buf" "crc32 (take n buf) = le_int (take 4 (drop n buf))"
    "raw fr = take (n + 4) buf"
proof -
  obtain h where h: "Header_unpack buf = Inr h"
    using assms by (cases "Header_unpack buf") (auto simp: decode_def)
  let ?n = "HEADER_LEN + nat (payload_len h)"
  have l: "?n + 4 \<le> length buf"
    using assms decode_short [OF h] by (cases "?n + 4 \<le> length buf") auto
  with assms decode_unfold [OF h refl l] h that show ?thesis
    by (auto simp: rbind_Inr_iff split: if_splits)
qed

lemma decode_extend:
  assumes "Header_unpack buf = Inr h" "n = HEADER_LEN + nat (payload_len h)" "n + 4 \<le> length buf"
  shows "decode (buf @ r) = decode buf"
proof -
  have h: "Header_unpack (buf @ r) = Inr h" using assms by (simp add: Header_unpack_append)
  have l: "n + 4 \<le> length (buf @ r)" using assms(3) by simp
  have t: "take n (buf @ r) = take n buf" "take 4 (drop n (buf @ r)) = take 4 (drop n buf)"
    "take (n + 4) (buf @ r) = take (n + 4) buf" using assms(3) by simp_all
  show ?thesis by (simp only: decode_unfold [OF assms] decode_unfold [OF h assms(2) l] t)
qed

lemma decode_append: "decode buf = Inr fr \<Longrightarrow> decode (buf @ r) = Inr fr"
  using decode_ok [of buf fr] decode_extend [of buf] by metis

lemma decode_raw:
  assumes "decode buf = Inr fr"
  shows "decode (raw fr) = Inr fr"
proof -
  obtain h n where h: "Header_unpack buf = Inr h" "n = HEADER_LEN + nat (payload_len h)" "n + 4 \<le> length buf"
    "raw fr = take (n + 4) buf"
    using decode_ok [OF assms] by metis
  have "Header_unpack (take (n + 4) buf) = Inr h" using h by (simp add: Header_unpack_take)
  with h decode_extend [of "take (n + 4) buf" h n "drop (n + 4) buf"] assms show ?thesis by simp
qed

text \<open>A frame of the encoder: header, payload, checksum.\<close>

lemma encode_shape:
  assumes "u8 mt" "body_bytes p = Inr b" "length b \<le> MAX_PAYLOAD"
  obtains hb where
    "encode mt dev sq ts fw p = Inr (hb @ b @ le_bytes 4 (crc32 (hb @ b)))" "length hb = HEADER_LEN"
    "Header_unpack hb = Inr \<lparr>msg_type = mt, device_id = cstr (pad dev 12), seq = sq mod 2 ^ 32,
       ts_ms = ts mod 2 ^ 64, fw_version = fw mod 2 ^ 32, payload_len = int (length b), hversion = VERSION\<rparr>"
proof -
  let ?h = "\<lparr>msg_type = mt, device_id = dev, seq = sq, ts_ms = ts, fw_version = fw,
    payload_len = int (length b), hversion = VERSION\<rparr>"
  obtain hb where hb: "Header_pack ?h = Inr hb" "length hb = HEADER_LEN"
    "Header_unpack hb = Inr (?h\<lparr>device_id := cstr (pad (device_id ?h) 12), seq := seq ?h mod 2 ^ 32,
       ts_ms := ts_ms ?h mod 2 ^ 64, fw_version := fw_version ?h mod 2 ^ 32\<rparr>)"
    by (rule Header_roundtrip [of ?h]) (use assms(1,3) in simp_all)
  have c: "struct_pack [U32] [VInt (crc32 x AND 0xFFFFFFFF)] = Inr (le_bytes 4 (crc32 x))" for x
    using crc32_range [of x] unfolding crc32_mask is_u32_def by (simp add: pack_uint_def)
  have "encode mt dev sq ts fw p = Inr (hb @ b @ le_bytes 4 (crc32 (hb @ b)))"
    using assms(2,3) hb(1) c [of "hb @ b"] by (simp add: encode_def Let_def del: struct_pack.simps)
  with hb(2,3) show ?thesis using that by simp
qed

lemma decode_encoded:
  assumes "Header_unpack hb = Inr h" "length hb = HEADER_LEN" "payload_len h = int (length b)"
  shows "decode (hb @ b @ le_bytes 4 (crc32 (hb @ b))) =
     rbind (case map_of PAYLOAD_CLASSES (msg_type h) of
              Some unp \<Rightarrow> res_map Typed (unp b) | None \<Rightarrow> Inr (Raw b))
       (\<lambda>p. Inr \<lparr>header = h, payload = p, raw = hb @ b @ le_bytes 4 (crc32 (hb @ b))\<rparr>)"
proof -
  let ?f = "hb @ b @ le_bytes 4 (crc32 (hb @ b))"
  have h: "Header_unpack ?f = Inr h" using assms(1,2) by (simp add: Header_unpack_append)
  have n: "HEADER_LEN + length b = HEADER_LEN + nat (payload_len h)" using assms(3) by simp
  have l: "HEADER_LEN + length b + 4 \<le> length ?f" using assms(2) by simp
  have "le_int (le_bytes 4 (crc32 (hb @ b))) = crc32 (hb @ b)"
    using crc32_range [of "hb @ b"] by (simp add: le_int_le_bytes is_u32_def)
  moreover have "take (HEADER_LEN + length b) ?f = hb @ b" "take 4 (drop (HEADER_LEN + length b) ?f) = le_bytes 4 (crc32 (hb @ b))"
    "take (HEADER_LEN + length b + 4) ?f = ?f" "drop HEADER_LEN (hb @ b) = b"
    using assms(2) by simp_all
  ultimately show ?thesis using decode_unfold [OF h n l] by (simp only: if_False not_True_eq_False simp_thms)
qed

lemma Header_unpack_len:
  assumes "Header_unpack b = Inr h"
  shows "HEADER_LEN \<le> length b" "payload_len h = le_int (take 2 (drop 32 b))"
    "0 \<le> payload_len h" "payload_len h \<le> int MAX_PAYLOAD"
proof -
  show l: "HEADER_LEN \<le> length b" using assms by (auto simp: Header_unpack_def split: if_splits)
  show p: "payload_len h = le_int (take 2 (drop 32 b))" "payload_len h \<le> int MAX_PAYLOAD"
    using l assms by (auto elim!: Header_unpack_cases)
  show "0 \<le> payload_len h" using p(1) le_int_bounds by simp
qed

lemma take_drop_other:
  assumes "length xs < m \<or> m + k \<le> length xs"
  shows "take k (drop m (xs @ a # ys)) = take k (drop m (xs @ c # ys))"
proof (cases "length xs < m")
  case True
  then obtain j where "m = length xs + Suc j" using less_iff_Suc_add by auto
  then show ?thesis by simp
qed (use assms in simp)

text \<open>Changing one byte outside the length field makes \<open>decode\<close> raise.\<close>

lemma decode_one_byte:
  assumes "decode (xs @ a # ys) = Inr fr" "raw fr = xs @ a # ys" "length xs \<notin> {32, 33}" "a \<noteq> c"
  shows "\<exists>e. decode (xs @ c # ys) = Inl e"
proof (rule ccontr)
  let ?f = "xs @ a # ys" and ?g = "xs @ c # ys"
  assume "\<nexists>e. decode ?g = Inl e"
  then obtain fr' where fr': "decode ?g = Inr fr'" by (cases "decode ?g") auto
  obtain h n where h: "Header_unpack ?f = Inr h" "n = HEADER_LEN + nat (payload_len h)" "n + 4 \<le> length ?f"
    "crc32 (take n ?f) = le_int (take 4 (drop n ?f))" "raw fr = take (n + 4) ?f"
    using decode_ok [OF assms(1)] by metis
  obtain h' m where h': "Header_unpack ?g = Inr h'" "m = HEADER_LEN + nat (payload_len h')" "m + 4 \<le> length ?g"
    "crc32 (take m ?g) = le_int (take 4 (drop m ?g))"
    using decode_ok [OF fr'] by metis
  have "take 2 (drop 32 ?f) = take 2 (drop 32 ?g)"
    using assms(3) by (intro take_drop_other) auto
  then have "payload_len h = payload_len h'"
    using Header_unpack_len(2) [OF h(1)] Header_unpack_len(2) [OF h'(1)] by simp
  then have mn: "m = n" using h(2) h'(2) by simp
  have len: "length ?f = n + 4" using h(3,5) assms(2) by (metis length_take min.absorb2)
  show False
  proof (cases "length xs < n")
    case True
    then obtain ys' t where ys: "ys = ys' @ t" "length xs + Suc (length ys') = n"
      by (intro that [of "take (n - length xs - 1) ys" "drop (n - length xs - 1) ys"]) (use len in auto)
    have n: "n = length xs + Suc (length ys')" using ys(2) by simp
    have "crc32 (xs @ a # ys') = crc32 (xs @ c # ys')"
      using h(4) h'(4) unfolding mn unfolding n ys(1) by simp
    with assms(4) show False using crc32_one_byte by blast
  next
    case False
    then have "le_int (drop n ?f) = le_int (drop n ?g)" "length (drop n ?f) = length (drop n ?g)"
      using h(4) h'(4) mn len by auto
    then have "drop n ?f = drop n ?g" by (metis le_bytes_le_int)
    with False assms(4) show False by simp
  qed
qed

section \<open>Versions and flags\<close>

lemma u16_small: "i < 65536 \<Longrightarrow> i < 10 ^ 4300" for i :: int
proof -
  assume "i < 65536"
  also have "(65536 :: int) \<le> 10 ^ 5" by simp
  also have "\<dots> \<le> 10 ^ 4300" by (rule power_increasing) simp_all
  finally show ?thesis .
qed

lemma fw_bits:
  assumes "u32 v"
  shows "push_bit 16 (drop_bit 16 v AND 0xFFFF) OR push_bit 8 (drop_bit 8 v AND 0xFF) OR (v AND 0xFF) = v"
proof -
  have m: "(0xFFFF :: int) = mask 16" "(0xFF :: int) = mask 8" by (simp_all add: mask_eq_exp_minus_1)
  have "push_bit 16 (take_bit 16 (drop_bit 16 v)) OR push_bit 8 (take_bit 8 (drop_bit 8 v)) OR take_bit 8 v
      = take_bit 32 v"
  proof (rule bit_eqI)
    fix n :: nat
    consider "n < 8" | "8 \<le> n" "n < 16" | "16 \<le> n" by linarith
    then show "bit (push_bit 16 (take_bit 16 (drop_bit 16 v)) OR push_bit 8 (take_bit 8 (drop_bit 8 v)) OR take_bit 8 v) n
      = bit (take_bit 32 v) n"
      by cases (auto simp: bit_simps)
  qed
  also have "take_bit 32 v = v" using assms by (simp add: take_bit_int_eq_self_iff)
  finally show ?thesis by (simp only: m take_bit_eq_mask)
qed

lemma digits_of_no_dot: "0 \<le> n \<Longrightarrow> 46 \<notin> set (digits_of n)"
  using digits_of_digit [of n 46] by (auto simp: is_digit_def)

lemma digits_of_no_space: "0 \<le> n \<Longrightarrow> c \<in> set (digits_of n) \<Longrightarrow> \<not> is_space c"
  using digits_of_digit [of n c] by (auto simp: is_digit_def is_space_def)

lemma fw_parts:
  assumes "0 \<le> a" "a < 65536" "0 \<le> b" "b < 256" "0 \<le> c" "c < 256"
  shows "fw_encode (digits_of a @ [46] @ digits_of b @ [46] @ digits_of c)
     = Inr (push_bit 16 a OR push_bit 8 b OR c)"
proof -
  let ?s = "digits_of a @ [46] @ digits_of b @ [46] @ digits_of c"
  have st: "py_strip ?s = ?s"
    using assms digits_of_no_space by (intro py_strip_none) (auto simp: is_space_def)
  have sp: "py_split 46 ?s = [digits_of a, digits_of b, digits_of c]"
    using assms by (simp add: py_split_append py_split_none digits_of_no_dot)
  have i: "py_int_of_str (digits_of a) = Inr a" "py_int_of_str (digits_of b) = Inr b"
    "py_int_of_str (digits_of c) = Inr c"
    using assms by (intro int_of_digits u16_small; linarith)+
  show ?thesis unfolding fw_encode_def st sp using assms by (simp add: i)
qed

lemma flag_or:
  "(if (f AND 2 ^ k) \<noteq> 0 then acc OR 2 ^ k else acc) = (acc OR (f AND 2 ^ k) :: int)"
  unfolding and_exp_eq_0_iff_not_bit by (rule bit_eqI) (auto simp: bit_simps)

definition flag_table_ok :: "(pystr \<times> int) list \<Rightarrow> bool" where
  "flag_table_ok fs \<longleftrightarrow>
     (\<forall>(n, b)\<in>set fs. map_of FAULT_FLAGS (py_upper (py_strip n)) = Some b \<and> (\<exists>k. b = 2 ^ k))"

lemma names_to_flags_filter:
  "flag_table_ok fs \<Longrightarrow>
   names_to_flags_from out (map fst (filter (\<lambda>(name, b). (f AND b) \<noteq> 0) fs))
     = Inr (foldl (\<lambda>acc (n, b). acc OR (f AND b)) out fs)"
proof (induction fs arbitrary: out)
  case (Cons x fs)
  obtain n b where x: "x = (n, b)" by fastforce
  with Cons.prems obtain k where k: "map_of FAULT_FLAGS (py_upper (py_strip n)) = Some b" "b = 2 ^ k"
    by (auto simp: flag_table_ok_def)
  have "flag_table_ok fs" using Cons.prems by (simp add: flag_table_ok_def)
  with Cons.IH k flag_or [of f k out] show ?case by (auto simp: x split: if_splits)
qed simp

lemma fault_flags_names: "list_all (\<lambda>(n, b). map_of FAULT_FLAGS (py_upper (py_strip n)) = Some b) FAULT_FLAGS"
  by code_simp

lemma fault_flags_powers: "list_all (\<lambda>(n, b). b \<in> set (map (\<lambda>k. 2 ^ k) [0..<8])) FAULT_FLAGS"
  by code_simp

lemma fault_flags_table: "flag_table_ok FAULT_FLAGS"
  using fault_flags_names fault_flags_powers by (fastforce simp: flag_table_ok_def list_all_iff)

lemma flags_roundtrip_aux: "names_to_flags (flags_to_names f) = Inr (f AND 0xFF)"
proof -
  have "foldl (\<lambda>acc (n, b). acc OR (f AND b)) 0 FAULT_FLAGS = f AND (1 OR 2 OR 4 OR 8 OR 16 OR 32 OR 64 OR 128)"
    by (simp only: FAULT_FLAGS_def foldl_Cons foldl_Nil prod.case bit.conj_disj_distrib or.assoc or.left_neutral)
  also have "\<dots> = f AND 0xFF" by simp
  finally show ?thesis
    using names_to_flags_filter [OF fault_flags_table, of 0 f]
    by (simp add: names_to_flags_def flags_to_names_def)
qed

lemma frame_length_total:
  assumes "Header_unpack b = Inr h"
  shows "frame_length b = Some (HEADER_LEN + nat (payload_len h) + 4)"
  using Header_unpack_len [OF assms] by (simp add: frame_length_def)

lemma mt_val_u8: "u8 (mt_val t)"
  by (cases t) simp_all

text \<open>Encoding a message in range and decoding the frame, for any device id.\<close>

lemma frame_roundtrip:
  assumes "payload_ok p"
  obtains fb b where
    "encode (mt_val (payload_type p)) dev sq ts fw (Typed p) = Inr fb" "payload_pack p = Inr b"
    "length fb = HEADER_LEN + length b + 4" "length b \<le> MAX_PAYLOAD" "\<And>r. frame_length (fb @ r) = Some (length fb)"
    "\<And>r. decode (fb @ r) = Inr \<lparr>header = \<lparr>msg_type = mt_val (payload_type p), device_id = cstr (pad dev 12),
        seq = sq mod 2 ^ 32, ts_ms = ts mod 2 ^ 64, fw_version = fw mod 2 ^ 32,
        payload_len = int (length b), hversion = VERSION\<rparr>, payload = Typed p, raw = fb\<rparr>"
proof -
  obtain b u where b: "payload_pack p = Inr b" "length b \<le> MAX_PAYLOAD"
    "map_of PAYLOAD_CLASSES (mt_val (payload_type p)) = Some u" "u b = Inr p"
    using payload_roundtrip [OF assms] by blast
  have bb: "body_bytes (Typed p) = Inr b" using b(1) by simp
  let ?h = "\<lparr>msg_type = mt_val (payload_type p), device_id = cstr (pad dev 12), seq = sq mod 2 ^ 32,
    ts_ms = ts mod 2 ^ 64, fw_version = fw mod 2 ^ 32, payload_len = int (length b), hversion = VERSION\<rparr>"
  obtain hb where hb: "encode (mt_val (payload_type p)) dev sq ts fw (Typed p) =
      Inr (hb @ b @ le_bytes 4 (crc32 (hb @ b)))" "length hb = HEADER_LEN" "Header_unpack hb = Inr ?h"
    using encode_shape [OF mt_val_u8 bb b(2)] by metis
  let ?f = "hb @ b @ le_bytes 4 (crc32 (hb @ b))"
  have d: "decode ?f = Inr \<lparr>header = ?h, payload = Typed p, raw = ?f\<rparr>"
    using decode_encoded [OF hb(3,2)] b(3,4) by (simp add: res_map_def)
  have "Header_unpack (?f @ r) = Inr ?h" for r
    using Header_unpack_append [of hb] hb(2,3) by simp
  from frame_length_total [OF this] have fl: "frame_length (?f @ r) = Some (length ?f)" for r
    using hb(2) by simp
  from that [OF hb(1) b(1) _ b(2) fl decode_append [OF d]] hb(2) show ?thesis by simp
qed

section \<open>Properties\<close>

text \<open>
  C1. A message in range survives the wire. \<open>encode_frame\<close> succeeds, the frame has the documented
  size, and \<open>decode\<close>, also when more bytes follow, gives back the same payload and the header fields,
  the counters reduced to their 32 or 64 bits.
\<close>

theorem encode_frame_decode:
  assumes "payload_ok p" "cfield 12 dev"
  shows "\<exists>fb b. encode_frame dev sq ts (FwInt fw) p = Inr fb \<and> payload_pack p = Inr b
    \<and> length fb = 36 + length b + 4 \<and> length b \<le> 1024 \<and> frame_length (fb @ rest) = Some (length fb)
    \<and> decode (fb @ rest) = Inr \<lparr>header = \<lparr>msg_type = mt_val (payload_type p), device_id = dev,
        seq = sq mod 2 ^ 32, ts_ms = ts mod 2 ^ 64, fw_version = fw mod 2 ^ 32,
        payload_len = int (length b), hversion = 1\<rparr>, payload = Typed p, raw = fb\<rparr>"
proof -
  have k: "(36 :: nat) = HEADER_LEN" "(1024 :: nat) = MAX_PAYLOAD" "(1 :: int) = VERSION"
    by (simp_all add: HEADER_LEN_def MAX_PAYLOAD_def VERSION_def)
  show ?thesis
    by (rule frame_roundtrip [OF assms(1), of dev sq ts fw])
      (auto simp: encode_frame_def cstr_pad [OF assms(2)] k(3) simp flip: k(1,2))
qed

text \<open>C1 at a fault acknowledgement of the device ECU-1.\<close>

theorem encode_frame_decode_witness:
  "payload_ok (PFaultAck \<lparr>active_flags = 5\<rparr>) \<and> cfield 12 (lit ''ECU-1'') \<and>
   (\<exists>fb b. encode_frame (lit ''ECU-1'') (2 ^ 32 + 7) 1000 (FwInt 65536) (PFaultAck \<lparr>active_flags = 5\<rparr>) = Inr fb
    \<and> payload_pack (PFaultAck \<lparr>active_flags = 5\<rparr>) = Inr b
    \<and> length fb = 36 + length b + 4 \<and> length b \<le> 1024 \<and> frame_length (fb @ [1, 2]) = Some (length fb)
    \<and> decode (fb @ [1, 2]) = Inr \<lparr>header = \<lparr>msg_type = mt_val (payload_type (PFaultAck \<lparr>active_flags = 5\<rparr>)),
        device_id = lit ''ECU-1'', seq = (2 ^ 32 + 7) mod 2 ^ 32, ts_ms = 1000 mod 2 ^ 64, fw_version = 65536 mod 2 ^ 32,
        payload_len = int (length b), hversion = 1\<rparr>, payload = Typed (PFaultAck \<lparr>active_flags = 5\<rparr>), raw = fb\<rparr>)"
proof -
  have p: "payload_ok (PFaultAck \<lparr>active_flags = 5\<rparr>)" by (simp add: FaultAck_ok_def)
  have d: "cfield 12 (lit ''ECU-1'')" by code_simp
  from p d encode_frame_decode [OF p d] show ?thesis by blast
qed

text \<open>
  C5. Whatever bytes arrive, \<open>decode\<close> raises nothing but the four error classes of the protocol, which
  the callers catch.
\<close>

theorem decode_raises_protocol_errors:
  assumes "decode buf = Inl e"
  shows "is_protocol_error e \<and> e \<in> {BadMagic, BadVersion, BadLength, BadCRC}"
  using decode_error [OF assms] by auto

text \<open>C5 at an empty datagram.\<close>

theorem decode_raises_protocol_errors_witness:
  "decode [] = Inl BadLength \<and> is_protocol_error BadLength \<and> BadLength \<in> {BadMagic, BadVersion, BadLength, BadCRC}"
proof -
  have d: "decode [] = Inl BadLength" by (simp add: decode_def Header_unpack_def HEADER_LEN_def)
  with decode_raises_protocol_errors [OF d] show ?thesis by blast
qed

text \<open>
  C3. The checksum catches every corruption of one byte outside the length field: whatever accepted
  frame is taken and whichever byte of it is changed, \<open>decode\<close> raises one of the protocol's errors.
\<close>

theorem corrupted_byte_refused:
  assumes "decode (xs @ a # ys) = Inr fr" "raw fr = xs @ a # ys" "length xs \<notin> {32, 33}" "a \<noteq> c"
  shows "\<exists>e. decode (xs @ c # ys) = Inl e \<and> is_protocol_error e"
  using decode_one_byte [OF assms] decode_error [of "xs @ c # ys"] by fastforce

text \<open>A fault acknowledgement as it is on the wire.\<close>

definition sample_frame :: bytes where
  "sample_frame =
     [84, 69, 1, 21, 69, 67, 85, 45, 49, 0, 0, 0, 0, 0, 0, 0, 7, 0, 0, 0, 232, 3, 0, 0, 0, 0, 0, 0,
      0, 0, 1, 0, 4, 0, 0, 0, 5, 0, 0, 0, 189, 236, 177, 20]"

lemma sample_frame_decode:
  "decode sample_frame = Inr \<lparr>header = \<lparr>msg_type = 21, device_id = lit ''ECU-1'', seq = 7, ts_ms = 1000,
     fw_version = 65536, payload_len = 4, hversion = 1\<rparr>,
     payload = Typed (PFaultAck \<lparr>active_flags = 5\<rparr>), raw = sample_frame\<rparr>"
  by code_simp

text \<open>C3 at the sample frame, with the last byte of the payload changed.\<close>

theorem corrupted_byte_refused_witness:
  "raw \<lparr>header = \<lparr>msg_type = 21, device_id = lit ''ECU-1'', seq = 7, ts_ms = 1000,
     fw_version = 65536, payload_len = 4, hversion = 1\<rparr>,
     payload = Typed (PFaultAck \<lparr>active_flags = 5\<rparr>), raw = sample_frame\<rparr> = sample_frame
   \<and> (\<exists>e. decode (take 39 sample_frame @ 128 # drop 40 sample_frame) = Inl e \<and> is_protocol_error e)"
proof -
  have s: "sample_frame = take 39 sample_frame @ 0 # drop 40 sample_frame" by (simp add: sample_frame_def)
  have l: "length (take 39 sample_frame) \<notin> {32, 33}" by (simp add: sample_frame_def)
  have "\<exists>e. decode (take 39 sample_frame @ 128 # drop 40 sample_frame) = Inl e \<and> is_protocol_error e"
    by (rule corrupted_byte_refused [OF _ _ l, where a = 0])
      (unfold s [symmetric], rule sample_frame_decode, simp_all)
  then show ?thesis by simp
qed

text \<open>
  C33. Firmware versions round-trip: every 32-bit version number is printed by \<open>fw_decode\<close> as a string
  that \<open>fw_encode\<close> reads back as the same number.
\<close>

theorem fw_encode_fw_decode:
  assumes "0 \<le> v" "v < 2 ^ 32"
  shows "fw_encode (fw_decode v) = Inr v"
proof -
  have nn: "py_str_int (i mod 2 ^ k) = digits_of (i mod 2 ^ k)" for i k
    unfolding py_str_int_def by (rule if_not_P) (simp add: not_less)
  have "fw_encode (fw_decode v) =
      Inr (push_bit 16 (drop_bit 16 v AND 0xFFFF) OR push_bit 8 (drop_bit 8 v AND 0xFF) OR (v AND 0xFF))"
    using fw_parts [of "drop_bit 16 v AND 0xFFFF" "drop_bit 8 v AND 0xFF" "v AND 0xFF"]
    by (simp only: fw_decode_def and_masks nn) simp
  with fw_bits assms show ?thesis by simp
qed

text \<open>C33 at version 1.2.3.\<close>

theorem fw_encode_fw_decode_witness:
  "fw_decode 0x10203 = lit ''1.2.3'' \<and> (0::int) \<le> 0x10203 \<and> (0x10203::int) < 2 ^ 32 \<and> fw_encode (fw_decode 0x10203) = Inr 0x10203"
proof -
  have "fw_decode 0x10203 = lit ''1.2.3''" by code_simp
  moreover have "fw_encode (fw_decode 0x10203) = Inr 0x10203" by (rule fw_encode_fw_decode) simp_all
  ultimately show ?thesis by simp
qed

text \<open>
  Fault flags round-trip through their names: naming the bits of a flag word and parsing the names
  gives the word's eight defined bits.
\<close>

theorem names_to_flags_flags_to_names: "names_to_flags (flags_to_names f) = Inr (f AND 0xFF)"
  by (rule flags_roundtrip_aux)

text \<open>
  A device id keeps eleven characters: two ids of twelve or more characters that agree on the
  first eleven give the same frame, and the receiver sees only those eleven, although the field has
  room for twelve and the documents call it a 12-character id.
\<close>

theorem long_device_ids_collide:
  assumes "is_ascii dev" "0 \<notin> set dev" "12 \<le> length dev" "12 \<le> length dev'" "take 11 dev' = take 11 dev"
  shows "encode mt dev sq ts fw p = encode mt dev' sq ts fw p \<and> cstr (pad dev 12) = take 11 dev"
proof (rule conjI)
  have t: "pad d 12 = ascii_encode (take 11 d) @ [0]" if "12 \<le> length d" for d
    using that by (simp add: pad_def ascii_encode_def take_map)
  have "Header_pack \<lparr>msg_type = mt, device_id = dev, seq = sq, ts_ms = ts, fw_version = fw,
      payload_len = l, hversion = VERSION\<rparr> = Header_pack \<lparr>msg_type = mt, device_id = dev', seq = sq,
      ts_ms = ts, fw_version = fw, payload_len = l, hversion = VERSION\<rparr>" for l
    by (simp add: Header_pack_def t [OF assms(3)] t [OF assms(4)] assms(5))
  then show "encode mt dev sq ts fw p = encode mt dev' sq ts fw p" by (simp only: encode_def)
  show "cstr (pad dev 12) = take 11 dev"
    using cstr_pad_long [OF assms(1,2), of 12] assms(3) by simp
qed

text \<open>The theorem above at the ids ENGINE-ECU-1 and ENGINE-ECU-2.\<close>

theorem long_device_ids_collide_witness:
  "encode 21 (lit ''ENGINE-ECU-1'') 7 1000 65536 (Raw []) = encode 21 (lit ''ENGINE-ECU-2'') 7 1000 65536 (Raw [])
   \<and> cstr (pad (lit ''ENGINE-ECU-1'') 12) = lit ''ENGINE-ECU-''"
proof -
  have d: "is_ascii (lit ''ENGINE-ECU-1'')" "0 \<notin> set (lit ''ENGINE-ECU-1'')" "12 \<le> length (lit ''ENGINE-ECU-1'')"
    "12 \<le> length (lit ''ENGINE-ECU-2'')" "take 11 (lit ''ENGINE-ECU-2'') = take 11 (lit ''ENGINE-ECU-1'')"
    "take 11 (lit ''ENGINE-ECU-1'') = lit ''ENGINE-ECU-''"
    by (simp_all add: is_ascii_def lit_def)
  from long_device_ids_collide [OF d(1-5)] d(6) show ?thesis by auto
qed

end
