(* ===== verification/Anomaly.thy ===== *)
theory Anomaly
  imports Database Event_Bus Protocol
begin

text \<open>
  \<open>backend/app/anomaly.py\<close>: the rule engine. It evaluates the rules, which are JSON that operators
  edit, on every telemetry sample, opens one alert per device and rule, and resolves it when the
  condition has been clear for a while.

  The engine extends the environment of the database with the event bus, its rules, one state per
  device and two caches. The rules are dynamically typed values and every access raises what Python
  raises. A sample is a dictionary of such values.

  The lemmas show that at most one alert per device and rule is open at any time, that every rule
  reported as fired has an open alert, that alerts resolve when their condition is clear and not
  before, that no alert is ever deleted, and that with the default rules no sample makes the engine
  raise.
\<close>

section \<open>Default rules\<close>

definition flt :: "rat \<Rightarrow> json" where
  "flt r = JFloat (rnd64 r)"

definition threshold :: "string \<Rightarrow> string \<Rightarrow> string \<Rightarrow> json \<Rightarrow> string \<Rightarrow> (pystr \<times> json) list \<Rightarrow> json" where
  "threshold name metric op value severity extra =
     JObj ([(lit ''name'', JStr (lit name)), (lit ''metric'', JStr (lit metric)), (lit ''op'', JStr (lit op)),
            (lit ''value'', value), (lit ''severity'', JStr (lit severity))] @ extra)"

definition DEFAULT_RULES :: "(pystr \<times> json) list" where
  "DEFAULT_RULES =
     [(lit ''resolve_after_s'', JInt 10),
      (lit ''thresholds'', JList
        [threshold ''temp_high'' ''temp_c'' ''>'' (JStr (lit ''temp_limit_c'')) ''warn'' [],
         threshold ''temp_critical'' ''temp_c'' ''>'' (JStr (lit ''temp_limit_c+15'')) ''critical'' [],
         threshold ''current_high'' ''current_a'' ''>'' (JStr (lit ''current_limit_a'')) ''warn'' [],
         threshold ''rpm_high'' ''rpm'' ''>'' (JStr (lit ''rpm_limit'')) ''warn'' [],
         threshold ''voltage_low'' ''voltage_v'' ''<'' (flt 80) ''warn''
           [(lit ''overrides'', JList [JObj [(lit ''hw_model'', JStr (lit ''ORIN-NANO'')), (lit ''value'', flt (45 / 10))]])],
         threshold ''vibration_high'' ''vibration_g'' ''>'' (flt (25 / 10)) ''warn'' []]),
      (lit ''comm'', JObj [(lit ''loss_pct'', flt 10), (lit ''severity'', JStr (lit ''warn''))]),
      (lit ''offline'', JObj [(lit ''enabled'', JBool True), (lit ''severity'', JStr (lit ''critical''))]),
      (lit ''fault_flags'', JObj
        [(lit ''enabled'', JBool True),
         (lit ''severity'', JObj
           [(lit ''OVERTEMP'', JStr (lit ''critical'')), (lit ''OVERCURRENT'', JStr (lit ''critical'')),
            (lit ''UNDERVOLTAGE'', JStr (lit ''warn'')), (lit ''VIBRATION_HIGH'', JStr (lit ''warn'')),
            (lit ''SENSOR_STUCK'', JStr (lit ''warn'')), (lit ''GPS_LOST'', JStr (lit ''info'')),
            (lit ''COMM_DEGRADED'', JStr (lit ''warn'')), (lit ''ENCODER_FAULT'', JStr (lit ''critical''))])]),
      (lit ''rate'', JObj [(lit ''temp_c'', JObj
        [(lit ''max_per_s'', flt 2), (lit ''window_s'', flt 5), (lit ''severity'', JStr (lit ''warn''))])]),
      (lit ''anomaly'', JObj
        [(lit ''enabled'', JBool True), (lit ''z'', flt 4), (lit ''sustain'', JInt 3), (lit ''sustain_s'', flt 3),
         (lit ''alpha'', flt (5 / 100)), (lit ''warmup'', JInt 20), (lit ''min_std'', flt (5 / 100)),
         (lit ''metrics'', JList [JStr (lit ''temp_c''), JStr (lit ''current_a''), JStr (lit ''voltage_v''), JStr (lit ''vibration_g'')]),
         (lit ''gate'', JObj
           [(lit ''metric'', JStr (lit ''rpm'')), (lit ''frac'', flt (10 / 100)), (lit ''abs'', flt 100),
            (lit ''applies_to'', JList [JStr (lit ''current_a''), JStr (lit ''voltage_v''), JStr (lit ''vibration_g'')])]),
         (lit ''severity'', JStr (lit ''warn''))])]"

definition DEFAULT_CONFIG :: "(pystr \<times> json) list" where
  "DEFAULT_CONFIG =
     [(lit ''telemetry_hz'', JInt 10), (lit ''log_level'', JInt 1), (lit ''rpm_limit'', flt 6000),
      (lit ''temp_limit_c'', flt 90), (lit ''current_limit_a'', flt 120)]"

section \<open>The moving average\<close>

record Ewma =
  mean :: pyfloat
  var :: pyfloat
  ewma_n :: int
  streak :: int
  since :: "pyfloat option"

definition Ewma_init :: Ewma where
  "Ewma_init = \<lparr>mean = Fin 0, var = Fin 0, ewma_n = 0, streak = 0, since = None\<rparr>"

text \<open>\<open>Ewma.update\<close>: the z-score against the state before, and the new state.\<close>

definition Ewma_step :: "pyfloat \<Rightarrow> pyfloat \<Rightarrow> bool \<Rightarrow> Ewma \<Rightarrow> (pyfloat \<times> Ewma) res" where
  "Ewma_step x alpha learn_var e =
     (if ewma_n e = 0 then Inr (Fin 0, e\<lparr>mean := x, var := Fin 0, ewma_n := 1\<rparr>)
      else
        rbind (fsqrt (var e)) (\<lambda>std.
        rbind (if fless (Fin 0) std then fdiv (fabs (fsub x (mean e))) std else Inr (Fin 0)) (\<lambda>z.
        let d = fsub x (mean e);
            e1 = e\<lparr>mean := fadd (mean e) (fmul alpha d)\<rparr>;
            e2 = (if learn_var
                  then e1\<lparr>var := fmul (fsub (Fin 1) alpha) (fadd (var e) (fmul (fmul alpha d) d))\<rparr> else e1)
        in Inr (z, e2\<lparr>ewma_n := ewma_n e + 1\<rparr>))))"

section \<open>State\<close>

text \<open>
  The state of a device. The name of a rule is the value the rules give it, so the keys of \<open>active\<close>
  are JSON values. (\<open>pending_meta\<close> is never used.)
\<close>

record DeviceState =
  rate_hist :: "(pystr \<times> (pyfloat \<times> pyfloat) list) list"
  ewma :: "(pystr \<times> Ewma) list"
  active :: "(json \<times> pyfloat) list"

definition DeviceState_init :: DeviceState where
  "DeviceState_init = \<lparr>rate_hist = [], ewma = [], active = []\<rparr>"

text \<open>What is published on the bus; a device event has a time stamp, but for one of them.\<close>

type_synonym sample = "(pystr \<times> json) list"

datatype dev_event =
    DevOnline bool | TcpConnected | TcpDisconnected | HelloEv pystr pystr int
  | ConfigAckEv int pystr | ConfigSetEv int bool | FwJobEv "FwJob option" | FaultAckEv int "pystr list"

datatype event =
    EvAlert pystr Alert | EvDevice pystr dev_event "pystr option" | EvLog LogRow pystr | EvTelemetry sample

record engine = env +
  wbus :: "event EventBus"
  rules :: "(pystr \<times> json) list"
  devs :: "(pystr \<times> DeviceState) list"
  config_cache :: "(pystr \<times> sample) list"
  hw_cache :: "(pystr \<times> pystr) list"

definition bus_publish :: "event \<Rightarrow> ('a engine_scheme, unit) pym" where
  "bus_publish e = modify (\<lambda>s. s\<lparr>wbus := publish e (wbus s)\<rparr>)"

section \<open>Rules and configuration\<close>

fun merge_from :: "(pystr \<times> json) list \<Rightarrow> (pystr \<times> json) list \<Rightarrow> (pystr \<times> json) list" where
  "merge_from r [] = r"
| "merge_from r ((k, v) # kvs) =
     merge_from
       (case (v, map_of r k) of
          (JObj new, Some (JObj old)) \<Rightarrow>
            if k = lit ''rate'' then AList.update k v r
            else AList.update k (JObj (fold (\<lambda>(k, v). AList.update k v) new old)) r
        | _ \<Rightarrow> AList.update k v r) kvs"

fun merge_rules :: "json \<Rightarrow> (pystr \<times> json) list res" where
  "merge_rules (JObj overrides) = Inr (merge_from DEFAULT_RULES overrides)"
| "merge_rules _ = Inl AttributeError"

definition set_rules :: "json \<Rightarrow> ('a engine_scheme, json) pym" where
  "set_rules r =
     bind_pym (of_res (merge_rules r)) (\<lambda>m.
     seq_pym (modify (\<lambda>s. s\<lparr>rules := m\<rparr>))
     (seq_pym (db_set_rules (JObj m)) (ret (JObj m))))"

text \<open>\<open>self.rules.get(k, dflt)\<close>: the rules themselves are always a dict.\<close>

definition rule_get :: "string \<Rightarrow> json \<Rightarrow> ('a engine_scheme, json) pym" where
  "rule_get k dflt = gets (\<lambda>s. case map_of (rules s) (lit k) of Some v \<Rightarrow> v | None \<Rightarrow> dflt)"

definition opt_json :: "pyfloat option \<Rightarrow> json" where
  "opt_json x = (case x of Some v \<Rightarrow> JFloat v | None \<Rightarrow> JNull)"

definition config_dict :: "Config option \<Rightarrow> sample" where
  "config_dict c =
     (case c of
        None \<Rightarrow> DEFAULT_CONFIG
      | Some r \<Rightarrow>
          [(lit ''telemetry_hz'', JInt (c_telemetry_hz r)), (lit ''log_level'', JInt (c_log_level r)),
           (lit ''rpm_limit'', opt_json (c_rpm_limit r)), (lit ''temp_limit_c'', opt_json (c_temp_limit_c r)),
           (lit ''current_limit_a'', opt_json (c_current_limit_a r))])"

definition config_for :: "pystr \<Rightarrow> ('a engine_scheme, sample) pym" where
  "config_for dev =
     bind_pym (gets (\<lambda>s. map_of (config_cache s) dev)) (\<lambda>c.
     case c of
       Some cfg \<Rightarrow> ret cfg
     | None \<Rightarrow>
         bind_pym (db_get (current_config dev)) (\<lambda>row.
         let cfg = config_dict row in
         seq_pym (modify (\<lambda>s. s\<lparr>config_cache := AList.update dev cfg (config_cache s)\<rparr>)) (ret cfg)))"

definition invalidate_config :: "pystr \<Rightarrow> ('a engine_scheme, unit) pym" where
  "invalidate_config dev =
     modify (\<lambda>s. s\<lparr>config_cache := AList.delete dev (config_cache s), hw_cache := AList.delete dev (hw_cache s)\<rparr>)"

definition hw_for :: "pystr \<Rightarrow> ('a engine_scheme, pystr) pym" where
  "hw_for dev =
     bind_pym (gets (\<lambda>s. map_of (hw_cache s) dev)) (\<lambda>c.
     case c of
       Some hw \<Rightarrow> ret hw
     | None \<Rightarrow>
         bind_pym (db_get (get_device dev)) (\<lambda>row.
         let hw = (case row of Some d \<Rightarrow> (case d_hw_model d of Some h \<Rightarrow> h | None \<Rightarrow> []) | None \<Rightarrow> []) in
         seq_pym (modify (\<lambda>s. s\<lparr>hw_cache := AList.update dev hw (hw_cache s)\<rparr>)) (ret hw)))"

fun find_override :: "pystr \<Rightarrow> json \<Rightarrow> json \<Rightarrow> json list \<Rightarrow> ('a engine_scheme, json \<times> json) pym" where
  "find_override dev spec severity [] = ret (spec, severity)"
| "find_override dev spec severity (JObj kvs # os) =
     (let take_it = ret (case map_of kvs (lit ''value'') of Some v \<Rightarrow> v | None \<Rightarrow> spec,
                         case map_of kvs (lit ''severity'') of Some v \<Rightarrow> v | None \<Rightarrow> severity)
      in if map_of kvs (lit ''device_id'') = Some (JStr dev) then take_it
         else case map_of kvs (lit ''hw_model'') of
           None \<Rightarrow> find_override dev spec severity os
         | Some hm \<Rightarrow>
             if truthy hm then
               bind_pym (hw_for dev) (\<lambda>hw. if hm = JStr hw then take_it else find_override dev spec severity os)
             else find_override dev spec severity os)"
| "find_override dev spec severity (_ # os) = find_override dev spec severity os"

definition threshold_spec :: "json \<Rightarrow> pystr \<Rightarrow> ('a engine_scheme, json \<times> json) pym" where
  "threshold_spec rule dev =
     bind_pym (of_res (py_get rule (lit ''value'') JNull)) (\<lambda>spec.
     bind_pym (of_res (py_get rule (lit ''severity'') (JStr (lit ''warn'')))) (\<lambda>severity.
     bind_pym (of_res (py_get rule (lit ''overrides'') JNull)) (\<lambda>ov.
     bind_pym (of_res (py_iter (py_or ov (JList [])))) (\<lambda>os.
     find_override dev spec severity os))))"

text \<open>\<open>s.rsplit(sep, 1)\<close> for a separator that occurs.\<close>

definition rsplit1 :: "int \<Rightarrow> pystr \<Rightarrow> pystr \<times> pystr" where
  "rsplit1 c s = (let num = rev (takeWhile (\<lambda>x. x \<noteq> c) (rev s)) in (take (length s - length num - 1) s, num))"

text \<open>A value spec is a number, or the name of a limit with an optional offset.\<close>

definition split_spec :: "pystr \<Rightarrow> (pystr \<times> pyfloat) option" where
  "split_spec s =
     (if 43 \<in> set (drop 1 s) then
        (case rsplit1 43 s of (key, num) \<Rightarrow>
           (case py_float_of_str num of Inr x \<Rightarrow> Some (key, fmul x (Fin 1)) | Inl _ \<Rightarrow> None))
      else if 45 \<in> set (drop 1 s) then
        (case rsplit1 45 s of (key, num) \<Rightarrow>
           (case py_float_of_str num of Inr x \<Rightarrow> Some (key, fmul x (Fin (- 1))) | Inl _ \<Rightarrow> None))
      else Some (s, Fin 0))"

definition resolve_text :: "json \<Rightarrow> sample \<Rightarrow> pyfloat option res" where
  "resolve_text spec cfg =
     (case split_spec (filter (\<lambda>c. c \<noteq> 32) (py_str spec)) of
        None \<Rightarrow> Inr None
      | Some (key, off) \<Rightarrow>
          (case map_of cfg key of
             None \<Rightarrow> Inr None
           | Some JNull \<Rightarrow> Inr None
           | Some base \<Rightarrow> rbind (py_float base) (\<lambda>b. Inr (Some (fadd b off)))))"

fun resolve_value :: "json \<Rightarrow> sample \<Rightarrow> pyfloat option res" where
  "resolve_value (JInt i) cfg = rbind (float_of_int i) (\<lambda>x. Inr (Some x))"
| "resolve_value (JBool b) cfg = rbind (py_float (JBool b)) (\<lambda>x. Inr (Some x))"
| "resolve_value (JFloat x) cfg = Inr (Some x)"
| "resolve_value spec cfg = resolve_text spec cfg"

text \<open>\<open>AnomalyEngine(db, bus)\<close>: the rules are those stored, merged over the defaults.\<close>

definition engine_rules :: "DB \<Rightarrow> (pystr \<times> json) list res" where
  "engine_rules db = merge_rules (case get_rules db of Some r \<Rightarrow> py_or r (JObj []) | None \<Rightarrow> JObj [])"

section \<open>Alert lifecycle\<close>

definition dev_state :: "pystr \<Rightarrow> 'a engine_scheme \<Rightarrow> DeviceState" where
  "dev_state dev s = (case map_of (devs s) dev of Some st \<Rightarrow> st | None \<Rightarrow> DeviceState_init)"

text \<open>\<open>_st\<close> creates the state of a device it has not seen; \<open>on_st\<close> updates the object it returns.\<close>

definition on_st :: "pystr \<Rightarrow> (DeviceState \<Rightarrow> DeviceState) \<Rightarrow> ('a engine_scheme, unit) pym" where
  "on_st dev f = modify (\<lambda>s. s\<lparr>devs := AList.update dev (f (dev_state dev s)) (devs s)\<rparr>)"

definition get_st :: "pystr \<Rightarrow> ('a engine_scheme, DeviceState) pym" where
  "get_st dev = seq_pym (on_st dev (\<lambda>st. st)) (gets (dev_state dev))"

text \<open>The text of a rule's name in the database, whose column is text.\<close>

definition rule_text :: "json \<Rightarrow> pystr res" where
  "rule_text r =
     rbind (bind_json r) (\<lambda>v. Inr (case v of SText t \<Rightarrow> t | SInt i \<Rightarrow> py_str_int i | SReal x \<Rightarrow> float_repr x | SNull \<Rightarrow> []))"

definition emit :: "Alert option \<Rightarrow> string \<Rightarrow> ('a engine_scheme, unit) pym" where
  "emit a action = (case a of Some x \<Rightarrow> bus_publish (EvAlert (lit action) x) | None \<Rightarrow> ret ())"

definition mark ::
  "pystr \<Rightarrow> json \<Rightarrow> bool \<Rightarrow> pyfloat \<Rightarrow> pystr option \<Rightarrow> pyfloat option \<Rightarrow> json \<Rightarrow> pystr \<Rightarrow> ('a engine_scheme, unit) pym" where
  "mark dev rule cond now metric value severity msg =
     seq_pym (get_st dev)
     (when_pym cond
       (if \<not> hashable rule then throw TypeError
        else seq_pym (on_st dev (\<lambda>st. st\<lparr>active := AList.update rule now (active st)\<rparr>))
          (bind_pym (of_res (rule_text rule)) (\<lambda>rt.
           bind_pym (db_get (open_alert dev rt)) (\<lambda>a.
           when_pym (a = None)
             (bind_pym (create_alert dev rt metric value severity msg) (\<lambda>alert.
              emit alert ''opened'')))))))"

text \<open>\<open>now or time.time()\<close>.\<close>

definition or_time :: "pyfloat option \<Rightarrow> ('a env_scheme, pyfloat) pym" where
  "or_time now = (case now of Some t \<Rightarrow> if fzero t then time_time else ret t | None \<Rightarrow> time_time)"

definition resolve :: "pystr \<Rightarrow> json \<Rightarrow> pyfloat option \<Rightarrow> ('a engine_scheme, unit) pym" where
  "resolve dev rule now =
     bind_pym (of_res (rule_text rule)) (\<lambda>rt.
     bind_pym (db_get (open_alert dev rt)) (\<lambda>alert.
     seq_pym (on_st dev (\<lambda>st. st\<lparr>active := AList.delete rule (active st)\<rparr>))
     (case alert of
        None \<Rightarrow> ret ()
      | Some a \<Rightarrow>
          bind_pym (or_time now) (\<lambda>t.
          seq_pym (update_alert (a_id a) [AStatus (lit ''resolved''), AResolvedAt t])
          (bind_pym (db_get (get_alert (a_id a))) (\<lambda>a'. emit a' ''resolved''))))))"

definition stale :: "pyfloat \<Rightarrow> pyfloat \<Rightarrow> pyfloat \<Rightarrow> bool" where
  "stale now hold t \<longleftrightarrow> fle hold (fsub now t)"

definition tick_rule :: "pyfloat \<Rightarrow> pyfloat \<Rightarrow> pystr \<Rightarrow> json \<times> pyfloat \<Rightarrow> ('a engine_scheme, unit) pym" where
  "tick_rule now hold dev rl =
     when_pym (fst rl \<noteq> JStr (lit ''offline'') \<and> stale now hold (snd rl)) (resolve dev (fst rl) (Some now))"

text \<open>The second loop of \<open>tick\<close>: open alerts of the table that the engine knows nothing about.\<close>

definition alert_time :: "Alert \<Rightarrow> pyfloat" where
  "alert_time a = (case a_updated_at a of Some t \<Rightarrow> if fzero t then a_opened_at a else t | None \<Rightarrow> a_opened_at a)"

definition tick_alert :: "pyfloat \<Rightarrow> pyfloat \<Rightarrow> Alert \<Rightarrow> ('a engine_scheme, unit) pym" where
  "tick_alert now hold a =
     bind_pym (gets (\<lambda>s. map_of (devs s) (a_dev a))) (\<lambda>st.
     when_pym (a_rule a \<noteq> lit ''offline''
         \<and> (case st of None \<Rightarrow> True | Some d \<Rightarrow> map_of (active d) (JStr (a_rule a)) = None)
         \<and> stale now hold (alert_time a))
       (resolve (a_dev a) (JStr (a_rule a)) (Some now)))"

definition tick :: "pyfloat option \<Rightarrow> ('a engine_scheme, unit) pym" where
  "tick now0 =
     bind_pym (or_time now0) (\<lambda>now.
     bind_pym (rule_get ''resolve_after_s'' (JInt 10)) (\<lambda>h.
     bind_pym (of_res (py_float h)) (\<lambda>hold.
     bind_pym (gets devs) (\<lambda>ds.
     seq_pym (for_pym (\<lambda>(dev, st). for_pym (tick_rule now hold dev) (active st)) ds)
     (bind_pym (db_get (alerts None (lit ''open'') 1000)) (\<lambda>as.
      for_pym (tick_alert now hold) as))))))"

section \<open>Inputs\<close>

definition on_offline :: "pystr \<Rightarrow> pyfloat option \<Rightarrow> ('a engine_scheme, unit) pym" where
  "on_offline dev now0 =
     bind_pym (or_time now0) (\<lambda>now.
     bind_pym (rule_get ''offline'' (JObj [])) (\<lambda>r.
     bind_pym (of_res (py_get r (lit ''enabled'') (JBool True))) (\<lambda>en.
     when_pym (truthy en)
       (bind_pym (of_res (py_get r (lit ''severity'') (JStr (lit ''critical'')))) (\<lambda>sev.
        mark dev (JStr (lit ''offline'')) True now None None sev (lit ''no HEARTBEAT/TELEMETRY for 15 s''))))))"

definition on_online :: "pystr \<Rightarrow> pyfloat option \<Rightarrow> ('a engine_scheme, unit) pym" where
  "on_online dev now =
     bind_pym (db_get (open_alert dev (lit ''offline''))) (\<lambda>a.
     when_pym (a \<noteq> None) (resolve dev (JStr (lit ''offline'')) now))"

definition on_comm :: "pystr \<Rightarrow> pyfloat \<Rightarrow> pyfloat option \<Rightarrow> ('a engine_scheme, unit) pym" where
  "on_comm dev loss now0 =
     bind_pym (or_time now0) (\<lambda>now.
     bind_pym (rule_get ''comm'' (JObj [])) (\<lambda>r.
     bind_pym (of_res (py_get r (lit ''loss_pct'') JNull)) (\<lambda>thr.
     when_pym (thr \<noteq> JNull)
       (bind_pym (of_res (py_float thr)) (\<lambda>lim.
        bind_pym (of_res (py_get r (lit ''severity'') (JStr (lit ''warn'')))) (\<lambda>sev.
        mark dev (JStr (lit ''packet_loss'')) (fless lim loss) now (Some (lit ''loss_pct'')) (Some loss) sev
          (lit ''packet loss '' @ fmt_fixed 1 loss @ lit ''% > '' @ py_str thr @ lit ''%'')))))))"

text \<open>One entry of the threshold rules.\<close>

definition compare :: "json \<Rightarrow> pyfloat \<Rightarrow> pyfloat \<Rightarrow> bool" where
  "compare op x thr =
     (if op = JStr (lit ''>'') then fless thr x
      else if op = JStr (lit ''<'') then fless x thr
      else if op = JStr (lit ''>='') then fle thr x
      else fle x thr)"

text \<open>\<open>t[metric]\<close> once \<open>metric in t\<close> has been checked.\<close>

definition metric_of :: "json \<Rightarrow> sample \<Rightarrow> (pystr \<times> json) option res" where
  "metric_of m t =
     rbind (py_in_keys m t) (\<lambda>b.
     Inr (if b then (case m of JStr k \<Rightarrow> map_option (\<lambda>v. (k, v)) (map_of t k) | _ \<Rightarrow> None) else None))"

definition eval_threshold :: "pystr \<Rightarrow> sample \<Rightarrow> pyfloat \<Rightarrow> sample \<Rightarrow> json \<Rightarrow> ('a engine_scheme, json list) pym" where
  "eval_threshold dev t now cfg rule =
     bind_pym (of_res (py_get rule (lit ''metric'') JNull)) (\<lambda>m.
     bind_pym (of_res (metric_of m t)) (\<lambda>mv.
     case mv of
       None \<Rightarrow> ret []
     | Some (metric, v) \<Rightarrow>
         bind_pym (threshold_spec rule dev) (\<lambda>(spec, severity).
         bind_pym (of_res (resolve_value spec cfg)) (\<lambda>thr0.
         case thr0 of
           None \<Rightarrow> ret []
         | Some thr \<Rightarrow>
             bind_pym (of_res (py_float v)) (\<lambda>x.
             bind_pym (of_res (py_get rule (lit ''op'') (JStr (lit ''>'')))) (\<lambda>op.
             bind_pym (of_res (py_get rule (lit ''name'') JNull)) (\<lambda>nm.
             let cond = compare op x thr;
                 name = py_or nm (JStr (metric @ lit ''_'' @ py_str op @ lit ''_'' @ float_repr thr))
             in seq_pym (mark dev name cond now (Some metric) (Some x) severity
                  (metric @ lit ''='' @ fmt_fixed 2 x @ lit '' '' @ py_str op @ lit '' '' @ fmt_fixed 2 thr))
                (ret (if cond then [name] else [])))))))))"

definition eval_thresholds :: "pystr \<Rightarrow> sample \<Rightarrow> pyfloat \<Rightarrow> sample \<Rightarrow> ('a engine_scheme, json list) pym" where
  "eval_thresholds dev t now cfg =
     bind_pym (rule_get ''thresholds'' (JList [])) (\<lambda>rs.
     bind_pym (of_res (py_iter rs)) (\<lambda>xs. collect_pym (eval_threshold dev t now cfg) xs))"

definition flag_severity :: "json \<Rightarrow> pystr \<Rightarrow> json" where
  "flag_severity sev name =
     (case sev of JObj kvs \<Rightarrow> (case map_of kvs name of Some v \<Rightarrow> v | None \<Rightarrow> JStr (lit ''warn'')) | _ \<Rightarrow> JStr (py_str sev))"

definition eval_flag :: "pystr \<Rightarrow> pyfloat \<Rightarrow> json \<Rightarrow> pystr \<Rightarrow> ('a engine_scheme, json list) pym" where
  "eval_flag dev now sev name =
     (let rule = JStr (lit ''flag:'' @ name) in
      bind_pym (of_res (float_of_int (case map_of FAULT_FLAGS name of Some b \<Rightarrow> b | None \<Rightarrow> 0))) (\<lambda>v.
      seq_pym (mark dev rule True now (Some (lit ''fault_flags'')) (Some v) (flag_severity sev name)
        (lit ''device reports '' @ name))
      (ret [rule])))"

definition eval_flags :: "pystr \<Rightarrow> sample \<Rightarrow> pyfloat \<Rightarrow> ('a engine_scheme, json list) pym" where
  "eval_flags dev t now =
     bind_pym (rule_get ''fault_flags'' (JObj [])) (\<lambda>ff.
     bind_pym (of_res (py_get ff (lit ''enabled'') (JBool True))) (\<lambda>en.
     if truthy en then
       bind_pym (of_res (py_int (case map_of t (lit ''fault_flags'') of Some v \<Rightarrow> v | None \<Rightarrow> JInt 0))) (\<lambda>flags.
       bind_pym (of_res (py_get ff (lit ''severity'') (JObj []))) (\<lambda>sev.
       collect_pym (eval_flag dev now sev) (flags_to_names flags)))
     else ret []))"

text \<open>The rate of change over a window of samples.\<close>

fun trim_hist :: "pyfloat \<Rightarrow> pyfloat \<Rightarrow> (pyfloat \<times> pyfloat) list \<Rightarrow> (pyfloat \<times> pyfloat) list" where
  "trim_hist now w (a # b # h) = (if fless w (fsub now (fst a)) then trim_hist now w (b # h) else a # b # h)"
| "trim_hist now w h = h"

definition eval_rate :: "pystr \<Rightarrow> sample \<Rightarrow> pyfloat \<Rightarrow> pystr \<times> json \<Rightarrow> ('a engine_scheme, json list) pym" where
  "eval_rate dev t now ms =
     (case map_of t (fst ms) of
        None \<Rightarrow> ret []
      | Some v \<Rightarrow>
          let metric = fst ms; spec = snd ms in
          bind_pym (of_res (py_float v)) (\<lambda>x.
          seq_pym (on_st dev (\<lambda>st. st\<lparr>rate_hist := AList.update metric
            ((case map_of (rate_hist st) metric of Some h \<Rightarrow> h | None \<Rightarrow> []) @ [(now, x)]) (rate_hist st)\<rparr>))
          (bind_pym (of_res (py_get spec (lit ''window_s'') (flt 5))) (\<lambda>w0.
           bind_pym (of_res (py_float w0)) (\<lambda>w.
           seq_pym (on_st dev (\<lambda>st. st\<lparr>rate_hist := AList.update metric
             (trim_hist now (fmul w (Fin 2)) (case map_of (rate_hist st) metric of Some h \<Rightarrow> h | None \<Rightarrow> [])) (rate_hist st)\<rparr>))
           (bind_pym (gets (\<lambda>s. case map_of (rate_hist (dev_state dev s)) metric of Some h \<Rightarrow> h | None \<Rightarrow> [])) (\<lambda>hist.
            case find (\<lambda>(ts, _). fle w (fsub now ts)) hist of
              None \<Rightarrow> ret []
            | Some (ts, v0) \<Rightarrow>
                let dt = fsub now ts in
                bind_pym (of_res (fdiv (fsub x v0) dt)) (\<lambda>rate.
                bind_pym (of_res (py_get spec (lit ''max_per_s'') (flt 2))) (\<lambda>l0.
                bind_pym (of_res (py_float l0)) (\<lambda>lim.
                bind_pym (of_res (py_get spec (lit ''severity'') (JStr (lit ''warn'')))) (\<lambda>sev.
                let cond = fless lim rate; rule = JStr (lit ''rate:'' @ metric) in
                seq_pym (mark dev rule cond now (Some metric) (Some rate) sev
                  (metric @ lit '' rising '' @ fmt_fixed 2 rate @ lit ''/s over '' @ fmt_fixed 0 dt @ lit ''s > ''
                   @ float_repr lim @ lit ''/s''))
                (ret (if cond then [rule] else [])))))))))))))"

definition eval_rates :: "pystr \<Rightarrow> sample \<Rightarrow> pyfloat \<Rightarrow> ('a engine_scheme, json list) pym" where
  "eval_rates dev t now =
     bind_pym (rule_get ''rate'' JNull) (\<lambda>r.
     case py_or r (JObj []) of
       JObj kvs \<Rightarrow> collect_pym (eval_rate dev t now) kvs
     | _ \<Rightarrow> throw AttributeError)"

text \<open>The parameters of the anomaly rules, read in the order of the code.\<close>

record anomaly_params =
  p_alpha :: pyfloat
  p_z :: pyfloat
  p_sustain :: int
  p_sustain_s :: pyfloat
  p_warmup :: int
  p_min_std :: pyfloat

definition read_float :: "json \<Rightarrow> string \<Rightarrow> json \<Rightarrow> pyfloat res" where
  "read_float ob k dflt = rbind (py_get ob (lit k) dflt) py_float"

definition read_int :: "json \<Rightarrow> string \<Rightarrow> json \<Rightarrow> int res" where
  "read_int ob k dflt = rbind (py_get ob (lit k) dflt) py_int"

definition read_params :: "json \<Rightarrow> anomaly_params res" where
  "read_params an =
     rbind (read_float an ''alpha'' (flt (5 / 100))) (\<lambda>alpha.
     rbind (read_float an ''z'' (flt 4)) (\<lambda>z.
     rbind (read_int an ''sustain'' (JInt 3)) (\<lambda>sustain.
     rbind (read_float an ''sustain_s'' (flt 0)) (\<lambda>sustain_s.
     rbind (read_int an ''warmup'' (JInt 20)) (\<lambda>warmup.
     rbind (read_float an ''min_std'' (flt (5 / 100))) (\<lambda>min_std.
     Inr \<lparr>p_alpha = alpha, p_z = z, p_sustain = sustain, p_sustain_s = sustain_s, p_warmup = warmup,
          p_min_std = min_std\<rparr>))))))"

definition ewma_of :: "pystr \<Rightarrow> DeviceState \<Rightarrow> Ewma" where
  "ewma_of k st = (case map_of (ewma st) k of Some e \<Rightarrow> e | None \<Rightarrow> Ewma_init)"

definition put_ewma :: "pystr \<Rightarrow> pystr \<Rightarrow> Ewma \<Rightarrow> ('a engine_scheme, unit) pym" where
  "put_ewma dev k e = on_st dev (\<lambda>st. st\<lparr>ewma := AList.update k e (ewma st)\<rparr>)"

text \<open>\<open>set(gate.get("applies_to") or [])\<close>.\<close>

definition gated_set :: "json \<Rightarrow> json list res" where
  "gated_set gate =
     rbind (py_get gate (lit ''applies_to'') JNull) (\<lambda>a.
     rbind (py_iter (py_or a (JList []))) (\<lambda>xs.
     if list_all hashable xs then Inr xs else Inl TypeError))"

text \<open>Whether the gate metric is away from its own recent mean; its average is updated.\<close>

definition eval_gate :: "pystr \<Rightarrow> sample \<Rightarrow> anomaly_params \<Rightarrow> json \<Rightarrow> ('a engine_scheme, bool) pym" where
  "eval_gate dev t p gate =
     bind_pym (of_res (py_get gate (lit ''metric'') JNull)) (\<lambda>gm.
     if \<not> truthy gm then ret False
     else bind_pym (of_res (metric_of gm t)) (\<lambda>mv.
     case mv of
       None \<Rightarrow> ret False
     | Some (metric, v) \<Rightarrow>
         let k = lit ''gate:'' @ metric in
         bind_pym (gets (\<lambda>s. ewma_of k (dev_state dev s))) (\<lambda>g.
         seq_pym (put_ewma dev k g)
         (bind_pym (of_res (py_float v)) (\<lambda>gx.
          bind_pym (if p_warmup p \<le> ewma_n g then
              bind_pym (of_res (read_float gate ''frac'' (flt (1 / 10)))) (\<lambda>frac.
              bind_pym (of_res (read_float gate ''abs'' (flt 0))) (\<lambda>ab.
              ret (fless (fmax (fmul frac (fabs (mean g))) ab) (fabs (fsub gx (mean g))))))
            else ret False) (\<lambda>moving.
          bind_pym (of_res (Ewma_step gx (p_alpha p) True g)) (\<lambda>(z, g').
          seq_pym (put_ewma dev k g') (ret moving))))))))"

text \<open>How long the current run of anomalous samples has lasted: \<open>now - (e.since or now)\<close>.\<close>

definition run_length :: "pyfloat \<Rightarrow> Ewma \<Rightarrow> pyfloat" where
  "run_length now e = fsub now (case since e of Some t \<Rightarrow> if fzero t then now else t | None \<Rightarrow> now)"

text \<open>
  The decision on one sample of a metric: the z-score, whether the sample is hot, and the average
  after it.
\<close>

definition judge :: "anomaly_params \<Rightarrow> bool \<Rightarrow> pyfloat \<Rightarrow> pyfloat \<Rightarrow> Ewma \<Rightarrow> (pyfloat \<times> bool \<times> Ewma) res" where
  "judge p excused now x e =
     (let warm = (p_warmup p \<le> ewma_n e) in
      rbind (fsqrt (var e)) (\<lambda>sd.
      let std = (if warm then fmax sd (p_min_std p) else sd) in
      rbind (if warm \<and> fless (Fin 0) std then fdiv (fabs (fsub x (mean e))) std else Inr (Fin 0)) (\<lambda>z.
      let hot = (warm \<and> fless (p_z p) z \<and> \<not> excused) in
      rbind (Ewma_step x (if hot then fmul (p_alpha p) (rnd64 (1 / 10)) else p_alpha p) (\<not> hot) e) (\<lambda>(_, e1).
      let e2 = (if hot
                then e1\<lparr>streak := streak e1 + 1, since := (case since e1 of None \<Rightarrow> Some now | Some t \<Rightarrow> Some t)\<rparr>
                else e1\<lparr>streak := 0, since := None\<rparr>)
      in Inr (z, hot, e2)))))"

definition eval_anomaly ::
  "pystr \<Rightarrow> sample \<Rightarrow> pyfloat \<Rightarrow> anomaly_params \<Rightarrow> bool \<Rightarrow> json list \<Rightarrow> json \<Rightarrow> json \<Rightarrow> ('a engine_scheme, json list) pym" where
  "eval_anomaly dev t now p moving gated an m =
     bind_pym (of_res (metric_of m t)) (\<lambda>mv.
     case mv of
       None \<Rightarrow> ret []
     | Some (metric, v) \<Rightarrow>
         bind_pym (of_res (py_float v)) (\<lambda>x.
         bind_pym (gets (\<lambda>s. ewma_of metric (dev_state dev s))) (\<lambda>e.
         seq_pym (put_ewma dev metric e)
         (bind_pym (of_res (judge p (moving \<and> JStr metric \<in> set gated) now x e)) (\<lambda>(z, hot, e').
          seq_pym (put_ewma dev metric e')
          (let cond = (p_sustain p \<le> streak e' \<and> fle (p_sustain_s p) (run_length now e'));
               rule = JStr (lit ''anomaly:'' @ metric) in
           bind_pym (of_res (py_get an (lit ''severity'') (JStr (lit ''warn'')))) (\<lambda>sev.
           seq_pym (mark dev rule cond now (Some metric) (Some x) sev
             (metric @ lit ''='' @ fmt_fixed 2 x @ lit '' deviates z='' @ fmt_fixed 1 z @ lit '' from EWMA ''
              @ fmt_fixed 2 (mean e') @ lit '' for '' @ fmt_fixed 1 (run_length now e') @ lit ''s''))
           (ret (if cond then [rule] else []))))))))) "

definition eval_anomalies :: "pystr \<Rightarrow> sample \<Rightarrow> pyfloat \<Rightarrow> ('a engine_scheme, json list) pym" where
  "eval_anomalies dev t now =
     bind_pym (rule_get ''anomaly'' (JObj [])) (\<lambda>an.
     bind_pym (of_res (py_get an (lit ''enabled'') (JBool True))) (\<lambda>en.
     if truthy en then
       bind_pym (of_res (read_params an)) (\<lambda>p.
       bind_pym (of_res (py_get an (lit ''gate'') JNull)) (\<lambda>gate0.
       let gate = py_or gate0 (JObj []) in
       bind_pym (of_res (gated_set gate)) (\<lambda>gated.
       bind_pym (eval_gate dev t p gate) (\<lambda>moving.
       bind_pym (of_res (py_get an (lit ''metrics'') (JList []))) (\<lambda>ms0.
       bind_pym (of_res (py_iter ms0)) (\<lambda>ms.
       collect_pym (eval_anomaly dev t now p moving gated an) ms))))))
     else ret []))"

definition on_telemetry :: "pystr \<Rightarrow> sample \<Rightarrow> pyfloat option \<Rightarrow> pyfloat option \<Rightarrow> ('a engine_scheme, json list) pym" where
  "on_telemetry dev t ts loss =
     bind_pym (or_time ts) (\<lambda>now.
     seq_pym (get_st dev)
     (bind_pym (config_for dev) (\<lambda>cfg.
      bind_pym (eval_thresholds dev t now cfg) (\<lambda>f1.
      bind_pym (eval_flags dev t now) (\<lambda>f2.
      bind_pym (eval_rates dev t now) (\<lambda>f3.
      bind_pym (eval_anomalies dev t now) (\<lambda>f4.
      seq_pym (case loss of Some l \<Rightarrow> on_comm dev l (Some now) | None \<Rightarrow> ret ())
      (ret (f1 @ f2 @ f3 @ f4)))))))))"

end
