(* ===== verification/Alerting.thy ===== *)
theory Alerting
  imports Anomaly "HOL-Library.Sublist"
begin

text \<open>
  What the rule engine promises about alerts. The open alerts are a set of pairs of device and rule;
  the engine's two operations on them, marking a condition true and resolving it, insert into this
  set and remove from it, and everything else the engine does is made of these two.
\<close>

section \<open>The open alerts\<close>

definition open_pairs :: "DB \<Rightarrow> (pystr \<times> pystr) set" where
  "open_pairs db = (\<lambda>a. (a_dev a, a_rule a)) ` {a \<in> set (alerts_t db). is_open a}"

lemma open_pairs_iff: "(dev, rule) \<in> open_pairs db \<longleftrightarrow> open_alert dev rule db \<noteq> None"
  by (auto simp: open_pairs_def open_alert_None)

lemma open_pairs_alerts: "alerts_t db' = alerts_t db \<Longrightarrow> open_pairs db' = open_pairs db"
  by (simp add: open_pairs_def)

lemma open_pairs_append: "open_pairs (db\<lparr>alert_id := i, alerts_t := alerts_t db @ [a]\<rparr>) =
    (if is_open a then insert (a_dev a, a_rule a) (open_pairs db) else open_pairs db)"
  by (auto simp: open_pairs_def)

text \<open>Closing the one open alert of a device and rule.\<close>

lemma distinct_open:
  "alerts_ok db \<Longrightarrow> a \<in> set (alerts_t db) \<Longrightarrow> b \<in> set (alerts_t db) \<Longrightarrow> is_open a \<Longrightarrow> is_open b \<Longrightarrow>
   a_dev a = a_dev b \<Longrightarrow> a_rule a = a_rule b \<Longrightarrow> a = b"
  unfolding alerts_ok_def distinct_map by (auto dest: inj_onD)

lemma open_pairs_close:
  assumes "alerts_ok db" "open_alert dev rule db = Some a" "\<And>x. \<not> is_open (f x)"
  shows "open_pairs (db\<lparr>alerts_t := sql_update (\<lambda>x. a_id x = a_id a) f (alerts_t db)\<rparr>) = open_pairs db - {(dev, rule)}"
proof -
  note a = open_alert_Some [OF assms(2)]
  have ids: "x = a" if "x \<in> set (alerts_t db)" "a_id x = a_id a" for x
    using that a(1) assms(1) ids_ok_inj [of a_id "alerts_t db"] by (auto simp: alerts_ok_def)
  have "{x \<in> set (sql_update (\<lambda>x. a_id x = a_id a) f (alerts_t db)). is_open x}
      = {x \<in> set (alerts_t db). is_open x} - {a}"
    using assms(3) ids by (auto simp: set_sql_update)
  moreover have "(a_dev x, a_rule x) \<noteq> (dev, rule)" if "x \<in> set (alerts_t db)" "is_open x" "x \<noteq> a" for x
    using distinct_open [OF assms(1) that(1) a(1) that(2) a(4)] that(3) a(2,3) by auto
  ultimately show ?thesis using a by (auto simp: open_pairs_def)
qed

section \<open>Marking\<close>

lemma on_st_app [pym_simps]:
  "on_st dev f s = (Inr (), s\<lparr>devs := AList.update dev (f (dev_state dev s)) (devs s)\<rparr>)"
  by (simp add: on_st_def pym_simps)

lemma get_st_app [pym_simps]:
  "get_st dev s = (Inr (dev_state dev s), s\<lparr>devs := AList.update dev (dev_state dev s) (devs s)\<rparr>)"
  by (simp add: get_st_def pym_simps dev_state_def update_conv' split: option.splits)

lemma dev_state_update:
  "dev_state d (s\<lparr>devs := AList.update dev st (devs s)\<rparr>) = (if d = dev then st else dev_state d s)"
  by (simp add: dev_state_def update_conv')

lemma bus_publish_app [pym_simps]: "bus_publish e s = (Inr (), s\<lparr>wbus := publish e (wbus s)\<rparr>)"
  by (simp add: bus_publish_def pym_simps)

lemma emit_app [pym_simps]:
  "emit a action s = (Inr (), case a of Some x \<Rightarrow> s\<lparr>wbus := publish (EvAlert (lit action) x) (wbus s)\<rparr> | None \<Rightarrow> s)"
  by (simp add: emit_def pym_simps split: option.splits)

lemma rule_text_JStr [simp]: "rule_text (JStr r) = Inr r"
  by (simp add: rule_text_def)

text \<open>Everything \<open>mark\<close> does to the tables.\<close>

lemma mark_db:
  "wdb (snd (mark dev rule cond now metric value severity msg s)) =
     (if cond \<and> hashable rule then
        (case rule_text rule of
           Inl _ \<Rightarrow> wdb s
         | Inr rt \<Rightarrow>
             if open_alert dev rt (wdb s) = None then
               (case bind_json severity of
                  Inl _ \<Rightarrow> wdb s
                | Inr sev \<Rightarrow> (wdb s)\<lparr>alert_id := alert_id (wdb s) + 1, alerts_t := alerts_t (wdb s) @
                    [new_alert (alert_id (wdb s) + 1) dev rt metric value sev msg (wclock s (wreads s))]\<rparr>)
             else wdb s)
      else wdb s)"
  by (simp add: mark_def pym_simps create_alert_app Let_def split: sum.splits option.splits)

lemma mark_result:
  assumes "hashable rule" "rule_text rule = Inr rt" "bind_json severity = Inr sev"
  shows "fst (mark dev rule cond now metric value severity msg s) = Inr ()"
  using assms by (simp add: mark_def pym_simps create_alert_app Let_def split: sum.splits option.splits)

lemma mark_keeps_ok: "alerts_ok (wdb s) \<Longrightarrow> alerts_ok (wdb (snd (mark dev rule cond now metric value severity msg s)))"
  by (auto simp: mark_db alerts_ok_create split: sum.splits)

lemma mark_open_mono: "open_pairs (wdb s) \<subseteq> open_pairs (wdb (snd (mark dev rule cond now metric value severity msg s)))"
  by (auto simp: mark_db open_pairs_append split: sum.splits)

text \<open>When \<open>mark\<close> returns, a condition that holds has an open alert.\<close>

lemma mark_opens:
  assumes "mark dev rule True now metric value severity msg s = (Inr u, s')"
  shows "\<exists>rt. rule_text rule = Inr rt \<and> (dev, rt) \<in> open_pairs (wdb s')"
proof -
  have s': "s' = snd (mark dev rule True now metric value severity msg s)"
    and f: "fst (mark dev rule True now metric value severity msg s) = Inr u" using assms by simp_all
  from f obtain rt where h: "hashable rule" "rule_text rule = Inr rt"
    by (auto simp: mark_def pym_simps split: if_splits sum.splits)
  show ?thesis
  proof (cases "open_alert dev rt (wdb s) = None")
    case True
    then obtain sev where "bind_json severity = Inr sev"
      using f h by (auto simp: mark_def pym_simps create_alert_app Let_def split: sum.splits)
    with True h show ?thesis by (simp add: s' mark_db open_pairs_append)
  next
    case False
    with h have "wdb s' = wdb s" by (auto simp: s' mark_db)
    with h False show ?thesis by (simp add: open_pairs_iff)
  qed
qed

section \<open>Resolving\<close>

lemma or_time_app: "\<exists>t n. or_time now s = (Inr t, s\<lparr>wreads := n\<rparr>)"
proof (cases "now = None \<or> fzero (the now)")
  case True
  then have "or_time now s = (Inr (wclock s (wreads s)), s\<lparr>wreads := wreads s + 1\<rparr>)"
    by (auto simp: or_time_def time_time_app split: option.splits)
  then show ?thesis by blast
next
  case False
  then have "or_time now s = (Inr (the now), s\<lparr>wreads := wreads s\<rparr>)"
    by (auto simp: or_time_def pym_simps)
  then show ?thesis by blast
qed

lemma not_open_resolved: "\<not> is_open (fold set_alcol [AStatus (lit ''resolved''), AResolvedAt t] a\<lparr>a_updated_at := u\<rparr>)"
  by (simp add: is_open_def)

text \<open>What resolving does, for a rule whose name is text.\<close>

definition drop_active :: "json \<Rightarrow> DeviceState \<Rightarrow> DeviceState" where
  "drop_active rule st = st\<lparr>active := AList.delete rule (active st)\<rparr>"

lemma resolve_effect:
  assumes "alerts_ok (wdb s)" "rule_text rule = Inr rt"
  shows "\<exists>s'. resolve dev rule now s = (Inr (), s') \<and> alerts_ok (wdb s')
    \<and> open_pairs (wdb s') = open_pairs (wdb s) - {(dev, rt)}
    \<and> devs s' = AList.update dev (drop_active rule (dev_state dev s)) (devs s) \<and> rules s' = rules s"
proof (cases "open_alert dev rt (wdb s)")
  case None
  then have "(dev, rt) \<notin> open_pairs (wdb s)" by (simp add: open_pairs_iff)
  with None assms show ?thesis
    by (simp add: resolve_def pym_simps drop_active_def)
next
  case (Some a)
  let ?s = "s\<lparr>devs := AList.update dev (drop_active rule (dev_state dev s)) (devs s)\<rparr>"
  obtain t n where t: "or_time now ?s = (Inr t, ?s\<lparr>wreads := n\<rparr>)" using or_time_app by blast
  let ?f = "\<lambda>u x. (fold set_alcol [AStatus (lit ''resolved''), AResolvedAt t] x)\<lparr>a_updated_at := u\<rparr>"
  let ?db = "\<lambda>u. (wdb s)\<lparr>alerts_t := sql_update (\<lambda>x. a_id x = a_id a) (?f u) (alerts_t (wdb s))\<rparr>"
  have no: "\<not> is_open (?f u x)" for u x by (rule not_open_resolved)
  have "alerts_ok (?db u)" for u by (rule alerts_ok_close [OF assms(1) _ no]) (simp add: alert_ident_def)
  moreover have "open_pairs (?db u) = open_pairs (wdb s) - {(dev, rt)}" for u
    by (rule open_pairs_close [OF assms(1) Some no])
  ultimately show ?thesis
    using assms(2) Some t
    by (simp add: resolve_def pym_simps drop_active_def [symmetric] update_alert_app split: option.splits)
qed

section \<open>What the engine's operations keep\<close>

text \<open>
  A relation between states that marking respects, and that changes of the engine's own fields
  respect, is respected by the evaluation of any sample; if resolving and replacing the rules
  respect it too, by every operation of the engine. The two locales state this once for the uses
  below: the invariant of the table, the growth of the set of open alerts, the history of the table,
  and what the engine leaves alone.
\<close>

locale eval_order = state_order R for R :: "'a engine_scheme \<Rightarrow> 'a engine_scheme \<Rightarrow> bool" +
  assumes R_reads: "R s (s\<lparr>wreads := n\<rparr>)" and R_bus: "R s (s\<lparr>wbus := b\<rparr>)" and R_devs: "R s (s\<lparr>devs := d\<rparr>)"
    and R_config: "R s (s\<lparr>config_cache := c\<rparr>)" and R_hw: "R s (s\<lparr>hw_cache := h\<rparr>)"
    and R_mark: "steps_by R (mark dev rule cond now metric value severity msg)"
begin

lemma ev_time: "steps_by R time_time"
  unfolding time_time_def by (intro so_intros R_reads)

lemma ev_db_get: "steps_by R (db_get f)"
  unfolding db_get_def by (rule so_gets)

lemma ev_on_st: "steps_by R (on_st dev f)"
  unfolding on_st_def by (intro so_modify R_devs)

lemma ev_get_st: "steps_by R (get_st dev)"
  unfolding get_st_def by (intro so_intros ev_on_st)

lemma ev_rule_get: "steps_by R (rule_get k d)"
  by (simp add: rule_get_def so_gets)

lemma ev_publish: "steps_by R (bus_publish e)"
  unfolding bus_publish_def by (intro so_modify R_bus)

lemma ev_or_time: "steps_by R (or_time now)"
  unfolding or_time_def by (intro so_intros ev_time)

lemma ev_put_ewma: "steps_by R (put_ewma dev k e)"
  by (simp add: put_ewma_def ev_on_st)

lemma ev_config_for: "steps_by R (config_for dev)"
  unfolding config_for_def by (intro so_intros ev_db_get R_config)

lemma ev_hw_for: "steps_by R (hw_for dev)"
  unfolding hw_for_def by (intro so_intros ev_db_get R_hw)

lemma ev_invalidate: "steps_by R (invalidate_config dev)"
  unfolding invalidate_config_def by (rule so_modify) (rule trans_R [OF R_config R_hw])

lemma ev_find_override: "steps_by R (find_override dev spec severity os)"
proof (induction os)
  case (Cons x os)
  show ?case
  proof (cases x)
    case (JObj kvs)
    show ?thesis unfolding JObj find_override.simps by (intro so_intros ev_hw_for Cons)
  qed (use Cons in simp_all)
qed (simp add: so_ret)

lemma ev_threshold_spec: "steps_by R (threshold_spec rule dev)"
  unfolding threshold_spec_def by (intro so_intros ev_find_override)

lemmas ev_intros = so_intros ev_time ev_db_get ev_on_st ev_get_st ev_rule_get ev_publish ev_or_time
  ev_put_ewma ev_config_for ev_threshold_spec R_mark

lemma ev_on_offline: "steps_by R (on_offline dev now)"
  unfolding on_offline_def by (intro ev_intros)

lemma ev_on_comm: "steps_by R (on_comm dev loss now)"
  unfolding on_comm_def by (intro ev_intros)

lemma ev_threshold: "steps_by R (eval_threshold dev t now cfg rule)"
  unfolding eval_threshold_def by (intro ev_intros)

lemma ev_thresholds: "steps_by R (eval_thresholds dev t now cfg)"
  unfolding eval_thresholds_def by (intro ev_intros ev_threshold)

lemma ev_flag: "steps_by R (eval_flag dev now sev name)"
  unfolding eval_flag_def by (intro ev_intros)

lemma ev_flags: "steps_by R (eval_flags dev t now)"
  unfolding eval_flags_def by (intro ev_intros ev_flag)

lemma ev_rate: "steps_by R (eval_rate dev t now ms)"
  unfolding eval_rate_def by (intro ev_intros)

lemma ev_rates: "steps_by R (eval_rates dev t now)"
  unfolding eval_rates_def by (intro ev_intros) (auto split: json.splits intro!: so_throw so_collect ev_rate)

lemma ev_gate: "steps_by R (eval_gate dev t p gate)"
  unfolding eval_gate_def by (intro ev_intros)

lemma ev_anomaly: "steps_by R (eval_anomaly dev t now p moving gated an m)"
  unfolding eval_anomaly_def by (intro ev_intros)

lemma ev_anomalies: "steps_by R (eval_anomalies dev t now)"
  unfolding eval_anomalies_def by (intro ev_intros ev_gate ev_anomaly)

lemma ev_on_telemetry: "steps_by R (on_telemetry dev t ts loss)"
  unfolding on_telemetry_def by (intro ev_intros ev_thresholds ev_flags ev_rates ev_anomalies ev_on_comm)

end

locale engine_order = eval_order +
  assumes R_resolve: "steps_by R (resolve dev rule now)" and R_rules: "steps_by R (set_rules r)"
begin

lemma en_tick: "steps_by R (tick now)"
  unfolding tick_def tick_rule_def tick_alert_def by (intro ev_intros R_resolve)

lemma en_on_online: "steps_by R (on_online dev now)"
  unfolding on_online_def by (intro ev_intros R_resolve)

end

text \<open>At most one open alert per device and rule.\<close>

abbreviation alerts_inv :: "'a env_scheme \<Rightarrow> bool" where
  "alerts_inv s \<equiv> alerts_ok (wdb s)"

lemma keeps_steps: "keeps P m \<longleftrightarrow> steps_by (\<lambda>s t. P s \<longrightarrow> P t) m"
  by (simp add: keeps_def steps_by_def)

lemma set_rules_other:
  "alerts_t (wdb (snd (set_rules r s))) = alerts_t (wdb s)" "alert_id (wdb (snd (set_rules r s))) = alert_id (wdb s)"
  by (simp_all add: set_rules_def db_set_rules_def pym_simps split: sum.splits)

lemma resolve_keeps_ok:
  assumes "alerts_inv s"
  shows "alerts_inv (snd (resolve dev rule now s))"
proof (cases "rule_text rule")
  case (Inl e)
  with assms show ?thesis by (simp add: resolve_def pym_simps)
next
  case (Inr rt)
  from resolve_effect [OF assms Inr, of dev now] obtain s' where
    "resolve dev rule now s = (Inr (), s')" "alerts_inv s'" by blast
  then show ?thesis by simp
qed

interpretation dedupe: engine_order "\<lambda>s t. alerts_inv s \<longrightarrow> alerts_inv t"
proof
  show "steps_by (\<lambda>s t. alerts_inv s \<longrightarrow> alerts_inv t) (set_rules r)" for r
    by (simp add: steps_by_def alerts_ok_def set_rules_other)
qed (auto simp: steps_by_def mark_keeps_ok resolve_keeps_ok)

text \<open>Evaluating a sample closes nothing.\<close>

interpretation growth: eval_order "\<lambda>s t. open_pairs (wdb s) \<subseteq> open_pairs (wdb t)"
proof
  show "open_pairs (wdb s) \<subseteq> open_pairs (wdb u)"
    if "open_pairs (wdb s) \<subseteq> open_pairs (wdb t)" "open_pairs (wdb t) \<subseteq> open_pairs (wdb u)"
    for s t u :: "'a engine_scheme" using that by (rule subset_trans)
qed (simp_all add: steps_by_def mark_open_mono)

text \<open>No alert is ever deleted, and what it is about never changes.\<close>

definition alert_history :: "DB \<Rightarrow> DB \<Rightarrow> bool" where
  "alert_history db db' \<longleftrightarrow> prefix (map alert_ident (alerts_t db)) (map alert_ident (alerts_t db'))"

lemma mark_history: "alert_history (wdb s) (wdb (snd (mark dev rule cond now metric value severity msg s)))"
  by (simp add: mark_db alert_history_def split: sum.splits)

lemma resolve_history: "alert_history (wdb s) (wdb (snd (resolve dev rule now s)))"
proof (cases "rule_text rule")
  case (Inl e)
  then show ?thesis by (simp add: resolve_def pym_simps alert_history_def)
next
  case (Inr rt)
  let ?s = "s\<lparr>devs := AList.update dev (drop_active rule (dev_state dev s)) (devs s)\<rparr>"
  obtain t n where t: "or_time now ?s = (Inr t, ?s\<lparr>wreads := n\<rparr>)" using or_time_app by blast
  have "map alert_ident (sql_update p (\<lambda>a. a\<lparr>a_status := x, a_resolved_at := y, a_updated_at := z\<rparr>) as) = map alert_ident as"
    for p x y z as by (rule map_sql_update) (simp add: alert_ident_def)
  with t Inr show ?thesis
    by (simp add: resolve_def pym_simps drop_active_def [symmetric] update_alert_app alert_history_def
        split: option.splits)
qed

interpretation history: engine_order "\<lambda>s t. alert_history (wdb s) (wdb t)"
proof
  show "alert_history (wdb s) (wdb u)" if "alert_history (wdb s) (wdb t)" "alert_history (wdb t) (wdb u)"
    for s t u :: "'a engine_scheme"
    using that unfolding alert_history_def by (rule prefix_order.trans)
qed (simp_all add: alert_history_def steps_by_def mark_history [unfolded alert_history_def]
      resolve_history [unfolded alert_history_def] set_rules_other)

text \<open>
  The engine leaves the other tables and everything around it alone: the clock, and whatever state
  it is embedded in.
\<close>

definition other_tables :: "DB \<Rightarrow> DB" where
  "other_tables db = db\<lparr>alerts_t := [], alert_id := 0, rules_t := None\<rparr>"

definition around_engine :: "'a engine_scheme \<Rightarrow> DB \<times> (nat \<Rightarrow> pyfloat) \<times> 'a" where
  "around_engine s = (other_tables (wdb s), wclock s, engine.more s)"

interpretation around: engine_order "\<lambda>s t. around_engine t = around_engine s"
proof
  show "steps_by (\<lambda>s t. around_engine t = around_engine s) (mark dev rule cond now metric x severity msg)"
    for dev rule cond now metric x severity msg
    by (simp add: steps_by_def around_engine_def other_tables_def mark_def pym_simps create_alert_app Let_def
        split: sum.splits option.splits)
  show "steps_by (\<lambda>s t. around_engine t = around_engine s) (resolve dev rule now)" for dev rule now
    unfolding steps_by_def
  proof
    fix s
    let ?s = "s\<lparr>devs := AList.update dev (drop_active rule (dev_state dev s)) (devs s)\<rparr>"
    obtain t n where t: "or_time now ?s = (Inr t, ?s\<lparr>wreads := n\<rparr>)" using or_time_app by blast
    then show "around_engine (snd (resolve dev rule now s)) = around_engine s"
      by (simp add: resolve_def pym_simps drop_active_def [symmetric] update_alert_app around_engine_def
          other_tables_def split: option.splits sum.splits)
  qed
  show "steps_by (\<lambda>s t. around_engine t = around_engine s) (set_rules r)" for r
    by (simp add: steps_by_def around_engine_def other_tables_def set_rules_def db_set_rules_def pym_simps split: sum.splits)
qed (simp_all add: around_engine_def)

section \<open>A rule that fired has an open alert\<close>

definition has_alert :: "pystr \<Rightarrow> json \<Rightarrow> DB \<Rightarrow> bool" where
  "has_alert dev rule db \<longleftrightarrow> (case rule_text rule of Inr rt \<Rightarrow> open_alert dev rt db \<noteq> None | Inl _ \<Rightarrow> False)"

lemma has_alert_pairs: "has_alert dev rule db \<longleftrightarrow> (\<exists>rt. rule_text rule = Inr rt \<and> (dev, rt) \<in> open_pairs db)"
  by (auto simp: has_alert_def open_pairs_iff split: sum.splits)

lemma has_alert_mono: "has_alert dev rule db \<Longrightarrow> open_pairs db \<subseteq> open_pairs db' \<Longrightarrow> has_alert dev rule db'"
  by (auto simp: has_alert_pairs)

abbreviation all_alerts :: "pystr \<Rightarrow> json list \<Rightarrow> 'a env_scheme \<Rightarrow> bool" where
  "all_alerts dev rs s \<equiv> \<forall>r\<in>set rs. has_alert dev r (wdb s)"

lemma posts_mark:
  "posts (seq_pym (mark dev rule cond now metric value severity msg) (ret (if cond then [rule] else [])))
     (\<lambda>rs s. all_alerts dev rs s)"
proof (cases cond)
  case True
  have "has_alert dev rule (wdb s')" if "mark dev rule True now metric value severity msg s = (Inr u, s')"
    for s s' :: "'a engine_scheme" and u
    using mark_opens [OF that] by (simp add: has_alert_pairs)
  with True show ?thesis
    by (auto simp: posts_def seq_app ret_app split: sum.splits) (metis prod.collapse)
qed (auto simp: posts_def seq_app ret_app split: sum.splits)

lemma posts_mark_True:
  "posts (seq_pym (mark dev rule True now metric value severity msg) (ret [rule])) (\<lambda>rs s. all_alerts dev rs s)"
  using posts_mark [where cond = True] by simp

lemma posts_eval:
  "posts (eval_threshold dev t now cfg r) (\<lambda>rs s. all_alerts dev rs s)"
  "posts (eval_flag dev now sev name) (\<lambda>rs s. all_alerts dev rs s)"
  "posts (eval_rate dev t now ms) (\<lambda>rs s. all_alerts dev rs s)"
  "posts (eval_anomaly dev t now p moving gated an m) (\<lambda>rs s. all_alerts dev rs s)"
  unfolding eval_threshold_def eval_flag_def eval_rate_def eval_anomaly_def
  by (intro posts_mark posts_mark_True posts_intros; simp)+

text \<open>A result of the first step that the rest cannot undo may be used when the rest returns.\<close>

context eval_order
begin

lemma ev_bind_posts:
  assumes "posts m Q" "\<And>x s t. Q x s \<Longrightarrow> R s t \<Longrightarrow> Q x t" "\<And>x. steps_by R (f x)"
    "\<And>x. posts (f x) (\<lambda>y s. Q x s \<longrightarrow> P y s)"
  shows "posts (bind_pym m f) P"
  unfolding posts_def
proof (intro allI impI)
  fix s y s'
  assume "bind_pym m f s = (Inr y, s')"
  then obtain x s1 where x: "m s = (Inr x, s1)" "f x s1 = (Inr y, s')"
    by (auto simp: bind_app prod_eq_iff split: sum.splits)
  have "Q x s1" using assms(1) x(1) by (auto simp: posts_def)
  moreover have "R s1 s'" using steps_byD [OF assms(3) [of x], of s1] x(2) by simp
  ultimately show "P y s'" using assms(2,4) x(2) by (auto simp: posts_def)
qed

end

lemma posts_evals:
  "posts (eval_thresholds dev t now cfg) (all_alerts dev)" "posts (eval_flags dev t now) (all_alerts dev)"
  "posts (eval_rates dev t now) (all_alerts dev)" "posts (eval_anomalies dev t now) (all_alerts dev)"
proof -
  note collect = growth.so_collect_posts [where Q = "\<lambda>r s. has_alert dev r (wdb s)", OF has_alert_mono]
  show "posts (eval_thresholds dev t now cfg) (all_alerts dev)"
    unfolding eval_thresholds_def by (intro posts_bind collect growth.ev_threshold posts_eval)
  show "posts (eval_flags dev t now) (all_alerts dev)"
    unfolding eval_flags_def by (intro posts_bind posts_if collect growth.ev_flag posts_eval posts_ret) simp_all
  show "posts (eval_rates dev t now) (all_alerts dev)"
    unfolding eval_rates_def
    by (intro posts_bind) (auto split: json.splits intro!: posts_throw collect growth.ev_rate posts_eval)
  show "posts (eval_anomalies dev t now) (all_alerts dev)"
    unfolding eval_anomalies_def
    by (intro posts_bind posts_if posts_let collect growth.ev_anomaly posts_eval posts_ret) simp_all
qed

lemma posts_on_telemetry: "posts (on_telemetry dev t ts loss) (all_alerts dev)"
  unfolding on_telemetry_def
proof (rule posts_bind, rule posts_seq, rule posts_bind)
  fix now cfg
  show "posts (bind_pym (eval_thresholds dev t now cfg) (\<lambda>f1. bind_pym (eval_flags dev t now) (\<lambda>f2.
      bind_pym (eval_rates dev t now) (\<lambda>f3. bind_pym (eval_anomalies dev t now) (\<lambda>f4.
      seq_pym (case loss of Some l \<Rightarrow> on_comm dev l (Some now) | None \<Rightarrow> ret ()) (ret (f1 @ f2 @ f3 @ f4))))))) (all_alerts dev)"
    by (rule growth.ev_bind_posts growth.ev_intros growth.ev_flags growth.ev_rates growth.ev_anomalies growth.ev_on_comm
          posts_evals posts_seq posts_ret | (auto dest: has_alert_mono; fail))+
qed

section \<open>The engine refines a set of open alerts\<close>

text \<open>
  The abstract specification: a set of keys and two operations on it. An implementation keeps an
  invariant and its operations commute with those of the set; then so does every sequence of them.
\<close>

datatype 'k board_op = Raise 'k | Clear 'k

fun board :: "'k board_op list \<Rightarrow> 'k set \<Rightarrow> 'k set" where
  "board [] S = S"
| "board (Raise k # ops) S = board ops (insert k S)"
| "board (Clear k # ops) S = board ops (S - {k})"

fun board_run :: "('k \<Rightarrow> 's \<Rightarrow> 's) \<Rightarrow> ('k \<Rightarrow> 's \<Rightarrow> 's) \<Rightarrow> 'k board_op list \<Rightarrow> 's \<Rightarrow> 's" where
  "board_run put del [] s = s"
| "board_run put del (Raise k # ops) s = board_run put del ops (put k s)"
| "board_run put del (Clear k # ops) s = board_run put del ops (del k s)"

locale alert_board =
  fixes inv :: "'s \<Rightarrow> bool" and opens :: "'s \<Rightarrow> 'k set" and put :: "'k \<Rightarrow> 's \<Rightarrow> 's" and del :: "'k \<Rightarrow> 's \<Rightarrow> 's"
  assumes put_inv: "inv s \<Longrightarrow> inv (put k s)" and del_inv: "inv s \<Longrightarrow> inv (del k s)"
    and put_opens: "inv s \<Longrightarrow> opens (put k s) = insert k (opens s)"
    and del_opens: "inv s \<Longrightarrow> opens (del k s) = opens s - {k}"
begin

lemma run_refines: "inv s \<Longrightarrow> inv (board_run put del ops s) \<and> opens (board_run put del ops s) = board ops (opens s)"
proof (induction ops arbitrary: s)
  case (Cons op ops)
  then show ?case by (cases op) (simp_all add: put_inv del_inv put_opens del_opens)
qed simp

end

text \<open>The engine's two operations, with the arguments that do not matter here.\<close>

definition raise_alert :: "pyfloat \<Rightarrow> pystr \<Rightarrow> pystr \<Rightarrow> pystr \<times> pystr \<Rightarrow> 'a engine_scheme \<Rightarrow> 'a engine_scheme" where
  "raise_alert now sev msg k s = snd (mark (fst k) (JStr (snd k)) True now None None (JStr sev) msg s)"

definition clear_alert :: "pyfloat \<Rightarrow> pystr \<times> pystr \<Rightarrow> 'a engine_scheme \<Rightarrow> 'a engine_scheme" where
  "clear_alert now k s = snd (resolve (fst k) (JStr (snd k)) (Some now) s)"

lemma raise_open: "open_pairs (wdb (raise_alert now sev msg k s)) = insert k (open_pairs (wdb s))"
proof (cases "k \<in> open_pairs (wdb s)")
  case True
  then have "open_alert (fst k) (snd k) (wdb s) \<noteq> None" using open_pairs_iff [of "fst k" "snd k"] by simp
  then have "wdb (raise_alert now sev msg k s) = wdb s" by (auto simp: raise_alert_def mark_db)
  with True show ?thesis by (simp add: insert_absorb)
next
  case False
  then have "open_alert (fst k) (snd k) (wdb s) = None" using open_pairs_iff [of "fst k" "snd k"] by simp
  then show ?thesis by (simp add: raise_alert_def mark_db open_pairs_append)
qed

lemma clear_open:
  assumes "alerts_inv s"
  shows "open_pairs (wdb (clear_alert now k s)) = open_pairs (wdb s) - {k}"
proof -
  from resolve_effect [OF assms rule_text_JStr, of "fst k" "snd k" "Some now"] obtain s' where
    "resolve (fst k) (JStr (snd k)) (Some now) s = (Inr (), s')" "open_pairs (wdb s') = open_pairs (wdb s) - {(fst k, snd k)}"
    by blast
  then show ?thesis by (simp add: clear_alert_def)
qed

interpretation engine_board: alert_board alerts_inv "\<lambda>s. open_pairs (wdb s)" "raise_alert now sev msg" "clear_alert now"
  for now sev msg
  by unfold_locales
    (simp_all only: raise_open clear_open, simp_all only: raise_alert_def clear_alert_def mark_keeps_ok resolve_keeps_ok)

section \<open>Resolution by time\<close>

definition act :: "'a engine_scheme \<Rightarrow> pystr \<Rightarrow> json \<Rightarrow> pyfloat option" where
  "act s dev rule = map_of (active (dev_state dev s)) rule"

text \<open>What the first loop of \<open>tick\<close> is about to resolve.\<close>

definition due :: "pyfloat \<Rightarrow> pyfloat \<Rightarrow> json \<times> pyfloat \<Rightarrow> bool" where
  "due now hold rl \<longleftrightarrow> fst rl \<noteq> JStr (lit ''offline'') \<and> stale now hold (snd rl)"

definition due_set :: "pyfloat \<Rightarrow> pyfloat \<Rightarrow> pystr \<Rightarrow> (json \<times> pyfloat) list \<Rightarrow> (pystr \<times> json) set" where
  "due_set now hold dev rls = {(dev, r) | r. \<exists>t. (r, t) \<in> set rls \<and> due now hold (r, t)}"

definition text_keys :: "(json \<times> pyfloat) list \<Rightarrow> bool" where
  "text_keys rls \<longleftrightarrow> (\<forall>(r, t)\<in>set rls. \<exists>x. r = JStr x)"

text \<open>The state after resolving a set of rules.\<close>

definition resolved :: "(pystr \<times> json) set \<Rightarrow> 'a engine_scheme \<Rightarrow> 'a engine_scheme \<Rightarrow> bool" where
  "resolved D s s' \<longleftrightarrow> alerts_inv s' \<and> open_pairs (wdb s') = open_pairs (wdb s) - {(d, x). (d, JStr x) \<in> D}
     \<and> (\<forall>d r. act s' d r = (if (d, r) \<in> D then None else act s d r)) \<and> rules s' = rules s"

lemma resolved_refl: "alerts_inv s \<Longrightarrow> resolved {} s s"
  by (simp add: resolved_def)

lemma resolved_trans: "resolved D s t \<Longrightarrow> resolved E t u \<Longrightarrow> resolved (D \<union> E) s u"
  unfolding resolved_def by auto

lemma resolve_resolved:
  assumes "alerts_inv s"
  shows "\<exists>s'. resolve dev (JStr x) now s = (Inr (), s') \<and> resolved {(dev, JStr x)} s s'"
proof -
  from resolve_effect [OF assms rule_text_JStr, of dev x now] obtain s' where s':
    "resolve dev (JStr x) now s = (Inr (), s')" "alerts_inv s'" "open_pairs (wdb s') = open_pairs (wdb s) - {(dev, x)}"
    "devs s' = AList.update dev (drop_active (JStr x) (dev_state dev s)) (devs s)" "rules s' = rules s" by blast
  have "dev_state d s' = (if d = dev then drop_active (JStr x) (dev_state dev s) else dev_state d s)" for d
    using s'(4) by (simp add: dev_state_def update_conv')
  then have "act s' d r = (if (d, r) = (dev, JStr x) then None else act s d r)" for d r
    by (simp add: act_def drop_active_def delete_conv')
  with s' show ?thesis by (auto simp: resolved_def)
qed

lemma tick_rule_resolved:
  assumes "alerts_inv s"
  shows "\<exists>s'. tick_rule now hold dev (JStr x, t) s = (Inr (), s') \<and> resolved (due_set now hold dev [(JStr x, t)]) s s'"
proof (cases "due now hold (JStr x, t)")
  case True
  then have "due_set now hold dev [(JStr x, t)] = {(dev, JStr x)}" by (auto simp: due_set_def)
  with True resolve_resolved [OF assms, of dev x "Some now"] show ?thesis
    by (simp add: tick_rule_def when_app due_def)
next
  case False
  then have "due_set now hold dev [(JStr x, t)] = {}" by (auto simp: due_set_def)
  with False assms show ?thesis by (auto simp: tick_rule_def when_app due_def resolved_refl)
qed

lemma tick_rules_resolved:
  assumes "text_keys rls" "alerts_inv s"
  shows "\<exists>s'. for_pym (tick_rule now hold dev) rls s = (Inr (), s') \<and> resolved (due_set now hold dev rls) s s'"
  using assms
proof (induction rls arbitrary: s)
  case Nil
  then show ?case by (simp add: ret_app resolved_refl due_set_def)
next
  case (Cons rl rls)
  obtain x t where rl: "rl = (JStr x, t)" using Cons.prems(1) by (cases rl) (auto simp: text_keys_def)
  obtain s1 where s1: "tick_rule now hold dev (JStr x, t) s = (Inr (), s1)" "resolved (due_set now hold dev [(JStr x, t)]) s s1"
    using tick_rule_resolved [OF Cons.prems(2)] by blast
  have "text_keys rls" "alerts_inv s1" using Cons.prems(1) s1(2) by (simp_all add: text_keys_def resolved_def)
  then obtain s2 where s2: "for_pym (tick_rule now hold dev) rls s1 = (Inr (), s2)" "resolved (due_set now hold dev rls) s1 s2"
    using Cons.IH by blast
  have "due_set now hold dev (rl # rls) = due_set now hold dev [(JStr x, t)] \<union> due_set now hold dev rls"
    by (auto simp: due_set_def rl)
  with resolved_trans [OF s1(2) s2(2)] s1(1) s2(1) show ?case by (simp add: rl seq_app)
qed

definition all_due :: "pyfloat \<Rightarrow> pyfloat \<Rightarrow> (pystr \<times> DeviceState) list \<Rightarrow> (pystr \<times> json) set" where
  "all_due now hold ds = (\<Union>(dev, st)\<in>set ds. due_set now hold dev (active st))"

lemma tick_devices_resolved:
  assumes "\<forall>(dev, st)\<in>set ds. text_keys (active st)" "alerts_inv s"
  shows "\<exists>s'. for_pym (\<lambda>(dev, st). for_pym (tick_rule now hold dev) (active st)) ds s = (Inr (), s')
    \<and> resolved (all_due now hold ds) s s'"
  using assms
proof (induction ds arbitrary: s)
  case Nil
  then show ?case by (simp add: ret_app resolved_refl all_due_def)
next
  case (Cons d ds)
  obtain dev st where d: "d = (dev, st)" by fastforce
  then obtain s1 where s1: "for_pym (tick_rule now hold dev) (active st) s = (Inr (), s1)"
    "resolved (due_set now hold dev (active st)) s s1"
    using tick_rules_resolved [of "active st" s now hold dev] Cons.prems by auto
  then obtain s2 where s2: "for_pym (\<lambda>(dev, st). for_pym (tick_rule now hold dev) (active st)) ds s1 = (Inr (), s2)"
    "resolved (all_due now hold ds) s1 s2"
    using Cons.IH [of s1] Cons.prems by (auto simp: resolved_def)
  from resolved_trans [OF s1(2) s2(2)] s1(1) s2(1) show ?case by (simp add: d seq_app all_due_def)
qed

text \<open>The second loop resolves nothing the engine is tracking, and never an offline alert.\<close>

definition swept :: "'a engine_scheme \<Rightarrow> 'a engine_scheme \<Rightarrow> bool" where
  "swept s s' \<longleftrightarrow> alerts_inv s' \<and> open_pairs (wdb s') \<subseteq> open_pairs (wdb s)
     \<and> (\<forall>d x. x = lit ''offline'' \<or> act s d (JStr x) \<noteq> None \<longrightarrow>
          act s' d (JStr x) = act s d (JStr x) \<and> ((d, x) \<in> open_pairs (wdb s) \<longrightarrow> (d, x) \<in> open_pairs (wdb s')))"

lemma tick_alert_swept:
  assumes "alerts_inv s"
  shows "\<exists>s'. tick_alert now hold a s = (Inr (), s') \<and> swept s s'"
proof (cases "a_rule a \<noteq> lit ''offline'' \<and> (case map_of (devs s) (a_dev a) of None \<Rightarrow> True
    | Some d \<Rightarrow> map_of (active d) (JStr (a_rule a)) = None) \<and> stale now hold (alert_time a)")
  case True
  obtain s' where s': "resolve (a_dev a) (JStr (a_rule a)) (Some now) s = (Inr (), s')"
    "resolved {(a_dev a, JStr (a_rule a))} s s'" using resolve_resolved [OF assms] by blast
  have "act s (a_dev a) (JStr (a_rule a)) = None"
    using True by (auto simp: act_def dev_state_def DeviceState_init_def split: option.splits)
  with True s' show ?thesis by (auto simp: tick_alert_def bind_app gets_app when_app resolved_def swept_def)
next
  case False
  then have "tick_alert now hold a s = (Inr (), s)" unfolding tick_alert_def bind_app gets_app when_app by auto
  with assms show ?thesis by (simp add: swept_def)
qed

lemma swept_trans:
  assumes "swept s t" "swept t u"
  shows "swept s u"
proof -
  have "act u d (JStr x) = act s d (JStr x) \<and> ((d, x) \<in> open_pairs (wdb s) \<longrightarrow> (d, x) \<in> open_pairs (wdb u))"
    if x: "x = lit ''offline'' \<or> act s d (JStr x) \<noteq> None" for d x
  proof -
    have 1: "act t d (JStr x) = act s d (JStr x)" "(d, x) \<in> open_pairs (wdb s) \<longrightarrow> (d, x) \<in> open_pairs (wdb t)"
      using assms(1) x unfolding swept_def by blast+
    have "x = lit ''offline'' \<or> act t d (JStr x) \<noteq> None" using x 1(1) by simp
    then have "act u d (JStr x) = act t d (JStr x)" "(d, x) \<in> open_pairs (wdb t) \<longrightarrow> (d, x) \<in> open_pairs (wdb u)"
      using assms(2) unfolding swept_def by blast+
    with 1 show ?thesis by simp
  qed
  moreover have "alerts_inv u" "open_pairs (wdb u) \<subseteq> open_pairs (wdb s)"
    using assms unfolding swept_def by blast+
  ultimately show ?thesis unfolding swept_def by blast
qed

lemma tick_alerts_swept:
  "alerts_inv s \<Longrightarrow> \<exists>s'. for_pym (tick_alert now hold) as s = (Inr (), s') \<and> swept s s'"
proof (induction as arbitrary: s)
  case Nil
  then show ?case by (simp add: ret_app swept_def)
next
  case (Cons a as)
  obtain s1 where s1: "tick_alert now hold a s = (Inr (), s1)" "swept s s1"
    using tick_alert_swept [OF Cons.prems] by blast
  then obtain s2 where "for_pym (tick_alert now hold) as s1 = (Inr (), s2)" "swept s1 s2"
    using Cons.IH [of s1] by (auto simp: swept_def)
  with s1 swept_trans show ?case by (auto simp: seq_app)
qed

text \<open>With distinct keys, what is due is what the engine's state says it is.\<close>

definition tracked_ok :: "'a engine_scheme \<Rightarrow> bool" where
  "tracked_ok s \<longleftrightarrow> distinct (map fst (devs s)) \<and>
     (\<forall>(dev, st)\<in>set (devs s). text_keys (active st) \<and> distinct (map fst (active st)))"

lemma all_due_iff:
  assumes "tracked_ok s"
  shows "(dev, r) \<in> all_due now hold (devs s) \<longleftrightarrow> (\<exists>t. act s dev r = Some t \<and> due now hold (r, t))"
proof
  assume "(dev, r) \<in> all_due now hold (devs s)"
  then obtain st t where st: "(dev, st) \<in> set (devs s)" "(r, t) \<in> set (active st)" "due now hold (r, t)"
    by (auto simp: all_due_def due_set_def)
  with assms have "map_of (devs s) dev = Some st" "map_of (active st) r = Some t"
    by (auto simp: tracked_ok_def intro!: map_of_is_SomeI)
  with st show "\<exists>t. act s dev r = Some t \<and> due now hold (r, t)" by (simp add: act_def dev_state_def)
next
  assume "\<exists>t. act s dev r = Some t \<and> due now hold (r, t)"
  then obtain st t where "map_of (devs s) dev = Some st" "map_of (active st) r = Some t" "due now hold (r, t)"
    by (auto simp: act_def dev_state_def DeviceState_init_def split: option.splits)
  then show "(dev, r) \<in> all_due now hold (devs s)"
    unfolding all_due_def due_set_def by (auto dest!: map_of_SomeD)
qed

lemma tick_runs:
  assumes "alerts_inv s" "tracked_ok s" "map_of (rules s) (lit ''resolve_after_s'') = Some h" "py_float h = Inr hold"
    "\<not> fzero now"
  shows "\<exists>s1 s2. tick (Some now) s = (Inr (), s2) \<and> resolved (all_due now hold (devs s)) s s1 \<and> swept s1 s2"
proof -
  have "\<forall>(dev, st)\<in>set (devs s). text_keys (active st)" using assms(2) by (auto simp: tracked_ok_def)
  from tick_devices_resolved [OF this assms(1)] obtain s1 where
    s1: "for_pym (\<lambda>(dev, st). for_pym (tick_rule now hold dev) (active st)) (devs s) s = (Inr (), s1)"
      "resolved (all_due now hold (devs s)) s s1" by blast
  then have "alerts_inv s1" by (simp add: resolved_def)
  from tick_alerts_swept [OF this] obtain s2 where
    "for_pym (tick_alert now hold) (alerts None (lit ''open'') 1000 (wdb s1)) s1 = (Inr (), s2)" "swept s1 s2" by blast
  with s1 assms(3-5) have "tick (Some now) s = (Inr (), s2)"
    unfolding tick_def or_time_def rule_get_def by (simp add: pym_simps db_get_def)
  with s1(2) \<open>swept s1 s2\<close> show ?thesis by blast
qed

section \<open>Anomaly scores\<close>

lemma fdiv_NaN: "fdiv NaN y = Inr z \<Longrightarrow> z = NaN"
  by (auto simp: fdiv_def split: if_splits)

lemma Ewma_step_NaN:
  assumes "Ewma_step x alpha lv e = Inr (z, e')" "mean e = NaN" "ewma_n e \<noteq> 0"
  shows "mean e' = NaN" "ewma_n e' = ewma_n e + 1"
  using assms by (auto simp: Ewma_step_def Let_def rbind_Inr_iff split: if_splits)

lemma fless_NaN2 [simp]: "\<not> fless x NaN"
  by (cases x) simp_all

lemma judge_NaN:
  assumes "judge p ex now x e = Inr (z, hot, e')" "mean e = NaN" "ewma_n e \<noteq> 0" "\<not> fless (p_z p) (Fin 0)"
  shows "\<not> hot \<and> streak e' = 0 \<and> mean e' = NaN \<and> ewma_n e' = ewma_n e + 1"
proof -
  have "\<not> (p_warmup p \<le> ewma_n e \<and> fless (p_z p) z \<and> \<not> ex)"
    and h: "hot = (p_warmup p \<le> ewma_n e \<and> fless (p_z p) z \<and> \<not> ex)"
    using assms(1,2,4) by (auto simp: judge_def Let_def rbind_Inr_iff dest: fdiv_NaN split: if_splits)
  then have "\<not> hot" by simp
  with assms(1) obtain y e1 where "Ewma_step x (p_alpha p) True e = Inr (y, e1)" "e' = e1\<lparr>streak := 0, since := None\<rparr>"
    by (auto simp: judge_def Let_def rbind_Inr_iff split: if_splits)
  with Ewma_step_NaN [of x "p_alpha p" True e y e1] assms(2,3) \<open>\<not> hot\<close> show ?thesis by simp
qed

lemma judge_NaN_sample:
  assumes "judge p ex now NaN e = Inr (z, hot, e')" "0 \<le> ewma_n e" "\<not> fless (p_z p) (Fin 0)"
  shows "\<not> hot \<and> mean e' = NaN \<and> 0 < ewma_n e'"
proof -
  have h: "\<not> hot" using assms(1,3) by (auto simp: judge_def Let_def rbind_Inr_iff dest: fdiv_NaN split: if_splits)
  with assms(1) obtain y e1 where "Ewma_step NaN (p_alpha p) True e = Inr (y, e1)" "e' = e1\<lparr>streak := 0, since := None\<rparr>"
    by (auto simp: judge_def Let_def rbind_Inr_iff split: if_splits)
  with h assms(2) show ?thesis by (auto simp: Ewma_step_def Let_def rbind_Inr_iff split: if_splits)
qed

text \<open>Successive samples of one metric.\<close>

fun judge_run :: "anomaly_params \<Rightarrow> (bool \<times> pyfloat \<times> pyfloat) list \<Rightarrow> Ewma \<Rightarrow> (bool list \<times> Ewma) res" where
  "judge_run p [] e = Inr ([], e)"
| "judge_run p ((excused, now, x) # samples) e =
     rbind (judge p excused now x e) (\<lambda>(z, hot, e1).
     rbind (judge_run p samples e1) (\<lambda>(hots, e2). Inr (hot # hots, e2)))"

lemma judge_run_NaN:
  assumes "judge_run p samples e = Inr (hots, e')" "mean e = NaN" "ewma_n e \<noteq> 0" "\<not> fless (p_z p) (Fin 0)"
    "0 \<le> ewma_n e"
  shows "True \<notin> set hots \<and> mean e' = NaN"
  using assms
proof (induction samples arbitrary: e hots)
  case (Cons s samples)
  obtain ex now x where s: "s = (ex, now, x)" by (cases s)
  obtain z hot e1 hots1 where j: "judge p ex now x e = Inr (z, hot, e1)"
    "judge_run p samples e1 = Inr (hots1, e')" "hots = hot # hots1"
    using Cons.prems(1) by (auto simp: s rbind_Inr_iff)
  with judge_NaN [OF j(1) Cons.prems(2-4)] Cons.IH [OF j(2)] Cons.prems show ?case by auto
qed simp

section \<open>Runs of the engine\<close>

text \<open>Any operation of the engine, whether it returns or raises.\<close>

inductive engine_step :: "'a engine_scheme \<Rightarrow> 'a engine_scheme \<Rightarrow> bool" where
  st_telemetry: "engine_step s (snd (on_telemetry dev t ts loss s))"
| st_tick: "engine_step s (snd (tick now s))"
| st_offline: "engine_step s (snd (on_offline dev now s))"
| st_online: "engine_step s (snd (on_online dev now s))"
| st_comm: "engine_step s (snd (on_comm dev loss now s))"
| st_rules: "engine_step s (snd (set_rules r s))"
| st_invalidate: "engine_step s (snd (invalidate_config dev s))"

context engine_order
begin

lemma en_step: "engine_step s s' \<Longrightarrow> R s s'"
  by (induction rule: engine_step.induct)
    (rule steps_byD, rule ev_on_telemetry en_tick ev_on_offline en_on_online ev_on_comm ev_invalidate R_rules)+

lemma en_steps: "engine_step\<^sup>*\<^sup>* s s' \<Longrightarrow> R s s'"
  by (induction rule: rtranclp_induct) (auto intro: refl_R trans_R en_step)

end

section \<open>Properties\<close>

text \<open>
  C15. At most one alert per device and rule is open at any time: starting from an empty alert table, no
  sequence of operations of the engine, whatever samples and rules it is given and whether or not
  operations raise, leads to two open alerts of the same device and rule.
\<close>

theorem one_open_alert:
  assumes "engine_step\<^sup>*\<^sup>* s s'" "alerts_t (wdb s) = []"
  shows "distinct (map (\<lambda>a. (a_dev a, a_rule a)) (filter is_open (alerts_t (wdb s'))))"
proof -
  have "alerts_inv s" using assms(2) by (simp add: alerts_ok_def ids_ok_def)
  with dedupe.en_steps [OF assms(1)] show ?thesis by (simp add: alerts_ok_def)
qed

definition sample_engine :: engine where
  "sample_engine = \<lparr>wclock = (\<lambda>n. Fin (1000 + of_nat n)), wreads = 0, wdb = DB_init (Fin 24),
     wbus = EventBus_init 1000, rules = DEFAULT_RULES, devs = [], config_cache = [], hw_cache = []\<rparr>"

text \<open>C15 at a device reported offline twice.\<close>

theorem one_open_alert_witness:
  "alerts_t (wdb sample_engine) = [] \<and>
   distinct (map (\<lambda>a. (a_dev a, a_rule a)) (filter is_open (alerts_t (wdb
     (snd (on_offline (lit ''ECU-1'') None (snd (on_offline (lit ''ECU-1'') None sample_engine))))))))"
proof -
  have "engine_step\<^sup>*\<^sup>* sample_engine (snd (on_offline (lit ''ECU-1'') None (snd (on_offline (lit ''ECU-1'') None sample_engine))))"
    by (rule rtranclp.rtrancl_into_rtrancl [OF r_into_rtranclp]) (rule st_offline)+
  moreover have e: "alerts_t (wdb sample_engine) = []" by (simp add: sample_engine_def DB_init_def)
  ultimately show ?thesis using one_open_alert by blast
qed

text \<open>
  The alert table is a history: no operation of the engine deletes an alert or changes what it is
  about (its id, device, rule, metric, value and the time it was opened).
\<close>

theorem alerts_never_deleted:
  assumes "engine_step\<^sup>*\<^sup>* s s'"
  shows "prefix (map alert_ident (alerts_t (wdb s))) (map alert_ident (alerts_t (wdb s')))"
  using history.en_steps [OF assms] by (simp add: alert_history_def)

text \<open>The law at the same run.\<close>

theorem alerts_never_deleted_witness:
  "prefix (map alert_ident (alerts_t (wdb (snd (on_offline (lit ''ECU-1'') None sample_engine)))))
     (map alert_ident (alerts_t (wdb (snd (on_online (lit ''ECU-1'') None (snd (on_offline (lit ''ECU-1'') None sample_engine)))))))"
  by (rule alerts_never_deleted) (intro r_into_rtranclp st_online)

text \<open>
  C17. Every rule that \<open>on_telemetry\<close> reports as fired has an open alert of the device when it returns,
  whatever the rules and the sample.
\<close>

theorem fired_rules_have_alerts:
  assumes "on_telemetry dev t ts loss s = (Inr fired, s')" "r \<in> set fired"
  shows "\<exists>rt a. rule_text r = Inr rt \<and> open_alert dev rt (wdb s') = Some a \<and> is_open a \<and> a_dev a = dev \<and> a_rule a = rt"
proof -
  have "all_alerts dev fired s'" using posts_on_telemetry assms(1) unfolding posts_def by blast
  with assms(2) have "has_alert dev r (wdb s')" by blast
  then obtain rt where rt: "rule_text r = Inr rt" "open_alert dev rt (wdb s') \<noteq> None"
    unfolding has_alert_def by (cases "rule_text r") simp_all
  then obtain a where a: "open_alert dev rt (wdb s') = Some a" by blast
  from rt(1) a open_alert_Some [OF a] show ?thesis by simp
qed

text \<open>C17 at a sample that reports a fault flag.\<close>

theorem fired_rules_have_alerts_witness:
  "let s' = snd (on_telemetry (lit ''ECU-1'') [(lit ''fault_flags'', JInt 1)] (Some (Fin 5)) None sample_engine)
   in \<exists>rt a. rule_text (JStr (lit ''flag:OVERTEMP'')) = Inr rt \<and> open_alert (lit ''ECU-1'') rt (wdb s') = Some a
     \<and> is_open a \<and> a_dev a = lit ''ECU-1'' \<and> a_rule a = rt"
proof -
  have "fst (on_telemetry (lit ''ECU-1'') [(lit ''fault_flags'', JInt 1)] (Some (Fin 5)) None sample_engine)
      = Inr [JStr (lit ''flag:OVERTEMP'')]" by code_simp
  then have "on_telemetry (lit ''ECU-1'') [(lit ''fault_flags'', JInt 1)] (Some (Fin 5)) None sample_engine
      = (Inr [JStr (lit ''flag:OVERTEMP'')], snd (on_telemetry (lit ''ECU-1'') [(lit ''fault_flags'', JInt 1)] (Some (Fin 5)) None sample_engine))"
    by (metis prod.collapse)
  from fired_rules_have_alerts [OF this, of "JStr (lit ''flag:OVERTEMP'')"] show ?thesis by (simp add: Let_def)
qed

text \<open>
  C16. The engine refines a set of open alerts: marking conditions true and resolving them, in any
  order, leaves exactly those alerts open that inserting into and removing from a set leaves in it.
\<close>

theorem engine_refines_alert_set:
  assumes "alerts_ok (wdb s)"
  shows "open_pairs (wdb (board_run (raise_alert now sev msg) (clear_alert now) ops s)) = board ops (open_pairs (wdb s))"
  using engine_board.run_refines [OF assms] by blast

text \<open>C16 at an alert that is raised, cleared and raised again, and another that is cleared.\<close>

theorem engine_refines_alert_set_witness:
  "open_pairs (wdb (board_run (raise_alert (Fin 5) (lit ''warn'') []) (clear_alert (Fin 5))
      [Raise ([65], [66]), Raise ([65], [67]), Clear ([65], [66]), Clear ([65], [67]), Raise ([65], [66])] sample_engine))
   = {([65], [66])}"
proof -
  have "alerts_ok (wdb sample_engine)" by (simp add: sample_engine_def DB_init_def alerts_ok_def ids_ok_def)
  from engine_refines_alert_set [OF this, of "Fin 5" "lit ''warn''" "[]"
      "[Raise ([65], [66]), Raise ([65], [67]), Clear ([65], [66]), Clear ([65], [67]), Raise ([65], [66])]"]
  have "open_pairs (wdb (board_run (raise_alert (Fin 5) (lit ''warn'') []) (clear_alert (Fin 5))
      [Raise ([65], [66]), Raise ([65], [67]), Clear ([65], [66]), Clear ([65], [67]), Raise ([65], [66])] sample_engine))
    = board [Raise ([65], [66]), Raise ([65], [67]), Clear ([65], [66]), Clear ([65], [67]), Raise ([65], [66])]
        (open_pairs (wdb sample_engine))" .
  also have "open_pairs (wdb sample_engine) = {}" by (simp add: sample_engine_def DB_init_def open_pairs_def)
  also have "board [Raise ([65], [66]), Raise ([65], [67]), Clear ([65], [66]), Clear ([65], [67]), Raise ([65], [66])] {}
      = {([65::int], [66::int])}" unfolding board.simps by auto
  finally show ?thesis .
qed

text \<open>
  C19. The periodic tick returns, opens nothing, and closes an open alert whose condition the engine is
  tracking exactly when the condition was last true at least \<open>resolve_after_s\<close> seconds ago; an offline
  alert it never closes.
\<close>

theorem tick_closes_stale_alerts:
  assumes "alerts_ok (wdb s)" "tracked_ok s" "map_of (rules s) (lit ''resolve_after_s'') = Some h"
    "py_float h = Inr hold" "\<not> fzero now"
  shows "\<exists>s'. tick (Some now) s = (Inr (), s') \<and> open_pairs (wdb s') \<subseteq> open_pairs (wdb s)
    \<and> (\<forall>dev x t. (dev, x) \<in> open_pairs (wdb s) \<and> act s dev (JStr x) = Some t \<longrightarrow>
         ((dev, x) \<in> open_pairs (wdb s') \<longleftrightarrow> x = lit ''offline'' \<or> \<not> stale now hold t))"
proof -
  obtain s1 s2 where s: "tick (Some now) s = (Inr (), s2)" "resolved (all_due now hold (devs s)) s s1" "swept s1 s2"
    using tick_runs [OF assms] by blast
  have sub: "open_pairs (wdb s2) \<subseteq> open_pairs (wdb s1)" "open_pairs (wdb s1) \<subseteq> open_pairs (wdb s)"
    using s(2,3) unfolding resolved_def swept_def by blast+
  have "(dev, x) \<in> open_pairs (wdb s2) \<longleftrightarrow> x = lit ''offline'' \<or> \<not> stale now hold t"
    if p: "(dev, x) \<in> open_pairs (wdb s)" "act s dev (JStr x) = Some t" for dev x t
  proof (cases "due now hold (JStr x, t)")
    case True
    with p(2) have "(dev, JStr x) \<in> all_due now hold (devs s)" by (simp add: all_due_iff [OF assms(2)])
    then have "(dev, x) \<notin> open_pairs (wdb s1)" using s(2) unfolding resolved_def by blast
    with sub(1) True show ?thesis by (auto simp: due_def)
  next
    case False
    with p(2) have n: "(dev, JStr x) \<notin> all_due now hold (devs s)" by (simp add: all_due_iff [OF assms(2)])
    with p have "(dev, x) \<in> open_pairs (wdb s1)" "act s1 dev (JStr x) = Some t"
      using s(2) unfolding resolved_def by simp_all
    then have "(dev, x) \<in> open_pairs (wdb s2)" using s(3) unfolding swept_def by simp
    with False show ?thesis by (auto simp: due_def)
  qed
  with s(1) sub show ?thesis by blast
qed

definition ticked_engine :: engine where
  "ticked_engine = snd (mark (lit ''ECU-1'') (JStr (lit ''temp_high'')) True (Fin 5) None None (JStr (lit ''warn'')) [] sample_engine)"

lemma ticked_engine_facts:
  "alerts_ok (wdb ticked_engine)" "tracked_ok ticked_engine"
  "map_of (rules ticked_engine) (lit ''resolve_after_s'') = Some (JInt 10)" "py_float (JInt 10) = Inr (Fin 10)"
  "(lit ''ECU-1'', lit ''temp_high'') \<in> open_pairs (wdb ticked_engine)"
  "act ticked_engine (lit ''ECU-1'') (JStr (lit ''temp_high'')) = Some (Fin 5)"
proof -
  show "alerts_ok (wdb ticked_engine)" unfolding ticked_engine_def
    by (rule mark_keeps_ok) (simp add: sample_engine_def DB_init_def alerts_ok_def ids_ok_def)
  have d: "devs ticked_engine = [(lit ''ECU-1'', DeviceState_init\<lparr>active := [(JStr (lit ''temp_high''), Fin 5)]\<rparr>)]"
    by code_simp
  then show "tracked_ok ticked_engine" by (simp add: tracked_ok_def text_keys_def)
  show "act ticked_engine (lit ''ECU-1'') (JStr (lit ''temp_high'')) = Some (Fin 5)"
    by (simp add: act_def dev_state_def d)
  show "map_of (rules ticked_engine) (lit ''resolve_after_s'') = Some (JInt 10)" by code_simp
  show "py_float (JInt 10) = Inr (Fin 10)" by code_simp
  have "open_alert (lit ''ECU-1'') (lit ''temp_high'') (wdb ticked_engine) \<noteq> None" by code_simp
  then show "(lit ''ECU-1'', lit ''temp_high'') \<in> open_pairs (wdb ticked_engine)" by (simp add: open_pairs_iff)
qed

text \<open>C19 at an alert whose condition was true at 5 s: it is open at 14 s and closed at 15 s.\<close>

theorem tick_closes_stale_alerts_witness:
  "(\<exists>s'. tick (Some (Fin 14)) ticked_engine = (Inr (), s') \<and> (lit ''ECU-1'', lit ''temp_high'') \<in> open_pairs (wdb s')) \<and>
   (\<exists>s'. tick (Some (Fin 15)) ticked_engine = (Inr (), s') \<and> (lit ''ECU-1'', lit ''temp_high'') \<notin> open_pairs (wdb s'))"
proof -
  note f = ticked_engine_facts
  have "\<not> stale (Fin 14) (Fin 10) (Fin 5)" "stale (Fin 15) (Fin 10) (Fin 5)" by code_simp+
  moreover have "lit ''temp_high'' \<noteq> lit ''offline''" by simp
  moreover note tick_closes_stale_alerts [OF f(1-4), of "Fin 14"] tick_closes_stale_alerts [OF f(1-4), of "Fin 15"] f(5,6)
  moreover have "\<not> fzero (Fin 14)" "\<not> fzero (Fin 15)" by (simp_all add: fzero_def)
  ultimately show ?thesis by meson
qed

text \<open>
  One NaN sample disables the anomaly rule of its metric for good: neither it nor any later sample,
  whatever their values, is judged hot, and the mean stays NaN.
\<close>

theorem NaN_disables_anomaly:
  assumes "judge_run p ((excused, now, NaN) # samples) e = Inr (hots, e')" "0 \<le> ewma_n e" "\<not> fless (p_z p) (Fin 0)"
  shows "True \<notin> set hots \<and> mean e' = NaN"
proof -
  obtain z hot e1 hots1 where j: "judge p excused now NaN e = Inr (z, hot, e1)"
    "judge_run p samples e1 = Inr (hots1, e')" "hots = hot # hots1"
    using assms(1) by (auto simp: rbind_Inr_iff)
  note n = judge_NaN_sample [OF j(1) assms(2,3)]
  with judge_run_NaN [OF j(2) _ _ assms(3)] j(3) show ?thesis by auto
qed

text \<open>An example: the default parameters, a NaN and then readings far off the mean.\<close>

theorem NaN_disables_anomaly_witness:
  "let p = \<lparr>p_alpha = rnd64 (5/100), p_z = Fin 4, p_sustain = 3, p_sustain_s = Fin 3, p_warmup = 1, p_min_std = rnd64 (5/100)\<rparr>;
       e = \<lparr>mean = Fin 20, var = Fin 1, ewma_n = 50, streak = 0, since = None\<rparr>
   in \<exists>hots e'. judge_run p [(False, Fin 1, NaN), (False, Fin 2, Fin 500), (False, Fin 3, Fin 500)] e = Inr (hots, e')
        \<and> True \<notin> set hots \<and> mean e' = NaN"
proof -
  let ?p = "\<lparr>p_alpha = rnd64 (5/100), p_z = Fin 4, p_sustain = 3, p_sustain_s = Fin 3, p_warmup = 1, p_min_std = rnd64 (5/100)\<rparr>"
  let ?e = "\<lparr>mean = Fin 20, var = Fin 1, ewma_n = 50, streak = 0, since = None\<rparr>"
  have "\<not> isl (judge_run ?p [(False, Fin 1, NaN), (False, Fin 2, Fin 500), (False, Fin 3, Fin 500)] ?e)" by code_simp
  then obtain hots e' where "judge_run ?p [(False, Fin 1, NaN), (False, Fin 2, Fin 500), (False, Fin 3, Fin 500)] ?e = Inr (hots, e')"
    by (cases "judge_run ?p [(False, Fin 1, NaN), (False, Fin 2, Fin 500), (False, Fin 3, Fin 500)] ?e") auto
  with NaN_disables_anomaly [OF this] show ?thesis by (simp add: Let_def)
qed

end
