(* ===== verification/Device_Stats.thy ===== *)
theory Device_Stats
  imports Protocol
begin

text \<open>
  \<open>DeviceStats\<close> of \<open>backend/app/ingest.py\<close>: the counters of one device and the packet loss over the
  last telemetry frames.

  The lemmas show that the loss is a percentage, that the gaps counted on an in-order stream are
  exactly the frames missing in gaps of at most 10 000, across the wrap-around of the 32-bit sequence number, that
  duplicates and late frames change nothing, and what happens when a device restarts its sequence.
\<close>

definition LOSS_WINDOW :: nat where "LOSS_WINDOW = 200"

record DeviceStats =
  frames_rx :: int
  bad_crc :: int
  seq_gaps :: int
  reconnects :: int
  last_seen :: "pyfloat option"
  last_seq :: "int option"
  tcp_connected :: bool
  online :: bool
  window :: "(int \<times> int) list"
  tx_seq :: int
  transit_ms :: "pyfloat option"

definition DeviceStats_init :: DeviceStats where
  "DeviceStats_init =
     \<lparr>frames_rx = 0, bad_crc = 0, seq_gaps = 0, reconnects = 0, last_seen = None, last_seq = None,
      tcp_connected = False, online = False, window = [], tx_seq = 0, transit_ms = None\<rparr>"

text \<open>\<open>deque(maxlen=n).append\<close>.\<close>

definition deque_append :: "nat \<Rightarrow> 'a list \<Rightarrow> 'a \<Rightarrow> 'a list" where
  "deque_append n w x = drop (length (w @ [x]) - n) (w @ [x])"

text \<open>The quotient of two Python integers is the correctly rounded float.\<close>

definition int_truediv :: "int \<Rightarrow> int \<Rightarrow> pyfloat res" where
  "int_truediv a b =
     (if b = 0 then Inl ZeroDivisionError
      else case rnd64 (of_int a / of_int b) of
        Infty _ \<Rightarrow> Inl OverflowError
      | x \<Rightarrow> Inr (if a = 0 then Fin 0 else x))"

definition loss_pct :: "DeviceStats \<Rightarrow> pyfloat res" where
  "loss_pct s =
     (if window s = [] then Inr (Fin 0)
      else
        let ex = sum_list (map snd (window s)); rx = sum_list (map fst (window s)) in
        if ex \<noteq> 0 then
          rbind (int_truediv rx ex) (\<lambda>q.
          Inr (round_nd 2 (fmax (Fin 0) (fmul (Fin 100) (fsub (Fin 1) q)))))
        else Inr (Fin 0))"

definition note_seq :: "DeviceStats \<Rightarrow> int \<Rightarrow> DeviceStats" where
  "note_seq s sq =
     (case last_seq s of
        Some l \<Rightarrow>
          let delta = (sq - l) AND 0xFFFFFFFF in
          if delta = 0 \<or> delta > 0x7FFFFFFF then s
          else
            let gap = (if delta - 1 > 10000 then 0 else delta - 1)
            in s\<lparr>seq_gaps := seq_gaps s + gap, window := deque_append LOSS_WINDOW (window s) (1, 1 + gap),
                 last_seq := Some sq\<rparr>
      | None \<Rightarrow> s\<lparr>window := deque_append LOSS_WINDOW (window s) (1, 1), last_seq := Some sq\<rparr>)"

section \<open>Invariant\<close>

definition window_ok :: "(int \<times> int) list \<Rightarrow> bool" where
  "window_ok w \<longleftrightarrow> length w \<le> LOSS_WINDOW \<and> (\<forall>(r, e)\<in>set w. r = 1 \<and> 1 \<le> e \<and> e \<le> 10001)"

definition stats_ok :: "DeviceStats \<Rightarrow> bool" where
  "stats_ok s \<longleftrightarrow> window_ok (window s) \<and> 0 \<le> seq_gaps s \<and> 0 \<le> frames_rx s \<and> 0 \<le> bad_crc s \<and> 0 \<le> reconnects s
     \<and> 0 \<le> tx_seq s"

lemma length_deque_append: "length (deque_append n w x) \<le> n"
  by (simp add: deque_append_def)

lemma set_deque_append: "set (deque_append n w x) \<subseteq> insert x (set w)"
  unfolding deque_append_def using set_drop_subset [of "length (w @ [x]) - n" "w @ [x]"] by auto

lemma window_ok_append:
  assumes "window_ok w" "1 \<le> e" "e \<le> 10001"
  shows "window_ok (deque_append LOSS_WINDOW w (1, e))"
  using assms set_deque_append [of LOSS_WINDOW w "(1, e)"] length_deque_append
  unfolding window_ok_def by fastforce

lemma stats_ok_init: "stats_ok DeviceStats_init"
  by (simp add: stats_ok_def DeviceStats_init_def window_ok_def)

lemma note_seq_Some:
  assumes "last_seq s = Some l" "d = (q - l) mod 2 ^ 32"
  shows "note_seq s q =
     (if d = 0 \<or> d > 0x7FFFFFFF then s
      else s\<lparr>seq_gaps := seq_gaps s + (if d > 10001 then 0 else d - 1),
             window := deque_append LOSS_WINDOW (window s) (1, if d > 10001 then 1 else d), last_seq := Some q\<rparr>)"
proof -
  have "(q - l) AND 0xFFFFFFFF = d" using assms(2) by (simp only: and_mask32)
  with assms(1) show ?thesis by (auto simp: note_seq_def Let_def)
qed

lemma note_seq_None:
  "last_seq s = None \<Longrightarrow>
   note_seq s q = s\<lparr>window := deque_append LOSS_WINDOW (window s) (1, 1), last_seq := Some q\<rparr>"
  by (simp add: note_seq_def)

lemma note_seq_ok:
  assumes "stats_ok s"
  shows "stats_ok (note_seq s q)"
proof (cases "last_seq s")
  case None
  with assms show ?thesis by (simp add: note_seq_None stats_ok_def window_ok_append)
next
  case (Some l)
  define d where "d = (q - l) mod 2 ^ 32"
  have "0 \<le> d" by (simp add: d_def)
  with assms note_seq_Some [OF Some d_def] show ?thesis
    by (auto simp: stats_ok_def intro!: window_ok_append)
qed

section \<open>The loss is a percentage\<close>

lemma window_sums:
  assumes "window_ok w"
  shows "sum_list (map fst w) = int (length w)" "int (length w) \<le> sum_list (map snd w)"
proof -
  have "map fst w = map (\<lambda>_. 1) w" using assms by (auto simp: window_ok_def)
  then have "sum_list (map fst w) = sum_list (map (\<lambda>_. 1) w)" by (rule arg_cong)
  then show "sum_list (map fst w) = int (length w)" by (simp only: sum_list_triv)
  show "int (length w) \<le> sum_list (map snd w)"
    by (rule length_le_sum_list) (use assms in \<open>auto simp: window_ok_def\<close>)
qed

lemma f64_0_1_100: "is_f64 (Fin 0)" "is_f64 (Fin 1)" "is_f64 (Fin 100)"
  using f64_int [of 0] f64_int [of 1] f64_int [of 100] by simp_all

lemma round_nd_between:
  assumes "0 \<le> r" "r \<le> 100"
  shows "\<exists>x. round_nd 2 (Fin r) = Fin x \<and> 0 \<le> x \<and> x \<le> 100"
proof -
  let ?k = "rhe (r * 10 ^ 2)"
  have "0 \<le> ?k" using assms by (intro rhe_ge_int) simp
  moreover have "?k \<le> 10000" using assms by (intro rhe_le_int) simp
  ultimately have "0 \<le> of_int ?k / (10 :: rat) ^ 2" "of_int ?k / (10 :: rat) ^ 2 \<le> 100" by simp_all
  from rnd64_between [OF f64_0_1_100(1) _ f64_0_1_100(3) this] obtain x where
    "rnd64 (of_int ?k / 10 ^ 2) = Fin x" "0 \<le> x" "x \<le> 100" by auto
  with assms(1) show ?thesis by (auto simp: Let_def fzero_def zero_of_def)
qed

lemma fsub_Fin: "fsub (Fin a) (Fin b) = rnd64 (a - b)"
  by (simp add: fsub_def)

lemma fmul_Fin: "0 \<le> a \<Longrightarrow> 0 \<le> b \<Longrightarrow> fmul (Fin a) (Fin b) = rnd64 (a * b)"
  by (auto simp: fmul_def Let_def zero_of_def not_less)

lemma loss_pct_range_aux:
  assumes "window_ok (window s)"
  shows "\<exists>x. loss_pct s = Inr (Fin x) \<and> 0 \<le> x \<and> x \<le> 100"
proof (cases "window s = []")
  case False
  let ?ex = "sum_list (map snd (window s))" and ?rx = "sum_list (map fst (window s))"
  have rx: "0 < ?rx" "?rx \<le> ?ex" using window_sums [OF assms] False by auto
  have "0 \<le> of_int ?rx / (of_int ?ex :: rat)" "of_int ?rx / (of_int ?ex :: rat) \<le> 1" using rx by simp_all
  from rnd64_between [OF f64_0_1_100(1) _ f64_0_1_100(2) this] obtain q where
    q: "rnd64 (of_int ?rx / of_int ?ex) = Fin q" "0 \<le> q" "q \<le> 1" by auto
  then have d: "int_truediv ?rx ?ex = Inr (Fin q)" using rx by (simp add: int_truediv_def)
  have "0 \<le> 1 - q" "1 - q \<le> 1" using q by simp_all
  from rnd64_between [OF f64_0_1_100(1) _ f64_0_1_100(2) this] obtain y where
    y: "rnd64 (1 - q) = Fin y" "0 \<le> y" "y \<le> 1" by auto
  have "0 \<le> 100 * y" "100 * y \<le> 100" using y by simp_all
  from rnd64_between [OF f64_0_1_100(1) _ f64_0_1_100(3) this] obtain z where
    z: "rnd64 (100 * y) = Fin z" "0 \<le> z" "z \<le> 100" by auto
  have m: "fmax (Fin 0) (fmul (Fin 100) (fsub (Fin 1) (Fin q))) = Fin z"
    using y z by (auto simp: fsub_Fin fmul_Fin fmax_def)
  have "loss_pct s = Inr (round_nd 2 (Fin z))" using False rx d m by (simp add: loss_pct_def Let_def)
  with round_nd_between [OF z(2,3)] show ?thesis by auto
qed (simp add: loss_pct_def)

section \<open>Counting gaps\<close>

lemma seq_delta:
  assumes "a < b" "b < a + 2 ^ 31"
  shows "(b mod 2 ^ 32 - a mod 2 ^ 32) mod 2 ^ 32 = b - (a :: int)"
proof -
  have "(b mod 2 ^ 32 - a mod 2 ^ 32) mod 2 ^ 32 = (b - a) mod (2 ^ 32 :: int)" by (simp only: mod_diff_eq)
  also have "\<dots> = b - a" using assms by (intro mod_pos_pos_trivial) auto
  finally show ?thesis .
qed

text \<open>What a frame adds that comes after another: the frames missing between them, or nothing when they are more than 10000.\<close>

definition counted :: "int \<Rightarrow> int \<Rightarrow> int" where
  "counted a b = (if b - a - 1 > 10000 then 0 else b - a - 1)"

fun gaps_of :: "int list \<Rightarrow> int" where
  "gaps_of (a # b # cs) = counted a b + gaps_of (b # cs)"
| "gaps_of _ = 0"

lemma note_seq_step:
  assumes "last_seq s = Some (a mod 2 ^ 32)" "a < b" "b < a + 2 ^ 31"
  shows "seq_gaps (note_seq s (b mod 2 ^ 32)) = seq_gaps s + counted a b" "last_seq (note_seq s (b mod 2 ^ 32)) = Some (b mod 2 ^ 32)"
  using note_seq_Some [OF assms(1) seq_delta [OF assms(2,3), symmetric]] assms(2,3) by (auto simp: counted_def)

lemma note_seqs:
  assumes "last_seq s = Some (a mod 2 ^ 32)" "successively (\<lambda>x y. x < y \<and> y < x + 2 ^ 31) (a # bs)"
  shows "seq_gaps (fold (\<lambda>b s. note_seq s (b mod 2 ^ 32)) bs s) = seq_gaps s + gaps_of (a # bs)"
  using assms
proof (induction bs arbitrary: a s)
  case (Cons b bs)
  from Cons.prems have b: "a < b" "b < a + 2 ^ 31" "successively (\<lambda>x y. x < y \<and> y < x + 2 ^ 31) (b # bs)" by auto
  from note_seq_step [OF Cons.prems(1) b(1,2)] Cons.IH [OF _ b(3)] show ?case by simp
qed simp

lemma gaps_of_small:
  "successively (\<lambda>x y. x < y \<and> y \<le> x + 10001) (a # bs) \<Longrightarrow> gaps_of (a # bs) = last (a # bs) - a + 1 - int (length (a # bs))"
  by (induction bs arbitrary: a) (auto simp: counted_def)

section \<open>Properties\<close>

text \<open>
  C8. The loss is a percentage and computing it never raises: whatever frames a device's statistics
  have noted, \<open>loss_pct\<close> returns a number between 0 and 100.
\<close>

theorem loss_pct_range:
  assumes "stats_ok s"
  shows "\<exists>x. loss_pct (fold (\<lambda>q s. note_seq s q) qs s) = Inr (Fin x) \<and> 0 \<le> x \<and> x \<le> 100"
proof -
  have "stats_ok (fold (\<lambda>q s. note_seq s q) qs s)" using assms by (induction qs arbitrary: s) (auto intro: note_seq_ok)
  then show ?thesis by (intro loss_pct_range_aux) (simp add: stats_ok_def)
qed

text \<open>C8 at a fresh device that received the frames 5, 6 and 9.\<close>

theorem loss_pct_range_witness:
  "stats_ok DeviceStats_init \<and>
   (\<exists>x. loss_pct (fold (\<lambda>q s. note_seq s q) [5, 6, 9] DeviceStats_init) = Inr (Fin x) \<and> 0 \<le> x \<and> x \<le> 100)
   \<and> rbind (loss_pct (fold (\<lambda>q s. note_seq s q) [5, 6, 9] DeviceStats_init)) (\<lambda>x. Inr (fless (Fin 39) x \<and> fless x (Fin 41))) = Inr True"
proof (intro conjI)
  show "rbind (loss_pct (fold (\<lambda>q s. note_seq s q) [5, 6, 9] DeviceStats_init)) (\<lambda>x. Inr (fless (Fin 39) x \<and> fless x (Fin 41))) = Inr True"
    by code_simp
qed (rule stats_ok_init, rule loss_pct_range [OF stats_ok_init])

text \<open>
  C9. Gaps are counted exactly: when the frames of a device arrive in order, each less than half the number space after the one before,
  \<open>seq_gaps\<close> grows by the number of frames missing between two that follow each other, summed over those gaps that have at most 10 000; a larger
  jump is a restart and adds nothing. So without such jumps it grows by the number of all missing frames. Both hold across the wrap-around
  of the 32-bit sequence number.
\<close>

theorem gaps_counted_exactly:
  assumes "last_seq s = None" "successively (\<lambda>x y. x < y \<and> y < x + 2 ^ 31) (a # bs)"
  shows "seq_gaps (fold (\<lambda>b s. note_seq s (b mod 2 ^ 32)) (a # bs) s) = seq_gaps s + gaps_of (a # bs)
    \<and> (successively (\<lambda>x y. x < y \<and> y \<le> x + 10001) (a # bs) \<longrightarrow>
        seq_gaps (fold (\<lambda>b s. note_seq s (b mod 2 ^ 32)) (a # bs) s) = seq_gaps s + (last (a # bs) - a + 1 - int (length (a # bs))))"
proof -
  have "last_seq (note_seq s (a mod 2 ^ 32)) = Some (a mod 2 ^ 32)" "seq_gaps (note_seq s (a mod 2 ^ 32)) = seq_gaps s"
    using note_seq_None [OF assms(1)] by simp_all
  with note_seqs [OF this(1) assms(2)] gaps_of_small [of a bs] show ?thesis by simp
qed

text \<open>C9 at five frames around the wrap-around: three are missing, and then the device jumps ahead by a million.\<close>

theorem gaps_counted_exactly_witness:
  "seq_gaps (fold (\<lambda>b s. note_seq s (b mod 2 ^ 32)) [4294967294, 4294967295, 4294967298, 4294967300, 4295967300] DeviceStats_init) = 3"
proof -
  have "last_seq DeviceStats_init = None" "seq_gaps DeviceStats_init = 0" by (simp_all add: DeviceStats_init_def)
  with gaps_counted_exactly [of DeviceStats_init 4294967294 "[4294967295, 4294967298, 4294967300, 4295967300]"] show ?thesis
    by (simp add: counted_def)
qed

text \<open>
  A frame whose sequence number is not ahead of the last one, by at most half the number space, is a
  duplicate or a late frame: it changes nothing. A device that starts again from a lower number is
  such a case, so nothing it sends counts until it has passed its old number.
\<close>

theorem late_frames_ignored:
  assumes "last_seq s = Some l" "0 \<le> l" "l < 2 ^ 31" "\<forall>q\<in>set qs. 0 \<le> q \<and> q \<le> l"
  shows "fold (\<lambda>q s. note_seq s q) qs s = s"
  using assms(4)
proof (induction qs)
  case (Cons q qs)
  then have q: "0 \<le> q" "q \<le> l" by auto
  have "note_seq s q = s"
  proof (cases "q = l")
    case False
    have "(q - l) mod 2 ^ 32 = (q - l + 2 ^ 32) mod 2 ^ 32" by simp
    also have "\<dots> = q - l + 2 ^ 32" using q assms(2,3) False by (intro mod_pos_pos_trivial) auto
    finally show ?thesis using q assms(2,3) False note_seq_Some [OF assms(1) refl, of q] by simp
  qed (use note_seq_Some [OF assms(1) refl, of q] in simp)
  with Cons show ?case by simp
qed simp

text \<open>The theorem above at a device that restarts from 0 after frame 1000.\<close>

theorem late_frames_ignored_witness:
  "fold (\<lambda>q s. note_seq s q) [0, 1, 2, 3] (note_seq DeviceStats_init 1000) = note_seq DeviceStats_init 1000"
proof -
  have "last_seq (note_seq DeviceStats_init 1000) = Some 1000" by (simp add: note_seq_def DeviceStats_init_def)
  then show ?thesis by (rule late_frames_ignored) simp_all
qed

end
