(* ===== verification/Stream_Decoder.thy ===== *)
theory Stream_Decoder
  imports Protocol "HOL-Library.Sublist"
begin

text \<open>
  \<open>StreamDecoder\<close> of \<open>backend/app/protocol.py\<close>: the incremental decoder of the TCP byte stream.

  \<open>drain\<close> is the \<open>while True\<close> loop of \<open>feed\<close>, which consumes at least one byte per iteration and so
  terminates. It returns the frames the generator yields, the exception that would escape it, and
  the new state. The lemmas show that nothing escapes, that the buffer stays bounded, that a clean
  stream is decoded alike however it is cut into chunks, that the decoder finds the next frame
  after garbage, and the one case where it does not: a chunk of garbage that ends in the first
  byte of the magic.
\<close>

record StreamDecoder =
  buf :: bytes
  bad :: int

definition StreamDecoder_init :: StreamDecoder where
  "StreamDecoder_init = \<lparr>buf = [], bad = 0\<rparr>"

text \<open>\<open>self.buf.find(b"TE")\<close>.\<close>

fun find_te :: "bytes \<Rightarrow> nat option" where
  "find_te (x # y # r) = (if x = 0x54 \<and> y = 0x45 then Some 0 else map_option Suc (find_te (y # r)))"
| "find_te _ = None"

lemma find_te_lt: "find_te b = Some i \<Longrightarrow> Suc i < length b"
  by (induction b arbitrary: i rule: find_te.induct) (auto split: if_splits)

function drain :: "StreamDecoder \<Rightarrow> Frame list \<times> pyexn option \<times> StreamDecoder" where
  "drain d =
     (if length (buf d) < HEADER_LEN then ([], None, d)
      else case Header_unpack (take HEADER_LEN (buf d)) of
        Inl e \<Rightarrow>
          if is_protocol_error e then
            let d1 = d\<lparr>bad := bad d + 1, buf := drop 1 (buf d)\<rparr> in
            case find_te (buf d1) of
              None \<Rightarrow> ([], None, d1\<lparr>buf := []\<rparr>)
            | Some idx \<Rightarrow> drain (d1\<lparr>buf := drop idx (buf d1)\<rparr>)
          else ([], Some e, d)
      | Inr hdr \<Rightarrow>
          let total = HEADER_LEN + nat (payload_len hdr) + 4 in
          if length (buf d) < total then ([], None, d)
          else
            let chunk = take total (buf d); d1 = d\<lparr>buf := drop total (buf d)\<rparr> in
            case decode chunk of
              Inr f \<Rightarrow> (case drain d1 of (fs, e, d2) \<Rightarrow> (f # fs, e, d2))
            | Inl e \<Rightarrow>
                if is_protocol_error e then drain (d1\<lparr>bad := bad d1 + 1\<rparr>) else ([], Some e, d1))"
  by pat_completeness auto
termination
  by (relation "measure (\<lambda>d. length (buf d))") (auto simp: HEADER_LEN_def)

declare drain.simps [simp del]

definition feed :: "StreamDecoder \<Rightarrow> bytes \<Rightarrow> Frame list \<times> pyexn option \<times> StreamDecoder" where
  "feed d data = drain (d\<lparr>buf := buf d @ data\<rparr>)"

text \<open>Reading a connection: one \<open>feed\<close> per chunk received, until an exception.\<close>

primrec feeds :: "StreamDecoder \<Rightarrow> bytes list \<Rightarrow> Frame list \<times> pyexn option \<times> StreamDecoder" where
  "feeds d [] = ([], None, d)"
| "feeds d (c # cs) =
     (case feed d c of
        (fs, Some e, d1) \<Rightarrow> (fs, Some e, d1)
      | (fs, None, d1) \<Rightarrow> (case feeds d1 cs of (gs, e, d2) \<Rightarrow> (fs @ gs, e, d2)))"

section \<open>One iteration\<close>

lemma Header_unpack_prefix: "HEADER_LEN \<le> length b \<Longrightarrow> Header_unpack (take HEADER_LEN b) = Header_unpack b"
  by (rule Header_unpack_take) simp_all

lemma Header_unpack_error: "Header_unpack b = Inl e \<Longrightarrow> is_protocol_error e"
  using decode_error [OF decode_bad_header] by fastforce

lemma decode_protocol_error: "decode b = Inl e \<Longrightarrow> is_protocol_error e"
  using decode_error by fastforce

text \<open>The iterations of the loop, by what the head of the buffer is.\<close>

lemma drain_short: "length (buf d) < HEADER_LEN \<Longrightarrow> drain d = ([], None, d)"
  by (simp add: drain.simps)

lemma drain_wait:
  "Header_unpack (buf d) = Inr h \<Longrightarrow> length (buf d) < HEADER_LEN + nat (payload_len h) + 4 \<Longrightarrow> drain d = ([], None, d)"
  by (simp add: drain.simps Header_unpack_prefix)

lemma drain_lost:
  assumes "HEADER_LEN \<le> length (buf d)" "Header_unpack (buf d) = Inl e" "find_te (drop 1 (buf d)) = None"
  shows "drain d = ([], None, \<lparr>buf = [], bad = bad d + 1\<rparr>)"
  using assms Header_unpack_error [OF assms(2)] by (simp add: drain.simps Header_unpack_prefix)

lemma drain_resync:
  assumes "HEADER_LEN \<le> length (buf d)" "Header_unpack (buf d) = Inl e" "find_te (drop 1 (buf d)) = Some i"
  shows "drain d = drain \<lparr>buf = drop i (drop 1 (buf d)), bad = bad d + 1\<rparr>"
  using assms Header_unpack_error [OF assms(2)]
  by (cases d) (subst drain.simps, simp add: Header_unpack_prefix)

lemma drain_frame:
  assumes "Header_unpack (buf d) = Inr h" "n = HEADER_LEN + nat (payload_len h) + 4" "n \<le> length (buf d)"
    "decode (take n (buf d)) = Inr f"
  shows "drain d = (case drain (d\<lparr>buf := drop n (buf d)\<rparr>) of (fs, e, d2) \<Rightarrow> (f # fs, e, d2))"
  using assms Header_unpack_len(1) [OF assms(1)] by (subst drain.simps) (simp add: Header_unpack_prefix)

lemma drain_bad_frame:
  assumes "Header_unpack (buf d) = Inr h" "n = HEADER_LEN + nat (payload_len h) + 4" "n \<le> length (buf d)"
    "decode (take n (buf d)) = Inl e"
  shows "drain d = drain \<lparr>buf = drop n (buf d), bad = bad d + 1\<rparr>"
  using assms Header_unpack_len(1) [OF assms(1)] decode_protocol_error [OF assms(4)]
  by (cases d) (subst drain.simps, simp add: Header_unpack_prefix)

text \<open>Induction along the loop.\<close>

lemma drain_cases:
  obtains (short) "length (buf d) < HEADER_LEN"
  | (wait) h where "Header_unpack (buf d) = Inr h" "length (buf d) < HEADER_LEN + nat (payload_len h) + 4"
  | (lost) e where "HEADER_LEN \<le> length (buf d)" "Header_unpack (buf d) = Inl e" "find_te (drop 1 (buf d)) = None"
  | (resync) e i where "HEADER_LEN \<le> length (buf d)" "Header_unpack (buf d) = Inl e" "find_te (drop 1 (buf d)) = Some i"
  | (frame) h n f where "Header_unpack (buf d) = Inr h" "n = HEADER_LEN + nat (payload_len h) + 4"
      "n \<le> length (buf d)" "decode (take n (buf d)) = Inr f"
  | (bad_frame) h n e where "Header_unpack (buf d) = Inr h" "n = HEADER_LEN + nat (payload_len h) + 4"
      "n \<le> length (buf d)" "decode (take n (buf d)) = Inl e"
proof (cases "length (buf d) < HEADER_LEN")
  case False
  show ?thesis
  proof (cases "Header_unpack (buf d)")
    case (Inl e)
    with False lost resync show ?thesis by (cases "find_te (drop 1 (buf d))") auto
  next
    case (Inr h)
    with wait frame bad_frame show ?thesis
      by (cases "decode (take (HEADER_LEN + nat (payload_len h) + 4) (buf d))") (meson not_less)+
  qed
qed (rule short)

lemma drain_induct [case_names step]:
  assumes "\<And>d. (\<And>d'. length (buf d') < length (buf d) \<Longrightarrow> P d') \<Longrightarrow> P d"
  shows "P d"
  using assms by (induction "length (buf d)" arbitrary: d rule: less_induct) blast

section \<open>What every call keeps\<close>

lemma raw_length:
  assumes "decode (take n b) = Inr f" "Header_unpack b = Inr h" "n = HEADER_LEN + nat (payload_len h) + 4" "n \<le> length b"
  shows "raw f = take n b"
proof -
  have "Header_unpack (take n b) = Inr h" using assms(2-4) by (simp add: Header_unpack_take)
  moreover obtain h' m where "Header_unpack (take n b) = Inr h'" "m = HEADER_LEN + nat (payload_len h')"
    "raw f = take (m + 4) (take n b)" using decode_ok [OF assms(1)] by metis
  ultimately show ?thesis using assms(3) by simp
qed

definition drained :: "StreamDecoder \<Rightarrow> Frame list \<times> pyexn option \<times> StreamDecoder \<Rightarrow> bool" where
  "drained d r = (case r of (fs, e, d') \<Rightarrow>
     e = None \<and> length (buf d') < HEADER_LEN + MAX_PAYLOAD + 4 \<and> bad d \<le> bad d'
     \<and> length (concat (map raw fs)) + length (buf d') \<le> length (buf d)
     \<and> (\<forall>f\<in>set fs. decode (raw f) = Inr f))"

lemma drained_drain: "drained d (drain d)"
proof (induction d rule: drain_induct)
  case (step d)
  show ?case
  proof (cases d rule: drain_cases)
    case short
    then show ?thesis by (simp add: drain_short drained_def)
  next
    case (wait h)
    with Header_unpack_len [OF wait(1)] show ?thesis by (auto simp: drain_wait drained_def)
  next
    case (lost e)
    then show ?thesis by (simp add: drain_lost drained_def HEADER_LEN_def)
  next
    case (resync e i)
    have "length (drop i (drop 1 (buf d))) < length (buf d)" using resync(1) by (auto simp: HEADER_LEN_def)
    with step [of "\<lparr>buf = drop i (drop 1 (buf d)), bad = bad d + 1\<rparr>"] drain_resync [OF resync]
    show ?thesis by (auto simp: drained_def split: prod.splits)
  next
    case (frame h n f)
    have "length (drop n (buf d)) < length (buf d)" using frame(2,3) by auto
    with step [of "d\<lparr>buf := drop n (buf d)\<rparr>"] drain_frame [OF frame] decode_raw [OF frame(4)]
      raw_length [OF frame(4,1-3)] frame(3)
    show ?thesis by (auto simp: drained_def split: prod.splits)
  next
    case (bad_frame h n e)
    have "length (drop n (buf d)) < length (buf d)" using bad_frame(2,3) by auto
    with step [of "\<lparr>buf = drop n (buf d), bad = bad d + 1\<rparr>"] drain_bad_frame [OF bad_frame]
    show ?thesis by (auto simp: drained_def split: prod.splits)
  qed
qed

section \<open>Clean streams\<close>

text \<open>A stream of frames as the encoder makes them, each accepted by \<open>decode\<close> in full.\<close>

definition whole :: "Frame \<Rightarrow> bool" where
  "whole f \<longleftrightarrow> decode (raw f) = Inr f"

abbreviation wire :: "Frame list \<Rightarrow> bytes" where
  "wire fs \<equiv> concat (map raw fs)"

lemma whole_header:
  assumes "whole f"
  obtains h where "Header_unpack (raw f) = Inr h" "length (raw f) = HEADER_LEN + nat (payload_len h) + 4"
  using assms decode_ok [of "raw f" f] unfolding whole_def
  by (metis length_take min.absorb2)

lemma whole_nonempty: "whole f \<Longrightarrow> raw f \<noteq> []"
  by (erule whole_header) (auto simp: HEADER_LEN_def)

lemma drain_whole:
  assumes "whole f"
  shows "drain \<lparr>buf = raw f @ r, bad = n\<rparr> =
    (case drain \<lparr>buf = r, bad = n\<rparr> of (fs, e, d) \<Rightarrow> (f # fs, e, d))"
proof -
  obtain h where h: "Header_unpack (raw f) = Inr h" "length (raw f) = HEADER_LEN + nat (payload_len h) + 4"
    using assms by (rule whole_header)
  have "Header_unpack (raw f @ r) = Inr h" using h Header_unpack_append [of "raw f" r] by simp
  then show ?thesis
    using drain_frame [of "\<lparr>buf = raw f @ r, bad = n\<rparr>" h "length (raw f)" f] h(2) assms
    by (simp add: whole_def)
qed

lemma drain_wire:
  "(\<And>f. f \<in> set fs \<Longrightarrow> whole f) \<Longrightarrow>
   drain \<lparr>buf = wire fs @ r, bad = n\<rparr> = (case drain \<lparr>buf = r, bad = n\<rparr> of (gs, e, d) \<Rightarrow> (fs @ gs, e, d))"
  by (induction fs) (auto simp: drain_whole split: prod.splits)

text \<open>The decoder waits on an incomplete frame.\<close>

lemma drain_partial:
  assumes "whole f" "strict_prefix r (raw f)"
  shows "drain \<lparr>buf = r, bad = n\<rparr> = ([], None, \<lparr>buf = r, bad = n\<rparr>)"
proof -
  obtain h where h: "Header_unpack (raw f) = Inr h" "length (raw f) = HEADER_LEN + nat (payload_len h) + 4"
    using assms(1) by (rule whole_header)
  obtain t where t: "raw f = r @ t" using assms(2) by (auto simp: strict_prefix_def prefix_def)
  have l: "length r < length (raw f)" using assms(2) by (rule prefix_length_less)
  show ?thesis
  proof (cases "length r < HEADER_LEN")
    case False
    then have "Header_unpack r = Inr h" using h(1) t Header_unpack_append [of r t] by simp
    with l h(2) show ?thesis by (simp add: drain_wait)
  qed (simp add: drain_short)
qed

text \<open>A prefix of a clean stream is some whole frames and the start of the next.\<close>

lemma wire_prefix:
  "prefix p (wire fs) \<Longrightarrow> (\<And>f. f \<in> set fs \<Longrightarrow> whole f) \<Longrightarrow>
   \<exists>fs1 fs2 r. fs = fs1 @ fs2 \<and> p = wire fs1 @ r \<and> (r = [] \<or> (\<exists>f gs. fs2 = f # gs \<and> strict_prefix r (raw f)))"
proof (induction fs arbitrary: p)
  case (Cons f fs)
  show ?case
  proof (cases "prefix (raw f) p")
    case True
    then obtain q where q: "p = raw f @ q" by (auto simp: prefix_def)
    with Cons.prems(1) have "prefix q (wire fs)" by simp
    with Cons.IH [OF this] Cons.prems(2) obtain fs1 fs2 r where
      "fs = fs1 @ fs2" "q = wire fs1 @ r" "r = [] \<or> (\<exists>f gs. fs2 = f # gs \<and> strict_prefix r (raw f))" by auto
    with q show ?thesis by (intro exI [of _ "f # fs1"] exI [of _ fs2] exI [of _ r]) auto
  next
    case False
    with Cons.prems(1) have "strict_prefix p (raw f)"
      by (simp add: prefix_append strict_prefix_def) (metis prefix_order.order_refl prefixI)
    then show ?thesis by (intro exI [of _ "[]"] exI [of _ "f # fs"] exI [of _ p]) auto
  qed
qed simp

lemma drain_rest:
  assumes "r = [] \<or> (\<exists>f gs. fs2 = f # gs \<and> strict_prefix r (raw f))" "\<And>f. f \<in> set fs2 \<Longrightarrow> whole f"
  shows "drain \<lparr>buf = r, bad = n\<rparr> = ([], None, \<lparr>buf = r, bad = n\<rparr>)"
proof (cases "r = []")
  case False
  with assms(1) obtain f gs where "fs2 = f # gs" "strict_prefix r (raw f)" by blast
  then show ?thesis by (intro drain_partial assms(2)) simp_all
qed (simp add: drain_short HEADER_LEN_def)

lemma feeds_wire:
  assumes "r @ concat cs = wire fs" "\<And>f. f \<in> set fs \<Longrightarrow> whole f" "cs = [] \<Longrightarrow> fs = []"
  shows "feeds \<lparr>buf = r, bad = n\<rparr> cs = (fs, None, \<lparr>buf = [], bad = n\<rparr>)"
  using assms
proof (induction cs arbitrary: r fs)
  case (Cons c cs)
  have "prefix (r @ c) (wire fs)" using Cons.prems(1) by (metis append.assoc concat.simps(2) prefixI)
  then obtain fs1 fs2 r' where f: "fs = fs1 @ fs2" "r @ c = wire fs1 @ r'"
    "r' = [] \<or> (\<exists>f gs. fs2 = f # gs \<and> strict_prefix r' (raw f))"
    using wire_prefix Cons.prems(2) by metis
  have w: "\<And>f. f \<in> set fs1 \<Longrightarrow> whole f" "\<And>f. f \<in> set fs2 \<Longrightarrow> whole f" using Cons.prems(2) f(1) by auto
  have d: "feed \<lparr>buf = r, bad = n\<rparr> c = (fs1, None, \<lparr>buf = r', bad = n\<rparr>)"
    using drain_wire [OF w(1)] drain_rest [OF f(3) w(2)] f(2) by (simp add: feed_def)
  have rest: "r' @ concat cs = wire fs2" 
  proof -
    have "wire fs1 @ r' @ concat cs = (r @ c) @ concat cs" unfolding f(2) by simp
    also have "\<dots> = wire fs1 @ wire fs2" using Cons.prems(1) f(1) by simp
    finally show ?thesis by simp
  qed
  have "fs2 = []" if "cs = []"
  proof (cases fs2)
    case (Cons g gs)
    then have "raw g \<noteq> []" "r' = raw g @ wire gs" using rest that w(2) whole_nonempty by auto
    with f(3) Cons show ?thesis by (auto simp: strict_prefix_def prefix_def)
  qed
  with Cons.IH [OF rest w(2)] d f(1) show ?case by simp
qed simp

section \<open>Garbage\<close>

lemma magic_bytes: "[0x54, 0x45] = le_bytes 2 MAGIC"
  by code_simp

lemma Header_unpack_no_magic:
  assumes "HEADER_LEN \<le> length b" "take 2 b \<noteq> [0x54, 0x45]"
  shows "Header_unpack b = Inl BadMagic"
proof -
  obtain mg v mt d sq ts fw x where u: "unpack_from HEADER_FMT b 0 =
       Inr [VInt mg, VInt v, VInt mt, VBytes d, VInt sq, VInt ts, VInt fw,
            VInt (le_int (take 2 (drop 32 b))), VInt x]"
    using Header_fields [OF assms(1)] by metis
  have "unpack_from HEADER_FMT b 0 = Inr (unpack_fields HEADER_FMT b)"
    using assms(1) by (simp add: unpack_from_def HEADER_FMT_def HEADER_LEN_def)
  moreover have "unpack_fields HEADER_FMT b ! 0 = VInt (le_int (take 2 b))" by (simp add: HEADER_FMT_def)
  ultimately have mg: "mg = le_int (take 2 b)" using u by (metis Inr_inject nth_Cons_0 pv.inject(1))
  have "length (take 2 b) = 2" using assms(1) by (simp add: HEADER_LEN_def)
  then have "mg \<noteq> MAGIC" using assms(2) mg le_bytes_le_int [of "take 2 b"] magic_bytes by auto
  with u assms(1) show ?thesis by (simp add: Header_unpack_def)
qed

lemma find_te_start: "find_te b = Some (Suc i) \<Longrightarrow> take 2 b \<noteq> [0x54, 0x45]"
  by (cases b rule: find_te.cases) (auto split: if_splits)

lemma find_te_drop: "find_te b = Some (Suc i) \<Longrightarrow> find_te (drop 1 b) = Some i"
  by (cases b rule: find_te.cases) (auto split: if_splits)

lemma drain_garbage:
  assumes "find_te (g @ x) = Some (length g)" "g \<noteq> []" "HEADER_LEN \<le> length (g @ x)"
  shows "drain \<lparr>buf = g @ x, bad = n\<rparr> = drain \<lparr>buf = x, bad = n + 1\<rparr>"
proof -
  obtain a t where g: "g = a # t" using assms(2) by (cases g) auto
  then have f: "find_te (g @ x) = Some (Suc (length t))" using assms(1) by simp
  have "Header_unpack (g @ x) = Inl BadMagic"
    using Header_unpack_no_magic [OF assms(3)] find_te_start [OF f] by simp
  with drain_resync [of "\<lparr>buf = g @ x, bad = n\<rparr>" BadMagic "length t"] find_te_drop [OF f] assms(3) g
  show ?thesis by simp
qed

section \<open>Properties\<close>

text \<open>
  C2. Chunking does not matter on a clean stream. Whatever the sequence of frames and however its bytes
  are cut into chunks, feeding the chunks yields exactly those frames in order, raises nothing,
  counts no bad frame and leaves the buffer empty.
\<close>

theorem feeds_clean_stream:
  assumes "\<forall>f\<in>set fs. decode (raw f) = Inr f" "concat cs = concat (map raw fs)"
  shows "feeds StreamDecoder_init cs = (fs, None, \<lparr>buf = [], bad = 0\<rparr>)"
proof (cases "cs = []")
  case True
  then have "fs = []" using assms whole_nonempty by (cases fs) (auto simp: whole_def)
  with True show ?thesis by (simp add: StreamDecoder_init_def)
next
  case False
  with feeds_wire [of "[]" cs fs 0] assms show ?thesis by (simp add: StreamDecoder_init_def whole_def)
qed

definition sample_decoded :: Frame where
  "sample_decoded = \<lparr>header = \<lparr>msg_type = 21, device_id = lit ''ECU-1'', seq = 7, ts_ms = 1000,
     fw_version = 65536, payload_len = 4, hversion = 1\<rparr>,
     payload = Typed (PFaultAck \<lparr>active_flags = 5\<rparr>), raw = sample_frame\<rparr>"

lemma sample_decoded: "decode (raw sample_decoded) = Inr sample_decoded" "raw sample_decoded = sample_frame"
  using sample_frame_decode by (simp_all add: sample_decoded_def)

text \<open>C2 at one frame cut inside its header.\<close>

theorem feeds_clean_stream_witness:
  "concat [take 20 sample_frame, drop 20 sample_frame] = concat (map raw [sample_decoded])
   \<and> feeds StreamDecoder_init [take 20 sample_frame, drop 20 sample_frame] = ([sample_decoded], None, \<lparr>buf = [], bad = 0\<rparr>)"
proof -
  have c: "concat [take 20 sample_frame, drop 20 sample_frame] = concat (map raw [sample_decoded])"
    by (simp add: sample_decoded)
  moreover have "\<forall>f\<in>set [sample_decoded]. decode (raw f) = Inr f" using sample_decoded(1) by simp
  ultimately show ?thesis using feeds_clean_stream [OF _ c] by blast
qed

text \<open>
  C4. Whatever bytes are fed, \<open>feed\<close> returns without raising: the buffer it leaves is smaller than one
  maximal frame, so a peer cannot make it grow, the frames it yields are all accepted by \<open>decode\<close>,
  together they are no longer than the bytes received, and the count of bad frames never goes down.
\<close>

theorem feed_safe:
  "case feed d data of (fs, e, d') \<Rightarrow>
     e = None \<and> length (buf d') < 1064 \<and> bad d \<le> bad d'
     \<and> length (concat (map raw fs)) + length (buf d') \<le> length (buf d) + length data
     \<and> list_all (\<lambda>f. decode (raw f) = Inr f) fs"
  using drained_drain [of "d\<lparr>buf := buf d @ data\<rparr>"]
  by (auto simp: feed_def drained_def list_all_iff HEADER_LEN_def MAX_PAYLOAD_def)

text \<open>
  Resynchronisation: garbage before a frame, as long as the first magic of the stream is the
  frame's own, costs one count of \<open>bad\<close> and no frame.
\<close>

theorem feed_resync:
  assumes "decode (raw f) = Inr f" "g \<noteq> []" "find_te (g @ raw f) = Some (length g)"
  shows "feed \<lparr>buf = [], bad = n\<rparr> (g @ raw f) = ([f], None, \<lparr>buf = [], bad = n + 1\<rparr>)"
proof -
  have w: "whole f" using assms(1) by (simp add: whole_def)
  then have "HEADER_LEN \<le> length (g @ raw f)" by (rule whole_header) simp
  with drain_garbage [OF assms(3,2)] drain_whole [OF w, of "[]"] show ?thesis
    by (simp add: feed_def drain_short HEADER_LEN_def)
qed

text \<open>The theorem above at three bytes of garbage.\<close>

theorem feed_resync_witness:
  "find_te ([1, 0x54, 2] @ raw sample_decoded) = Some (length [1, 0x54, 2 :: byte])
   \<and> feed \<lparr>buf = [], bad = 4\<rparr> ([1, 0x54, 2] @ raw sample_decoded) = ([sample_decoded], None, \<lparr>buf = [], bad = 4 + 1\<rparr>)"
proof -
  have f: "find_te ([1, 0x54, 2] @ raw sample_decoded) = Some (length [1, 0x54, 2 :: byte])"
    by (simp add: sample_decoded sample_frame_def)
  from f feed_resync [OF sample_decoded(1) _ f, of 4] show ?thesis by simp
qed

text \<open>
  The exception to chunk independence: when no magic is found the whole buffer is cleared, also a
  last byte that is the first half of the next frame's magic. The same bytes, 35 zeros and a
  frame, give the frame in one chunk and nothing when the cut falls inside the magic.
\<close>

theorem feed_loses_split_magic:
  "fst (feeds StreamDecoder_init [replicate 35 0 @ sample_frame]) = [sample_decoded]
   \<and> fst (feeds StreamDecoder_init [replicate 35 0 @ take 1 sample_frame, drop 1 sample_frame]) = []
   \<and> concat [replicate 35 0 @ take 1 sample_frame, drop 1 sample_frame] = concat [replicate 35 0 @ sample_frame]"
proof (intro conjI)
  show "fst (feeds StreamDecoder_init [replicate 35 0 @ sample_frame]) = [sample_decoded]"
    by code_simp
  show "fst (feeds StreamDecoder_init [replicate 35 0 @ take 1 sample_frame, drop 1 sample_frame]) = []"
    by code_simp
qed simp

end
