(* ===== verification/Ingest.thy ===== *)
theory Ingest
  imports Alerting Device_Stats Stream_Decoder
begin

text \<open>
  \<open>backend/app/ingest.py\<close>: the UDP and TCP servers the devices talk to, the statistics of each device
  and the detection of devices that went silent.

  The state of the server extends that of the rule engine with the statistics, the open
  connections and the last sample of each device. A connection is a number; \<open>conns\<close> holds what its
  handler has read, \<open>writers\<close> which connection commands for a device go to, and \<open>sent\<close> what has been
  written to each. What the network does is part of the state too: \<open>closed\<close> are the connections that
  were closed, \<open>broken\<close> those whose next write fails. One step is the handling of one datagram, of one
  chunk read from a connection, or of one round of a periodic task.
\<close>

section \<open>State\<close>

definition OFFLINE_AFTER_S :: pyfloat where "OFFLINE_AFTER_S = Fin 15"

record conn =
  k_dec :: StreamDecoder
  k_dev :: "pystr option"

definition conn_init :: conn where
  "conn_init = \<lparr>k_dec = StreamDecoder_init, k_dev = None\<rparr>"

record server = engine +
  mclock :: "nat \<Rightarrow> pyfloat"
  stats :: "(pystr \<times> DeviceStats) list"
  writers :: "(pystr \<times> nat) list"
  conns :: "(nat \<times> conn) list"
  closed :: "nat list"
  broken :: "nat list"
  sent :: "(nat \<times> bytes) list"
  latest :: "(pystr \<times> sample) list"
  global_bad_frames :: int
  total_frames :: int
  started_at :: pyfloat

text \<open>\<open>st\<close> creates the statistics of a device not seen before; \<open>on_stat\<close> changes the object it returns.\<close>

definition stat_of :: "pystr \<Rightarrow> 'a server_scheme \<Rightarrow> DeviceStats" where
  "stat_of dev s = (case map_of (stats s) dev of Some x \<Rightarrow> x | None \<Rightarrow> DeviceStats_init)"

definition on_stat :: "pystr \<Rightarrow> (DeviceStats \<Rightarrow> DeviceStats) \<Rightarrow> ('a server_scheme, unit) pym" where
  "on_stat dev f = modify (\<lambda>s. s\<lparr>stats := AList.update dev (f (stat_of dev s)) (stats s)\<rparr>)"

definition truthy_time :: "pyfloat option \<Rightarrow> bool" where
  "truthy_time t = (case t of Some x \<Rightarrow> \<not> fzero x | None \<Rightarrow> False)"

text \<open>The part of \<open>__init__\<close> that loads the counters kept by the last run.\<close>

definition load_stat :: "pystr \<times> StatRow \<Rightarrow> ('a server_scheme, unit) pym" where
  "load_stat x = on_stat (fst x) (\<lambda>d. d\<lparr>frames_rx := s_frames_rx (snd x), bad_crc := s_bad_crc (snd x),
     seq_gaps := s_seq_gaps (snd x), reconnects := s_reconnects (snd x), last_seen := s_last_seen (snd x)\<rparr>)"

definition Ingest_init :: "('a server_scheme, unit) pym" where
  "Ingest_init =
     bind_pym time_time (\<lambda>now.
     seq_pym (modify (\<lambda>s. s\<lparr>stats := [], writers := [], conns := [], latest := [], global_bad_frames := 0,
       total_frames := 0, started_at := now\<rparr>))
     (bind_pym (db_get load_stats) (\<lambda>rows. for_pym load_stat rows)))"

text \<open>\<open>DeviceStats.as_dict\<close>, as the row \<open>save_stats\<close> makes of it; \<open>iso\<close> of the last time seen may raise.\<close>

definition stat_row :: "pystr \<Rightarrow> DeviceStats \<Rightarrow> StatRow res" where
  "stat_row dev d =
     rbind (loss_pct d) (\<lambda>l.
     rbind (case last_seen d of None \<Rightarrow> Inr [] | Some t \<Rightarrow> iso t) (\<lambda>_.
     Inr \<lparr>s_dev = dev, s_frames_rx = frames_rx d, s_bad_crc = bad_crc d, s_seq_gaps = seq_gaps d,
       s_loss_pct = l, s_reconnects = reconnects d, s_tcp_connected = tcp_connected d,
       s_last_seen = (case last_seen d of Some t \<Rightarrow> bind_real t | None \<Rightarrow> None), s_last_seq = last_seq d,
       s_updated_at = Fin 0\<rparr>))"

definition persist_stats :: "('a server_scheme, unit) pym" where
  "persist_stats =
     bind_pym (gets stats) (\<lambda>ds. for_pym (\<lambda>(dev, d). bind_pym (of_res (stat_row dev d)) save_stats) ds)"

section \<open>Presence\<close>

text \<open>\<open>bus.publish("device", ...)\<close> with the time stamp the code gives it.\<close>

definition publish_device :: "pystr \<Rightarrow> dev_event \<Rightarrow> pyfloat \<Rightarrow> ('a server_scheme, unit) pym" where
  "publish_device dev e now = bind_pym (of_res (iso now)) (\<lambda>ts. bus_publish (EvDevice dev e (Some ts)))"

definition set_online_state :: "pystr \<Rightarrow> bool \<Rightarrow> ('a server_scheme, unit) pym" where
  "set_online_state dev b =
     seq_pym (on_stat dev (\<lambda>d. d\<lparr>online := b\<rparr>))
     (seq_pym (set_online dev b)
     (seq_pym (if b then on_online dev None else on_offline dev None)
     (bind_pym time_time (publish_device dev (DevOnline b)))))"

definition seen :: "pystr \<Rightarrow> ('a server_scheme, unit) pym" where
  "seen dev =
     bind_pym time_time (\<lambda>now.
     seq_pym (on_stat dev (\<lambda>d. d\<lparr>last_seen := Some now\<rparr>))
     (bind_pym (gets (\<lambda>s. online (stat_of dev s))) (\<lambda>b.
      when_pym (\<not> b) (set_online_state dev True))))"

text \<open>One round of the task that detects silent devices.\<close>

definition silent :: "pyfloat \<Rightarrow> pyfloat option \<Rightarrow> bool" where
  "silent now t = (case t of Some x \<Rightarrow> \<not> fzero x \<and> fless OFFLINE_AFTER_S (fsub now x) | None \<Rightarrow> False)"

definition sweep_stat :: "pyfloat \<Rightarrow> pystr \<Rightarrow> ('a server_scheme, unit) pym" where
  "sweep_stat now dev =
     bind_pym (gets (stat_of dev)) (\<lambda>d.
     when_pym (online d \<and> silent now (last_seen d)) (set_online_state dev False))"

definition sweep_row :: "pyfloat \<Rightarrow> Device \<Rightarrow> ('a server_scheme, unit) pym" where
  "sweep_row now d =
     bind_pym (gets (\<lambda>s. map_of (stats s) (d_id d))) (\<lambda>x.
     when_pym (d_online d \<and> x = None \<and> silent now (d_last_seen d)) (set_online_state (d_id d) False))"

definition offline_sweep :: "('a server_scheme, unit) pym" where
  "offline_sweep =
     bind_pym time_time (\<lambda>now.
     bind_pym (gets (\<lambda>s. map fst (stats s))) (\<lambda>ds.
     seq_pym (for_pym (sweep_stat now) ds)
     (bind_pym (db_get list_devices) (\<lambda>rows. for_pym (sweep_row now) rows))))"

text \<open>One round of the statistics task, which survives every exception.\<close>

definition stats_round :: "('a server_scheme, unit) pym" where
  "stats_round = catch_pym (\<lambda>_. True) (seq_pym persist_stats (tick None)) (\<lambda>_. ret ())"

section \<open>UDP\<close>

definition tel_dict :: "Telemetry \<Rightarrow> sample" where
  "tel_dict t =
     (case as_dict t of (x, state_name, faults) \<Rightarrow>
       [(lit ''rpm'', JFloat (rpm x)), (lit ''temp_c'', JFloat (temp_c x)), (lit ''current_a'', JFloat (current_a x)),
        (lit ''voltage_v'', JFloat (voltage_v x)), (lit ''vibration_g'', JFloat (vibration_g x)),
        (lit ''speed_kph'', JFloat (speed_kph x)), (lit ''lat'', JFloat (lat x)), (lit ''lon'', JFloat (lon x)),
        (lit ''fault_flags'', JInt (fault_flags x)), (lit ''state'', JInt (state x)),
        (lit ''state_name'', JStr state_name), (lit ''faults'', JList (map JStr faults))])"

text \<open>The dictionary \<open>handle_telemetry\<close> builds.\<close>

definition sample_dict :: "Frame \<Rightarrow> Telemetry \<Rightarrow> pyfloat \<Rightarrow> pystr \<Rightarrow> pyfloat \<Rightarrow> sample" where
  "sample_dict f t now now_iso loss =
     tel_dict t @
     [(lit ''device_id'', JStr (device_id (header f))), (lit ''ts'', JFloat now), (lit ''ts_iso'', JStr now_iso),
      (lit ''device_ts_ms'', JInt (ts_ms (header f))), (lit ''seq'', JInt (seq (header f))),
      (lit ''fw_version'', JStr (fw_decode (fw_version (header f)))), (lit ''loss_pct'', JFloat loss)]"

definition tel_row :: "pystr \<Rightarrow> pyfloat \<Rightarrow> int \<Rightarrow> Telemetry \<Rightarrow> TelRow" where
  "tel_row dev now sq t =
     \<lparr>t_dev = dev, t_ts = now, t_seq = sq, t_rpm = bind_real (rpm t), t_temp_c = bind_real (temp_c t),
      t_current_a = bind_real (current_a t), t_voltage_v = bind_real (voltage_v t),
      t_vibration_g = bind_real (vibration_g t), t_speed_kph = bind_real (speed_kph t), t_lat = bind_real (lat t),
      t_lon = bind_real (lon t), t_fault_flags = fault_flags t, t_state = state t\<rparr>"

definition set_latest :: "pystr \<Rightarrow> sample \<Rightarrow> ('a server_scheme, unit) pym" where
  "set_latest dev d = modify (\<lambda>s. s\<lparr>latest := AList.update dev d (latest s)\<rparr>)"

definition bus_telemetry :: "pystr \<Rightarrow> sample \<Rightarrow> ('a server_scheme, bool) pym" where
  "bus_telemetry dev d s =
     (case publish_telemetry (mclock s (wreads s)) dev (EvTelemetry d) (Fin 2) (wbus s) of
        (r, b) \<Rightarrow> (r, s\<lparr>wreads := wreads s + 1, wbus := b\<rparr>))"

definition handle_telemetry :: "Frame \<Rightarrow> Telemetry \<Rightarrow> ('a server_scheme, unit) pym" where
  "handle_telemetry f t =
     (let dev = device_id (header f); h = header f in
      seq_pym (on_stat dev (\<lambda>d. note_seq (d\<lparr>frames_rx := frames_rx d + 1\<rparr>) (seq h)))
      (bind_pym time_time (\<lambda>now.
       bind_pym (of_res (float_of_int (ts_ms h))) (\<lambda>sent_at.
       seq_pym (on_stat dev (\<lambda>d. d\<lparr>transit_ms := Some (round_nd 1 (fsub (fmul now (Fin 1000)) sent_at))\<rparr>))
       (bind_pym (of_res (iso now)) (\<lambda>now_iso.
        bind_pym (gets (\<lambda>s. loss_pct (stat_of dev s))) (\<lambda>lr.
        bind_pym (of_res lr) (\<lambda>loss.
        let d = sample_dict f t now now_iso loss in
        seq_pym (set_latest dev d)
        (seq_pym (buffer_telemetry (tel_row dev now (seq h) t))
        (seq_pym (upsert_device dev [CState (state t), CLat (lat t), CLon (lon t),
           CFwVersion (fw_decode (fw_version h)), CFwU32 (fw_version h), CLastSeen now])
        (seq_pym (seen dev)
        (bind_pym (on_telemetry dev d (Some now) (Some loss)) (\<lambda>fired.
         let d' = d @ [(lit ''fired'', JList fired)] in
         seq_pym (set_latest dev d')
         (bind_pym (bus_telemetry dev d') (\<lambda>_. ret ())))))))))))))))"

definition on_datagram :: "bytes \<Rightarrow> ('a server_scheme, unit) pym" where
  "on_datagram data =
     seq_pym (modify (\<lambda>s. s\<lparr>total_frames := total_frames s + 1\<rparr>))
     (case Header_unpack data of
        Inl e \<Rightarrow>
          if is_protocol_error e then modify (\<lambda>s. s\<lparr>global_bad_frames := global_bad_frames s + 1\<rparr>) else throw e
      | Inr hdr \<Rightarrow>
          seq_pym (on_stat (device_id hdr) (\<lambda>d. d))
          (case decode data of
             Inl e \<Rightarrow>
               if is_protocol_error e then on_stat (device_id hdr) (\<lambda>d. d\<lparr>bad_crc := bad_crc d + 1\<rparr>) else throw e
           | Inr frame \<Rightarrow>
               if msg_type (header frame) \<noteq> mt_val TELEMETRY then ret ()
               else (case payload frame of
                       Typed (PTelemetry t) \<Rightarrow> handle_telemetry frame t
                     | _ \<Rightarrow> ret ())))"

text \<open>\<open>_UdpProto.datagram_received\<close>: whatever \<open>on_datagram\<close> raises is printed.\<close>

definition datagram_received :: "bytes \<Rightarrow> ('a server_scheme, unit) pym" where
  "datagram_received data = catch_pym (\<lambda>_. True) (on_datagram data) (\<lambda>_. ret ())"

section \<open>Messages to a device\<close>

definition is_connected :: "pystr \<Rightarrow> 'a server_scheme \<Rightarrow> bool" where
  "is_connected dev s = (map_of (writers s) dev \<noteq> None)"

text \<open>\<open>w.write(frame)\<close> and \<open>drain\<close>: they fail on a broken connection.\<close>

definition write_frame :: "nat \<Rightarrow> bytes \<Rightarrow> ('a server_scheme, bool) pym" where
  "write_frame w b =
     bind_pym (gets (\<lambda>s. w \<in> set (broken s))) (\<lambda>fails.
     if fails then ret False
     else seq_pym (modify (\<lambda>s. s\<lparr>sent := sent s @ [(w, b)]\<rparr>)) (ret True))"

definition send :: "pystr \<Rightarrow> Payload \<Rightarrow> ('a server_scheme, bool) pym" where
  "send dev p =
     bind_pym (gets (\<lambda>s. map_of (writers s) dev)) (\<lambda>wo.
     case wo of
       None \<Rightarrow> ret False
     | Some w \<Rightarrow>
         bind_pym (gets (\<lambda>s. w \<in> set (closed s))) (\<lambda>closing.
         if closing then ret False
         else
           seq_pym (on_stat dev (\<lambda>d. d\<lparr>tx_seq := tx_seq d + 1\<rparr>))
           (bind_pym (db_get (get_device dev)) (\<lambda>row.
            bind_pym (gets (\<lambda>s. tx_seq (stat_of dev s))) (\<lambda>n.
            bind_pym time_time (\<lambda>now.
            bind_pym (of_res (int_of_float (fmul now (Fin 1000)))) (\<lambda>ms.
            let fw = (case row of Some r \<Rightarrow> (case d_fw_version_u32 r of Some v \<Rightarrow> v | None \<Rightarrow> 0) | None \<Rightarrow> 0) in
            bind_pym (of_res (encode (mt_val (payload_type p)) dev n ms fw (Typed p))) (\<lambda>b.
            write_frame w b))))))))"

text \<open>\<open>float(x)\<close> of a column that may be NULL.\<close>

definition float_col :: "pyfloat option \<Rightarrow> pyfloat res" where
  "float_col x = (case x of Some v \<Rightarrow> Inr v | None \<Rightarrow> Inl TypeError)"

definition config_payload :: "Config \<Rightarrow> Payload res" where
  "config_payload c =
     rbind (float_col (c_rpm_limit c)) (\<lambda>r.
     rbind (float_col (c_temp_limit_c c)) (\<lambda>t.
     rbind (float_col (c_current_limit_a c)) (\<lambda>a.
     Inr (PConfigSet \<lparr>cs_config_version = c_version c, cs_telemetry_hz = c_telemetry_hz c,
       cs_log_level = c_log_level c, rpm_limit = r, temp_limit_c = t, current_limit_a = a\<rparr>))))"

definition push_config :: "pystr \<Rightarrow> Config \<Rightarrow> ('a server_scheme, bool) pym" where
  "push_config dev c =
     bind_pym (of_res (config_payload c)) (\<lambda>p.
     bind_pym (send dev p) (\<lambda>ok.
     seq_pym (set_ack_status dev (c_version c) (lit (if ok then ''sent'' else ''queued'')))
     (seq_pym (invalidate_config dev) (ret ok))))"

definition fw_payload :: "Firmware \<Rightarrow> Payload" where
  "fw_payload f = PFwUpdate \<lparr>target_version = f_version f, image_size_bytes = f_size_bytes f, image_crc = f_crc f\<rparr>"

definition push_fw :: "pystr \<Rightarrow> Firmware \<Rightarrow> ('a server_scheme, bool) pym" where
  "push_fw dev f = send dev (fw_payload f)"

definition push_fault :: "pystr \<Rightarrow> int \<Rightarrow> int \<Rightarrow> int \<Rightarrow> ('a server_scheme, bool) pym" where
  "push_fault dev sf cf ms = send dev (PFaultInject \<lparr>set_flags = sf, clear_flags = cf, duration_ms = ms\<rparr>)"

definition push_cmd :: "pystr \<Rightarrow> int \<Rightarrow> ('a server_scheme, bool) pym" where
  "push_cmd dev c = send dev (PCmd \<lparr>cmd = c\<rparr>)"

section \<open>TCP\<close>

definition register :: "pystr \<Rightarrow> nat \<Rightarrow> ('a server_scheme, unit) pym" where
  "register dev w =
     seq_pym (on_stat dev (\<lambda>d. d))
     (bind_pym (gets (\<lambda>s. map_of (writers s) dev)) (\<lambda>old.
      seq_pym (case old of
          Some v \<Rightarrow> when_pym (v \<noteq> w) (modify (\<lambda>s. s\<lparr>closed := List.insert v (closed s)\<rparr>))
        | None \<Rightarrow> ret ())
      (seq_pym (on_stat dev (\<lambda>d.
          if frames_rx d \<noteq> 0 \<or> old \<noteq> None \<or> truthy_time (last_seen d) then d\<lparr>reconnects := reconnects d + 1\<rparr> else d))
      (seq_pym (modify (\<lambda>s. s\<lparr>writers := AList.update dev w (writers s)\<rparr>))
      (seq_pym (on_stat dev (\<lambda>d. d\<lparr>tcp_connected := True\<rparr>))
       (bind_pym time_time (publish_device dev TcpConnected)))))))"

definition unfinished :: "pystr \<Rightarrow> bool" where
  "unfinished status \<longleftrightarrow> status \<notin> {lit ''complete'', lit ''rejected'', lit ''failed''}"

definition resumable :: "pystr \<Rightarrow> bool" where
  "resumable status \<longleftrightarrow> status \<in> {lit ''pending'', lit ''accepted'', lit ''downloading''}"

text \<open>The firmware job, when a device says hello.\<close>

definition resume_job :: "pystr \<Rightarrow> Hello \<Rightarrow> ('a server_scheme, unit) pym" where
  "resume_job dev hello =
     bind_pym (db_get (fw_job_latest dev)) (\<lambda>job.
     case job of
       None \<Rightarrow> ret ()
     | Some j \<Rightarrow>
         when_pym (unfinished (j_status j))
           (if fw_string hello = j_target j then
              seq_pym (fw_job_update (j_id j) (lit ''complete''))
              (bind_pym (db_get (fw_job_get (j_id j))) (\<lambda>j'. bus_publish (EvDevice dev (FwJobEv j') None)))
            else when_pym (resumable (j_status j))
              (bind_pym (db_get (firmware_get (j_target j))) (\<lambda>fw.
               case fw of Some f \<Rightarrow> bind_pym (send dev (fw_payload f)) (\<lambda>_. ret ()) | None \<Rightarrow> ret ()))))"

definition after_hello :: "pystr \<Rightarrow> Hello \<Rightarrow> ('a server_scheme, unit) pym" where
  "after_hello dev hello =
     bind_pym (db_get (current_config dev)) (\<lambda>cfg.
     seq_pym (case cfg of
         Some c \<Rightarrow> when_pym (he_config_version hello < c_version c) (bind_pym (push_config dev c) (\<lambda>_. ret ()))
       | None \<Rightarrow> ret ())
     (resume_job dev hello))"

definition log_only :: "pystr \<Rightarrow> int \<Rightarrow> pystr \<Rightarrow> ('a server_scheme, unit) pym" where
  "log_only dev lvl msg = bind_pym (add_log dev lvl msg None) (\<lambda>_. ret ())"

definition on_hello :: "pystr \<Rightarrow> Header \<Rightarrow> pyfloat \<Rightarrow> Hello \<Rightarrow> ('a server_scheme, unit) pym" where
  "on_hello dev h now p =
     seq_pym (upsert_device dev [CHwModel (hw_model p), CFwVersion (fw_string p), CFwU32 (fw_version h),
       CTelemetryHz (he_telemetry_hz p), CReportedConfig (he_config_version p), CLastHello now, CLastSeen now])
     (seq_pym (seen dev)
     (seq_pym (publish_device dev (HelloEv (fw_string p) (hw_model p) (he_config_version p)) now)
     (seq_pym (log_only dev 1 (lit ''HELLO fw='' @ fw_string p @ lit '' hw='' @ hw_model p @ lit '' cfg=v''
         @ py_str_int (he_config_version p) @ lit '' hz='' @ py_str_int (he_telemetry_hz p)))
      (after_hello dev p))))"

definition on_heartbeat :: "pystr \<Rightarrow> pyfloat \<Rightarrow> Heartbeat \<Rightarrow> ('a server_scheme, unit) pym" where
  "on_heartbeat dev now p =
     seq_pym (upsert_device dev [CUptime (uptime_s p), CReconnects (hb_reconnects p),
       CReportedConfig (hb_config_version p), CLastHeartbeat now, CLastSeen now])
     (seen dev)"

definition on_log :: "pystr \<Rightarrow> Header \<Rightarrow> Log \<Rightarrow> ('a server_scheme, unit) pym" where
  "on_log dev h p =
     bind_pym (add_log dev (level p) (message p) (Some (ts_ms h))) (\<lambda>row.
     seq_pym (bus_publish (EvLog row (level_name p))) (seen dev))"

definition on_config_ack :: "pystr \<Rightarrow> pyfloat \<Rightarrow> ConfigAck \<Rightarrow> ('a server_scheme, unit) pym" where
  "on_config_ack dev now p =
     (let status = ca_status_name p; applied = (status = lit ''applied'') in
      seq_pym (ack_config dev (ca_config_version p) status)
      (seq_pym (when_pym applied (upsert_device dev [CReportedConfig (ca_config_version p)]))
      (seq_pym (invalidate_config dev)
      (seq_pym (publish_device dev (ConfigAckEv (ca_config_version p) status) now)
       (log_only dev (if applied then 1 else 2)
         (lit ''CONFIG_ACK v'' @ py_str_int (ca_config_version p) @ lit '' '' @ status))))))"

definition on_fw_ack :: "pystr \<Rightarrow> pyfloat \<Rightarrow> FwAck \<Rightarrow> ('a server_scheme, unit) pym" where
  "on_fw_ack dev now p =
     bind_pym (db_get (fw_job_latest dev)) (\<lambda>job.
     seq_pym (case job of
         None \<Rightarrow> ret ()
       | Some j \<Rightarrow>
           when_pym (unfinished (j_status j))
             (seq_pym (fw_job_update (j_id j) (fa_status_name p))
              (bind_pym (db_get (fw_job_get (j_id j))) (\<lambda>j'. publish_device dev (FwJobEv j') now))))
     (log_only dev 1 (lit ''FW_ACK '' @ fa_status_name p @ lit '' '' @ fa_version p)))"

definition on_fault_ack :: "pystr \<Rightarrow> pyfloat \<Rightarrow> FaultAck \<Rightarrow> ('a server_scheme, unit) pym" where
  "on_fault_ack dev now p =
     seq_pym (fault_injection_ack dev (active_flags p))
     (publish_device dev (FaultAckEv (active_flags p) (flags_to_names (active_flags p))) now)"

text \<open>\<open>_dispatch\<close>: frames of other types, and those a device does not send, are ignored.\<close>

definition dispatch :: "Frame \<Rightarrow> ('a server_scheme, unit) pym" where
  "dispatch f =
     (let dev = device_id (header f); h = header f in
      bind_pym time_time (\<lambda>now.
      case payload f of
        Typed (PHello p) \<Rightarrow> on_hello dev h now p
      | Typed (PHeartbeat p) \<Rightarrow> on_heartbeat dev now p
      | Typed (PLog p) \<Rightarrow> on_log dev h p
      | Typed (PConfigAck p) \<Rightarrow> on_config_ack dev now p
      | Typed (PFwAck p) \<Rightarrow> on_fw_ack dev now p
      | Typed (PFaultAck p) \<Rightarrow> on_fault_ack dev now p
      | Typed (PTelemetry t) \<Rightarrow> handle_telemetry f t
      | _ \<Rightarrow> ret ()))"

text \<open>The connections: what the handler of connection \<open>w\<close> does when it starts, with a frame, a chunk, and at its end.\<close>

definition conn_of :: "nat \<Rightarrow> 'a server_scheme \<Rightarrow> conn" where
  "conn_of w s = (case map_of (conns s) w of Some k \<Rightarrow> k | None \<Rightarrow> conn_init)"

definition on_conn :: "nat \<Rightarrow> (conn \<Rightarrow> conn) \<Rightarrow> ('a server_scheme, unit) pym" where
  "on_conn w f = modify (\<lambda>s. s\<lparr>conns := AList.update w (f (conn_of w s)) (conns s)\<rparr>)"

definition tcp_accept :: "nat \<Rightarrow> ('a server_scheme, unit) pym" where
  "tcp_accept w = on_conn w (\<lambda>_. conn_init)"

definition tcp_frame :: "nat \<Rightarrow> Frame \<Rightarrow> ('a server_scheme, unit) pym" where
  "tcp_frame w f =
     (let dev = device_id (header f);
          count_it = seq_pym (modify (\<lambda>s. s\<lparr>total_frames := total_frames s + 1\<rparr>)) (dispatch f) in
      bind_pym (gets (\<lambda>s. k_dev (conn_of w s))) (\<lambda>k.
      case k of
        None \<Rightarrow> seq_pym (on_conn w (\<lambda>c. c\<lparr>k_dev := Some dev\<rparr>)) (seq_pym (register dev w) count_it)
      | Some d \<Rightarrow> when_pym (dev = d) count_it))"

definition close_writer :: "nat \<Rightarrow> ('a server_scheme, unit) pym" where
  "close_writer w = modify (\<lambda>s. s\<lparr>closed := List.insert w (closed s), conns := AList.delete w (conns s)\<rparr>)"

text \<open>The \<open>finally\<close> clause; a device with an empty identifier is not unregistered.\<close>

definition tcp_end :: "nat \<Rightarrow> ('a server_scheme, unit) pym" where
  "tcp_end w =
     bind_pym (gets (\<lambda>s. k_dev (conn_of w s))) (\<lambda>k.
     seq_pym (case k of
         None \<Rightarrow> ret ()
       | Some d \<Rightarrow>
           bind_pym (gets (\<lambda>s. map_of (writers s) d)) (\<lambda>v.
           when_pym (d \<noteq> [] \<and> v = Some w)
             (seq_pym (modify (\<lambda>s. s\<lparr>writers := AList.delete d (writers s)\<rparr>))
             (seq_pym (on_stat d (\<lambda>x. x\<lparr>tcp_connected := False\<rparr>))
              (bind_pym time_time (publish_device d TcpDisconnected))))))
     (close_writer w))"

text \<open>One \<open>read\<close>: nothing read is the end of the stream, and every exception ends the connection.\<close>

definition tcp_feed :: "nat \<Rightarrow> bytes \<Rightarrow> ('a server_scheme, unit) pym" where
  "tcp_feed w data =
     bind_pym (gets (\<lambda>s. feed (k_dec (conn_of w s)) data)) (\<lambda>(fs, e, d).
     seq_pym (on_conn w (\<lambda>c. c\<lparr>k_dec := d\<rparr>))
     (seq_pym (for_pym (tcp_frame w) fs) (case e of Some x \<Rightarrow> throw x | None \<Rightarrow> ret ())))"

definition tcp_read :: "nat \<Rightarrow> bytes \<Rightarrow> ('a server_scheme, unit) pym" where
  "tcp_read w data =
     (if data = [] then tcp_end w else catch_pym (\<lambda>_. True) (tcp_feed w data) (\<lambda>_. tcp_end w))"

section \<open>The end of the server\<close>

text \<open>
  \<open>stop\<close> awaits its two tasks after cancelling them: one that has ended with an exception before (\<open>ends\<close> holds
  one for each such task) makes it raise. It closes the sockets and waits for \<open>Server.wait_closed\<close>: on the
  Python of the project, as on every one from 3.12.1 on, that is until all connections are closed, which it does not
  close itself. Their handlers go on meanwhile; \<open>reads\<close> is what they read, in order, and without a result
  \<open>stop\<close> still waits after that. Only then are the writers closed and the statistics saved.
\<close>

fun await_tasks :: "pyexn option list \<Rightarrow> ('a server_scheme, unit) pym" where
  "await_tasks [] = ret ()"
| "await_tasks (e # es) = (case e of Some x \<Rightarrow> throw x | None \<Rightarrow> await_tasks es)"

definition all_closed :: "'a server_scheme \<Rightarrow> bool" where
  "all_closed s \<longleftrightarrow> list_all (\<lambda>(w, _). w \<in> set (closed s)) (conns s)"

fun wait_closed :: "(nat \<times> bytes) list \<Rightarrow> 'a server_scheme \<Rightarrow> 'a server_scheme option" where
  "wait_closed [] s = (if all_closed s then Some s else None)"
| "wait_closed (r # reads) s = (if all_closed s then Some s else wait_closed reads (snd (tcp_read (fst r) (snd r) s)))"

definition close_and_save :: "('a server_scheme, unit) pym" where
  "close_and_save =
     seq_pym (modify (\<lambda>s. s\<lparr>closed := fold (\<lambda>(_, w). List.insert w) (writers s) (closed s)\<rparr>)) persist_stats"

definition stop :: "pyexn option list \<Rightarrow> (nat \<times> bytes) list \<Rightarrow> 'a server_scheme \<Rightarrow> (unit res \<times> 'a server_scheme) option" where
  "stop ends reads s =
     (case await_tasks ends s of
        (Inl e, s') \<Rightarrow> Some (Inl e, s')
      | (Inr _, s') \<Rightarrow> (case wait_closed reads s' of None \<Rightarrow> None | Some s'' \<Rightarrow> Some (close_and_save s'')))"

section \<open>Views\<close>

definition count :: "('b \<Rightarrow> bool) \<Rightarrow> 'b list \<Rightarrow> int" where
  "count p xs = int (length (filter p xs))"

definition fleet_stats :: "'a server_scheme \<Rightarrow> sample res" where
  "fleet_stats s =
     (let ds = map snd (stats s) in
      rbind (rmap loss_pct (filter (\<lambda>d. frames_rx d \<noteq> 0) ds)) (\<lambda>losses.
      rbind (if losses = [] then Inr (Fin 0)
             else rbind (float_of_int (int (length losses))) (\<lambda>n.
                  rbind (fdiv (float_sum losses) n) (\<lambda>q. Inr (round_nd 2 q)))) (\<lambda>loss.
      Inr [(lit ''devices'', JInt (int (length (list_devices (wdb s))))), (lit ''devices_online'', JInt (count online ds)),
           (lit ''frames'', JInt (sum_list (map frames_rx ds))), (lit ''frames_total_rx'', JInt (total_frames s)),
           (lit ''bad_crc'', JInt (sum_list (map bad_crc ds) + global_bad_frames s)), (lit ''loss_pct'', JFloat loss),
           (lit ''tcp_connected'', JInt (count tcp_connected ds))])))"

end
