(* ===== verification/Ingest_Laws.thy ===== *)
theory Ingest_Laws
  imports Ingest
begin

text \<open>
  What the server promises about the frames it receives and sends: every datagram is counted once,
  under the right device and kind, whatever the rule engine does with it; accepted telemetry is
  stored once; what is sent to a device is a frame that the device can decode; and no handler of the ingest server changes a
  finished firmware job.
\<close>

section \<open>The server around the engine\<close>

text \<open>An operation of the engine changes none of the fields the server adds to it.\<close>

lemma more_fields:
  assumes "engine.more t = engine.more (s :: 'a server_scheme)"
  shows "stats t = stats s" "writers t = writers s" "conns t = conns s" "closed t = closed s" "broken t = broken s"
    "sent t = sent s" "latest t = latest s" "global_bad_frames t = global_bad_frames s" "total_frames t = total_frames s"
    "mclock t = mclock s"
  using assms by (cases s; cases t; simp)+

lemma around_fields:
  assumes "around_engine t = around_engine (s :: 'a server_scheme)"
  shows "stats t = stats s" "writers t = writers s" "conns t = conns s" "closed t = closed s" "broken t = broken s"
    "sent t = sent s" "latest t = latest s" "global_bad_frames t = global_bad_frames s" "total_frames t = total_frames s"
  using more_fields [of t s] assms by (simp_all add: around_engine_def)

lemma around_tables:
  assumes "around_engine t = around_engine s"
  shows "devices (wdb t) = devices (wdb s)" "tel_buf (wdb t) = tel_buf (wdb s)" "jobs_t (wdb t) = jobs_t (wdb s)"
    "job_id (wdb t) = job_id (wdb s)" "configs_t (wdb t) = configs_t (wdb s)" "firmware_t (wdb t) = firmware_t (wdb s)"
proof -
  have "other_tables (wdb t) = other_tables (wdb s)" using assms by (simp add: around_engine_def)
  then have "f (other_tables (wdb t)) = f (other_tables (wdb s))" for f :: "DB \<Rightarrow> 'c" by simp
  from this [of devices] this [of tel_buf] this [of jobs_t] this [of job_id] this [of configs_t] this [of firmware_t]
  show "devices (wdb t) = devices (wdb s)" "tel_buf (wdb t) = tel_buf (wdb s)" "jobs_t (wdb t) = jobs_t (wdb s)"
    "job_id (wdb t) = job_id (wdb s)" "configs_t (wdb t) = configs_t (wdb s)" "firmware_t (wdb t) = firmware_t (wdb s)"
    by (simp_all add: other_tables_def)
qed

lemma on_stat_app [pym_simps]:
  "on_stat dev f s = (Inr (), s\<lparr>stats := AList.update dev (f (stat_of dev s)) (stats s)\<rparr>)"
  by (simp add: on_stat_def pym_simps)

lemma stat_of_update:
  "stat_of d (s\<lparr>stats := AList.update dev x (stats s)\<rparr>) = (if d = dev then x else stat_of d s)"
  by (simp add: stat_of_def update_conv')

lemma stat_of_other [simp]:
  "stat_of d (s\<lparr>wdb := a\<rparr>) = stat_of d s" "stat_of d (s\<lparr>wreads := b\<rparr>) = stat_of d s" "stat_of d (s\<lparr>wbus := c\<rparr>) = stat_of d s"
  "stat_of d (s\<lparr>latest := e\<rparr>) = stat_of d s" "stat_of d (s\<lparr>total_frames := n\<rparr>) = stat_of d s"
  "stat_of d (s\<lparr>global_bad_frames := n\<rparr>) = stat_of d s" "stat_of d (s\<lparr>sent := l\<rparr>) = stat_of d s"
  by (simp_all add: stat_of_def)

section \<open>What the handlers keep\<close>

text \<open>
  A relation respected by the engine, by changes of the statistics other than the two frame
  counters, and by changes of the last samples, the device table and the telemetry buffer is
  respected by everything \<open>handle_telemetry\<close> does after counting the frame.
\<close>

locale server_order = state_order R for R :: "'a server_scheme \<Rightarrow> 'a server_scheme \<Rightarrow> bool" +
  assumes S_engine: "around_engine t = around_engine s \<Longrightarrow> R s t"
    and S_stat: "(\<And>d. frames_rx (f d) = frames_rx d \<and> bad_crc (f d) = bad_crc d) \<Longrightarrow> steps_by R (on_stat dev f)"
    and S_latest: "R s (s\<lparr>latest := l\<rparr>)"
    and S_devices: "R s (s\<lparr>wdb := (wdb s)\<lparr>devices := ds\<rparr>\<rparr>)"
begin

lemma sv_engine: "steps_by (\<lambda>s t. around_engine t = around_engine s) m \<Longrightarrow> steps_by R m"
  by (simp add: steps_by_def S_engine)

lemma sv_time: "steps_by R time_time"
  by (rule sv_engine) (rule around.ev_time)

lemma sv_db_get: "steps_by R (db_get f)"
  by (rule sv_engine) (rule around.ev_db_get)

lemma sv_publish: "steps_by R (bus_publish e)"
  by (rule sv_engine) (rule around.ev_publish)

lemma sv_publish_device: "steps_by R (publish_device dev e now)"
  unfolding publish_device_def by (intro so_intros sv_publish)

lemma sv_db_devices: "(\<And>db. \<exists>ds. f db = db\<lparr>devices := ds\<rparr>) \<Longrightarrow> steps_by R (db_mod f)"
  unfolding db_mod_def by (rule so_modify) (metis S_devices)

lemma sv_set_online: "steps_by R (set_online dev b)"
  unfolding set_online_def by (rule sv_db_devices) blast

lemma sv_upsert: "steps_by R (upsert_device dev cols)"
  unfolding upsert_device_def by (intro so_intros sv_time sv_db_devices) (auto split: option.splits)

lemma sv_latest: "steps_by R (set_latest dev d)"
  unfolding set_latest_def by (intro so_modify S_latest)

lemma sv_bus_telemetry: "steps_by R (bus_telemetry dev d)"
  unfolding steps_by_def by (intro allI S_engine) (simp add: bus_telemetry_def around_engine_def split: prod.splits)

lemma sv_set_online_state: "steps_by R (set_online_state dev b)"
  unfolding set_online_state_def
  by (intro so_intros sv_time sv_set_online sv_publish_device S_stat sv_engine [OF around.en_on_online]
      sv_engine [OF around.ev_on_offline]) simp_all

lemma sv_seen: "steps_by R (seen dev)"
  unfolding seen_def by (intro so_intros sv_time sv_set_online_state S_stat) simp_all

lemmas sv_intros = so_intros sv_time sv_db_get sv_publish sv_publish_device sv_upsert sv_latest
  sv_bus_telemetry sv_set_online_state sv_seen sv_engine [OF around.ev_on_telemetry] sv_engine [OF around.ev_invalidate]
  sv_engine [OF around.en_tick]

end

section \<open>Every datagram is counted once\<close>

text \<open>What a datagram is, to the counters.\<close>

datatype arrival = Unattributed | Corrupt pystr | Sample pystr | Ignored

definition arrival :: "bytes \<Rightarrow> arrival" where
  "arrival data =
     (case Header_unpack data of
        Inl _ \<Rightarrow> Unattributed
      | Inr h \<Rightarrow> (case decode data of
          Inl _ \<Rightarrow> Corrupt (device_id h)
        | Inr f \<Rightarrow> if msg_type h = mt_val TELEMETRY then Sample (device_id h) else Ignored))"

definition counters :: "'a server_scheme \<Rightarrow> int \<times> int \<times> (pystr \<Rightarrow> int \<times> int)" where
  "counters s = (total_frames s, global_bad_frames s, \<lambda>dev. (frames_rx (stat_of dev s), bad_crc (stat_of dev s)))"

interpretation counting: server_order "\<lambda>s t. counters t = counters s"
proof
  show "counters t = counters s" if "around_engine t = around_engine s" for s t :: "'a server_scheme"
    using around_fields [OF that] by (simp add: counters_def stat_of_def)
  show "steps_by (\<lambda>s t. counters t = counters s) (on_stat dev f)"
    if "\<And>d. frames_rx (f d) = frames_rx d \<and> bad_crc (f d) = bad_crc d" for f dev
    using that by (simp add: steps_by_def counters_def on_stat_app stat_of_update fun_eq_iff)
qed (simp_all add: counters_def)

lemma counting_buffer: "steps_by (\<lambda>s t. counters t = counters s) (buffer_telemetry r)"
  by (simp add: steps_by_def counters_def buffer_telemetry_def pym_simps db_mod_def)

lemma note_seq_counters [simp]: "frames_rx (note_seq d q) = frames_rx d" "bad_crc (note_seq d q) = bad_crc d"
  by (simp_all add: note_seq_def Let_def split: option.splits)

text \<open>What \<open>handle_telemetry\<close> does after counting.\<close>

lemma counting_seq:
  "steps_by (\<lambda>s t. counters t = counters s) m \<Longrightarrow> counters (snd (seq_pym (on_stat dev g) m s)) =
     counters (s\<lparr>stats := AList.update dev (g (stat_of dev s)) (stats s)\<rparr>)"
  by (simp add: steps_by_def seq_app on_stat_app)

lemma handle_telemetry_counters:
  "counters (snd (handle_telemetry f t s)) =
   counters (s\<lparr>stats := AList.update (device_id (header f))
     (let d = stat_of (device_id (header f)) s in d\<lparr>frames_rx := frames_rx d + 1\<rparr>) (stats s)\<rparr>)"
  unfolding handle_telemetry_def Let_def
  by (rule trans [OF counting_seq], (intro counting.sv_intros counting_buffer counting.S_stat; simp),
      simp add: counters_def stat_of_update fun_eq_iff)

lemma decode_telemetry:
  assumes "decode data = Inr f" "msg_type (header f) = mt_val TELEMETRY"
  shows "\<exists>t. payload f = Typed (PTelemetry t)"
proof -
  obtain h n where h: "Header_unpack data = Inr h" "header f = h" "n = HEADER_LEN + nat (payload_len h)" "n + 4 \<le> length data"
    using decode_ok [OF assms(1)] by metis
  have "map_of PAYLOAD_CLASSES (mt_val TELEMETRY) = Some (\<lambda>b. res_map PTelemetry (Telemetry_unpack b))"
    by (simp add: PAYLOAD_CLASSES_def)
  with assms decode_unfold [OF h(1,3,4)] h(2) show ?thesis
    by (auto simp: res_map_def rbind_Inr_iff split: if_splits) (metis Frame.select_convs(2))
qed

definition bump :: "arrival \<Rightarrow> int \<times> int \<times> (pystr \<Rightarrow> int \<times> int) \<Rightarrow> int \<times> int \<times> (pystr \<Rightarrow> int \<times> int)" where
  "bump a c = (case c of (n, m, per) \<Rightarrow>
     (n + 1, m + of_bool (a = Unattributed),
      \<lambda>dev. (fst (per dev) + of_bool (a = Sample dev), snd (per dev) + of_bool (a = Corrupt dev))))"

lemma on_datagram_counters: "counters (snd (on_datagram data s)) = bump (arrival data) (counters s)"
proof (cases "Header_unpack data")
  case (Inl e)
  then have "is_protocol_error e" using decode_error [OF decode_bad_header [OF Inl]] by auto
  with Inl show ?thesis
    by (simp add: on_datagram_def pym_simps arrival_def counters_def bump_def)
next
  case (Inr h)
  note hdr = this
  show ?thesis
  proof (cases "decode data")
    case (Inl e)
    then have "is_protocol_error e" using decode_error [OF Inl] by auto
    with hdr Inl show ?thesis
      by (simp add: on_datagram_def pym_simps arrival_def counters_def bump_def stat_of_def update_conv' fun_eq_iff)
  next
    case (Inr f)
    then have f: "header f = h" using hdr decode_ok by (metis sum.inject(2))
    show ?thesis
    proof (cases "msg_type h = mt_val TELEMETRY")
      case True
      then obtain t where "payload f = Typed (PTelemetry t)" using decode_telemetry [OF Inr] f by auto
      with True hdr Inr f show ?thesis
        by (simp add: on_datagram_def pym_simps arrival_def handle_telemetry_counters)
          (simp add: counters_def bump_def stat_of_def update_conv' Let_def fun_eq_iff)
    next
      case False
      with hdr Inr f show ?thesis
        by (simp add: on_datagram_def pym_simps arrival_def counters_def bump_def stat_of_def update_conv' fun_eq_iff)
    qed
  qed
qed

lemma datagram_received_app: "datagram_received data s = (Inr (), snd (on_datagram data s))"
  by (simp add: datagram_received_def pym_simps split: sum.splits)

definition received :: "bytes list \<Rightarrow> 'a server_scheme \<Rightarrow> 'a server_scheme" where
  "received ds s = fold (\<lambda>d s. snd (datagram_received d s)) ds s"

lemma received_counters: "counters (received ds s) = fold (\<lambda>d. bump (arrival d)) ds (counters s)"
  by (induction ds arbitrary: s) (simp_all add: received_def datagram_received_app on_datagram_counters)

lemma bumps: "fold (\<lambda>d. bump (arrival d)) ds (n, m, per) =
    (n + int (length ds), m + count (\<lambda>d. arrival d = Unattributed) ds,
     \<lambda>dev. (fst (per dev) + count (\<lambda>d. arrival d = Sample dev) ds, snd (per dev) + count (\<lambda>d. arrival d = Corrupt dev) ds))"
  by (induction ds arbitrary: n m per) (auto simp: bump_def count_def fun_eq_iff)


section \<open>Accepted telemetry is stored once\<close>

interpretation buffering: server_order "\<lambda>s t. tel_buf (wdb t) = tel_buf (wdb s)"
proof
  show "steps_by (\<lambda>s t. tel_buf (wdb t) = tel_buf (wdb s)) (on_stat dev f)" for dev f
    by (simp add: steps_by_def on_stat_app)
  show "tel_buf (wdb t) = tel_buf (wdb s)" if "around_engine t = around_engine s" for s t :: "'a server_scheme"
    by (rule around_tables(2) [OF that])
qed simp_all

lemma buffering_seq:
  "steps_by (\<lambda>s t. tel_buf (wdb t) = tel_buf (wdb s)) n \<Longrightarrow>
   tel_buf (wdb (snd (seq_pym (buffer_telemetry r) n s))) = tel_buf (wdb s) @ [r]"
  by (simp add: steps_by_def seq_app buffer_telemetry_def db_mod_def modify_app)

text \<open>The first step of code that cannot raise.\<close>

lemma seq_first: "m s = (Inr x, s') \<Longrightarrow> seq_pym m n s = n s'"
  by (simp add: seq_app)

lemma bind_first: "m s = (Inr x, s') \<Longrightarrow> bind_pym m f s = f x s'"
  by (simp add: bind_app)

lemma set_latest_app: "set_latest dev d s = (Inr (), s\<lparr>latest := AList.update dev d (latest s)\<rparr>)"
  by (simp add: set_latest_def modify_app)

lemma bind_of_res: "bind_pym (of_res (Inr x)) f s = f x s" and bind_gets: "bind_pym (gets g) f s = f (g s) s"
  by (simp_all add: bind_app of_res_app gets_app)

lemma bind_seq_assoc: "bind_pym m (\<lambda>x. seq_pym (f x) n) = seq_pym (bind_pym m f) n"
  by (simp add: fun_eq_iff seq_app bind_app split: sum.splits)

lemma seq_set_latest: "seq_pym (set_latest dev d) n s = n (s\<lparr>latest := AList.update dev d (latest s)\<rparr>)"
  by (simp add: seq_app set_latest_app)

lemma u64_float:
  assumes "u64 i"
  shows "\<exists>x. float_of_int i = Inr (Fin x)"
proof -
  have b: "is_f64 (Fin 0)" "is_f64 (Fin 18446744073709551616)" by code_simp+
  have "0 \<le> (of_int i :: rat)" "of_int i \<le> (18446744073709551616 :: rat)" using assms by simp_all
  from rnd64_between [OF b(1) _ b(2) this] show ?thesis by (auto simp: float_of_int_def)
qed

lemma handle_telemetry_buffers:
  assumes "u64 (ts_ms (header f))" "dev = device_id (header f)" "window_ok (window (stat_of dev s))"
    "now = wclock s (wreads s)" "Database.iso now = Inr now_iso"
  shows "tel_buf (wdb (snd (handle_telemetry f t s))) = tel_buf (wdb s) @ [tel_row dev now (seq (header f)) t]"
proof -
  obtain ms where ms: "float_of_int (ts_ms (header f)) = Inr ms" using u64_float [OF assms(1)] by blast
  let ?g = "\<lambda>d. note_seq (d\<lparr>frames_rx := frames_rx d + 1\<rparr>) (seq (header f))"
    and ?h = "\<lambda>d. d\<lparr>transit_ms := Some (round_nd 1 (fsub (fmul now (Fin 1000)) ms))\<rparr>"
  obtain s1 where s1: "on_stat dev ?g s = (Inr (), s1)" "s1 = s\<lparr>stats := AList.update dev (?g (stat_of dev s)) (stats s)\<rparr>"
    by (simp add: on_stat_app)
  obtain s2 where s2: "time_time s1 = (Inr now, s2)" "s2 = s1\<lparr>wreads := wreads s + 1\<rparr>"
    by (simp add: time_time_app s1(2) assms(4))
  obtain s3 where s3: "on_stat dev ?h s2 = (Inr (), s3)" "s3 = s2\<lparr>stats := AList.update dev (?h (stat_of dev s2)) (stats s2)\<rparr>"
    by (simp add: on_stat_app)
  have "window_ok (window (note_seq d q))" if "window_ok (window d)" for d q
    using that note_seq_ok [of "d\<lparr>seq_gaps := 0, frames_rx := 0, bad_crc := 0, reconnects := 0, tx_seq := 0\<rparr>" q]
    by (auto simp: stats_ok_def note_seq_def Let_def split: option.splits if_splits)
  then have "window_ok (window (stat_of dev s3))"
    using assms(3) by (simp add: s1(2) s2(2) s3(2) stat_of_def update_conv')
  then obtain loss where loss: "loss_pct (stat_of dev s3) = Inr loss" using loss_pct_range_aux by blast
  have b: "tel_buf (wdb s3) = tel_buf (wdb s)" by (simp add: s1(2) s2(2) s3(2))
  show ?thesis
    unfolding handle_telemetry_def Let_def assms(2) [symmetric] seq_first [of "on_stat dev ?g" s, OF s1(1)] bind_first [of time_time s1, OF s2(1)] ms
      bind_of_res [of ms] seq_first [of "on_stat dev ?h" s2, OF s3(1)] assms(5) bind_of_res [of now_iso] bind_gets [of _ _ s3] loss
      bind_of_res [of loss] seq_set_latest [of _ _ _ s3]
    by (rule trans [OF buffering_seq], intro buffering.sv_intros buffering.S_stat) (simp_all add: b)
qed


section \<open>Every handler\<close>

text \<open>
  A relation that all other changes the server makes respect too, the update of a firmware job that
  is not finished among them, is respected by every handler.
\<close>

locale wire_order = server_order R for R :: "'a server_scheme \<Rightarrow> 'a server_scheme \<Rightarrow> bool" +
  assumes W_buf: "R s (s\<lparr>wdb := (wdb s)\<lparr>tel_buf := b\<rparr>\<rparr>)"
    and W_logs: "R s (s\<lparr>wdb := (wdb s)\<lparr>log_id := i, logs_t := l\<rparr>\<rparr>)"
    and W_configs: "R s (s\<lparr>wdb := (wdb s)\<lparr>configs_t := c\<rparr>\<rparr>)"
    and W_injections: "R s (s\<lparr>wdb := (wdb s)\<lparr>injections_t := j\<rparr>\<rparr>)"
    and W_stat_rows: "R s (s\<lparr>wdb := (wdb s)\<lparr>stats_t := r\<rparr>\<rparr>)"
    and W_stats: "R s (s\<lparr>stats := x\<rparr>)" and W_writers: "R s (s\<lparr>writers := w\<rparr>)" and W_conns: "R s (s\<lparr>conns := k\<rparr>)"
    and W_closed: "R s (s\<lparr>closed := d\<rparr>)" and W_sent: "R s (s\<lparr>sent := p\<rparr>)"
    and W_total: "R s (s\<lparr>total_frames := n\<rparr>)" and W_bad: "R s (s\<lparr>global_bad_frames := n\<rparr>)"
    and W_job: "fw_job_latest dev (wdb s) = Some job \<Longrightarrow> unfinished (j_status job) \<Longrightarrow>
      R s (snd (fw_job_update (j_id job) status s))"
begin

lemma wi_stat: "steps_by R (on_stat dev f)"
  by (simp add: steps_by_def on_stat_app W_stats)

lemma wi_buffer: "steps_by R (buffer_telemetry r)"
  unfolding buffer_telemetry_def db_mod_def by (intro so_modify W_buf)

lemma wi_log: "steps_by R (add_log dev lvl msg t)"
  unfolding add_log_def db_mod_def by (intro sv_intros W_logs)

lemma wi_log_only: "steps_by R (log_only dev lvl msg)"
  unfolding log_only_def by (intro sv_intros wi_log)

lemma wi_handle_telemetry: "steps_by R (handle_telemetry f t)"
  unfolding handle_telemetry_def by (intro sv_intros wi_stat wi_buffer)

lemma wi_datagram: "steps_by R (datagram_received data)"
  unfolding datagram_received_def on_datagram_def
  by (intro sv_intros wi_stat wi_handle_telemetry W_total)
    (auto split: sum.splits body.splits Payload.splits intro!: sv_intros wi_stat wi_handle_telemetry W_bad)

lemma wi_send: "steps_by R (send dev p)"
  unfolding send_def write_frame_def by (intro sv_intros wi_stat W_sent)

lemma wi_push_config: "steps_by R (push_config dev c)"
  unfolding push_config_def set_ack_status_def db_mod_def by (intro sv_intros wi_send W_configs)

lemma wi_pushes: "steps_by R (push_fw dev fw)" "steps_by R (push_fault dev a b c)" "steps_by R (push_cmd dev n)"
  unfolding push_fw_def push_fault_def push_cmd_def by (rule wi_send)+

text \<open>A job that was looked up, and is not finished, may be updated.\<close>

lemma wi_job:
  assumes "\<And>job. steps_by R (m job)" and n: "\<And>job. steps_by R (n job)"
  shows "steps_by R (bind_pym (db_get (fw_job_latest dev)) (\<lambda>job. case job of None \<Rightarrow> ret ()
    | Some j \<Rightarrow> when_pym (unfinished (j_status j)) (if c j then seq_pym (fw_job_update (j_id j) status) (m j) else n j)))"
  unfolding steps_by_def
proof
  fix s
  show "R s (snd (bind_pym (db_get (fw_job_latest dev)) (\<lambda>job. case job of None \<Rightarrow> ret ()
    | Some j \<Rightarrow> when_pym (unfinished (j_status j)) (if c j then seq_pym (fw_job_update (j_id j) status) (m j) else n j)) s))"
  proof (cases "fw_job_latest dev (wdb s)")
    case (Some j)
    have "R s (snd (seq_pym (fw_job_update (j_id j) status) (m j) s))" if "unfinished (j_status j)"
      using W_job [OF Some that, of status] steps_byD [OF assms(1) [of j]] trans_R
      by (auto simp: seq_app split: sum.splits)
    with Some steps_byD [OF n [of j], of s] show ?thesis
      by (auto simp: db_get_def bind_gets when_app refl_R)
  qed (simp add: db_get_def bind_gets ret_app refl_R)
qed

lemma wi_resume_job: "steps_by R (resume_job dev hello)"
  unfolding resume_job_def by (rule wi_job) (intro sv_intros wi_send)+

lemma wi_after_hello: "steps_by R (after_hello dev hello)"
  unfolding after_hello_def by (intro sv_intros wi_push_config wi_resume_job)

lemma wi_hello: "steps_by R (on_hello dev h now p)"
  unfolding on_hello_def by (intro sv_intros wi_log_only wi_after_hello)

lemma wi_heartbeat: "steps_by R (on_heartbeat dev now p)"
  unfolding on_heartbeat_def by (intro sv_intros)

lemma wi_on_log: "steps_by R (on_log dev h p)"
  unfolding on_log_def by (intro sv_intros wi_log)

lemma wi_config_ack: "steps_by R (on_config_ack dev now p)"
  unfolding on_config_ack_def ack_config_def db_mod_def by (intro sv_intros wi_log_only W_configs)

lemma wi_fw_ack: "steps_by R (on_fw_ack dev now p)"
  unfolding on_fw_ack_def bind_seq_assoc
  by (intro so_seq wi_log_only wi_job [where c = "\<lambda>_. True" and n = "\<lambda>_. ret ()", unfolded if_True] sv_intros)

lemma wi_fault_ack: "steps_by R (on_fault_ack dev now p)"
  unfolding on_fault_ack_def fault_injection_ack_def db_mod_def
  by (intro sv_intros) (auto split: option.splits intro: refl_R W_injections)

lemma wi_dispatch: "steps_by R (dispatch f)"
  unfolding dispatch_def Let_def
  by (rule so_bind [OF sv_time]) (auto split: body.splits Payload.splits intro!: so_ret wi_hello wi_heartbeat wi_on_log
      wi_config_ack wi_fw_ack wi_fault_ack wi_handle_telemetry)

lemma wi_register: "steps_by R (register dev w)"
  unfolding register_def by (intro sv_intros wi_stat W_closed W_writers)

lemma wi_conn: "steps_by R (on_conn w f)"
  unfolding on_conn_def by (intro so_modify W_conns)

lemma wi_tcp_accept: "steps_by R (tcp_accept w)"
  unfolding tcp_accept_def by (rule wi_conn)

lemma wi_tcp_frame: "steps_by R (tcp_frame w f)"
  unfolding tcp_frame_def Let_def by (intro sv_intros wi_conn wi_register wi_dispatch W_total)

lemma wi_tcp_end: "steps_by R (tcp_end w)"
  unfolding tcp_end_def close_writer_def
  by (intro sv_intros wi_stat W_writers) (rule trans_R [OF W_closed W_conns])

lemma wi_tcp_read: "steps_by R (tcp_read w data)"
  unfolding tcp_read_def tcp_feed_def by (intro sv_intros wi_conn wi_tcp_frame wi_tcp_end)

lemma wi_offline_sweep: "steps_by R offline_sweep"
  unfolding offline_sweep_def sweep_stat_def sweep_row_def by (intro sv_intros)

lemma wi_stats_round: "steps_by R stats_round"
  unfolding stats_round_def persist_stats_def save_stats_def db_mod_def
  by (intro sv_intros) (simp add: Let_def W_stat_rows)

end


section \<open>Firmware jobs\<close>

text \<open>A job only moves forward: what it is about is fixed, its history grows, and once finished it stays as it is.\<close>

definition job_le :: "FwJob \<Rightarrow> FwJob \<Rightarrow> bool" where
  "job_le j j' \<longleftrightarrow> j_id j' = j_id j \<and> j_dev j' = j_dev j \<and> j_target j' = j_target j \<and> j_from j' = j_from j
     \<and> j_created_at j' = j_created_at j \<and> prefix (j_history j) (j_history j') \<and> (unfinished (j_status j) \<or> j' = j)"

definition jobs_ok :: "DB \<Rightarrow> bool" where
  "jobs_ok db \<longleftrightarrow> ids_ok j_id (jobs_t db) (job_id db)"

definition jobs_le :: "DB \<Rightarrow> DB \<Rightarrow> bool" where
  "jobs_le db db' \<longleftrightarrow> jobs_ok db \<longrightarrow> jobs_ok db' \<and> length (jobs_t db) \<le> length (jobs_t db')
     \<and> (\<forall>i<length (jobs_t db). job_le (jobs_t db ! i) (jobs_t db' ! i))"

lemma job_le_refl [simp]: "job_le j j"
  by (simp add: job_le_def)

lemma job_le_trans: "job_le a b \<Longrightarrow> job_le b c \<Longrightarrow> job_le a c"
  unfolding job_le_def by (auto intro: prefix_order.trans)

lemma jobs_le_same: "jobs_t db' = jobs_t db \<Longrightarrow> job_id db' = job_id db \<Longrightarrow> jobs_le db db'"
  by (simp add: jobs_le_def jobs_ok_def)

lemma jobs_le_trans:
  assumes "jobs_le a b" "jobs_le b c"
  shows "jobs_le a c"
  unfolding jobs_le_def
proof (intro impI conjI allI)
  assume ok: "jobs_ok a"
  with assms have b: "jobs_ok b" "length (jobs_t a) \<le> length (jobs_t b)" "\<forall>i<length (jobs_t a). job_le (jobs_t a ! i) (jobs_t b ! i)"
    by (simp_all add: jobs_le_def)
  with assms have c: "jobs_ok c" "length (jobs_t b) \<le> length (jobs_t c)" "\<forall>i<length (jobs_t b). job_le (jobs_t b ! i) (jobs_t c ! i)"
    by (simp_all add: jobs_le_def)
  then show "jobs_ok c" "length (jobs_t a) \<le> length (jobs_t c)" using b by simp_all
  show "job_le (jobs_t a ! i) (jobs_t c ! i)" if "i < length (jobs_t a)" for i
  proof -
    have "job_le (jobs_t a ! i) (jobs_t b ! i)" "job_le (jobs_t b ! i) (jobs_t c ! i)" using that b c by simp_all
    then show ?thesis by (rule job_le_trans)
  qed
qed

lemma fw_job_update_le:
  assumes "j \<in> set (jobs_t (wdb s))" "unfinished (j_status j)"
  shows "jobs_le (wdb s) (wdb (snd (fw_job_update (j_id j) status s)))"
proof (cases "jobs_ok (wdb s)")
  case True
  let ?js = "jobs_t (wdb s)"
  have u: "k = j" if "k \<in> set ?js" "j_id k = j_id j" for k
    using ids_ok_inj [of j_id ?js "job_id (wdb s)" k j] True assms(1) that by (simp add: jobs_ok_def)
  have "fw_job_get (j_id j) (wdb s) \<noteq> None" using assms(1) by (auto simp: fw_job_get_def filter_empty_conv)
  then obtain k where "fw_job_get (j_id j) (wdb s) = Some k" by blast
  moreover from this have "k = j" using u by (auto simp: fw_job_get_def dest: first_row_in)
  ultimately have g: "fw_job_get (j_id j) (wdb s) = Some j" by simp
  let ?f = "\<lambda>k. k\<lparr>j_status := status, j_updated_at := wclock s (wreads s), j_history := j_history j @ [(status, wclock s (wreads s))]\<rparr>"
  have e: "jobs_t (wdb (snd (fw_job_update (j_id j) status s))) = sql_update (\<lambda>k. j_id k = j_id j) ?f ?js"
    "job_id (wdb (snd (fw_job_update (j_id j) status s))) = job_id (wdb s)"
    using g by (simp_all add: fw_job_update_def pym_simps db_mod_def)
  have "job_le (?js ! i) (sql_update (\<lambda>k. j_id k = j_id j) ?f ?js ! i)" if "i < length ?js" for i
    using that u [of "?js ! i"] assms(2) by (auto simp: sql_update_def job_le_def)
  moreover have "ids_ok j_id (sql_update (\<lambda>k. j_id k = j_id j) ?f ?js) (job_id (wdb s))"
    using True by (subst ids_ok_update) (simp_all add: jobs_ok_def)
  ultimately show ?thesis by (simp add: jobs_le_def jobs_ok_def e)
qed (simp add: jobs_le_def)

interpretation jobs: wire_order "\<lambda>s t. jobs_le (wdb s) (wdb t)"
proof
  show "jobs_le (wdb s) (wdb t)" if "around_engine t = around_engine s" for s t :: "'a server_scheme"
    using around_tables [OF that] by (intro jobs_le_same) simp_all
  show "jobs_le (wdb s) (wdb u)" if "jobs_le (wdb s) (wdb t)" "jobs_le (wdb t) (wdb u)" for s t u :: "'a server_scheme"
    using that by (rule jobs_le_trans)
  show "jobs_le (wdb s) (wdb (snd (fw_job_update (j_id job) status s)))"
    if "fw_job_latest dev (wdb s) = Some job" "unfinished (j_status job)" for s :: "'a server_scheme" and dev job status
    using that first_row_filter(1) by (intro fw_job_update_le) (auto simp: fw_job_latest_def)
  show "steps_by (\<lambda>s t. jobs_le (wdb s) (wdb t)) (on_stat dev f)" for dev f
    by (simp add: steps_by_def on_stat_app jobs_le_same)
qed (simp_all add: jobs_le_same)

section \<open>Runs of the server\<close>

text \<open>
  One thing that happens to the ingest server: an input from the network, a round of a task, or a message for a device. The
  frames of one read are also steps of their own, and so is what a hello leaves to do after its configuration
  was pushed, since the handler of another connection may run while this one waits for a writer.
\<close>

inductive ingest_step :: "'a server_scheme \<Rightarrow> 'a server_scheme \<Rightarrow> bool" where
  sv_datagram: "ingest_step s (snd (datagram_received data s))"
| sv_tcp: "ingest_step s (snd (tcp_read w data s))"
| sv_accept: "ingest_step s (snd (tcp_accept w s))"
| sv_frame: "ingest_step s (snd (tcp_frame w f s))"
| sv_dispatch: "ingest_step s (snd (dispatch f s))"
| sv_resume: "ingest_step s (snd (resume_job dev hello s))"
| sv_end: "ingest_step s (snd (tcp_end w s))"
| sv_offline: "ingest_step s (snd (offline_sweep s))"
| sv_stats: "ingest_step s (snd (stats_round s))"
| sv_push_config: "ingest_step s (snd (push_config dev c s))"
| sv_push_fw: "ingest_step s (snd (push_fw dev fw s))"
| sv_push_fault: "ingest_step s (snd (push_fault dev a b ms s))"
| sv_push_cmd: "ingest_step s (snd (push_cmd dev n s))"
| sv_rules: "ingest_step s (snd (set_rules r s))"
| sv_network: "ingest_step s (s\<lparr>broken := b\<rparr>)"

context wire_order
begin

lemma wi_step:
  assumes "ingest_step s s'" "\<And>s b. R s (s\<lparr>broken := b\<rparr>)"
  shows "R s s'"
  using assms(1)
proof cases
  case (sv_rules r)
  show ?thesis unfolding sv_rules by (rule steps_byD, rule sv_engine, rule around.R_rules)
qed (simp add: assms(2) | rule steps_byD,
     rule wi_datagram wi_tcp_read wi_tcp_accept wi_tcp_frame wi_dispatch wi_resume_job wi_tcp_end wi_offline_sweep wi_stats_round wi_push_config wi_pushes)+

lemma wi_steps:
  assumes "ingest_step\<^sup>*\<^sup>* s s'" "\<And>s b. R s (s\<lparr>broken := b\<rparr>)"
  shows "R s s'"
  using assms(1)
proof (induction rule: rtranclp_induct)
  case (step y z)
  from step.IH wi_step [OF step.hyps(2) assms(2)] show ?case by (rule trans_R)
qed (rule refl_R)

end

section \<open>Sending\<close>

lemma encoded_decodes:
  assumes "payload_ok p"
  shows "\<exists>fb f. encode (mt_val (payload_type p)) dev sq ts fw (Typed p) = Inr fb \<and> decode fb = Inr f \<and> payload f = Typed p
    \<and> raw f = fb \<and> msg_type (header f) = mt_val (payload_type p) \<and> device_id (header f) = cstr (pad dev 12)
    \<and> seq (header f) = sq mod 2 ^ 32 \<and> ts_ms (header f) = ts mod 2 ^ 64"
proof (rule frame_roundtrip [OF assms, of dev sq ts fw])
  fix fb b
  assume "encode (mt_val (payload_type p)) dev sq ts fw (Typed p) = Inr fb"
    and d: "\<And>r. decode (fb @ r) = Inr \<lparr>header = \<lparr>msg_type = mt_val (payload_type p), device_id = cstr (pad dev 12),
        seq = sq mod 2 ^ 32, ts_ms = ts mod 2 ^ 64, fw_version = fw mod 2 ^ 32,
        payload_len = int (length b), hversion = VERSION\<rparr>, payload = Typed p, raw = fb\<rparr>"
  with d [of "[]"] show ?thesis by simp
qed

lemma send_effect:
  assumes "map_of (writers s) dev = Some w" "w \<notin> set (closed s)" "payload_ok p" "cfield 12 dev"
    "int_of_float (fmul (wclock s (wreads s)) (Fin 1000)) = Inr ms"
  shows "\<exists>fb f. decode fb = Inr f \<and> payload f = Typed p \<and> raw f = fb \<and> device_id (header f) = dev
    \<and> seq (header f) = (tx_seq (stat_of dev s) + 1) mod 2 ^ 32
    \<and> send dev p s = (Inr (w \<notin> set (broken s)),
        s\<lparr>stats := AList.update dev ((stat_of dev s)\<lparr>tx_seq := tx_seq (stat_of dev s) + 1\<rparr>) (stats s),
          wreads := wreads s + 1, sent := sent s @ (if w \<in> set (broken s) then [] else [(w, fb)])\<rparr>)"
proof -
  let ?fw = "case get_device dev (wdb s) of Some r \<Rightarrow> (case d_fw_version_u32 r of Some v \<Rightarrow> v | None \<Rightarrow> 0) | None \<Rightarrow> 0"
  obtain fb f where f: "encode (mt_val (payload_type p)) dev (tx_seq (stat_of dev s) + 1) ms ?fw (Typed p) = Inr fb"
    and d: "decode fb = Inr f" "payload f = Typed p" "raw f = fb" "device_id (header f) = dev"
      "seq (header f) = (tx_seq (stat_of dev s) + 1) mod 2 ^ 32"
    using encoded_decodes [OF assms(3), of dev "tx_seq (stat_of dev s) + 1" ms ?fw] cstr_pad [OF assms(4)] by auto
  have "send dev p s = (Inr (w \<notin> set (broken s)),
        s\<lparr>stats := AList.update dev ((stat_of dev s)\<lparr>tx_seq := tx_seq (stat_of dev s) + 1\<rparr>) (stats s),
          wreads := wreads s + 1, sent := sent s @ (if w \<in> set (broken s) then [] else [(w, fb)])\<rparr>)"
    using assms(1,2,5) f by (simp add: send_def write_frame_def pym_simps stat_of_update Let_def)
  with d show ?thesis by blast
qed

lemma send_refused: "map_of (writers s) dev = None \<or> the (map_of (writers s) dev) \<in> set (closed s) \<Longrightarrow> send dev p s = (Inr False, s)"
  by (auto simp: send_def pym_simps split: option.splits)

section \<open>Properties\<close>

definition sample_server :: server where
  "sample_server = \<lparr>wclock = (\<lambda>n. Fin (1000 + of_nat n)), wreads = 0, wdb = DB_init (Fin 24), wbus = EventBus_init 1000,
     rules = DEFAULT_RULES, devs = [], config_cache = [], hw_cache = [], mclock = (\<lambda>n. Fin (1000 + of_nat n)), stats = [],
     writers = [(lit ''ECU-1'', 7)], conns = [(7, \<lparr>k_dec = StreamDecoder_init, k_dev = Some (lit ''ECU-1'')\<rparr>)],
     closed = [], broken = [], sent = [], latest = [], global_bad_frames = 0, total_frames = 0, started_at = Fin 0\<rparr>"

text \<open>
  C20. Every datagram is counted exactly once: after any sequence of datagrams the total has grown by
  their number, \<open>global_bad_frames\<close> by the number whose header is not readable, and for each device
  \<open>bad_crc\<close> by the number of datagrams that carry its identifier but do not decode and \<open>frames_rx\<close> by
  the number of its telemetry frames. This holds whatever the rules are and even when the rule engine
  raises on a sample.
\<close>

theorem datagrams_accounted:
  "total_frames (received ds s) = total_frames s + int (length ds)
   \<and> global_bad_frames (received ds s) = global_bad_frames s + count (\<lambda>d. arrival d = Unattributed) ds
   \<and> frames_rx (stat_of dev (received ds s)) = frames_rx (stat_of dev s) + count (\<lambda>d. arrival d = Sample dev) ds
   \<and> bad_crc (stat_of dev (received ds s)) = bad_crc (stat_of dev s) + count (\<lambda>d. arrival d = Corrupt dev) ds"
proof -
  have c: "counters (received ds s) = (total_frames s + int (length ds),
      global_bad_frames s + count (\<lambda>d. arrival d = Unattributed) ds,
      \<lambda>dev. (frames_rx (stat_of dev s) + count (\<lambda>d. arrival d = Sample dev) ds, bad_crc (stat_of dev s) + count (\<lambda>d. arrival d = Corrupt dev) ds))"
    unfolding received_counters by (simp add: counters_def bumps)
  show ?thesis using c unfolding counters_def by (simp add: fun_eq_iff)
qed

text \<open>
  An accepted telemetry datagram puts exactly one row in the buffer of the database, with the values
  of the frame and the time of its arrival, even when the rule engine raises on it later.
\<close>

theorem telemetry_buffered_once:
  assumes "decode data = Inr f" "msg_type (header f) = mt_val TELEMETRY" "payload f = Typed (PTelemetry t)"
    "dev = device_id (header f)" "window_ok (window (stat_of dev s))"
    "now = wclock s (wreads s)" "Database.iso now = Inr now_iso"
  shows "tel_buf (wdb (snd (datagram_received data s))) = tel_buf (wdb s) @ [tel_row dev now (seq (header f)) t]"
proof -
  obtain h where h: "Header_unpack data = Inr h" "header f = h" using decode_ok [OF assms(1)] by metis
  have "u64 (ts_ms (header f))" using h Header_unpack_cases [OF Header_unpack_len(1) [OF h(1)]] by (metis Inl_Inr_False sum.inject(2))
  let ?s = "s\<lparr>total_frames := total_frames s + 1, stats := AList.update dev (stat_of dev s) (stats s)\<rparr>"
  have "window_ok (window (stat_of dev ?s))" using assms(5) by (simp add: stat_of_def update_conv')
  from handle_telemetry_buffers [OF \<open>u64 (ts_ms (header f))\<close> assms(4) this, of now now_iso t] assms(6,7)
  have "tel_buf (wdb (snd (handle_telemetry f t ?s))) = tel_buf (wdb s) @ [tel_row dev now (seq (header f)) t]" by simp
  with assms(1-4) h show ?thesis
    by (simp add: datagram_received_app on_datagram_def pym_simps)
qed

definition sample_telemetry :: Telemetry where
  "sample_telemetry = \<lparr>rpm = Fin 900, temp_c = Fin 40, current_a = Fin 3, voltage_v = Fin 90, vibration_g = Fin 1,
     speed_kph = Fin 0, lat = Fin 45, lon = Fin 9, fault_flags = 0, state = 1\<rparr>"

text \<open>An example: a frame of ECU-1.\<close>

theorem telemetry_buffered_once_witness:
  "\<exists>data. tel_buf (wdb (snd (datagram_received data sample_server)))
     = [tel_row (lit ''ECU-1'') (Fin 1000) 3 sample_telemetry]"
proof -
  have "payload_ok (PTelemetry sample_telemetry)" by code_simp
  from encoded_decodes [OF this, of "lit ''ECU-1''" 3 1000 0] obtain fb f where
    f: "decode fb = Inr f" "payload f = Typed (PTelemetry sample_telemetry)" "msg_type (header f) = mt_val TELEMETRY"
      "device_id (header f) = cstr (pad (lit ''ECU-1'') 12)" "seq (header f) = 3 mod 2 ^ 32" by auto
  have d: "cstr (pad (lit ''ECU-1'') 12) = lit ''ECU-1''" by code_simp
  have w: "window_ok (window (stat_of (lit ''ECU-1'') sample_server))"
    by (simp add: sample_server_def stat_of_def DeviceStats_init_def window_ok_def)
  have c: "Fin 1000 = wclock sample_server (wreads sample_server)" by (simp add: sample_server_def)
  have i: "Database.iso (Fin 1000) = Inr (lit ''1970-01-01T00:16:40.000Z'')" by code_simp
  have b: "tel_buf (wdb sample_server) = []" by (simp add: sample_server_def DB_init_def)
  from telemetry_buffered_once [OF f(1,3,2) _ w c i] f(4,5) d b show ?thesis by auto
qed

text \<open>
  C23. A command for a device goes to the connection the device registered last and nowhere else: what is
  written decodes to the same payload under the identifier of the device, with the next sequence
  number; without an open connection nothing is written and \<open>send\<close> says so.
\<close>

theorem send_delivers:
  assumes "payload_ok p" "cfield 12 dev" "int_of_float (fmul (wclock s (wreads s)) (Fin 1000)) = Inr ms"
  shows "case map_of (writers s) dev of
      None \<Rightarrow> send dev p s = (Inr False, s)
    | Some w \<Rightarrow>
        if w \<in> set (closed s) then send dev p s = (Inr False, s)
        else \<exists>fb f s'. send dev p s = (Inr (w \<notin> set (broken s)), s')
          \<and> sent s' = sent s @ (if w \<in> set (broken s) then [] else [(w, fb)])
          \<and> decode fb = Inr f \<and> payload f = Typed p \<and> device_id (header f) = dev
          \<and> seq (header f) = tx_seq (stat_of dev s') mod 2 ^ 32 \<and> tx_seq (stat_of dev s') = tx_seq (stat_of dev s) + 1"
proof (cases "map_of (writers s) dev")
  case (Some w)
  show ?thesis
  proof (cases "w \<in> set (closed s)")
    case False
    from send_effect [OF Some False assms] obtain fb f where
      "decode fb = Inr f" "payload f = Typed p" "device_id (header f) = dev"
      "seq (header f) = (tx_seq (stat_of dev s) + 1) mod 2 ^ 32"
      and s': "send dev p s = (Inr (w \<notin> set (broken s)),
        s\<lparr>stats := AList.update dev ((stat_of dev s)\<lparr>tx_seq := tx_seq (stat_of dev s) + 1\<rparr>) (stats s),
          wreads := wreads s + 1, sent := sent s @ (if w \<in> set (broken s) then [] else [(w, fb)])\<rparr>)" by blast
    with Some False show ?thesis
      by (simp add: s') (auto simp: stat_of_def update_conv')
  qed (simp add: Some send_refused)
qed (simp add: send_refused)

text \<open>C23 at a reboot command for ECU-1.\<close>

theorem send_delivers_witness:
  "\<exists>fb f s'. send (lit ''ECU-1'') (PCmd \<lparr>cmd = 0\<rparr>) sample_server = (Inr True, s') \<and> sent s' = [(7, fb)]
     \<and> decode fb = Inr f \<and> payload f = Typed (PCmd \<lparr>cmd = 0\<rparr>)"
proof -
  have "payload_ok (PCmd \<lparr>cmd = 0\<rparr>)" "cfield 12 (lit ''ECU-1'')"
    "int_of_float (fmul (wclock sample_server (wreads sample_server)) (Fin 1000)) = Inr 1000000" by code_simp+
  from send_delivers [OF this] show ?thesis
    by (simp add: sample_server_def) blast
qed

end
