(* ===== verification/Api.thy ===== *)
theory Api
  imports Ingest_Laws
begin

text \<open>
  \<open>backend/app/api.py\<close>: the handlers of the HTTP interface that change something, and the views of the
  fleet. Routing, parsing and the validation of the request bodies belong to the web framework: a
  handler takes the fields of a body that has been validated, and the ranges the body classes declare
  are hypotheses where they matter. A response with an error status is the exception
  \<open>HTTPException\<close>.
\<close>

section \<open>Helpers\<close>

definition device_or_404 :: "pystr \<Rightarrow> ('a server_scheme, Device) pym" where
  "device_or_404 dev =
     bind_pym (db_get (get_device dev)) (\<lambda>d. case d of None \<Rightarrow> throw (HTTPException 404) | Some r \<Rightarrow> ret r)"

text \<open>
  \<open>_log_level\<close>. The names are in lower case and hold no letter that is the lower case of a character
  outside ASCII, so that lowering ASCII letters decides the membership.
\<close>

datatype level_arg = LevelInt int | LevelStr pystr

definition lower_ascii :: "pystr \<Rightarrow> pystr" where
  "lower_ascii s = map (\<lambda>c. if 65 \<le> c \<and> c \<le> 90 then c + 32 else c) s"

fun log_level :: "level_arg \<Rightarrow> int res" where
  "log_level (LevelInt v) = (if map_of LOG_LEVELS v = None then Inl (HTTPException 422) else Inr v)"
| "log_level (LevelStr s) =
     (case map_of LOG_LEVEL_IDS (lower_ascii s) of None \<Rightarrow> Inl (HTTPException 422) | Some v \<Rightarrow> Inr v)"

definition iso_opt :: "pyfloat option \<Rightarrow> json res" where
  "iso_opt t = (case t of None \<Rightarrow> Inr JNull | Some x \<Rightarrow> rbind (Database.iso x) (\<lambda>s. Inr (JStr s)))"

definition json_text :: "pystr option \<Rightarrow> json" where
  "json_text x = (case x of Some s \<Rightarrow> JStr s | None \<Rightarrow> JNull)"

definition json_int :: "int option \<Rightarrow> json" where
  "json_int x = (case x of Some i \<Rightarrow> JInt i | None \<Rightarrow> JNull)"

definition reported_version :: "pystr \<Rightarrow> DB \<Rightarrow> int" where
  "reported_version dev db = (case get_device dev db of Some d \<Rightarrow> d_reported_config d | None \<Rightarrow> 0)"

text \<open>\<open>_config_view\<close>.\<close>

definition config_view :: "pystr \<Rightarrow> Config option \<Rightarrow> DB \<Rightarrow> sample res" where
  "config_view dev cfg db =
     (case cfg of
        None \<Rightarrow>
          Inr ([(lit ''device_id'', JStr dev), (lit ''version'', JInt (reported_version dev db)),
                (lit ''source'', JStr (lit ''device-default'')), (lit ''ack_status'', JNull)] @
               map (\<lambda>k. (lit k, JNull)) [''telemetry_hz'', ''log_level'', ''rpm_limit'', ''temp_limit_c'', ''current_limit_a''] @
               [(lit ''reported_config_version'', JInt (reported_version dev db))])
      | Some c \<Rightarrow>
          rbind (iso_opt (Some (c_created_at c))) (\<lambda>created.
          rbind (iso_opt (c_acked_at c)) (\<lambda>acked.
          Inr [(lit ''id'', JInt (c_id c)), (lit ''device_id'', JStr (c_dev c)), (lit ''version'', JInt (c_version c)),
               (lit ''telemetry_hz'', JInt (c_telemetry_hz c)), (lit ''log_level'', JInt (c_log_level c)),
               (lit ''rpm_limit'', opt_json (c_rpm_limit c)), (lit ''temp_limit_c'', opt_json (c_temp_limit_c c)),
               (lit ''current_limit_a'', opt_json (c_current_limit_a c)), (lit ''created_at'', JFloat (c_created_at c)),
               (lit ''ack_status'', JStr (c_ack_status c)), (lit ''acked_at'', opt_json (c_acked_at c)),
               (lit ''log_level_name'', json_text (map_of LOG_LEVELS (c_log_level c))), (lit ''created_at_iso'', created),
               (lit ''acked_at_iso'', acked), (lit ''reported_config_version'', JInt (reported_version dev db)),
               (lit ''source'', JStr (lit ''backend''))])))"

section \<open>Configuration\<close>

definition get_config :: "pystr \<Rightarrow> ('a server_scheme, sample) pym" where
  "get_config dev =
     seq_pym (device_or_404 dev)
     (bind_pym (db_get (current_config dev)) (\<lambda>cfg.
      bind_pym (db_get (config_view dev cfg)) of_res))"

definition put_config ::
  "pystr \<Rightarrow> int \<Rightarrow> level_arg \<Rightarrow> pyfloat \<Rightarrow> pyfloat \<Rightarrow> pyfloat \<Rightarrow> ('a server_scheme, sample) pym" where
  "put_config dev hz lvl x y z =
     seq_pym (device_or_404 dev)
     (bind_pym (of_res (log_level lvl)) (\<lambda>ll.
      bind_pym (new_config dev hz ll x y z) (\<lambda>cfg0.
      case cfg0 of
        None \<Rightarrow> throw TypeError
      | Some c0 \<Rightarrow>
          bind_pym (push_config dev c0) (\<lambda>pushed.
          bind_pym (db_get (current_config dev)) (\<lambda>cfg.
          case cfg of
            None \<Rightarrow> throw TypeError
          | Some c \<Rightarrow>
              seq_pym (log_only dev 1 (lit ''CONFIG_SET v'' @ py_str_int (c_version c) @ lit '' '' @
                 lit (if pushed then ''pushed'' else ''queued (device not connected)'')))
              (bind_pym (db_get (config_view dev (Some c))) (\<lambda>v0.
               bind_pym (of_res v0) (\<lambda>view.
               bind_pym time_time (\<lambda>now.
               seq_pym (publish_device dev (ConfigSetEv (c_version c) pushed) now)
               (ret (view @ [(lit ''pushed'', JBool pushed)]))))))))))) "

section \<open>Firmware\<close>

text \<open>\<open>zlib.crc32(f"fw:{version}:{size}".encode())\<close>.\<close>

definition fw_crc :: "pystr \<Rightarrow> int \<Rightarrow> int res" where
  "fw_crc version sz =
     rbind (utf8_encode (lit ''fw:'' @ version @ lit '':'' @ py_str_int sz)) (\<lambda>b. Inr (crc32 b AND 0xFFFFFFFF))"

text \<open>The response is the stored row with \<open>created_at_iso\<close>.\<close>

definition api_firmware_add :: "pystr \<Rightarrow> pystr \<Rightarrow> int \<Rightarrow> ('a server_scheme, Firmware \<times> pystr) pym" where
  "api_firmware_add version notes sz =
     (case fw_encode version of
        Inl e \<Rightarrow> throw (if is_protocol_error e then HTTPException 422 else e)
      | Inr _ \<Rightarrow>
          bind_pym (of_res (fw_crc version sz)) (\<lambda>crc.
          bind_pym (firmware_add version notes sz crc) (\<lambda>fw.
          case fw of
            None \<Rightarrow> throw TypeError
          | Some f \<Rightarrow> bind_pym (of_res (Database.iso (f_created_at f))) (\<lambda>t. ret (f, t)))))"

text \<open>
  \<open>firmware_deploy\<close> in the two pieces its \<open>await\<close> makes: up to the end of \<open>push_fw\<close>, and the rest, which runs
  when the writer has been drained; other handlers may run in between. The response is the job with its id once more as
  \<open>job_id\<close>, and whether it was pushed.
\<close>

record deployment =
  dp_dev :: pystr
  dp_version :: pystr
  dp_job :: int
  dp_pushed :: bool

definition deploy_push :: "pystr \<Rightarrow> pystr \<Rightarrow> ('a server_scheme, deployment) pym" where
  "deploy_push dev version =
     bind_pym (device_or_404 dev) (\<lambda>d.
     bind_pym (db_get (firmware_get version)) (\<lambda>fw.
     case fw of
       None \<Rightarrow> throw (HTTPException 404)
     | Some f \<Rightarrow>
         bind_pym (fw_job_create dev version (d_fw_version d)) (\<lambda>job.
         case job of
           None \<Rightarrow> throw TypeError
         | Some j \<Rightarrow>
             bind_pym (push_fw dev f) (\<lambda>pushed.
             ret \<lparr>dp_dev = dev, dp_version = version, dp_job = j_id j, dp_pushed = pushed\<rparr>))))"

definition deploy_finish :: "deployment \<Rightarrow> ('a server_scheme, bool \<times> FwJob option) pym" where
  "deploy_finish d =
     seq_pym (fw_job_update (dp_job d) (lit (if dp_pushed d then ''sent'' else ''queued'')))
     (bind_pym (db_get (fw_job_get (dp_job d))) (\<lambda>job.
      seq_pym (log_only (dp_dev d) 1 (lit ''FW_UPDATE -> '' @ dp_version d @ lit '' '' @ lit (if dp_pushed d then ''pushed'' else ''queued'')))
      (bind_pym time_time (\<lambda>now.
       seq_pym (publish_device (dp_dev d) (FwJobEv job) now) (ret (dp_pushed d, job))))))"

definition firmware_deploy :: "pystr \<Rightarrow> pystr \<Rightarrow> ('a server_scheme, bool \<times> FwJob option) pym" where
  "firmware_deploy dev version = bind_pym (deploy_push dev version) deploy_finish"

definition firmware_status :: "pystr \<Rightarrow> ('a server_scheme, FwJob option) pym" where
  "firmware_status dev = seq_pym (device_or_404 dev) (db_get (fw_job_latest dev))"

section \<open>Faults and commands\<close>

definition flag_list :: "int \<Rightarrow> pystr" where
  "flag_list f = py_str (JList (map JStr (flags_to_names f)))"

definition fault_inject :: "pystr \<Rightarrow> pystr list \<Rightarrow> pystr list \<Rightarrow> int \<Rightarrow> ('a server_scheme, sample) pym" where
  "fault_inject dev set_names clear_names ms =
     seq_pym (device_or_404 dev)
     (case rbind (names_to_flags set_names) (\<lambda>a. rbind (names_to_flags clear_names) (\<lambda>b. Inr (a, b))) of
        Inl e \<Rightarrow> throw (if is_protocol_error e then HTTPException 422 else e)
      | Inr (sf, cf) \<Rightarrow>
          bind_pym (fault_injection_add dev sf cf ms) (\<lambda>fid.
          bind_pym (push_fault dev sf cf ms) (\<lambda>pushed.
          seq_pym (log_only dev 2 (lit ''FAULT_INJECT set='' @ flag_list sf @ lit '' clear='' @ flag_list cf @ lit '' dur=''
             @ py_str_int ms @ lit ''ms '' @ lit (if pushed then ''pushed'' else ''NOT connected'')))
          (if pushed
           then ret [(lit ''id'', JInt fid), (lit ''device_id'', JStr dev), (lit ''set'', JList (map JStr (flags_to_names sf))),
                     (lit ''clear'', JList (map JStr (flags_to_names cf))), (lit ''set_flags'', JInt sf), (lit ''clear_flags'', JInt cf),
                     (lit ''duration_ms'', JInt ms), (lit ''pushed'', JBool True)]
           else throw (HTTPException 409)))))"

definition device_cmd :: "pystr \<Rightarrow> pystr \<Rightarrow> ('a server_scheme, sample) pym" where
  "device_cmd dev name =
     seq_pym (device_or_404 dev)
     (case map_of CMD_IDS name of
        None \<Rightarrow> throw KeyError
      | Some c \<Rightarrow>
          bind_pym (push_cmd dev c) (\<lambda>pushed.
          seq_pym (log_only dev 1 (lit ''CMD '' @ name @ lit '' '' @ lit (if pushed then ''pushed'' else ''NOT connected'')))
          (if pushed then ret [(lit ''device_id'', JStr dev), (lit ''cmd'', JStr name), (lit ''pushed'', JBool True)]
           else throw (HTTPException 409))))"

section \<open>Alerts and rules\<close>

definition ack_alert :: "int \<Rightarrow> ('a server_scheme, Alert option) pym" where
  "ack_alert i =
     bind_pym (db_get (get_alert i)) (\<lambda>a0.
     case a0 of
       None \<Rightarrow> throw (HTTPException 404)
     | Some a \<Rightarrow>
         seq_pym (when_pym (a_status a = lit ''open'')
           (bind_pym time_time (\<lambda>now. update_alert i [AStatus (lit ''acked''), AAckedAt now])))
         (bind_pym (db_get (get_alert i)) (\<lambda>a'.
          seq_pym (case a' of Some x \<Rightarrow> bus_publish (EvAlert (lit ''acked'') x) | None \<Rightarrow> throw TypeError) (ret a'))))"

definition put_rules :: "json \<Rightarrow> ('a server_scheme, json) pym" where
  "put_rules body = (if is_obj body then set_rules body else throw (HTTPException 422))"

section \<open>Logs\<close>

text \<open>\<open>device_logs\<close>: the newest log rows, each with the name of its level.\<close>

definition device_logs :: "pystr \<Rightarrow> int \<Rightarrow> ('a server_scheme, (LogRow \<times> pystr) list) pym" where
  "device_logs dev n =
     seq_pym (device_or_404 dev)
     (bind_pym (db_get (logs dev n)) (\<lambda>rows.
      ret (map (\<lambda>r. (r, case map_of LOG_LEVELS (l_level r) of Some name \<Rightarrow> name | None \<Rightarrow> py_str_int (l_level r))) rows)))"

section \<open>The event stream\<close>

text \<open>
  \<open>events_stream\<close>: subscribing and the greeting; one round of the loop, which ends the stream when the client is
  gone, waits for the next event, and after 15 seconds without one sends a comment; and the
  \<open>finally\<close> that unsubscribes. A round that finds the queue empty is one in
  which the time ran out.
\<close>

datatype sse = SseHello pystr int | SseKeepalive | SseEvent event

definition sse_open :: "('a server_scheme, nat \<times> sse) pym" where
  "sse_open =
     bind_pym (gets (\<lambda>s. fst (subscribe (wbus s)))) (\<lambda>q.
     seq_pym (modify (\<lambda>s. s\<lparr>wbus := snd (subscribe (wbus s))\<rparr>))
     (bind_pym time_time (\<lambda>now.
      bind_pym (of_res (Database.iso now)) (\<lambda>ts.
      bind_pym (gets (\<lambda>s. count online (map snd (stats s)))) (\<lambda>n. ret (q, SseHello ts n))))))"

definition sse_close :: "nat \<Rightarrow> ('a server_scheme, unit) pym" where
  "sse_close q = modify (\<lambda>s. s\<lparr>wbus := unsubscribe q (wbus s)\<rparr>)"

definition sse_take :: "nat \<Rightarrow> event EventBus \<Rightarrow> (event \<times> event EventBus) option" where
  "sse_take q b =
     (case map_of (subs b) q of
        Some (e # es) \<Rightarrow> Some (e, b\<lparr>subs := AList.update q es (subs b)\<rparr>)
      | _ \<Rightarrow> None)"

definition sse_next :: "nat \<Rightarrow> bool \<Rightarrow> ('a server_scheme, sse option) pym" where
  "sse_next q disconnected =
     (if disconnected then seq_pym (sse_close q) (ret None)
      else bind_pym (gets (\<lambda>s. sse_take q (wbus s))) (\<lambda>r.
        case r of
          None \<Rightarrow> ret (Some SseKeepalive)
        | Some (e, b) \<Rightarrow> seq_pym (modify (\<lambda>s. s\<lparr>wbus := b\<rparr>)) (ret (Some (SseEvent e)))))"

section \<open>Views\<close>

text \<open>The fields of the last sample a view shows, from memory or from the newest stored row.\<close>

definition view_keys :: "string list" where
  "view_keys = [''rpm'', ''temp_c'', ''current_a'', ''voltage_v'', ''vibration_g'', ''speed_kph'', ''lat'', ''lon'',
     ''fault_flags'', ''state'', ''ts_iso'']"

definition row_dict :: "TelRow \<Rightarrow> sample res" where
  "row_dict r =
     rbind (Database.iso (t_ts r)) (\<lambda>ts.
     Inr [(lit ''device_id'', JStr (t_dev r)), (lit ''ts'', JFloat (t_ts r)), (lit ''seq'', JInt (t_seq r)),
          (lit ''rpm'', opt_json (t_rpm r)), (lit ''temp_c'', opt_json (t_temp_c r)),
          (lit ''current_a'', opt_json (t_current_a r)), (lit ''voltage_v'', opt_json (t_voltage_v r)),
          (lit ''vibration_g'', opt_json (t_vibration_g r)), (lit ''speed_kph'', opt_json (t_speed_kph r)),
          (lit ''lat'', opt_json (t_lat r)), (lit ''lon'', opt_json (t_lon r)),
          (lit ''fault_flags'', JInt (t_fault_flags r)), (lit ''state'', JInt (t_state r)), (lit ''ts_iso'', JStr ts)])"

definition latest_dict :: "pystr \<Rightarrow> 'a server_scheme \<Rightarrow> sample option res" where
  "latest_dict dev s =
     (case map_of (latest s) dev of
        Some (x # d) \<Rightarrow> Inr (Some (x # d))
      | _ \<Rightarrow> (case latest_telemetry dev (wdb s) of
           Some r \<Rightarrow> rbind (row_dict r) (\<lambda>d. Inr (Some d))
         | None \<Rightarrow> Inr None))"

definition dict_get :: "sample \<Rightarrow> string \<Rightarrow> json" where
  "dict_get d k = (case map_of d (lit k) of Some v \<Rightarrow> v | None \<Rightarrow> JNull)"

definition device_view :: "Device \<Rightarrow> (pystr \<times> int) list \<Rightarrow> ('a server_scheme, sample) pym" where
  "device_view d counts =
     (let dev = d_id d in
      seq_pym (on_stat dev (\<lambda>x. x))
      (bind_pym (gets (\<lambda>s. (stat_of dev s, latest_dict dev s, current_config dev (wdb s)))) (\<lambda>(st, l0, cfg).
       bind_pym (of_res l0) (\<lambda>last.
       bind_pym (of_res (iso_opt (if truthy_time (last_seen st) then last_seen st else d_last_seen d))) (\<lambda>seen_iso.
       bind_pym (of_res (loss_pct st)) (\<lambda>loss.
       bind_pym (of_res (py_int (py_or (case last of Some x \<Rightarrow> dict_get x ''fault_flags'' | None \<Rightarrow> JNull) (JInt 0)))) (\<lambda>flags.
       ret [(lit ''device_id'', JStr dev), (lit ''state'', json_int (d_state d)),
            (lit ''state_name'', json_text (map_of STATE_NAMES (case d_state d of Some x \<Rightarrow> x | None \<Rightarrow> 0))),
            (lit ''online'', JBool (online st)), (lit ''tcp_connected'', JBool (tcp_connected st)), (lit ''last_seen'', seen_iso),
            (lit ''fw_version'', json_text (d_fw_version d)), (lit ''hw_model'', json_text (d_hw_model d)),
            (lit ''config_version'', JInt (case cfg of Some c \<Rightarrow> c_version c | None \<Rightarrow> d_reported_config d)),
            (lit ''reported_config_version'', JInt (d_reported_config d)),
            (lit ''telemetry_hz'', json_int (d_telemetry_hz d)), (lit ''uptime_s'', json_int (d_uptime_s d)),
            (lit ''loss_pct'', JFloat loss), (lit ''frames_rx'', JInt (frames_rx st)), (lit ''bad_crc'', JInt (bad_crc st)),
            (lit ''reconnects'', JInt (reconnects st)),
            (lit ''latest'', case last of Some x \<Rightarrow> JObj (map (\<lambda>k. (lit k, dict_get x k)) view_keys) | None \<Rightarrow> JNull),
            (lit ''faults'', JList (map JStr (flags_to_names flags))),
            (lit ''open_alerts'', JInt (case map_of counts dev of Some n \<Rightarrow> n | None \<Rightarrow> 0))]))))))) "

definition devices_view :: "('a server_scheme, json) pym" where
  "devices_view =
     bind_pym (db_get open_alert_counts) (\<lambda>counts.
     bind_pym (db_get list_devices) (\<lambda>ds.
     bind_pym (collect_pym (\<lambda>d. bind_pym (device_view d counts) (\<lambda>v. ret [JObj v])) ds) (\<lambda>vs. ret (JList vs))))"

text \<open>\<open>t0\<close> is the time the application started.\<close>

definition health :: "pyfloat \<Rightarrow> int \<Rightarrow> int \<Rightarrow> ('a server_scheme, sample) pym" where
  "health t0 udp tcp =
     bind_pym (gets (\<lambda>s. count online (map snd (stats s)))) (\<lambda>n.
     bind_pym time_time (\<lambda>now.
     ret [(lit ''status'', JStr (lit ''ok'')), (lit ''devices_online'', JInt n),
          (lit ''uptime_s'', JFloat (round_nd 1 (fsub now t0))), (lit ''udp_port'', JInt udp), (lit ''tcp_port'', JInt tcp)]))"

definition stats_view :: "pyfloat \<Rightarrow> ('a server_scheme, sample) pym" where
  "stats_view t0 =
     bind_pym (gets fleet_stats) (\<lambda>r.
     bind_pym (of_res r) (\<lambda>out.
     bind_pym (gets (\<lambda>s. (sum_list (map snd (open_alert_counts (wdb s))), int (length (subs (wbus s)))))) (\<lambda>(n, clients).
     bind_pym time_time (\<lambda>now.
     ret (out @ [(lit ''alerts_open'', JInt n), (lit ''sse_clients'', JInt clients),
       (lit ''uptime_s'', JFloat (round_nd 1 (fsub now t0)))])))))"

end
