(* ===== verification/Diagnostics.thy ===== *)
theory Diagnostics
  imports Api "HOL-Library.Multiset"
begin

text \<open>
  \<open>backend/app/diagnostics.py\<close>: the context of a device, the heuristic diagnosis made from it, and the
  entry point that asks a language model first. What the remote service answers is an argument of
  \<open>diagnose\<close>; \<open>metric_stats\<close> of \<open>db.py\<close>, which only the context uses, is here too. The lemmas show that
  the heuristic always returns a well-formed diagnosis, and which alerts it does not see.
\<close>

section \<open>Statistics of the last minutes\<close>

text \<open>
  \<open>Database.metric_stats\<close>. The averaging of SQLite is the parameter \<open>avg\<close>, as in the roll-up. A column without
  a value makes \<open>round(None, 3)\<close>.
\<close>

definition round3 :: "pyfloat option \<Rightarrow> json res" where
  "round3 x = (case x of None \<Rightarrow> Inl TypeError | Some v \<Rightarrow> Inr (JFloat (round_nd 3 v)))"

definition metric_columns :: "(string \<times> (TelRow \<Rightarrow> pyfloat option)) list" where
  "metric_columns = [(''rpm'', t_rpm), (''temp_c'', t_temp_c), (''current_a'', t_current_a), (''voltage_v'', t_voltage_v),
     (''vibration_g'', t_vibration_g), (''speed_kph'', t_speed_kph)]"

definition metric_entry :: "(pyfloat list \<Rightarrow> pyfloat option) \<Rightarrow> TelRow list \<Rightarrow> string \<times> (TelRow \<Rightarrow> pyfloat option) \<Rightarrow> (pystr \<times> json) res" where
  "metric_entry avg rows m =
     (case aggregate avg (map (snd m) rows) of (a, lo, hi) \<Rightarrow>
      rbind (round3 a) (\<lambda>x. rbind (round3 lo) (\<lambda>y. rbind (round3 hi) (\<lambda>z.
      Inr (lit (fst m), JObj [(lit ''avg'', x), (lit ''min'', y), (lit ''max'', z)])))))"

definition metric_stats :: "(pyfloat list \<Rightarrow> pyfloat option) \<Rightarrow> pystr \<Rightarrow> pyfloat \<Rightarrow> ('a env_scheme, sample) pym" where
  "metric_stats avg dev secs =
     bind_pym time_time (\<lambda>now.
     bind_pym (db_get (\<lambda>db. filter (\<lambda>r. t_dev r = dev \<and> fle (fsub now secs) (t_ts r)) (telemetry_t db))) (\<lambda>rows.
     if rows = [] then ret [(lit ''n'', JInt 0)]
     else bind_pym (of_res (rmap (metric_entry avg rows) metric_columns)) (\<lambda>es.
       ret ((lit ''n'', JInt (int (length rows))) # es))))"

section \<open>The context\<close>

text \<open>
  The dictionary \<open>build_context\<close> returns, with the rows of the database in it; \<open>context_json\<close> writes it out.
\<close>

record diag_context =
  x_device :: sample
  x_config :: "Config option"
  x_fw_job :: "(pystr \<times> pystr) option"
  x_latest :: "sample option"
  x_faults :: "pystr list"
  x_stats :: sample
  x_loss :: pyfloat
  x_gaps :: int
  x_bad_crc :: int
  x_reconnects :: int
  x_tcp :: bool
  x_alerts :: "Alert list"
  x_resolved :: "Alert list"
  x_logs :: "LogRow list"
  x_injections :: "Injection list"

fun sql_json :: "sqlval \<Rightarrow> json" where
  "sql_json SNull = JNull"
| "sql_json (SInt i) = JInt i"
| "sql_json (SReal x) = JFloat x"
| "sql_json (SText s) = JStr s"

definition names_json :: "pystr list \<Rightarrow> json" where
  "names_json ns = JList (map JStr ns)"

text \<open>\<open>_fmt_alert\<close> formats all four times.\<close>

definition alert_isos :: "Alert \<Rightarrow> json list res" where
  "alert_isos a = rmap iso_opt [Some (a_opened_at a), a_acked_at a, a_resolved_at a, a_updated_at a]"

definition alert_json :: "Alert \<Rightarrow> json res" where
  "alert_json a =
     rbind (alert_isos a) (\<lambda>ts.
     Inr (JObj [(lit ''rule'', JStr (a_rule a)), (lit ''severity'', sql_json (a_severity a)), (lit ''metric'', json_text (a_metric a)),
       (lit ''value'', opt_json (a_value a)), (lit ''since'', ts ! 0), (lit ''message'', JStr (a_message a))]))"

definition resolved_json :: "Alert \<Rightarrow> json res" where
  "resolved_json a =
     rbind (alert_isos a) (\<lambda>ts.
     Inr (JObj [(lit ''rule'', JStr (a_rule a)), (lit ''severity'', sql_json (a_severity a)), (lit ''opened'', ts ! 0),
       (lit ''resolved'', ts ! 2)]))"

definition log_json :: "LogRow \<Rightarrow> json res" where
  "log_json l =
     rbind (Database.iso (l_ts l)) (\<lambda>t.
     Inr (JObj [(lit ''ts'', JStr t), (lit ''level'', JInt (l_level l)), (lit ''msg'', JStr (take 200 (l_message l)))]))"

definition injection_json :: "Injection \<Rightarrow> json res" where
  "injection_json f =
     rbind (Database.iso (i_created_at f)) (\<lambda>t.
     Inr (JObj [(lit ''at'', JStr t), (lit ''set'', names_json (flags_to_names (i_set_flags f))),
       (lit ''clear'', names_json (flags_to_names (i_clear_flags f))), (lit ''duration_ms'', JInt (i_duration_ms f))]))"

definition context_config :: "Config \<Rightarrow> json" where
  "context_config c =
     JObj [(lit ''version'', JInt (c_version c)), (lit ''telemetry_hz'', JInt (c_telemetry_hz c)), (lit ''log_level'', JInt (c_log_level c)),
       (lit ''rpm_limit'', opt_json (c_rpm_limit c)), (lit ''temp_limit_c'', opt_json (c_temp_limit_c c)),
       (lit ''current_limit_a'', opt_json (c_current_limit_a c)), (lit ''ack_status'', JStr (c_ack_status c))]"

definition job_json :: "pystr \<times> pystr \<Rightarrow> json" where
  "job_json j = JObj [(lit ''target'', JStr (fst j)), (lit ''status'', JStr (snd j))]"

definition latest_keys :: "string list" where
  "latest_keys = [''rpm'', ''temp_c'', ''current_a'', ''voltage_v'', ''vibration_g'', ''speed_kph'', ''fault_flags'', ''state'']"

definition context_json :: "diag_context \<Rightarrow> json res" where
  "context_json x =
     rbind (rmap alert_json (x_alerts x)) (\<lambda>open_as.
     rbind (rmap resolved_json (x_resolved x)) (\<lambda>resolved_as.
     rbind (rmap log_json (x_logs x)) (\<lambda>ls.
     rbind (rmap injection_json (x_injections x)) (\<lambda>fs.
     Inr (JObj
       [(lit ''device'', JObj (x_device x)),
        (lit ''config'', case x_config x of Some c \<Rightarrow> context_config c | None \<Rightarrow> JNull),
        (lit ''fw_job'', case x_fw_job x of Some j \<Rightarrow> job_json j | None \<Rightarrow> JNull),
        (lit ''latest'', case x_latest x of Some d \<Rightarrow> JObj (map (\<lambda>k. (lit k, dict_get d k)) latest_keys) | None \<Rightarrow> JNull),
        (lit ''active_faults'', names_json (x_faults x)),
        (lit ''stats_5m'', JObj (x_stats x)),
        (lit ''comm'', JObj [(lit ''loss_pct'', JFloat (x_loss x)), (lit ''seq_gaps'', JInt (x_gaps x)), (lit ''bad_crc'', JInt (x_bad_crc x)),
           (lit ''reconnects'', JInt (x_reconnects x)), (lit ''tcp_connected'', JBool (x_tcp x))]),
        (lit ''open_alerts'', JList open_as), (lit ''recent_resolved_alerts'', JList resolved_as), (lit ''logs'', JList ls),
        (lit ''fault_injections'', JList fs)])))))"

definition device_part :: "pystr \<Rightarrow> Device option \<Rightarrow> sample res" where
  "device_part dev d =
     rbind (iso_opt (case d of Some r \<Rightarrow> d_last_seen r | None \<Rightarrow> None)) (\<lambda>seen_iso.
     Inr [(lit ''device_id'', JStr dev), (lit ''hw_model'', case d of Some r \<Rightarrow> json_text (d_hw_model r) | None \<Rightarrow> JNull),
       (lit ''fw_version'', case d of Some r \<Rightarrow> json_text (d_fw_version r) | None \<Rightarrow> JNull),
       (lit ''state'', case d of Some r \<Rightarrow> json_int (d_state r) | None \<Rightarrow> JNull),
       (lit ''online'', JBool (case d of Some r \<Rightarrow> d_online r | None \<Rightarrow> False)),
       (lit ''uptime_s'', case d of Some r \<Rightarrow> json_int (d_uptime_s r) | None \<Rightarrow> JNull),
       (lit ''device_reconnects'', case d of Some r \<Rightarrow> JInt (d_reconnects r) | None \<Rightarrow> JNull),
       (lit ''last_seen'', seen_iso)])"

definition build_context :: "(pyfloat list \<Rightarrow> pyfloat option) \<Rightarrow> pystr \<Rightarrow> ('a server_scheme, diag_context \<times> json) pym" where
  "build_context avg dev =
     bind_pym (db_get (get_device dev)) (\<lambda>d.
     seq_pym (on_stat dev (\<lambda>x. x))
     (bind_pym (gets (\<lambda>s. stat_row dev (stat_of dev s))) (\<lambda>st0.
      bind_pym (of_res st0) (\<lambda>st.
      bind_pym (db_get (current_config dev)) (\<lambda>cfg.
      bind_pym (gets (latest_dict dev)) (\<lambda>l0.
      bind_pym (of_res l0) (\<lambda>last.
      bind_pym (db_get (\<lambda>db. (alerts (Some dev) (lit ''open'') 50 db,
          take 15 (filter (\<lambda>a. a_status a = lit ''resolved'') (alerts (Some dev) (lit ''all'') 30 db)),
          logs dev 30 db, fw_job_latest dev db, fault_injections dev 10 db))) (\<lambda>(as, rs, ls, job, fs).
      bind_pym (of_res (device_part dev d)) (\<lambda>device.
      bind_pym (of_res (py_int (py_or (case last of Some x \<Rightarrow> dict_get x ''fault_flags'' | None \<Rightarrow> JNull) (JInt 0)))) (\<lambda>flags.
      bind_pym (metric_stats avg dev (Fin 300)) (\<lambda>ms.
      let x = \<lparr>x_device = device, x_config = cfg, x_fw_job = map_option (\<lambda>j. (j_target j, j_status j)) job, x_latest = last,
        x_faults = flags_to_names flags, x_stats = ms, x_loss = s_loss_pct st, x_gaps = s_seq_gaps st,
        x_bad_crc = s_bad_crc st, x_reconnects = s_reconnects st, x_tcp = s_tcp_connected st,
        x_alerts = as, x_resolved = rs, x_logs = ls, x_injections = fs\<rparr>
      in bind_pym (of_res (context_json x)) (\<lambda>j. ret (x, j)))))))))))))"

section \<open>What the heuristic reads\<close>

text \<open>The sets of the code are lists without duplicates; \<open>sorted\<close> orders strings by code points.\<close>

definition open_rules :: "diag_context \<Rightarrow> pystr list" where
  "open_rules x = remdups (map a_rule (x_alerts x))"

definition faults_of :: "diag_context \<Rightarrow> pystr list" where
  "faults_of x =
     remdups (x_faults x @ map (\<lambda>a. drop 5 (a_rule a)) (filter (\<lambda>a. prefix (lit ''flag:'') (a_rule a)) (x_alerts x)))"

definition injected_of :: "diag_context \<Rightarrow> pystr list" where
  "injected_of x = remdups (concat (map (\<lambda>f. flags_to_names (i_set_flags f)) (x_injections x)))"

definition has_rule :: "diag_context \<Rightarrow> string \<Rightarrow> bool" where
  "has_rule x r \<longleftrightarrow> lit r \<in> set (open_rules x)"

definition has_fault :: "diag_context \<Rightarrow> string \<Rightarrow> bool" where
  "has_fault x f \<longleftrightarrow> lit f \<in> set (faults_of x)"

definition sorted_text :: "pystr list \<Rightarrow> pystr" where
  "sorted_text ns = py_str (names_json (sort ns))"

text \<open>\<open>sorted(faults) or 'none'\<close>.\<close>

definition faults_text :: "diag_context \<Rightarrow> pystr" where
  "faults_text x = (if faults_of x = [] then lit ''none'' else sorted_text (faults_of x))"

text \<open>\<open>stats.get(k)\<close> and \<open>cfg.get(k)\<close> in a text.\<close>

definition stat_text :: "diag_context \<Rightarrow> string \<Rightarrow> pystr" where
  "stat_text x k = py_str (dict_get (x_stats x) k)"

definition cfg_text :: "diag_context \<Rightarrow> string \<Rightarrow> pystr" where
  "cfg_text x k =
     py_str (case x_config x of
       None \<Rightarrow> JNull
     | Some c \<Rightarrow> (case context_config c of JObj kvs \<Rightarrow> dict_get kvs k | _ \<Rightarrow> JNull))"

record cause =
  k_cause :: pystr
  k_evidence :: pystr
  k_lik :: pyfloat

text \<open>A block of the heuristic: the causes it adds and the actions it recommends.\<close>

type_synonym part = "cause list \<times> pystr list"

definition cause :: "string \<Rightarrow> pystr \<Rightarrow> rat \<Rightarrow> cause" where
  "cause c ev p = \<lparr>k_cause = lit c, k_evidence = ev, k_lik = rnd64 p\<rparr>"

definition part_if :: "bool \<Rightarrow> cause \<Rightarrow> string list \<Rightarrow> part" where
  "part_if b c as = (if b then ([c], map lit as) else ([], []))"

section \<open>The heuristic\<close>

definition temp_rules :: "diag_context \<Rightarrow> pystr list" where
  "temp_rules x = filter (\<lambda>r. r \<in> set (map lit [''temp_high'', ''temp_critical'', ''rate:temp_c'', ''anomaly:temp_c''])) (open_rules x)"

definition overtemp_part :: "diag_context \<Rightarrow> part" where
  "overtemp_part x =
     (if temp_rules x \<noteq> [] \<or> has_fault x ''OVERTEMP'' then
        (let ev = lit ''alerts '' @ sorted_text (temp_rules x) @ lit ''; temp_c stats '' @ stat_text x ''temp_c'' @ lit ''; limit ''
               @ cfg_text x ''temp_limit_c'';
             injected = (if lit ''OVERTEMP'' \<in> set (injected_of x)
               then [cause ''SIL-injected OVERTEMP fault (test scenario)''
                       (ev @ lit ''; OVERTEMP present in recent fault injections'') (6 / 10)] else []);
             why = (if has_rule x ''current_high'' \<or> has_fault x ''OVERCURRENT''
               then cause ''Thermal runaway from sustained overcurrent (winding I^2R heating)''
                      (ev @ lit ''; current_a stats '' @ stat_text x ''current_a'') (1 / 2)
               else if has_rule x ''rate:temp_c''
               then cause ''Rapid heating: cooling loss or stalled rotor / high load at low rpm''
                      (ev @ lit ''; rpm stats '' @ stat_text x ''rpm'') (45 / 100)
               else cause ''Winding overtemperature due to cooling degradation or ambient load'' ev (4 / 10))
         in (injected @ [why], map lit [''Derate torque/current until temp_c falls below limit'',
               ''Inspect coolant flow / fan and heatsink contact'', ''Lower current_limit_a via config if load profile allows'']))
      else ([], []))"

definition overcurrent_part :: "diag_context \<Rightarrow> part" where
  "overcurrent_part x =
     part_if (has_rule x ''current_high'' \<or> has_fault x ''OVERCURRENT'')
       (cause ''Phase overcurrent: mechanical overload, short, or aggressive torque demand''
         (lit ''current_a stats '' @ stat_text x ''current_a'' @ lit ''; limit '' @ cfg_text x ''current_limit_a'') (45 / 100))
       [''Check for mechanical binding / brake drag'', ''Inspect phase wiring and insulation resistance'']"

definition undervoltage_part :: "diag_context \<Rightarrow> part" where
  "undervoltage_part x =
     part_if (has_rule x ''voltage_low'' \<or> has_fault x ''UNDERVOLTAGE'' \<or> has_rule x ''anomaly:voltage_v'')
       (cause ''DC bus undervoltage: weak battery / high-resistance connection / regen fault''
         (lit ''voltage_v stats '' @ stat_text x ''voltage_v'' @ lit '' (48 V system)'') (45 / 100))
       [''Check battery SoC and pack balance'', ''Measure bus voltage drop under load at the connector'']"

definition vibration_part :: "diag_context \<Rightarrow> part" where
  "vibration_part x =
     part_if (has_rule x ''vibration_high'' \<or> has_fault x ''VIBRATION_HIGH'' \<or> has_rule x ''anomaly:vibration_g'')
       (cause ''Mechanical imbalance / bearing wear / loose mount'' (lit ''vibration_g stats '' @ stat_text x ''vibration_g'') (45 / 100))
       [''Inspect bearings and motor mounts'', ''Perform a coast-down vibration spectrum check'']"

definition encoder_part :: "diag_context \<Rightarrow> part" where
  "encoder_part x =
     part_if (has_fault x ''ENCODER_FAULT'' \<or> has_rule x ''anomaly:rpm'' \<or> has_rule x ''rpm_high'')
       (cause ''Encoder/position feedback fault causing rpm instability''
         (lit ''rpm stats '' @ stat_text x ''rpm'' @ lit ''; faults '' @ sorted_text (faults_of x)) (4 / 10))
       [''Check encoder cabling and shielding'', ''Re-run encoder alignment/calibration'']"

definition stuck_part :: "diag_context \<Rightarrow> part" where
  "stuck_part x =
     part_if (has_fault x ''SENSOR_STUCK'')
       (cause ''Stuck sensor reading (frozen ADC channel or broken sensor)'' (lit ''SENSOR_STUCK flag reported by device'') (1 / 2))
       [''Compare stuck channel to redundant/estimated value'', ''Replace sensor or harness'']"

definition gps_part :: "diag_context \<Rightarrow> part" where
  "gps_part x =
     part_if (has_fault x ''GPS_LOST'')
       (cause ''GPS fix lost (antenna, tunnel/urban canyon, or receiver fault)'' (lit ''GPS_LOST flag'') (35 / 100))
       [''Verify GPS antenna connection; ignore position-derived metrics until fix returns'']"

definition link_part :: "diag_context \<Rightarrow> part" where
  "link_part x =
     part_if (has_rule x ''packet_loss'' \<or> has_fault x ''COMM_DEGRADED'' \<or> fless (Fin 10) (x_loss x))
       (cause ''Degraded UDP link (RF interference, congestion, or lossy path)''
         (lit ''loss_pct '' @ float_repr (x_loss x) @ lit '', seq_gaps '' @ py_str_int (x_gaps x) @ lit '', bad_crc ''
           @ py_str_int (x_bad_crc x)) (1 / 2))
       [''Inspect network path / antenna; reduce telemetry_hz if link budget is marginal'']"

definition offline_part :: "diag_context \<Rightarrow> part" where
  "offline_part x =
     part_if (has_rule x ''offline'')
       (cause ''Device offline: power loss, reboot loop, or network partition''
         (lit ''no HEARTBEAT/TELEMETRY; reconnects '' @ py_str_int (x_reconnects x) @ lit ''; last_seen ''
           @ py_str (dict_get (x_device x) ''last_seen'')) (6 / 10))
       [''Check device power and network reachability'', ''Review last logs before disconnect'']"

definition reconnect_part :: "diag_context \<Rightarrow> part" where
  "reconnect_part x =
     part_if (3 < x_reconnects x \<and> \<not> has_rule x ''offline'')
       (cause ''Unstable TCP control link (frequent reconnects)'' (lit ''reconnects '' @ py_str_int (x_reconnects x)) (3 / 10)) []"

definition firmware_part :: "diag_context \<Rightarrow> part" where
  "firmware_part x =
     (case x_fw_job x of
        None \<Rightarrow> ([], [])
      | Some j \<Rightarrow>
          part_if (snd j = lit ''rejected'' \<or> snd j = lit ''failed'')
            (cause ''Firmware update rejected by device (version downgrade or malformed image)''
              (lit ''fw_job '' @ py_str (job_json j)) (1 / 2))
            [''Choose a firmware version higher than the installed one''])"

definition config_part :: "diag_context \<Rightarrow> part" where
  "config_part x =
     (case x_config x of
        None \<Rightarrow> ([], [])
      | Some c \<Rightarrow>
          part_if (c_ack_status c \<in> set (map lit [''rejected'', ''queued'', ''pending'', ''sent'']))
            (cause ''Config push not acknowledged/applied''
              (lit ''config v'' @ py_str_int (c_version c) @ lit '' ack_status='' @ c_ack_status c) (1 / 4))
            [''Re-send config once the device control channel reconnects''])"

definition parts :: "(diag_context \<Rightarrow> part) list" where
  "parts = [overtemp_part, overcurrent_part, undervoltage_part, vibration_part, encoder_part, stuck_part, gps_part, link_part,
     offline_part, reconnect_part, firmware_part, config_part]"

definition found_causes :: "diag_context \<Rightarrow> cause list" where
  "found_causes x = concat (map (\<lambda>p. fst (p x)) parts)"

definition found_actions :: "diag_context \<Rightarrow> pystr list" where
  "found_actions x = concat (map (\<lambda>p. snd (p x)) parts)"

text \<open>The loop that drops repeated actions.\<close>

fun dedupe :: "pystr list \<Rightarrow> pystr list \<Rightarrow> pystr list \<Rightarrow> pystr list" where
  "dedupe seen_as kept [] = kept"
| "dedupe seen_as kept (a # as) =
     (if a \<in> set seen_as then dedupe seen_as kept as else dedupe (a # seen_as) (kept @ [a]) as)"

text \<open>Normalising the likelihoods: \<open>total = sum(...) or 1.0\<close>, then \<open>round(l / total, 2)\<close>.\<close>

definition total_lik :: "cause list \<Rightarrow> pyfloat" where
  "total_lik cs = (let t = float_sum (map k_lik cs) in if fzero t then Fin 1 else t)"

definition share :: "pyfloat \<Rightarrow> cause \<Rightarrow> cause res" where
  "share t c = rbind (fdiv (k_lik c) t) (\<lambda>q. Inr (c\<lparr>k_lik := round_nd 2 q\<rparr>))"

text \<open>\<open>min(0.9, y)\<close> is 0.9 unless \<open>y\<close> is less.\<close>

definition confidence_of :: "diag_context \<Rightarrow> pyfloat" where
  "confidence_of x =
     (let y = fadd (fadd (rnd64 (4 / 10)) (fmul (rnd64 (1 / 10)) (rnd64 (of_nat (length (open_rules x))))))
                (if set (faults_of x) \<inter> set (injected_of x) \<noteq> {} then rnd64 (2 / 10) else Fin 0)
      in if fless y (rnd64 (9 / 10)) then y else rnd64 (9 / 10))"

record diagnosis =
  dg_summary :: pystr
  dg_causes :: "cause list"
  dg_actions :: "pystr list"
  dg_confidence :: pyfloat

definition nominal :: "diag_context \<Rightarrow> diagnosis" where
  "nominal x =
     \<lparr>dg_summary = lit ''No active faults or alerts; telemetry within configured limits. Device appears healthy.'',
      dg_causes = [cause ''Nominal operation''
        (lit ''no open alerts, faults '' @ faults_text x @ lit '', loss_pct '' @ float_repr (x_loss x)) (9 / 10)],
      dg_actions = dedupe [] [] [lit ''No action required; continue monitoring''],
      dg_confidence = round_nd 2 (case dict_get (x_stats x) ''n'' of JInt n \<Rightarrow> if 0 < n then rnd64 (8 / 10) else rnd64 (4 / 10)
        | _ \<Rightarrow> rnd64 (4 / 10))\<rparr>"

text \<open>\<open>causes.sort(key=lambda c: -c["likelihood"])\<close> is stable; the likelihoods are finite.\<close>

definition heuristic :: "diag_context \<Rightarrow> diagnosis res" where
  "heuristic x =
     (let cs = found_causes x in
      if cs = [] then Inr (nominal x)
      else rbind (rmap (share (total_lik cs)) cs) (\<lambda>shares.
        let ranked = sort_key (\<lambda>c. - fval (k_lik c)) shares in
        Inr \<lparr>dg_summary = py_str_int (int (length (open_rules x))) @ lit '' open alert(s) '' @ sorted_text (open_rules x)
               @ lit ''; active faults '' @ faults_text x @ lit ''. Most likely: '' @ k_cause (ranked ! 0) @ lit ''.'',
             dg_causes = ranked, dg_actions = dedupe [] [] (found_actions x), dg_confidence = round_nd 2 (confidence_of x)\<rparr>))"

section \<open>The entry point\<close>

definition cause_json :: "cause \<Rightarrow> json" where
  "cause_json c = JObj [(lit ''cause'', JStr (k_cause c)), (lit ''evidence'', JStr (k_evidence c)), (lit ''likelihood'', JFloat (k_lik c))]"

definition heuristic_diagnosis :: "diag_context \<Rightarrow> ('a env_scheme, sample) pym" where
  "heuristic_diagnosis x =
     bind_pym (of_res (heuristic x)) (\<lambda>d.
     bind_pym time_time (\<lambda>now.
     bind_pym (of_res (Database.iso now)) (\<lambda>t.
     ret [(lit ''summary'', JStr (dg_summary d)), (lit ''probable_causes'', JList (map cause_json (dg_causes d))),
          (lit ''recommended_actions'', names_json (dg_actions d)), (lit ''confidence'', JFloat (dg_confidence d)),
          (lit ''generated_at'', JStr t)])))"

text \<open>
  The answer of the remote model is what \<open>json.loads\<close> made of its text, or nothing when no key is set or the call
  failed. It is taken when it has the four fields; the other shapes raise, which is caught.
\<close>

definition accepted_answer :: "json option \<Rightarrow> sample option" where
  "accepted_answer a =
     (case a of
        Some (JObj kvs) \<Rightarrow>
          (if list_all (\<lambda>k. map_of kvs (lit k) \<noteq> None) [''summary'', ''probable_causes'', ''recommended_actions'', ''confidence'']
           then Some kvs else None)
      | _ \<Rightarrow> None)"

definition diagnose :: "(pyfloat list \<Rightarrow> pyfloat option) \<Rightarrow> pystr \<Rightarrow> json option \<Rightarrow> pystr \<Rightarrow> ('a server_scheme, Diagnosis) pym" where
  "diagnose avg model answer dev =
     bind_pym (build_context avg dev) (\<lambda>(x, ctx).
     bind_pym (case accepted_answer answer of
         Some kvs \<Rightarrow> ret (model, kvs)
       | None \<Rightarrow> bind_pym (heuristic_diagnosis x) (\<lambda>kvs. ret (lit ''heuristic'', kvs))) (\<lambda>(used, kvs).
     save_diagnosis dev used (JObj (AList.update (lit ''model'') (JStr used) kvs)) ctx))"

text \<open>\<open>POST .../diagnose\<close> of \<open>api.py\<close>.\<close>

definition diagnose_device :: "(pyfloat list \<Rightarrow> pyfloat option) \<Rightarrow> pystr \<Rightarrow> json option \<Rightarrow> pystr \<Rightarrow> ('a server_scheme, Diagnosis) pym" where
  "diagnose_device avg model answer dev =
     seq_pym (device_or_404 dev) (seq_pym flush (diagnose avg model answer dev))"

section \<open>The actions\<close>

lemma remdups_again: "a \<in> set zs \<Longrightarrow> remdups (ys @ a # zs) = remdups (ys @ zs)"
  by (induction ys) auto

lemma dedupe_remdups:
  assumes "set seen_as = set kept" "distinct kept"
  shows "dedupe seen_as kept as = rev (remdups (rev as @ rev kept))"
  using assms
proof (induction as arbitrary: seen_as kept)
  case Nil
  then show ?case by (simp add: distinct_remdups_id)
next
  case (Cons a as)
  show ?case
  proof (cases "a \<in> set kept")
    case True
    with Cons show ?thesis by (simp add: remdups_again)
  next
    case False
    with Cons.prems Cons.IH [of "a # seen_as" "kept @ [a]"] show ?thesis by simp
  qed
qed

section \<open>The ranking\<close>

lemma total_lik_nonzero: "\<not> fzero (total_lik cs)"
  by (simp add: total_lik_def Let_def fzero_def)

lemma fdiv_runs: "\<not> fzero y \<Longrightarrow> \<exists>z. fdiv x y = Inr z"
  by (auto simp: fdiv_def Let_def)

lemma share_runs: "\<not> fzero t \<Longrightarrow> \<exists>c'. share t c = Inr c' \<and> k_cause c' = k_cause c \<and> k_evidence c' = k_evidence c"
  using fdiv_runs [of t "k_lik c"] by (auto simp: share_def)

lemma shares_run:
  "\<not> fzero t \<Longrightarrow> \<exists>cs'. rmap (share t) cs = Inr cs' \<and> map (\<lambda>c. (k_cause c, k_evidence c)) cs' = map (\<lambda>c. (k_cause c, k_evidence c)) cs"
proof (induction cs)
  case (Cons c cs)
  with share_runs [of t c] show ?case by auto
qed simp

lemma sorted_by_key: "sorted (map k (sort_key k xs))"
  by simp

lemma confidence_le: "fle (round_nd 2 (confidence_of x)) (rnd64 (9 / 10))"
proof -
  let ?q = "8106479329266893 / 9007199254740992 :: rat"
  have q: "rnd64 (9 / 10) = Fin ?q" "rnd64 (of_int (rhe (?q * 10 ^ 2)) / 10 ^ 2) = rnd64 (9 / 10)"
    by code_simp+
  have "confidence_of x = rnd64 (9 / 10) \<or> fless (confidence_of x) (rnd64 (9 / 10))"
    by (simp add: confidence_of_def Let_def)
  then show ?thesis
  proof (cases "confidence_of x")
    case (Fin r)
    with \<open>confidence_of x = _ \<or> _\<close> q(1) have "r \<le> ?q" by auto
    from fle_round_nd [OF this, of 2] q(2) Fin show ?thesis by simp
  qed (use q in \<open>auto simp: fle_def\<close>)
qed

section \<open>What the heuristic does not see\<close>

text \<open>The rules some block of the heuristic looks for.\<close>

definition known_rules :: "string list" where
  "known_rules = [''temp_high'', ''temp_critical'', ''rate:temp_c'', ''anomaly:temp_c'', ''current_high'', ''voltage_low'',
     ''anomaly:voltage_v'', ''vibration_high'', ''anomaly:vibration_g'', ''anomaly:rpm'', ''rpm_high'', ''packet_loss'', ''offline'']"

definition unseen :: "Alert \<Rightarrow> bool" where
  "unseen a \<longleftrightarrow> a_rule a \<notin> set (map lit known_rules) \<and> \<not> prefix (lit ''flag:'') (a_rule a)"

lemma unseen_rules:
  assumes "\<forall>a\<in>set (x_alerts x). unseen a"
  shows "r \<in> set known_rules \<Longrightarrow> \<not> has_rule x r" "temp_rules x = []"
  using assms by (fastforce simp: has_rule_def open_rules_def unseen_def temp_rules_def known_rules_def filter_empty_conv)+

lemma unseen_faults:
  assumes "\<forall>a\<in>set (x_alerts x). unseen a" "x_faults x = []"
  shows "faults_of x = []"
  using assms by (auto simp: faults_of_def unseen_def filter_empty_conv)

text \<open>The link, the firmware and the configuration give no cause either.\<close>

definition quiet_rest :: "diag_context \<Rightarrow> bool" where
  "quiet_rest x \<longleftrightarrow> \<not> fless (Fin 10) (x_loss x) \<and> x_reconnects x \<le> 3
     \<and> (case x_fw_job x of Some j \<Rightarrow> snd j \<notin> {lit ''rejected'', lit ''failed''} | None \<Rightarrow> True)
     \<and> (case x_config x of Some c \<Rightarrow> c_ack_status c \<notin> set (map lit [''rejected'', ''queued'', ''pending'', ''sent'']) | None \<Rightarrow> True)"

lemma nothing_found:
  assumes "\<forall>a\<in>set (x_alerts x). unseen a" "x_faults x = []" "quiet_rest x"
  shows "found_causes x = []"
proof -
  note r = unseen_rules [OF assms(1)] unseen_faults [OF assms(1,2)]
  have f: "\<not> has_fault x f" for f using r(3) by (simp add: has_fault_def)
  have n: "\<forall>r\<in>set known_rules. \<not> has_rule x r" using r(1) by blast
  note n = n [unfolded known_rules_def list.set ball_simps]
  have "overtemp_part x = ([], [])" "overcurrent_part x = ([], [])" "undervoltage_part x = ([], [])" "vibration_part x = ([], [])"
    "encoder_part x = ([], [])" "stuck_part x = ([], [])" "gps_part x = ([], [])"
    using n r(2) f
    by (simp_all add: overtemp_part_def overcurrent_part_def undervoltage_part_def vibration_part_def encoder_part_def stuck_part_def
      gps_part_def part_if_def)
  moreover have "link_part x = ([], [])" "offline_part x = ([], [])" "reconnect_part x = ([], [])"
    using n f assms(3) by (simp_all add: link_part_def offline_part_def reconnect_part_def part_if_def quiet_rest_def)
  moreover have "firmware_part x = ([], [])" "config_part x = ([], [])"
    using assms(3) by (auto simp: firmware_part_def config_part_def part_if_def quiet_rest_def split: option.splits)
  ultimately show ?thesis by (simp add: found_causes_def parts_def)
qed

lemma nominal_actions: "dg_actions (nominal x) = [lit ''No action required; continue monitoring'']"
  by (simp add: nominal_def)

section \<open>A metric without a value\<close>

lemma rmap_raises: "x \<in> set xs \<Longrightarrow> f x = Inl e \<Longrightarrow> \<exists>e'. rmap f xs = Inl e'"
proof (induction xs)
  case (Cons y ys)
  then show ?case by (cases "f y"; cases "rmap f ys") auto
qed simp

lemma non_null_None: "\<forall>x\<in>set xs. x = None \<Longrightarrow> non_null xs = []"
  by (induction xs) auto

lemma metric_entry_raises: "\<forall>r\<in>set rows. f r = None \<Longrightarrow> metric_entry avg rows (k, f) = Inl TypeError"
  by (simp add: metric_entry_def aggregate_def non_null_None round3_def Let_def split: option.splits)

text \<open>The rows \<open>metric_stats\<close> reads when it is called in a state.\<close>

definition recent_rows :: "pystr \<Rightarrow> 'a env_scheme \<Rightarrow> TelRow list" where
  "recent_rows dev s =
     filter (\<lambda>r. t_dev r = dev \<and> fle (fsub (wclock s (wreads s)) (Fin 300)) (t_ts r)) (telemetry_t (wdb s))"

lemma metric_stats_raises:
  assumes "(k, f) \<in> set metric_columns" "recent_rows dev s \<noteq> []" "\<forall>r\<in>set (recent_rows dev s). f r = None"
  shows "\<exists>e. fst (metric_stats avg dev (Fin 300) s) = Inl e"
  using rmap_raises [of "(k, f)" _ "metric_entry avg (recent_rows dev s)", OF assms(1) metric_entry_raises [OF assms(3)]] assms(2)
  by (auto simp: metric_stats_def time_time_def recent_rows_def db_get_def pym_simps)

text \<open>A computation that raises before it writes to the database.\<close>

definition fails :: "('a server_scheme, 'b) pym \<Rightarrow> 'a server_scheme \<Rightarrow> bool" where
  "fails m s \<longleftrightarrow> (\<exists>e. fst (m s) = Inl e) \<and> wdb (snd (m s)) = wdb s"

lemma fails_reads:
  "(\<And>x. fails (f x) s) \<Longrightarrow> fails (bind_pym (db_get g) f) s"
  "(\<And>x. fails (f' x) s) \<Longrightarrow> fails (bind_pym (gets g') f') s"
  "(\<And>x. fails (f'' x) s) \<Longrightarrow> fails (bind_pym (of_res r) f'') s"
  by (cases r; simp add: fails_def pym_simps)+

lemma fails_on_stat: "fails m (s\<lparr>stats := AList.update dev (stat_of dev s) (stats s)\<rparr>) \<Longrightarrow> fails (seq_pym (on_stat dev (\<lambda>x. x)) m) s"
  by (simp add: fails_def pym_simps)

lemma fails_first: "fails m s \<Longrightarrow> fails (bind_pym m f) s"
  by (auto simp: fails_def bind_app)

lemma metric_stats_fails:
  assumes "(k, f) \<in> set metric_columns" "recent_rows dev s \<noteq> []" "\<forall>r\<in>set (recent_rows dev s). f r = None"
  shows "fails (metric_stats avg dev (Fin 300)) s"
proof -
  have "wdb (snd (metric_stats avg dev (Fin 300) s)) = wdb s"
    by (simp add: metric_stats_def pym_simps split: sum.splits)
  with metric_stats_raises [OF assms] show ?thesis by (simp add: fails_def)
qed

lemma diagnose_fails:
  assumes "(k, f) \<in> set metric_columns" "recent_rows dev s \<noteq> []" "\<forall>r\<in>set (recent_rows dev s). f r = None"
  shows "fails (diagnose avg model answer dev) s"
proof -
  let ?s = "s\<lparr>stats := AList.update dev (stat_of dev s) (stats s)\<rparr>"
  have r: "recent_rows dev ?s = recent_rows dev s" by (simp add: recent_rows_def)
  have m: "fails (metric_stats avg dev (Fin 300)) ?s"
    using metric_stats_fails [of k f dev ?s avg] assms unfolding r by blast
  have "fails (build_context avg dev) s" unfolding build_context_def split_def
    by (rule fails_reads fails_on_stat fails_first m)+
  then show ?thesis unfolding diagnose_def by (rule fails_first)
qed

section \<open>Properties\<close>

text \<open>
  C31. The heuristic always returns. When some block found a cause, the diagnosis holds exactly the
  causes found with their evidence, the most likely first; the recommended actions are those of the blocks without
  repetitions in the order of their first mention; and the confidence is at most 0.9. Otherwise it is the
  nominal diagnosis.
\<close>

theorem heuristic_ranks_causes:
  "\<exists>d. heuristic x = Inr d \<and>
     (if found_causes x = [] then d = nominal x
      else mset (map (\<lambda>c. (k_cause c, k_evidence c)) (dg_causes d)) = mset (map (\<lambda>c. (k_cause c, k_evidence c)) (found_causes x))
        \<and> sorted (map (\<lambda>c. - fval (k_lik c)) (dg_causes d))
        \<and> dg_actions d = rev (remdups (rev (found_actions x)))
        \<and> fle (dg_confidence d) (rnd64 (9 / 10)))"
proof -
  obtain cs where cs: "rmap (share (total_lik (found_causes x))) (found_causes x) = Inr cs"
    "map (\<lambda>c. (k_cause c, k_evidence c)) cs = map (\<lambda>c. (k_cause c, k_evidence c)) (found_causes x)"
    using shares_run [OF total_lik_nonzero] by blast
  have m: "mset (map h (sort_key k cs)) = mset (map h cs)" for h k by simp
  have a: "dedupe [] [] (found_actions x) = rev (remdups (rev (found_actions x)))" by (simp add: dedupe_remdups)
  show ?thesis using cs(1) m [of "\<lambda>c. (k_cause c, k_evidence c)", unfolded cs(2)] a confidence_le [of x]
    by (simp add: heuristic_def Let_def)
qed

text \<open>
  Some open alerts are reported as good health: when no fault flag is active, the link is quiet,
  no firmware or configuration push is pending, and every open alert is of a rule the heuristic does not
  look for, the summary says that there are no active alerts and the only action is to do nothing.
\<close>

theorem unseen_alerts_reported_healthy:
  assumes "\<forall>a\<in>set (x_alerts x). unseen a" "x_faults x = []" "quiet_rest x"
  shows "\<exists>d. heuristic x = Inr d
    \<and> dg_summary d = lit ''No active faults or alerts; telemetry within configured limits. Device appears healthy.''
    \<and> dg_actions d = [lit ''No action required; continue monitoring'']"
  using nothing_found [OF assms] by (simp add: heuristic_def nominal_actions) (simp add: nominal_def)

definition sample_context :: diag_context where
  "sample_context = \<lparr>x_device = [], x_config = None, x_fw_job = None, x_latest = None, x_faults = [], x_stats = [(lit ''n'', JInt 3000)],
     x_loss = Fin 0, x_gaps = 0, x_bad_crc = 0, x_reconnects = 0, x_tcp = True,
     x_alerts = [new_alert 1 (lit ''ECU-1'') (lit ''anomaly:current_a'') (Some (lit ''current_a'')) (Some (Fin 140))
       (SText (lit ''warn'')) (lit ''anomaly'') (Fin 1000)],
     x_resolved = [], x_logs = [], x_injections = []\<rparr>"

text \<open>An example: an alert that the default rules raise: an anomaly of the current.\<close>

theorem unseen_alerts_reported_healthy_witness:
  "\<exists>d. heuristic sample_context = Inr d \<and> open_rules sample_context = [lit ''anomaly:current_a'']
    \<and> dg_actions d = [lit ''No action required; continue monitoring'']"
proof -
  have "list_all unseen (x_alerts sample_context)" by code_simp
  then have a: "\<forall>a\<in>set (x_alerts sample_context). unseen a" by (simp only: list_all_iff)
  have b: "x_faults sample_context = []" "quiet_rest sample_context" by code_simp+
  have c: "open_rules sample_context = [lit ''anomaly:current_a'']" by code_simp
  from unseen_alerts_reported_healthy [OF a b] c show ?thesis by blast
qed

text \<open>
  A metric that has no value in the last five minutes (a device that sends NaN, which the
  database keeps as NULL) makes every diagnosis of the device fail, whatever the model would answer, and nothing is stored.
\<close>

theorem missing_metric_blocks_diagnosis:
  assumes "(k, f) \<in> set metric_columns" "recent_rows dev s \<noteq> []" "\<forall>r\<in>set (recent_rows dev s). f r = None"
  shows "(\<exists>e. fst (diagnose avg model answer dev s) = Inl e) \<and> wdb (snd (diagnose avg model answer dev s)) = wdb s"
  using diagnose_fails [OF assms] by (simp add: fails_def)

definition nan_server :: server where
  "nan_server = sample_server\<lparr>wdb := (DB_init (Fin 24))\<lparr>telemetry_t :=
     [\<lparr>t_dev = lit ''ECU-1'', t_ts = Fin 990, t_seq = 1, t_rpm = Some (Fin 1000), t_temp_c = None, t_current_a = Some (Fin 10),
       t_voltage_v = Some (Fin 96), t_vibration_g = Some (Fin 0), t_speed_kph = Some (Fin 30), t_lat = None, t_lon = None,
       t_fault_flags = 0, t_state = 1\<rparr>]\<rparr>\<rparr>"

text \<open>This at a device whose only recent sample had no temperature.\<close>

theorem missing_metric_blocks_diagnosis_witness:
  "\<exists>e. fst (diagnose (\<lambda>_. None) (lit ''m'') None (lit ''ECU-1'') nan_server) = Inl e"
proof -
  have k: "(''temp_c'', t_temp_c) \<in> set metric_columns" by (simp add: metric_columns_def)
  have "map t_temp_c (recent_rows (lit ''ECU-1'') nan_server) = [None]" by code_simp
  then have r: "recent_rows (lit ''ECU-1'') nan_server \<noteq> []" "\<forall>r\<in>set (recent_rows (lit ''ECU-1'') nan_server). t_temp_c r = None"
    by auto
  from missing_metric_blocks_diagnosis [OF k r] show ?thesis by blast
qed

end
