(* ===== verification/Telemetry_Views.thy ===== *)
theory Telemetry_Views
  imports Database
begin

text \<open>
  \<open>backend/app/db.py\<close>: the views of the telemetry a client asks for (\<open>Database.telemetry\<close>), raw or in
  buckets of ten seconds or a minute, and the background task that flushes, rolls up and prunes. The view of minutes
  joins the rolled-up rows with an aggregation of the raw rows after them.

  The lemmas show that no bucket occurs twice in a view and that every raw row after the last roll-up is counted once.
\<close>

section \<open>Aggregated rows\<close>

text \<open>\<open>CAST(ts/width AS INTEGER)*width\<close>.\<close>

definition bucket_at :: "int \<Rightarrow> pyfloat \<Rightarrow> int" where
  "bucket_at width ts =
     (case fdiv ts (Fin (of_int width)) of
        Inr q \<Rightarrow> (case int_of_float q of Inr i \<Rightarrow> i * width | Inl _ \<Rightarrow> 0)
      | Inl _ \<Rightarrow> 0)"

record view_row =
  v_ts :: int
  v_n :: int
  v_metrics :: "agg list"
  v_flags :: int
  v_state :: int
  v_lat :: "pyfloat option"
  v_lon :: "pyfloat option"

definition agg_row :: "(pyfloat list \<Rightarrow> pyfloat option) \<Rightarrow> int \<Rightarrow> TelRow list \<Rightarrow> view_row" where
  "agg_row avg b rows =
     \<lparr>v_ts = b, v_n = int (length rows),
      v_metrics = map (\<lambda>m. aggregate avg (map m rows))
        [t_rpm, t_temp_c, t_current_a, t_voltage_v, t_vibration_g, t_speed_kph],
      v_flags = sql_max_int (map t_fault_flags rows), v_state = sql_max_int (map t_state rows),
      v_lat = avg (non_null (map t_lat rows)), v_lon = avg (non_null (map t_lon rows))\<rparr>"

definition raw_window :: "pystr \<Rightarrow> pyfloat \<Rightarrow> pyfloat \<Rightarrow> DB \<Rightarrow> TelRow list" where
  "raw_window dev since until db = filter (\<lambda>r. t_dev r = dev \<and> fle since (t_ts r) \<and> fless (t_ts r) until) (telemetry_t db)"

text \<open>\<open>_agg_raw\<close>: \<open>GROUP BY 1 ORDER BY 1\<close>.\<close>

definition agg_raw :: "(pyfloat list \<Rightarrow> pyfloat option) \<Rightarrow> pystr \<Rightarrow> pyfloat \<Rightarrow> pyfloat \<Rightarrow> int \<Rightarrow> DB \<Rightarrow> view_row list" where
  "agg_raw avg dev since until width db =
     (let rows = raw_window dev since until db in
      map (\<lambda>b. agg_row avg b (filter (\<lambda>r. bucket_at width (t_ts r) = b) rows))
        (sort (remdups (map (\<lambda>r. bucket_at width (t_ts r)) rows))))"

section \<open>The view of minutes\<close>

definition rolled_rows :: "pystr \<Rightarrow> pyfloat \<Rightarrow> pyfloat \<Rightarrow> int \<Rightarrow> DB \<Rightarrow> Rollup list" where
  "rolled_rows dev since until n db =
     rev (sql_limit n (order_desc r_bucket
       (filter (\<lambda>r. r_dev r = dev \<and> fle (fsub since (Fin 60)) (Fin (of_int (r_bucket r)))
          \<and> fless (Fin (of_int (r_bucket r))) until) (rollup_t db))))"

definition rolled_view :: "Rollup \<Rightarrow> view_row" where
  "rolled_view r =
     \<lparr>v_ts = r_bucket r, v_n = r_n r, v_metrics = r_metrics r, v_flags = r_fault_flags r, v_state = r_state r,
      v_lat = r_lat r, v_lon = r_lon r\<rparr>"

text \<open>Where the raw rows begin: after the last rolled-up bucket. An int and a float compare by their exact values.\<close>

definition raw_from :: "pyfloat \<Rightarrow> Rollup list \<Rightarrow> pyfloat" where
  "raw_from since old = (if old = [] then since else fmax (Fin (of_int (r_bucket (last old) + 60))) since)"

text \<open>\<open>rows[-limit:]\<close> for a positive limit.\<close>

definition last_rows :: "int \<Rightarrow> 'a list \<Rightarrow> 'a list" where
  "last_rows n xs = drop (length xs - nat n) xs"

definition minute_rows ::
  "(pyfloat list \<Rightarrow> pyfloat option) \<Rightarrow> pystr \<Rightarrow> pyfloat \<Rightarrow> pyfloat \<Rightarrow> int \<Rightarrow> DB \<Rightarrow> view_row list" where
  "minute_rows avg dev since until n db =
     (let old = rolled_rows dev since until n db
      in last_rows n (map rolled_view old @ agg_raw avg dev (raw_from since old) until 60 db))"

section \<open>The query\<close>

datatype tel_view = RawView "(TelRow \<times> pystr) list" | AggView "(view_row \<times> pystr) list"

text \<open>\<open>_fmt\<close> adds the time as text, which may raise.\<close>

definition fmt_raw :: "TelRow \<Rightarrow> (TelRow \<times> pystr) res" where
  "fmt_raw r = rbind (iso (t_ts r)) (\<lambda>t. Inr (r, t))"

definition fmt_agg :: "view_row \<Rightarrow> (view_row \<times> pystr) res" where
  "fmt_agg r = rbind (iso (Fin (of_int (v_ts r)))) (\<lambda>t. Inr (r, t))"

text \<open>In the view of minutes and of ten seconds every row is formatted before the last ones are taken.\<close>

definition telemetry ::
  "(pyfloat list \<Rightarrow> pyfloat option) \<Rightarrow> pystr \<Rightarrow> pyfloat option \<Rightarrow> pyfloat option \<Rightarrow> int \<Rightarrow> pystr \<Rightarrow> ('a env_scheme, tel_view) pym" where
  "telemetry avg dev since0 until0 n0 step =
     bind_pym time_time (\<lambda>now.
     bind_pym (gets wdb) (\<lambda>db.
     let since = (case since0 of Some t \<Rightarrow> t | None \<Rightarrow> fsub now (Fin 300));
         until = (case until0 of Some t \<Rightarrow> t | None \<Rightarrow> fadd now (Fin 1)); n = clamp_limit n0 in
     if step = lit ''1m'' \<or> step = lit ''60s'' then
       (let old = rolled_rows dev since until n db in
        bind_pym (of_res (rmap fmt_agg (map rolled_view old @ agg_raw avg dev (raw_from since old) until 60 db))) (\<lambda>rows.
        ret (AggView (last_rows n rows))))
     else if step = lit ''10s'' then
       bind_pym (of_res (rmap fmt_agg (agg_raw avg dev since until 10 db))) (\<lambda>rows. ret (AggView (last_rows n rows)))
     else bind_pym (of_res (rmap fmt_raw (telemetry_raw dev since until n0 db))) (\<lambda>rows. ret (RawView rows))))"

section \<open>Maintenance\<close>

text \<open>
  One round of \<open>maintenance_loop\<close>, with the times of the last roll-up and prune. Whatever is raised is printed; the
  variables keep what was assigned before.
\<close>

definition maintenance_round ::
  "(pyfloat list \<Rightarrow> pyfloat option) \<Rightarrow> pyfloat \<Rightarrow> pyfloat \<Rightarrow> pyfloat \<times> pyfloat \<Rightarrow> ('a env_scheme, pyfloat \<times> pyfloat) pym" where
  "maintenance_round avg rollup_s prune_s = (\<lambda>(rolled, pruned).
     catch_pym (\<lambda>_. True)
       (bind_pym flush (\<lambda>_.
        bind_pym time_time (\<lambda>now.
        let roll = fless rollup_s (fsub now rolled); rolled' = (if roll then now else rolled) in
        catch_pym (\<lambda>_. True)
          (bind_pym (if roll then rollup avg None else ret 0) (\<lambda>_.
           let due = fless prune_s (fsub now pruned); pruned' = (if due then now else pruned) in
           catch_pym (\<lambda>_. True) (bind_pym (if due then prune else ret 0) (\<lambda>_. ret (rolled', pruned')))
             (\<lambda>_. ret (rolled', pruned'))))
          (\<lambda>_. ret (rolled', pruned)))))
       (\<lambda>_. ret (rolled, pruned)))"

text \<open>\<open>close\<close>, the connection aside.\<close>

definition db_close :: "('a env_scheme, unit) pym" where
  "db_close = bind_pym flush (\<lambda>_. ret ())"

section \<open>Buckets\<close>

lemma bucket_of_at: "bucket_of = bucket_at 60"
  by (simp add: bucket_of_def bucket_at_def fun_eq_iff)

lemma bucket_at_ge:
  assumes "1 \<le> w" "0 \<le> k" "k < 2 ^ 53" "of_int (k * w) \<le> r" "is_f64 (Fin r)"
  shows "k * w \<le> bucket_at w (Fin r)"
proof (cases "r = 0")
  case True
  then have "of_int (k * w) \<le> (0 :: rat)" using assms(4) by simp
  then have "k * w \<le> 0" by (simp only: of_int_le_0_iff)
  with True assms show ?thesis by (simp add: bucket_at_def fdiv_def fzero_def Let_def zero_of_def)
next
  case False
  have r: "0 \<le> r" using assms(1,2,4) by (meson mult_nonneg_nonneg of_int_0_le_iff order_trans zero_le_one)
  have "of_int k \<le> r / of_int w" "r / of_int w \<le> r"
    using assms(1,4) r by (simp_all add: pos_le_divide_eq divide_le_eq mult_le_cancel_left1)
  then obtain x where x: "rnd64 (r / of_int w) = Fin x" "of_int k \<le> x"
    using rnd64_between [OF f64_int _ assms(5), of k "r / of_int w"] assms(2,3) by auto
  have "0 \<le> x" using x(2) assms(2) by (meson of_int_0_le_iff order_trans)
  then have "bucket_at w (Fin r) = \<lfloor>x\<rfloor> * w" using False x(1) assms(1) by (simp add: bucket_at_def fdiv_def fzero_def Let_def)
  moreover have "k \<le> \<lfloor>x\<rfloor>" using x(2) by (simp add: le_floor_iff)
  ultimately show ?thesis using assms(1) by (simp add: mult_right_mono)
qed

lemma agg_raw_times: "map v_ts (agg_raw avg dev since until w db) = sort (remdups (map (\<lambda>r. bucket_at w (t_ts r)) (raw_window dev since until db)))"
  by (simp add: agg_raw_def Let_def agg_row_def o_def)

lemma agg_raw_ascending: "sorted_wrt (<) (map v_ts (agg_raw avg dev since until w db))"
  by (simp add: agg_raw_times strict_sorted_iff)

text \<open>Every raw row of the window is counted in one bucket.\<close>

lemma agg_raw_total: "sum_list (map v_n (agg_raw avg dev since until w db)) = int (length (raw_window dev since until db))"
proof -
  let ?rows = "raw_window dev since until db" and ?key = "\<lambda>r. bucket_at w (t_ts r)"
  have "sum_list (map v_n (agg_raw avg dev since until w db))
      = int (sum_list (map (\<lambda>b. length (filter (\<lambda>r. ?key r = b) ?rows)) (sort (remdups (map ?key ?rows)))))"
    by (simp add: agg_raw_def Let_def agg_row_def comp_def sum_list_of_nat [symmetric] flip: map_map)
       (simp add: comp_def)
  with sum_filter_keys [of ?key ?rows "sort (remdups (map ?key ?rows))"] show ?thesis by simp
qed

section \<open>Joining rolled-up and raw rows\<close>

text \<open>What the roll-up and the clock guarantee of the tables.\<close>

definition views_ok :: "pystr \<Rightarrow> DB \<Rightarrow> bool" where
  "views_ok dev db \<longleftrightarrow> distinct (map r_bucket (filter (\<lambda>r. r_dev r = dev) (rollup_t db)))
     \<and> (\<forall>r\<in>set (rollup_t db). \<exists>k. r_bucket r = k * 60 \<and> 0 \<le> k \<and> k < 2 ^ 50)
     \<and> (\<forall>r\<in>set (telemetry_t db). \<exists>x. t_ts r = Fin x \<and> is_f64 (Fin x))"

lemma ascending_filter:
  fixes key :: "'a \<Rightarrow> 'k :: linorder"
  assumes "distinct (map key (filter P xs))"
  shows "sorted_wrt (<) (map key (rev (sql_limit n (order_desc key (filter (\<lambda>x. P x \<and> Q x) xs)))))"
proof -
  let ?ys = "filter (\<lambda>x. P x \<and> Q x) xs"
  have "distinct (map key (filter Q (filter P xs)))" using assms by (rule distinct_map_filter)
  moreover have "filter Q (filter P xs) = ?ys" unfolding filter_filter by (rule arg_cong [where f = "\<lambda>p. filter p xs"]) auto
  ultimately have "distinct (map key ?ys)" by simp
  then have "sorted_wrt (<) (map key (sort_key key ?ys))" by (simp add: strict_sorted_iff distinct_map)
  then have a: "sorted_wrt (<) (map key (drop m (sort_key key ?ys)))" for m
    unfolding drop_map [symmetric] by (rule sorted_wrt_drop)
  have "\<exists>m. rev (sql_limit n (order_desc key ?ys)) = drop m (sort_key key ?ys)"
  proof (cases "n < 0")
    case True
    then show ?thesis unfolding order_desc_def sql_limit_def by (intro exI [of _ 0]) simp
  next
    case False
    then show ?thesis unfolding order_desc_def sql_limit_def if_not_P [OF False] rev_take rev_rev_ident by blast
  qed
  with a show ?thesis by metis
qed

lemma rolled_ascending: "views_ok dev db \<Longrightarrow> sorted_wrt (<) (map r_bucket (rolled_rows dev since until n db))"
  unfolding rolled_rows_def views_ok_def by (intro ascending_filter) blast

lemma le_last_sorted: "sorted xs \<Longrightarrow> x \<in> set xs \<Longrightarrow> x \<le> last xs" for xs :: "'a :: linorder list"
  by (induction xs) (auto split: if_splits intro: order_trans)

lemma raw_after_rolled:
  assumes "views_ok dev db" "old = rolled_rows dev since until n db" "a \<in> set old"
    "r \<in> set (raw_window dev (raw_from since old) until db)"
  shows "r_bucket a < bucket_at 60 (t_ts r)"
proof -
  let ?l = "last old"
  have ne: "old \<noteq> []" using assms(3) by auto
  have asc: "sorted_wrt (<) (map r_bucket old)" using rolled_ascending [OF assms(1)] assms(2) by simp
  have "r_bucket a \<le> r_bucket ?l"
  proof -
    have "sorted (map r_bucket old)" using asc by (simp add: strict_sorted_iff)
    from le_last_sorted [OF this, of "r_bucket a"] assms(3) ne show ?thesis by (simp add: last_map)
  qed
  moreover have "set old \<subseteq> set (rollup_t db)"
    using assms(2) by (auto simp: rolled_rows_def sql_limit_def split: if_splits dest: in_set_takeD)
  then have "?l \<in> set (rollup_t db)" using ne by auto
  then obtain k where k: "r_bucket ?l = k * 60" "0 \<le> k" "k < 2 ^ 50" using assms(1) by (auto simp: views_ok_def)
  moreover obtain x where x: "t_ts r = Fin x" "is_f64 (Fin x)" "fle (raw_from since old) (Fin x)"
    using assms(1,4) by (fastforce simp: views_ok_def raw_window_def)
  have "of_int ((k + 1) * 60) \<le> x"
  proof -
    have "fle (fmax (Fin (of_int (r_bucket ?l + 60))) since) (Fin x)" using x(3) ne by (simp add: raw_from_def)
    then have "of_int (r_bucket ?l + 60) \<le> x"
      by (cases since) (auto simp: fmax_def fle_def split: if_splits)
    then show ?thesis using k(1) by simp
  qed
  then have "(k + 1) * 60 \<le> bucket_at 60 (t_ts r)" using bucket_at_ge [of 60 "k + 1" x] k(2,3) x(1,2) by simp
  ultimately show ?thesis using k(1) by simp
qed

section \<open>Property\<close>

text \<open>
  C12. The view of minutes is well formed: its buckets ascend strictly, so that no minute appears twice although it joins
  rolled-up rows with rows aggregated on the fly; of the latter each raw row since the last roll-up is counted exactly once; and
  at most the asked number of rows is returned.
\<close>

theorem minute_view_ascending:
  assumes "views_ok dev db" "1 \<le> n" "old = rolled_rows dev since until n db" "start = raw_from since old"
  shows "sorted_wrt (<) (map v_ts (minute_rows avg dev since until n db))
    \<and> sum_list (map v_n (agg_raw avg dev start until 60 db)) = int (length (raw_window dev start until db))
    \<and> int (length (minute_rows avg dev since until n db)) \<le> n"
proof (intro conjI)
  have v: "v_ts (rolled_view a) = r_bucket a" for a by (simp add: rolled_view_def)
  have b: "r_bucket a < t" if "a \<in> set old" "t \<in> set (map v_ts (agg_raw avg dev start until 60 db))" for a t
    using raw_after_rolled [OF assms(1,3) that(1)] that(2) unfolding agg_raw_times assms(4) by auto
  have "sorted_wrt (<) (map v_ts (map rolled_view old @ agg_raw avg dev start until 60 db))"
    unfolding map_append sorted_wrt_append
    using rolled_ascending [OF assms(1), of since until n] agg_raw_ascending [of avg dev start until 60 db] b v assms(3)
    by (auto simp: comp_def)
  then have "sorted_wrt (<) (map v_ts (last_rows n (map rolled_view old @ agg_raw avg dev start until 60 db)))"
    unfolding last_rows_def drop_map [symmetric] by (rule sorted_wrt_drop)
  then show "sorted_wrt (<) (map v_ts (minute_rows avg dev since until n db))"
    by (simp add: minute_rows_def Let_def assms(3,4))
  show "sum_list (map v_n (agg_raw avg dev start until 60 db)) = int (length (raw_window dev start until db))"
    by (rule agg_raw_total)
  show "int (length (minute_rows avg dev since until n db)) \<le> n"
    using assms(2) by (simp add: minute_rows_def Let_def last_rows_def)
qed

text \<open>C12 at a minute that was rolled up and two samples of the next.\<close>

definition view_db :: DB where
  "view_db = (DB_init (Fin 24))\<lparr>telemetry_t := [sample_row (Fin 10), sample_row (Fin 70), sample_row (Fin 80)],
     rollup_t := [rollup_row first_row (lit ''ECU-1'', 0) [sample_row (Fin 10)]], rollup_upto := Some 60\<rparr>"

theorem minute_view_ascending_witness:
  "map (\<lambda>r. (v_ts r, v_n r)) (minute_rows first_row (lit ''ECU-1'') (Fin 0) (Fin 1000) 2000 view_db) = [(0, 1), (60, 2)]
   \<and> sorted_wrt (<) (map v_ts (minute_rows first_row (lit ''ECU-1'') (Fin 0) (Fin 1000) 2000 view_db))"
proof -
  have "is_f64 (Fin 10)" "is_f64 (Fin 70)" "is_f64 (Fin 80)" using f64_int [of 10] f64_int [of 70] f64_int [of 80] by simp_all
  then have "views_ok (lit ''ECU-1'') view_db" by (simp add: views_ok_def view_db_def rollup_row_def sample_row_def DB_init_def)
  from minute_view_ascending [OF this, of 2000 _ "Fin 0" "Fin 1000" _ first_row]
  have "sorted_wrt (<) (map v_ts (minute_rows first_row (lit ''ECU-1'') (Fin 0) (Fin 1000) 2000 view_db))" by simp
  moreover have "map (\<lambda>r. (v_ts r, v_n r)) (minute_rows first_row (lit ''ECU-1'') (Fin 0) (Fin 1000) 2000 view_db) = [(0, 1), (60, 2)]"
    by code_simp
  ultimately show ?thesis by simp
qed

end
