(* ===== verification/Times.thy ===== *)
theory Times
  imports Database
begin

text \<open>
  \<open>backend/app/db.py\<close>: \<open>parse_iso\<close>, which reads the times a client sends, as the counterpart of \<open>iso\<close>. The parser of the
  library, \<open>datetime.fromisoformat\<close>, is an argument.

  The lemmas show that \<open>civil\<close> yields valid dates and is undone by counting days.
\<close>

section \<open>Dates\<close>

definition leap :: "int \<Rightarrow> bool" where
  "leap y \<longleftrightarrow> 4 dvd y \<and> (\<not> 100 dvd y \<or> 400 dvd y)"

definition days_in_month :: "int \<Rightarrow> int \<Rightarrow> int" where
  "days_in_month y m = (if m = 2 then (if leap y then 29 else 28) else if m \<in> {4, 6, 9, 11} then 30 else 31)"

definition valid_date :: "int \<Rightarrow> int \<Rightarrow> int \<Rightarrow> bool" where
  "valid_date y m d \<longleftrightarrow> 1 \<le> m \<and> m \<le> 12 \<and> 1 \<le> d \<and> d \<le> days_in_month y m"

text \<open>The days from 1970-01-01 to a date, in years that begin with March.\<close>

definition days_of :: "int \<Rightarrow> int \<Rightarrow> int \<Rightarrow> int" where
  "days_of y m d =
     (let z = (if m \<le> 2 then y - 1 else y); mp = (if m \<le> 2 then m + 9 else m - 3)
      in z * 365 + z div 4 - z div 100 + z div 400 + (153 * mp + 2) div 5 + d - 1 - 719468)"

section \<open>Reading a time\<close>

text \<open>What \<open>fromisoformat\<close> returns: the fields, and the offset from UTC in microseconds if the text has one.\<close>

record datetime =
  dt_year :: int
  dt_month :: int
  dt_day :: int
  dt_hour :: int
  dt_minute :: int
  dt_second :: int
  dt_micro :: int
  dt_offset :: "int option"

text \<open>\<open>timestamp()\<close> of a time with an offset: the exact difference to the epoch in microseconds, divided by a million.\<close>

definition timestamp :: "datetime \<Rightarrow> int \<Rightarrow> pyfloat" where
  "timestamp d off =
     rnd64 (of_int ((days_of (dt_year d) (dt_month d) (dt_day d) * 86400 + dt_hour d * 3600 + dt_minute d * 60 + dt_second d) * 1000000
       + dt_micro d - off) / 1000000)"

definition parse_iso :: "(pystr \<Rightarrow> datetime res) \<Rightarrow> pystr option \<Rightarrow> pyfloat option res" where
  "parse_iso fromiso arg =
     (case arg of
        None \<Rightarrow> Inr None
      | Some s0 \<Rightarrow>
          if s0 = [] then Inr None
          else case py_float_of_str s0 of
            Inr x \<Rightarrow> Inr (Some x)
          | Inl _ \<Rightarrow>
              let s1 = py_strip s0;
                  s2 = (if s1 \<noteq> [] \<and> last s1 = 90 then butlast s1 @ lit ''+00:00'' else s1)
              in rbind (fromiso s2) (\<lambda>d. Inr (Some (timestamp d (case dt_offset d of Some off \<Rightarrow> off | None \<Rightarrow> 0)))))"

section \<open>Counting days undoes \<open>civil\<close>\<close>

text \<open>The year \<open>yoe\<close> and day \<open>doy\<close> of a day \<open>doe\<close> of a cycle of 400 years.\<close>

lemma year_of_cycle:
  fixes doe :: int
  assumes "0 \<le> doe" "doe < 146097" "a = doe div 1460" "c = doe div 36524" "e = doe div 146096"
    "n = doe - a + c - e" "yoe = n div 365" "q = yoe div 4" "k = yoe div 100"
  shows "0 \<le> yoe" "yoe < 400" "k = c - e" "a = q \<or> a = q + 1"
    "a = q + 1 \<longrightarrow> n = 365 * yoe + 364 \<longrightarrow> yoe mod 4 = 3 \<and> (yoe mod 100 \<noteq> 99 \<or> yoe = 399)"
proof -
  have a: "1460 * a \<le> doe" "doe \<le> 1460 * a + 1459" using assms(3) by linarith+
  have y: "365 * yoe \<le> n" "n \<le> 365 * yoe + 364" using assms(7) by linarith+
  have q: "4 * q \<le> yoe" "yoe \<le> 4 * q + 3" using assms(8) by linarith+
  have k: "100 * k \<le> yoe" "yoe \<le> 100 * k + 99" using assms(9) by linarith+
  have c: "36524 * c \<le> doe" "doe \<le> 36524 * c + 36523" using assms(4) by linarith+
  have e: "146096 * e \<le> doe" "doe \<le> 146096 * e + 146095" using assms(5) by linarith+
  have "0 \<le> c" "c \<le> 4" "0 \<le> e" "e \<le> 1" using assms(1,2) c e by linarith+
  then consider "c = 0" "e = 0" | "c = 1" "e = 0" | "c = 2" "e = 0" | "c = 3" "e = 0" | "c = 4" "e = 1"
    using c e assms(2) by linarith
  then have "36500 * c \<le> n + 36500 * e \<and> n + 36500 * e \<le> 36500 * c + 36499 \<and> e \<le> c \<and> c \<le> e + 3"
    unfolding assms(6) by cases (use a c e assms(1,2) in linarith)+
  then have n: "36500 * c \<le> n + 36500 * e" "n + 36500 * e \<le> 36500 * c + 36499" and kr: "e \<le> c" "c \<le> e + 3" by blast+
  show kce: "k = c - e" using n y k by linarith
  have d: "doe = n + a - k" using assms(6) kce by linarith
  show "0 \<le> yoe" "yoe < 400" using n y kr by linarith+
  show aq: "a = q \<or> a = q + 1"
  proof -
    have "q \<le> a"
    proof (rule ccontr)
      assume "\<not> q \<le> a"
      then have "a + 1 \<le> k" using d a(2) y(1) q(1) by linarith
      moreover have "0 \<le> k" "k \<le> c" using kce kr(1) \<open>0 \<le> e\<close> by linarith+
      ultimately show False using a(2) c(1) by linarith
    qed
    moreover have "a \<le> q + 1"
    proof (rule ccontr)
      assume "\<not> a \<le> q + 1"
      then have "1461 + k \<le> a" using d a(1) y(2) q(2) by linarith
      then show False using a(1) assms(2) kce kr(1) by linarith
    qed
    ultimately show ?thesis by linarith
  qed
  show "a = q + 1 \<longrightarrow> n = 365 * yoe + 364 \<longrightarrow> yoe mod 4 = 3 \<and> (yoe mod 100 \<noteq> 99 \<or> yoe = 399)"
  proof (intro impI conjI)
    assume 1: "a = q + 1" "n = 365 * yoe + 364"
    have "yoe = 4 * q + 3" using 1 d a q k kr kce by linarith
    then show m: "yoe mod 4 = 3" using assms(8) by presburger
    show "yoe mod 100 \<noteq> 99 \<or> yoe = 399"
    proof (rule ccontr)
      assume "\<not> (yoe mod 100 \<noteq> 99 \<or> yoe = 399)"
      then have y99: "yoe = 100 * k + 99" "yoe \<noteq> 399" using assms(9) div_mult_mod_eq [of yoe 100] by linarith+
      then have "k \<le> 2" using kr(2) kce by linarith
      have doe: "doe = 36524 * k + 36524" using 1 d y99(1) \<open>yoe = 4 * q + 3\<close> by linarith
      then have "1 \<le> e" using c(2) kce by linarith
      with doe \<open>k \<le> 2\<close> e(1) show False by linarith
    qed
  qed
qed

lemma month_of_year:
  fixes doy :: int
  assumes "0 \<le> doy" "doy \<le> 365" "mp = (5 * doy + 2) div 153" "d = doy - (153 * mp + 2) div 5 + 1"
  shows "0 \<le> mp" "mp \<le> 11" "1 \<le> d" "d \<le> (if mp = 11 then (if doy = 365 then 29 else 28) else if mp \<in> {1, 3, 6, 8} then 30 else 31)"
proof -
  have mp: "153 * mp \<le> 5 * doy + 2" "5 * doy + 2 \<le> 153 * mp + 152" using assms(3) by linarith+
  show r: "0 \<le> mp" "mp \<le> 11" using mp assms(1,2) by linarith+
  then have "mp \<in> set [0..11]" by simp
  moreover have "[0..11] = [0, 1, 2, 3, 4, 5, 6, 7, 8, 9, 10, 11 :: int]" by code_simp
  ultimately have c: "mp = 0 \<or> mp = 1 \<or> mp = 2 \<or> mp = 3 \<or> mp = 4 \<or> mp = 5 \<or> mp = 6 \<or> mp = 7 \<or> mp = 8 \<or> mp = 9 \<or> mp = 10 \<or> mp = 11"
    by simp
  have "153 * mp + 2 \<le> 5 * doy + 4" using mp by linarith
  then have "(153 * mp + 2) div 5 \<le> doy" by linarith
  then show "1 \<le> d" using assms(4) by linarith
  have "d \<le> (153 * mp + 150) div 5 - (153 * mp + 2) div 5 + 1" using assms(4) mp(2) by linarith
  with c assms(2,4) show "d \<le> (if mp = 11 then (if doy = 365 then 29 else 28) else if mp \<in> {1, 3, 6, 8} then 30 else 31)"
    by (elim disjE) simp_all
qed

lemma leap_cycle:
  assumes "yoe mod 4 = 3" "yoe mod 100 \<noteq> 99 \<or> yoe = 399"
  shows "leap (yoe + 1 + era * 400)"
proof -
  have "yoe + 1 + era * 400 = 4 * (yoe div 4 + 1 + era * 100)"
    using assms(1) div_mult_mod_eq [of yoe 4] by (simp add: algebra_simps)
  then have "4 dvd yoe + 1 + era * 400" by (metis dvd_triv_left)
  moreover have "400 dvd yoe + 1 + era * 400" if "100 dvd yoe + 1 + era * 400"
  proof -
    have "100 dvd era * 400" by (rule dvd_mult) simp
    with that have "100 dvd yoe + 1" by (simp add: dvd_add_left_iff)
    then obtain t where "yoe + 1 = 100 * t" by (rule dvdE)
    then have "yoe = 99 + (t - 1) * 100" by simp
    then have "yoe mod 100 = (99 + (t - 1) * 100) mod 100" by (rule arg_cong)
    then have "yoe mod 100 = 99" unfolding mod_mult_self1 by simp
    with assms(2) show ?thesis by simp
  qed
  ultimately show ?thesis unfolding leap_def by blast
qed

lemma civil_days:
  assumes "civil days = (y, m, d)"
  shows "valid_date y m d" "days_of y m d = days"
proof -
  define z era doe where "z = days + 719468" and "era = z div 146097" and "doe = z mod 146097"
  define yoe where "yoe = (doe - doe div 1460 + doe div 36524 - doe div 146096) div 365"
  define doy where "doy = doe - (365 * yoe + yoe div 4 - yoe div 100)"
  define mp where "mp = (5 * doy + 2) div 153"
  have "civil days = (yoe + era * 400 + (if (if mp < 10 then mp + 3 else mp - 9) \<le> 2 then 1 else 0),
      if mp < 10 then mp + 3 else mp - 9, doy - (153 * mp + 2) div 5 + 1)"
    unfolding civil_def Let_def z_def [symmetric] era_def [symmetric] doe_def [symmetric] yoe_def [symmetric]
      doy_def [symmetric] mp_def [symmetric] by (rule refl)
  from trans [OF this [symmetric] assms]
  have e: "yoe + era * 400 + (if (if mp < 10 then mp + 3 else mp - 9) \<le> 2 then 1 else 0) = y \<and>
      (if mp < 10 then mp + 3 else mp - 9) = m \<and> doy - (153 * mp + 2) div 5 + 1 = d" unfolding prod.inject .
  have m: "m = (if mp < 10 then mp + 3 else mp - 9)" by (rule sym) (rule conjunct1 [OF conjunct2 [OF e]])
  have y: "y = yoe + era * 400 + (if m \<le> 2 then 1 else 0)" unfolding m by (rule sym) (rule conjunct1 [OF e])
  have d: "d = doy - (153 * mp + 2) div 5 + 1" by (rule sym) (rule conjunct2 [OF conjunct2 [OF e]])
  have doe: "0 \<le> doe" "doe < 146097" by (simp_all add: doe_def)
  note yc = year_of_cycle [OF doe refl refl refl refl refl refl refl, folded yoe_def]
  let ?a = "doe div 1460" and ?n = "doe - doe div 1460 + doe div 36524 - doe div 146096"
  have n: "365 * yoe \<le> ?n" "?n \<le> 365 * yoe + 364" unfolding yoe_def by linarith+
  have doy_n: "doy = (?a - yoe div 4) + (?n - 365 * yoe)" using yc(3) doy_def by linarith
  have doy: "0 \<le> doy" "doy \<le> 365" using doy_n n yc(4) by linarith+
  note mo = month_of_year [OF doy mp_def d]
  have lp: "leap y" if "doy = 365" "mp = 11"
  proof -
    have "?a = yoe div 4 + 1" "?n = 365 * yoe + 364" using that doy_n n yc(4) by linarith+
    then have "yoe mod 4 = 3" "yoe mod 100 \<noteq> 99 \<or> yoe = 399" using yc(5) by blast+
    moreover have "y = yoe + 1 + era * 400" using y m that(2) by simp
    ultimately show ?thesis by (simp add: leap_cycle)
  qed
  show "valid_date y m d"
    using mo lp m unfolding valid_date_def days_in_month_def by (auto split: if_splits)
  have ym: "(if m \<le> 2 then y - 1 else y) = yoe + era * 400" "(if m \<le> 2 then m + 9 else m - 3) = mp"
    using y m mo(1,2) by (auto split: if_splits)
  have dv: "(yoe + era * 400) div 4 = yoe div 4 + era * 100" "(yoe + era * 400) div 100 = yoe div 100 + era * 4"
    "(yoe + era * 400) div 400 = era" using yc(1,2) by auto
  have "z = era * 146097 + doe" unfolding era_def doe_def by simp
  then show "days_of y m d = days"
    unfolding days_of_def Let_def ym dv using z_def d doy_def by (simp add: algebra_simps)
qed

section \<open>The text of a time is no number\<close>

lemma take_digits_stop:
  "\<forall>c\<in>set ds. is_digit c \<Longrightarrow> \<not> is_digit d \<Longrightarrow> d \<noteq> 95 \<Longrightarrow> take_digits b (ds @ d # r) = (ds, d # r)"
  by (induction ds arbitrary: b) auto

lemma pad_num_digits: "0 \<le> i \<Longrightarrow> \<forall>c\<in>set (pad_num n i). is_digit c" and pad_num_nonempty [simp]: "pad_num n i \<noteq> []"
  by (auto simp: pad_num_def pad_left_def is_digit_def dest: digits_of_digit)

lemma c_strip_id:
  assumes "\<not> is_c_space c" "\<not> is_c_space d"
  shows "c_strip (c # s @ [d]) = c # s @ [d]"
  using assms by (simp add: c_strip_def)

lemma py_strip_id:
  assumes "\<not> is_space c" "\<not> is_space d"
  shows "py_strip (c # s @ [d]) = c # s @ [d]"
  using assms by (simp add: py_strip_def)

text \<open>Digits, then a hyphen, and a letter Z at the end, all in ASCII.\<close>

lemma dated_no_float:
  assumes "\<forall>x\<in>set ds. is_digit x" "ds \<noteq> []" "\<forall>x\<in>set r. 0 \<le> x \<and> x < 128"
  shows "py_float_of_str (ds @ 45 # r @ [90]) = Inl ValueError"
proof -
  obtain c cs where ds: "ds = c # cs" using assms(2) by (cases ds) auto
  have c: "is_digit c" using assms(1) ds by simp
  let ?s = "ds @ 45 # r @ [90]"
  have "\<forall>x\<in>set ?s. 0 \<le> x \<and> x < 128" using assms(1,3) by (auto simp: is_digit_def)
  then have "map to_ascii_num ?s = ?s" by (intro map_idI) (auto simp: to_ascii_num_def)
  moreover have "c_strip ?s = ?s" using c_strip_id [of c 90 "cs @ 45 # r"] c ds by (simp add: is_c_space_def is_digit_def)
  moreover have "parse_decimal ?s = None"
    using take_digits_stop [of ds 45 False "r @ [90]"] assms(1,2) by (simp add: parse_decimal_def Let_def is_digit_def)
  moreover have "py_upper ?s = c # py_upper (cs @ 45 # r @ [90])" using c ds by (simp add: py_upper_def upper1_def is_digit_def)
  moreover have "c \<noteq> 45" "c \<noteq> 43" "c \<noteq> 73" "c \<noteq> 78" using c by (auto simp: is_digit_def)
  ultimately show ?thesis using ds by (simp add: py_float_of_str_def Let_def lit_def)
qed

section \<open>The milliseconds of a time\<close>

lemma frac_exact:
  assumes "is_f64 (Fin r)" "int_of_float (Fin r) = Inr w"
  shows "rnd64 (r - of_int w) = Fin (r - of_int w)" "\<bar>r - of_int w\<bar> < 1"
proof -
  have w: "w = (if r < 0 then - \<lfloor>- r\<rfloor> else \<lfloor>r\<rfloor>)" using assms(2) by simp
  have fr: "\<bar>r - of_int w\<bar> = \<bar>r\<bar> - of_int \<lfloor>\<bar>r\<bar>\<rfloor>" unfolding w by (auto simp: abs_if) (linarith+)
  then show lt: "\<bar>r - of_int w\<bar> < 1" using floor_correct [of "\<bar>r\<bar>"] by linarith
  obtain m e where me: "\<bar>r\<bar> = of_int m * pow2 e" "-1074 \<le> e" "0 \<le> m" "m < 2 ^ 53"
    using assms(1) unfolding is_f64_Fin fmt_def by auto
  have "fmt 52 (-1074) \<bar>r - of_int w\<bar>"
  proof (cases "0 \<le> e")
    case True
    then have "\<bar>r\<bar> = of_int (m * 2 ^ nat e)" using me(1) by (simp add: pow2_int)
    then have "\<bar>r - of_int w\<bar> = 0" unfolding fr by (simp only: floor_of_int)
    then show ?thesis by (simp only: fmt_0)
  next
    case False
    define D :: int where "D = 2 ^ nat (- e)"
    have D: "0 < D" "pow2 e = 1 / of_int D" using False by (simp_all add: D_def pow2_def)
    have fl: "\<lfloor>\<bar>r\<bar>\<rfloor> = m div D" using me(1) D floor_divide_of_int_eq [of m D, where ?'a = rat] by simp
    have "(of_int m :: rat) = of_int (m div D) * of_int D + of_int (m mod D)" by (metis div_mult_mod_eq of_int_add of_int_mult)
    then have "\<bar>r\<bar> - of_int \<lfloor>\<bar>r\<bar>\<rfloor> = of_int (m mod D) * pow2 e"
      unfolding fl unfolding me(1) D(2) using D(1) by (simp add: field_simps)
    moreover have "m mod D \<le> m" using me(3) D(1) by (simp add: zmod_le_nonneg_dividend)
    ultimately show ?thesis using me D(1) fr by (intro fmtI [of _ "m mod D" e]) auto
  qed
  moreover have "(1 :: rat) < pow2 1024" using pow2_less_iff [of 0 1024] by simp
  ultimately show "rnd64 (r - of_int w) = Fin (r - of_int w)" using lt by (intro rnd64_exact) linarith+
qed

lemma rnd64_near:
  assumes "0 \<le> z" "z \<le> 1000000"
  shows "of_int \<lfloor>z\<rfloor> \<le> fval (rnd64 z)" "fval (rnd64 z) \<le> of_int (\<lfloor>z\<rfloor> + 1)"
proof -
  have r: "0 \<le> \<lfloor>z\<rfloor>" "\<lfloor>z\<rfloor> \<le> 1000000" using assms by (simp_all add: floor_le_iff)
  have "is_f64 (Fin (of_int \<lfloor>z\<rfloor>))" "is_f64 (Fin (of_int (\<lfloor>z\<rfloor> + 1)))" using r by (intro f64_int; simp)+
  then obtain x where "rnd64 z = Fin x" "of_int \<lfloor>z\<rfloor> \<le> x" "x \<le> of_int (\<lfloor>z\<rfloor> + 1)"
    using rnd64_between [of "of_int \<lfloor>z\<rfloor>" "of_int (\<lfloor>z\<rfloor> + 1)" z] r(1) floor_correct [of z] by force
  then show "of_int \<lfloor>z\<rfloor> \<le> fval (rnd64 z)" "fval (rnd64 z) \<le> of_int (\<lfloor>z\<rfloor> + 1)" by simp_all
qed

lemma rnd64_neg: "0 < z \<Longrightarrow> fval (rnd64 (- z)) = - fval (rnd64 z)"
  by (simp add: rnd64_def Let_def)

lemma near_int:
  fixes z :: rat
  assumes "\<lfloor>z\<rfloor> \<le> i" "i \<le> \<lfloor>z\<rfloor> + 1"
  shows "\<bar>of_int i - z\<bar> \<le> 1"
proof -
  have "(of_int \<lfloor>z\<rfloor> :: rat) \<le> of_int i" "of_int i \<le> (of_int (\<lfloor>z\<rfloor> + 1) :: rat)" using assms by (simp_all only: of_int_le_iff)
  with floor_correct [of z] show ?thesis unfolding abs_le_iff by simp linarith
qed

lemma micros_near:
  assumes "\<bar>f\<bar> < 1" "us = rhe (fval (fmul (Fin f) (Fin 1000000)))"
  shows "\<bar>of_int us - f * 1000000\<bar> \<le> 1" "\<bar>us\<bar> \<le> 1000000"
proof -
  define z where "z = \<bar>f\<bar> * 1000000"
  have z: "0 \<le> z" "z \<le> 1000000" "\<lfloor>z\<rfloor> \<le> 999999" "0 \<le> \<lfloor>z\<rfloor>" using assms(1) by (simp_all add: z_def floor_le_iff)
  note n = rnd64_near [OF z(1,2)]
  have "\<bar>of_int us - f * 1000000\<bar> \<le> 1 \<and> \<bar>us\<bar> \<le> 1000000"
  proof (cases "f < 0")
    case True
    have fz: "f * 1000000 = - z" using True by (simp add: z_def)
    have "fval (fmul (Fin f) (Fin 1000000)) = fval (rnd64 (- z))"
      using True fz by (simp add: fmul_def)
    also have "\<dots> = - fval (rnd64 z)" using True by (intro rnd64_neg) (simp add: z_def)
    finally have b: "of_int (- (\<lfloor>z\<rfloor> + 1)) \<le> fval (fmul (Fin f) (Fin 1000000))" "fval (fmul (Fin f) (Fin 1000000)) \<le> of_int (- \<lfloor>z\<rfloor>)"
      using n by simp_all
    have "- (\<lfloor>z\<rfloor> + 1) \<le> us" "us \<le> - \<lfloor>z\<rfloor>" unfolding assms(2) by (rule rhe_ge_int [OF b(1)], rule rhe_le_int [OF b(2)])
    then have us: "\<lfloor>z\<rfloor> \<le> - us" "- us \<le> \<lfloor>z\<rfloor> + 1" by linarith+
    have "\<bar>of_int us - f * 1000000\<bar> = \<bar>of_int (- us) - z\<bar>" unfolding fz by simp
    then show ?thesis using near_int [OF us] us z(3,4) by simp
  next
    case False
    then have fz: "f * 1000000 = z" by (simp add: z_def)
    have "fval (fmul (Fin f) (Fin 1000000)) = fval (rnd64 z)" using False fz by (auto simp: fmul_def zero_of_def)
    then have us: "\<lfloor>z\<rfloor> \<le> us" "us \<le> \<lfloor>z\<rfloor> + 1" unfolding assms(2) using rhe_ge_int [OF n(1)] rhe_le_int [OF n(2)] by simp_all
    then show ?thesis using near_int [OF us] z(3,4) fz by simp
  qed
  then show "\<bar>of_int us - f * 1000000\<bar> \<le> 1" "\<bar>us\<bar> \<le> 1000000" by blast+
qed

section \<open>Reading back what \<open>iso\<close> writes\<close>

definition iso_text :: "int \<Rightarrow> int \<Rightarrow> int \<Rightarrow> int \<Rightarrow> int \<Rightarrow> int \<Rightarrow> int \<Rightarrow> pystr" where
  "iso_text y m d h mi s ms =
     pad_num 4 y @ lit ''-'' @ pad_num 2 m @ lit ''-'' @ pad_num 2 d @ lit ''T'' @ pad_num 2 h @ lit '':'' @ pad_num 2 mi @ lit '':''
       @ pad_num 2 s @ lit ''.'' @ pad_num 3 ms"

text \<open>
  What the documentation promises of \<open>fromisoformat\<close> for a date and time with milliseconds and the offset \<open>+00:00\<close>: it
  returns the fields.
\<close>

definition reads_isoformat :: "(pystr \<Rightarrow> datetime res) \<Rightarrow> bool" where
  "reads_isoformat fromiso \<longleftrightarrow>
     (\<forall>y m d h mi s ms. 1 \<le> y \<longrightarrow> y \<le> 9999 \<longrightarrow> valid_date y m d \<longrightarrow> 0 \<le> h \<longrightarrow> h < 24 \<longrightarrow> 0 \<le> mi \<longrightarrow> mi < 60 \<longrightarrow>
        0 \<le> s \<longrightarrow> s < 60 \<longrightarrow> 0 \<le> ms \<longrightarrow> ms < 1000 \<longrightarrow>
        fromiso (iso_text y m d h mi s ms @ lit ''+00:00'') =
          Inr \<lparr>dt_year = y, dt_month = m, dt_day = d, dt_hour = h, dt_minute = mi, dt_second = s, dt_micro = ms * 1000, dt_offset = Some 0\<rparr>)"

lemma parse_iso_parts:
  assumes "reads_isoformat fromiso" "iso_parts secs ms = Inr x" "0 \<le> ms" "ms < 1000"
  shows "parse_iso fromiso (Some x) = Inr (Some (rnd64 (of_int (secs * 1000 + ms) / 1000)))"
proof -
  obtain y m d where c: "civil (secs div 86400) = (y, m, d)" by (cases "civil (secs div 86400)")
  define t h mi s where "t = secs mod 86400" and "h = t div 3600" and "mi = t div 60 mod 60" and "s = t mod 60"
  have y: "1 \<le> y" "y \<le> 9999" and x: "x = iso_text y m d h mi s ms @ [90]"
    using assms(2) c unfolding t_def h_def mi_def s_def
    by (auto simp: iso_parts_def Let_def iso_text_def lit_def split: if_splits)
  have t: "0 \<le> t" "t < 86400" by (simp_all add: t_def)
  have hms: "0 \<le> h" "h < 24" "0 \<le> mi" "mi < 60" "0 \<le> s" "s < 60" "h * 3600 + mi * 60 + s = t"
  proof -
    have "t div 3600 = t div 60 div 60" using zdiv_zmult2_eq [of 60 t 60] by simp
    then show "h * 3600 + mi * 60 + s = t"
      using div_mult_mod_eq [of "t div 60" 60] div_mult_mod_eq [of t 60] unfolding h_def mi_def s_def by linarith
  qed (use t in \<open>simp_all add: h_def mi_def s_def pos_imp_zdiv_nonneg_iff\<close>)
  have vd: "valid_date y m d" "days_of y m d = secs div 86400" using civil_days [OF c] by simp_all
  have f: "fromiso (iso_text y m d h mi s ms @ lit ''+00:00'') =
      Inr \<lparr>dt_year = y, dt_month = m, dt_day = d, dt_hour = h, dt_minute = mi, dt_second = s, dt_micro = ms * 1000, dt_offset = Some 0\<rparr>"
    using assms(1,3,4) y vd(1) hms(1-6) unfolding reads_isoformat_def by blast
  obtain r where r: "iso_text y m d h mi s ms = pad_num 4 y @ 45 # r" "\<forall>c\<in>set r. 0 \<le> c \<and> c < 128"
  proof
    have "0 \<le> m" "0 \<le> d" using vd(1) by (simp_all add: valid_date_def)
    then show "\<forall>c\<in>set (pad_num 2 m @ lit ''-'' @ pad_num 2 d @ lit ''T'' @ pad_num 2 h @ lit '':'' @ pad_num 2 mi @ lit '':''
       @ pad_num 2 s @ lit ''.'' @ pad_num 3 ms). 0 \<le> c \<and> c < 128"
      using pad_num_digits hms assms(3) by (fastforce simp: is_digit_def lit_def)
  qed (simp add: iso_text_def lit_def)
  have d4: "\<forall>c\<in>set (pad_num 4 y). is_digit c" using y(1) by (intro pad_num_digits) simp
  have nf: "py_float_of_str x = Inl ValueError" unfolding x r(1) using dated_no_float [OF d4 pad_num_nonempty r(2)] by simp
  obtain p ps where p: "pad_num 4 y = p # ps" "is_digit p" using d4 by (cases "pad_num 4 y") auto
  have st: "py_strip x = iso_text y m d h mi s ms @ [90]"
    unfolding x r(1) p(1) using py_strip_id [of p 90 "ps @ 45 # r"] p(2) by (simp add: is_space_def is_digit_def)
  have ne: "x \<noteq> []" using x by simp
  have sec: "secs div 86400 * 86400 + t = secs" unfolding t_def by simp
  have "(days_of y m d * 86400 + h * 3600 + mi * 60 + s) * 1000000 + ms * 1000 - 0 = (secs * 1000 + ms) * 1000"
    unfolding vd(2) using hms(7) sec by (simp add: algebra_simps)
  then have "timestamp \<lparr>dt_year = y, dt_month = m, dt_day = d, dt_hour = h, dt_minute = mi, dt_second = s, dt_micro = ms * 1000, dt_offset = Some 0\<rparr> 0
      = rnd64 (of_int ((secs * 1000 + ms) * 1000) / 1000000)" by (simp only: timestamp_def datetime.simps)
  also have "(of_int ((secs * 1000 + ms) * 1000) :: rat) / 1000000 = of_int (secs * 1000 + ms) / 1000"
    unfolding of_int_mult by (simp add: field_simps)
  finally show ?thesis using nf st ne f by (simp add: parse_iso_def Let_def)
qed

text \<open>The milliseconds \<open>iso\<close> prints.\<close>

lemma iso_millis:
  assumes "is_f64 (Fin r)" "iso (Fin r) = Inr x"
  shows "\<exists>secs ms. iso_parts secs ms = Inr x \<and> 0 \<le> ms \<and> ms < 1000 \<and> \<bar>of_int (secs * 1000 + ms) / 1000 - r\<bar> \<le> 1 / 1000"
proof -
  obtain w where w: "int_of_float (Fin r) = Inr w" by simp
  note f = frac_exact [OF assms(1) w]
  define us where "us = rhe (fval (fmul (Fin (r - of_int w)) (Fin 1000000)))"
  note us = micros_near [OF f(2) us_def]
  have sub: "fsub (Fin r) (Fin (of_int w)) = Fin (r - of_int w)" using f(1) by (cases "w = 0") (simp_all add: fsub_def)
  define secs u where "secs = (if us \<ge> 1000000 then w + 1 else if us < 0 then w - 1 else w)"
    and "u = (if us \<ge> 1000000 then us - 1000000 else if us < 0 then us + 1000000 else us)"
  have "iso_parts secs (u div 1000) = Inr x"
    using assms(2) w unfolding iso_def secs_def u_def us_def by (simp add: sub Let_def split: if_splits)
  moreover have u: "0 \<le> u" "u < 1000000" "secs * 1000000 + u = w * 1000000 + us" using us(2) unfolding u_def secs_def by auto
  moreover have "0 \<le> u div 1000" "u div 1000 < 1000" using u(1,2) by linarith+
  moreover have "\<bar>of_int (secs * 1000 + u div 1000) / 1000 - r\<bar> \<le> 1 / 1000"
  proof -
    define k where "k = secs * 1000 + u div 1000"
    have "0 \<le> u mod 1000" "u mod 1000 \<le> 999" "k * 1000 + u mod 1000 = w * 1000000 + us"
      using u(3) div_mult_mod_eq [of u 1000] by (simp_all add: k_def algebra_simps)
    then have "(of_int (k * 1000 + u mod 1000) :: rat) = of_int (w * 1000000 + us)"
      "(0 :: rat) \<le> of_int (u mod 1000)" "of_int (u mod 1000) \<le> (999 :: rat)" by simp_all
    with us(1) have "\<bar>of_int k * 1000 - r * 1000000\<bar> \<le> 1000" unfolding abs_le_iff by (simp add: algebra_simps) linarith
    then show ?thesis unfolding k_def [symmetric] abs_le_iff by (simp add: field_simps)
  qed
  ultimately show ?thesis by blast
qed

section \<open>Property\<close>

text \<open>
  C13. A time the server has printed can be sent back to it: reading what \<open>iso\<close> wrote gives a time that differs from the
  original one by at most a millisecond (and the rounding of that time to a double), provided that the library's parser reads
  the format as documented.
\<close>

theorem parse_iso_reads_iso:
  assumes "reads_isoformat fromiso" "is_f64 (Fin r)" "iso (Fin r) = Inr x"
  shows "\<exists>k. parse_iso fromiso (Some x) = Inr (Some (rnd64 (of_int k / 1000))) \<and> \<bar>of_int k / 1000 - r\<bar> \<le> 1 / 1000"
  using iso_millis [OF assms(2,3)] parse_iso_parts [OF assms(1)] by metis

text \<open>A parser of this format: every field at its place.\<close>

definition fixed_fields :: "pystr \<Rightarrow> datetime res" where
  "fixed_fields s = Inr
     \<lparr>dt_year = dec_value (take 4 s), dt_month = dec_value (take 2 (drop 5 s)), dt_day = dec_value (take 2 (drop 8 s)),
      dt_hour = dec_value (take 2 (drop 11 s)), dt_minute = dec_value (take 2 (drop 14 s)), dt_second = dec_value (take 2 (drop 17 s)),
      dt_micro = dec_value (take 3 (drop 20 s)) * 1000, dt_offset = Some 0\<rparr>"

lemma dec_value_pad_num: "0 \<le> i \<Longrightarrow> dec_value (pad_num n i) = i"
proof -
  have z: "foldl (\<lambda>a c. a * 10 + (c - 48)) 0 (replicate k 48) = (0 :: int)" for k by (induction k) simp_all
  assume "0 \<le> i"
  then show ?thesis by (simp add: dec_value_def pad_num_def pad_left_def z foldl_digits_of)
qed

lemma length_pad_num: "i < 10 ^ n \<Longrightarrow> 0 < n \<Longrightarrow> length (pad_num n i) = n"
  using length_digits_of [of i n] by (simp add: pad_num_def pad_left_def)

lemma fixed_fields_reads: "reads_isoformat fixed_fields"
  unfolding reads_isoformat_def
proof (intro allI impI)
  fix y m d h mi s ms :: int
  assume r: "1 \<le> y" "y \<le> 9999" "valid_date y m d" "0 \<le> h" "h < 24" "0 \<le> mi" "mi < 60" "0 \<le> s" "s < 60" "0 \<le> ms" "ms < 1000"
  have d: "0 \<le> m" "m < 100" "0 \<le> d" "d < 100" using r(3) by (auto simp: valid_date_def days_in_month_def split: if_splits)
  have "length (pad_num 4 y) = 4" "length (pad_num 2 m) = 2" "length (pad_num 2 d) = 2" "length (pad_num 2 h) = 2"
    "length (pad_num 2 mi) = 2" "length (pad_num 2 s) = 2" "length (pad_num 3 ms) = 3"
    using r d by (simp_all add: length_pad_num)
  with r d show "fixed_fields (iso_text y m d h mi s ms @ lit ''+00:00'') =
      Inr \<lparr>dt_year = y, dt_month = m, dt_day = d, dt_hour = h, dt_minute = mi, dt_second = s, dt_micro = ms * 1000, dt_offset = Some 0\<rparr>"
    by (simp add: fixed_fields_def iso_text_def lit_def dec_value_pad_num)
qed

text \<open>C13 at a quarter of a second.\<close>

theorem parse_iso_reads_iso_witness:
  "iso (Fin (1700000000 + 1 / 4)) = Inr (lit ''2023-11-14T22:13:20.250Z'')
   \<and> (\<exists>k. parse_iso fixed_fields (Some (lit ''2023-11-14T22:13:20.250Z'')) = Inr (Some (rnd64 (of_int k / 1000)))
        \<and> \<bar>of_int k / 1000 - (1700000000 + 1 / 4)\<bar> \<le> (1 / 1000 :: rat))"
proof -
  have i: "iso (Fin (1700000000 + 1 / 4)) = Inr (lit ''2023-11-14T22:13:20.250Z'')" by code_simp
  have "is_f64 (Fin (1700000000 + 1 / 4))" by code_simp
  from parse_iso_reads_iso [OF fixed_fields_reads this i] i show ?thesis by blast
qed

end
