(* ===== verification/Api_Views.thy ===== *)
theory Api_Views
  imports Diagnostics Telemetry_Views Times
begin

text \<open>
  \<open>backend/app/api.py\<close>: the remaining handlers of \<open>GET\<close> requests, with the dictionaries the database makes of its
  rows (\<open>_fmt_alert\<close>, \<open>_fmt_job\<close> and the queries that add a time as text), and all of them as one function of
  the request.

  The lemmas show that a request to read changes no table, no rule and no connection.
\<close>

section \<open>Rows as dictionaries\<close>

text \<open>\<open>_fmt_alert\<close>.\<close>

definition alert_dict :: "Alert \<Rightarrow> json res" where
  "alert_dict a =
     rbind (alert_isos a) (\<lambda>ts.
     Inr (JObj [(lit ''id'', JInt (a_id a)), (lit ''device_id'', JStr (a_dev a)), (lit ''rule'', JStr (a_rule a)),
       (lit ''metric'', json_text (a_metric a)), (lit ''value'', opt_json (a_value a)), (lit ''severity'', sql_json (a_severity a)),
       (lit ''status'', JStr (a_status a)), (lit ''message'', JStr (a_message a)), (lit ''opened_at'', JFloat (a_opened_at a)),
       (lit ''acked_at'', opt_json (a_acked_at a)), (lit ''resolved_at'', opt_json (a_resolved_at a)),
       (lit ''updated_at'', opt_json (a_updated_at a)), (lit ''opened_at_iso'', ts ! 0), (lit ''acked_at_iso'', ts ! 1),
       (lit ''resolved_at_iso'', ts ! 2), (lit ''updated_at_iso'', ts ! 3)]))"

text \<open>\<open>_fmt_job\<close>; the history holds the times as text.\<close>

definition history_entry :: "pystr \<times> pyfloat \<Rightarrow> json res" where
  "history_entry h = rbind (Database.iso (snd h)) (\<lambda>t. Inr (JObj [(lit ''status'', JStr (fst h)), (lit ''ts'', JStr t)]))"

definition job_dict :: "FwJob \<Rightarrow> json res" where
  "job_dict j =
     rbind (rmap history_entry (j_history j)) (\<lambda>hs.
     rbind (rmap Database.iso [j_created_at j, j_updated_at j]) (\<lambda>ts.
     Inr (JObj [(lit ''id'', JInt (j_id j)), (lit ''device_id'', JStr (j_dev j)), (lit ''target_version'', JStr (j_target j)),
       (lit ''from_version'', json_text (j_from j)), (lit ''status'', JStr (j_status j)), (lit ''created_at'', JFloat (j_created_at j)),
       (lit ''updated_at'', JFloat (j_updated_at j)), (lit ''history'', JList hs), (lit ''created_at_iso'', JStr (ts ! 0)),
       (lit ''updated_at_iso'', JStr (ts ! 1))])))"

definition injection_dict :: "Injection \<Rightarrow> json res" where
  "injection_dict f =
     rbind (Database.iso (i_created_at f)) (\<lambda>t.
     Inr (JObj [(lit ''id'', JInt (i_id f)), (lit ''device_id'', JStr (i_dev f)), (lit ''set_flags'', JInt (i_set_flags f)),
       (lit ''clear_flags'', JInt (i_clear_flags f)), (lit ''duration_ms'', JInt (i_duration_ms f)),
       (lit ''created_at'', JFloat (i_created_at f)), (lit ''ack_flags'', json_int (i_ack_flags f)),
       (lit ''acked_at'', opt_json (i_acked_at f)), (lit ''created_at_iso'', JStr t)]))"

definition firmware_dict :: "Firmware \<Rightarrow> json res" where
  "firmware_dict f =
     rbind (Database.iso (f_created_at f)) (\<lambda>t.
     Inr (JObj [(lit ''version'', JStr (f_version f)), (lit ''notes'', JStr (f_notes f)), (lit ''size_bytes'', JInt (f_size_bytes f)),
       (lit ''crc'', JInt (f_crc f)), (lit ''created_at'', JFloat (f_created_at f)), (lit ''created_at_iso'', JStr t)]))"

definition config_dict_of :: "Config \<Rightarrow> json" where
  "config_dict_of c =
     JObj [(lit ''id'', JInt (c_id c)), (lit ''device_id'', JStr (c_dev c)), (lit ''version'', JInt (c_version c)),
       (lit ''telemetry_hz'', JInt (c_telemetry_hz c)), (lit ''log_level'', JInt (c_log_level c)),
       (lit ''rpm_limit'', opt_json (c_rpm_limit c)), (lit ''temp_limit_c'', opt_json (c_temp_limit_c c)),
       (lit ''current_limit_a'', opt_json (c_current_limit_a c)), (lit ''created_at'', JFloat (c_created_at c)),
       (lit ''ack_status'', JStr (c_ack_status c)), (lit ''acked_at'', opt_json (c_acked_at c))]"

text \<open>\<open>{"id": ..., **json.loads(result)}\<close>: the entries of the stored result replace those before them.\<close>

definition diagnosis_dict :: "Diagnosis \<Rightarrow> json res" where
  "diagnosis_dict g =
     rbind (Database.iso (g_created_at g)) (\<lambda>t.
     case g_result g of
       JObj kvs \<Rightarrow> Inr (JObj (fold (\<lambda>(k, v). AList.update k v) kvs
         [(lit ''id'', JInt (g_id g)), (lit ''device_id'', JStr (g_dev g)), (lit ''created_at'', JStr t), (lit ''model'', JStr (g_model g))]))
     | _ \<Rightarrow> Inl TypeError)"

text \<open>\<open>DeviceStats.as_dict\<close>.\<close>

definition stats_json :: "DeviceStats \<Rightarrow> json res" where
  "stats_json d =
     rbind (loss_pct d) (\<lambda>l.
     rbind (iso_opt (last_seen d)) (\<lambda>t.
     Inr (JObj [(lit ''frames_rx'', JInt (frames_rx d)), (lit ''bad_crc'', JInt (bad_crc d)), (lit ''seq_gaps'', JInt (seq_gaps d)),
       (lit ''loss_pct'', JFloat l), (lit ''transit_ms'', opt_json (transit_ms d)), (lit ''reconnects'', JInt (reconnects d)),
       (lit ''tcp_connected'', JBool (tcp_connected d)), (lit ''online'', JBool (online d)), (lit ''last_seen'', opt_json (last_seen d)),
       (lit ''last_seen_iso'', t), (lit ''last_seq'', json_int (last_seq d))])))"

section \<open>The handlers\<close>

text \<open>What \<open>device_detail\<close> adds to the view of a device, from its statistics and the tables.\<close>

definition detail_part :: "Device \<Rightarrow> DeviceStats \<Rightarrow> DB \<Rightarrow> sample res" where
  "detail_part d st db =
     (let dev = d_id d in
      rbind (stats_json st) (\<lambda>sj.
      rbind (case fw_job_latest dev db of Some j \<Rightarrow> job_dict j | None \<Rightarrow> Inr JNull) (\<lambda>job.
      rbind (rmap injection_dict (fault_injections dev 10 db)) (\<lambda>fs.
      rbind (rmap alert_dict (alerts (Some dev) (lit ''open'') 50 db)) (\<lambda>as.
      rbind (rmap diagnosis_dict (diagnoses dev 3 db)) (\<lambda>gs.
      rbind (iso_opt (Some (d_first_seen d))) (\<lambda>first.
      rbind (iso_opt (d_last_hello d)) (\<lambda>hello.
      Inr [(lit ''stats'', sj),
           (lit ''config'', case current_config dev db of Some c \<Rightarrow> config_dict_of c | None \<Rightarrow> JNull),
           (lit ''config_history'', JList (map config_dict_of (config_history dev 10 db))), (lit ''fw_job'', job),
           (lit ''fault_injections'', JList fs), (lit ''alerts'', JList as), (lit ''diagnoses'', JList gs),
           (lit ''first_seen'', first), (lit ''last_hello'', hello)]))))))))"

definition device_detail :: "pystr \<Rightarrow> ('a server_scheme, sample) pym" where
  "device_detail dev =
     bind_pym (device_or_404 dev) (\<lambda>d.
     bind_pym (db_get open_alert_counts) (\<lambda>counts.
     bind_pym (device_view d counts) (\<lambda>v.
     bind_pym (gets (\<lambda>s. detail_part d (stat_of dev s) (wdb s))) (\<lambda>r.
     bind_pym (of_res r) (\<lambda>more. ret (v @ more))))))"

definition step_of :: "pystr \<Rightarrow> pystr" where
  "step_of s =
     (case map_of [(lit ''1s'', lit ''raw''), (lit ''raw'', lit ''raw''), (lit ''10s'', lit ''10s''), (lit ''1m'', lit ''1m''),
        (lit ''60s'', lit ''1m'')] s of Some x \<Rightarrow> x | None \<Rightarrow> lit ''raw'')"

definition device_telemetry ::
  "(pystr \<Rightarrow> datetime res) \<Rightarrow> (pyfloat list \<Rightarrow> pyfloat option) \<Rightarrow> pystr \<Rightarrow> pystr option \<Rightarrow> pystr option \<Rightarrow> int \<Rightarrow> pystr
     \<Rightarrow> ('a server_scheme, pystr \<times> pystr \<times> tel_view) pym" where
  "device_telemetry fromiso avg dev t0 t1 n step =
     bind_pym (device_or_404 dev) (\<lambda>_.
     bind_pym flush (\<lambda>_.
     bind_pym (of_res (parse_iso fromiso t0)) (\<lambda>a.
     bind_pym (of_res (parse_iso fromiso t1)) (\<lambda>b.
     bind_pym (telemetry avg dev a b n (step_of step)) (\<lambda>rows. ret (dev, step_of step, rows))))))"

definition list_of :: "('r \<Rightarrow> json res) \<Rightarrow> (DB \<Rightarrow> 'r list) \<Rightarrow> ('a server_scheme, json) pym" where
  "list_of f rows = bind_pym (db_get rows) (\<lambda>rs. bind_pym (of_res (rmap f rs)) (\<lambda>js. ret (JList js)))"

definition alerts_view :: "pystr option \<Rightarrow> pystr \<Rightarrow> int \<Rightarrow> ('a server_scheme, json) pym" where
  "alerts_view dev status n = list_of alert_dict (alerts dev status n)"

definition firmware_view :: "('a server_scheme, json) pym" where
  "firmware_view = list_of firmware_dict firmware_list"

definition diagnoses_view :: "pystr \<Rightarrow> int \<Rightarrow> ('a server_scheme, json) pym" where
  "diagnoses_view dev n = list_of diagnosis_dict (diagnoses dev n)"

definition rules_view :: "('a server_scheme, json) pym" where
  "rules_view = gets (\<lambda>s. JObj (rules s))"

section \<open>All requests to read\<close>

datatype query =
    QHealth | QStats | QDevices | QDevice pystr | QTelemetry pystr "pystr option" "pystr option" int pystr | QLogs pystr int
  | QConfig pystr | QFirmware | QFwStatus pystr | QAlerts "pystr option" pystr int | QRules | QDiagnoses pystr int

datatype answer = Json json | Rows pystr pystr tel_view

text \<open>What the handlers use of their surroundings: the parser of times, the averages of SQL, the start and the ports.\<close>

record surroundings =
  sr_fromiso :: "pystr \<Rightarrow> datetime res"
  sr_avg :: "pyfloat list \<Rightarrow> pyfloat option"
  sr_started :: pyfloat
  sr_udp :: int
  sr_tcp :: int

definition log_dict :: "LogRow \<times> pystr \<Rightarrow> json res" where
  "log_dict x =
     rbind (Database.iso (l_ts (fst x))) (\<lambda>t.
     Inr (JObj [(lit ''id'', JInt (l_id (fst x))), (lit ''device_id'', JStr (l_dev (fst x))), (lit ''ts'', JFloat (l_ts (fst x))),
       (lit ''device_ts_ms'', json_int (l_device_ts_ms (fst x))), (lit ''level'', JInt (l_level (fst x))),
       (lit ''message'', JStr (l_message (fst x))), (lit ''ts_iso'', JStr t), (lit ''level_name'', JStr (snd x))]))"

definition status_json :: "pystr \<Rightarrow> FwJob option \<Rightarrow> json res" where
  "status_json dev job =
     (case job of Some j \<Rightarrow> job_dict j
      | None \<Rightarrow> Inr (JObj [(lit ''device_id'', JStr dev), (lit ''status'', JStr (lit ''none''))]))"

definition answer_of :: "('s, 'a) pym \<Rightarrow> ('a \<Rightarrow> json res) \<Rightarrow> ('s, answer) pym" where
  "answer_of m f = bind_pym m (\<lambda>x. bind_pym (of_res (f x)) (\<lambda>j. ret (Json j)))"

fun get_request :: "surroundings \<Rightarrow> query \<Rightarrow> ('a server_scheme, answer) pym" where
  "get_request w QHealth = answer_of (health (sr_started w) (sr_udp w) (sr_tcp w)) (\<lambda>d. Inr (JObj d))"
| "get_request w QStats = answer_of (stats_view (sr_started w)) (\<lambda>d. Inr (JObj d))"
| "get_request w QDevices = answer_of devices_view Inr"
| "get_request w (QDevice dev) = answer_of (device_detail dev) (\<lambda>d. Inr (JObj d))"
| "get_request w (QTelemetry dev t0 t1 n step) =
     bind_pym (device_telemetry (sr_fromiso w) (sr_avg w) dev t0 t1 n step) (\<lambda>(d, st, rows). ret (Rows d st rows))"
| "get_request w (QLogs dev n) = answer_of (device_logs dev n) (\<lambda>rows. rbind (rmap log_dict rows) (\<lambda>js. Inr (JList js)))"
| "get_request w (QConfig dev) = answer_of (get_config dev) (\<lambda>d. Inr (JObj d))"
| "get_request w QFirmware = answer_of firmware_view Inr"
| "get_request w (QFwStatus dev) = answer_of (firmware_status dev) (status_json dev)"
| "get_request w (QAlerts dev status n) = answer_of (alerts_view dev status n) Inr"
| "get_request w QRules = answer_of rules_view Inr"
| "get_request w (QDiagnoses dev n) = answer_of (diagnoses_view dev n) Inr"

section \<open>Reading changes nothing\<close>

definition flushed :: "DB \<Rightarrow> DB" where
  "flushed db = db\<lparr>tel_buf := [], telemetry_t := telemetry_t db @ tel_buf db\<rparr>"

text \<open>
  What a request to read may do: read the clock, write the buffered telemetry to its table, and create the empty
  statistics of a device.
\<close>

definition beside :: "'a server_scheme \<Rightarrow> 'a server_scheme" where
  "beside s = s\<lparr>wreads := 0, stats := [], wdb := DB_init (Fin 0)\<rparr>"

definition reading :: "'a server_scheme \<Rightarrow> 'a server_scheme \<Rightarrow> bool" where
  "reading s t \<longleftrightarrow>
     beside t = beside s \<and> wdb t \<in> {wdb s, flushed (wdb s)}
     \<and> (\<forall>dev. stat_of dev t = stat_of dev s) \<and> fst ` set (stats s) \<subseteq> fst ` set (stats t)"

lemma flushed_flushed [simp]: "flushed (flushed db) = flushed db"
  by (simp add: flushed_def)

lemma reading_refl: "reading s s"
  by (simp add: reading_def)

lemma reading_trans: "reading s t \<Longrightarrow> reading t u \<Longrightarrow> reading s u"
  unfolding reading_def by (elim conjE) (intro conjI; force)

fun asks_telemetry :: "query \<Rightarrow> bool" where
  "asks_telemetry (QTelemetry _ _ _ _ _) = True"
| "asks_telemetry _ = False"

text \<open>Relations that reading the clock and creating empty statistics keep, and those that flushing keeps too.\<close>

locale read_order = state_order R for R :: "'a server_scheme \<Rightarrow> 'a server_scheme \<Rightarrow> bool" +
  assumes ro_time: "steps_by R time_time"
    and ro_touch: "\<And>dev. steps_by R (on_stat dev (\<lambda>x. x))"
begin

lemma ro_db_get: "steps_by R (db_get f)"
  unfolding db_get_def by (rule so_gets)

lemma ro_404: "steps_by R (device_or_404 dev)"
  unfolding device_or_404_def by (intro so_intros ro_db_get)

lemma ro_device_view: "steps_by R (device_view d counts)"
  unfolding device_view_def by (intro so_intros ro_touch)

lemma ro_handlers:
  "steps_by R (health x y z)" "steps_by R (stats_view x)" "steps_by R devices_view"
  "steps_by R (device_detail dev)" "steps_by R (device_logs dev n)" "steps_by R (get_config dev)"
  "steps_by R (firmware_status dev)" "steps_by R (list_of f g)" "steps_by R rules_view"
  unfolding health_def stats_view_def devices_view_def device_detail_def device_logs_def get_config_def firmware_status_def
    list_of_def rules_view_def
  by (intro so_intros ro_time ro_db_get ro_404 ro_device_view)+

lemma ro_answer: "steps_by R m \<Longrightarrow> steps_by R (answer_of m f)"
  unfolding answer_of_def by (intro so_intros)

lemma ro_request: "\<not> asks_telemetry q \<Longrightarrow> steps_by R (get_request w q)"
  by (cases q) (simp_all add: alerts_view_def firmware_view_def diagnoses_view_def ro_answer ro_handlers)

end

locale flush_order = read_order +
  assumes ro_flush: "steps_by R flush"
begin

lemma fo_telemetry: "steps_by R (device_telemetry w avg dev t0 t1 n step)"
  unfolding device_telemetry_def telemetry_def by (intro so_intros ro_time ro_db_get ro_404 ro_flush)

lemma fo_request: "steps_by R (get_request w q)"
proof (cases "asks_telemetry q")
  case True
  then obtain dev t0 t1 n step where "q = QTelemetry dev t0 t1 n step" by (cases q) auto
  then show ?thesis by simp (intro so_intros fo_telemetry)
qed (rule ro_request)

end

interpretation reads: flush_order reading
proof
  show "steps_by reading time_time" by (simp add: steps_by_def time_time_app reading_def beside_def stat_of_def)
  show "steps_by reading (on_stat dev (\<lambda>x. x))" for dev
    by (auto simp: steps_by_def on_stat_app reading_def beside_def stat_of_def update_conv' dom_update)
  show "steps_by reading flush" by (simp add: steps_by_def flush_app reading_def beside_def stat_of_def flushed_def)
qed (auto intro: reading_refl reading_trans)

interpretation tables: read_order "\<lambda>s t. wdb t = wdb s"
  by unfold_locales (simp_all add: steps_by_def time_time_app on_stat_app)

section \<open>Property\<close>

text \<open>
  C27. Requests to read are safe: whatever is asked, for known devices and unknown ones, and whether or not the handler
  raises, the rules, the state of the rule engine, the event bus, the connections, what was sent, the last samples and the
  counters of every device stay as they are. No table changes, except that asking for telemetry moves the buffered samples to their
  table, where none is lost or repeated.
\<close>

theorem queries_change_nothing:
  assumes "get_request w q s = (r, t)"
  shows "t\<lparr>wreads := wreads s, stats := stats s, wdb := wdb s\<rparr> = s \<and> (\<forall>dev. stat_of dev t = stat_of dev s)
    \<and> (wdb t = wdb s \<or> asks_telemetry q \<and> wdb t = (wdb s)\<lparr>tel_buf := [], telemetry_t := telemetry_t (wdb s) @ tel_buf (wdb s)\<rparr>)"
proof -
  have r: "reading s t" using reads.fo_request [of w q] assms unfolding steps_by_def by (metis snd_conv)
  then have b: "beside t = beside s" by (simp add: reading_def)
  have "t\<lparr>wreads := wreads s, stats := stats s, wdb := wdb s\<rparr> = (beside t)\<lparr>wreads := wreads s, stats := stats s, wdb := wdb s\<rparr>"
    by (simp add: beside_def)
  also have "\<dots> = s" unfolding b by (simp add: beside_def)
  finally have "t\<lparr>wreads := wreads s, stats := stats s, wdb := wdb s\<rparr> = s" .
  moreover have "wdb t = wdb s" if "\<not> asks_telemetry q"
    using tables.ro_request [OF that, of w] assms unfolding steps_by_def by (metis snd_conv)
  ultimately show ?thesis using r unfolding reading_def flushed_def by auto
qed

text \<open>C27 at a request for the samples of a device that the server knows, with one in the buffer.\<close>

definition read_server :: server where
  "read_server = sample_server\<lparr>wdb := (DB_init (Fin 24))\<lparr>devices := [new_device (lit ''ECU-1'') (Fin 900)], tel_buf := [sample_row (Fin 999)]\<rparr>\<rparr>"

definition read_context :: surroundings where
  "read_context = \<lparr>sr_fromiso = fixed_fields, sr_avg = first_row, sr_started = Fin 900, sr_udp = 8781, sr_tcp = 8782\<rparr>"

theorem queries_change_nothing_witness:
  "fst (get_request read_context (QTelemetry (lit ''ECU-1'') None None 10 (lit ''1s'')) read_server)
     = Inr (Rows (lit ''ECU-1'') (lit ''raw'') (RawView [(sample_row (Fin 999), lit ''1970-01-01T00:16:39.000Z'')]))
   \<and> rules (snd (get_request read_context (QTelemetry (lit ''ECU-1'') None None 10 (lit ''1s'')) read_server)) = DEFAULT_RULES"
proof -
  let ?q = "QTelemetry (lit ''ECU-1'') None None 10 (lit ''1s'')"
  have f: "fst (get_request read_context ?q read_server)
     = Inr (Rows (lit ''ECU-1'') (lit ''raw'') (RawView [(sample_row (Fin 999), lit ''1970-01-01T00:16:39.000Z'')]))"
    by code_simp
  obtain r t where rt: "get_request read_context ?q read_server = (r, t)" by (cases "get_request read_context ?q read_server")
  from queries_change_nothing [OF rt] have "rules (t\<lparr>wreads := wreads read_server, stats := stats read_server, wdb := wdb read_server\<rparr>) = rules read_server"
    by simp
  then have "rules t = DEFAULT_RULES" by (simp add: read_server_def sample_server_def)
  with f rt show ?thesis by simp
qed

end
