(* ===== verification/Presence.thy ===== *)
theory Presence
  imports Ingest_Laws
begin

text \<open>
  Which devices are online. A device that has been silent for more than 15 s is offline, with an open
  alert, after the next round of the task that looks for silent devices, under the default offline rule; a device that says
  something is online again and its alert is resolved. A device that was online when the server
  stopped, and whose counters were saved, is not found by that task after a restart.
\<close>

section \<open>What the engine keeps\<close>

interpretation same_rules: eval_order "\<lambda>s t. rules t = rules s"
proof
  show "steps_by (\<lambda>s t. rules t = rules s) (mark dev rule cond now metric x severity msg)"
    for dev rule cond now metric x severity msg
    by (simp add: steps_by_def mark_def pym_simps create_alert_app Let_def split: sum.splits option.splits)
qed simp_all

text \<open>The clock shows times that can be printed.\<close>

definition clock_ok :: "'a env_scheme \<Rightarrow> bool" where
  "clock_ok s \<longleftrightarrow> (\<forall>n. \<exists>x. Database.iso (wclock s n) = Inr x)"

definition offline_rule :: json where
  "offline_rule = JObj [(lit ''enabled'', JBool True), (lit ''severity'', JStr (lit ''critical''))]"

lemma on_offline_effect:
  assumes "map_of (rules s) (lit ''offline'') = Some offline_rule"
  shows "\<exists>s'. on_offline dev None s = (Inr (), s') \<and> (dev, lit ''offline'') \<in> open_pairs (wdb s')
    \<and> open_pairs (wdb s) \<subseteq> open_pairs (wdb s') \<and> rules s' = rules s \<and> around_engine s' = around_engine s"
proof -
  have r: "rule_get ''offline'' d t = (Inr offline_rule, t)" if "rules t = rules s" for d t
    using that assms by (simp add: rule_get_def gets_app)
  have e: "on_offline dev None s = mark dev (JStr (lit ''offline'')) True (wclock s (wreads s)) None None
      (JStr (lit ''critical'')) (lit ''no HEARTBEAT/TELEMETRY for 15 s'') (s\<lparr>wreads := wreads s + 1\<rparr>)"
    by (simp add: on_offline_def or_time_def bind_app time_time_app r of_res_app offline_rule_def when_app)
  let ?s' = "snd (on_offline dev None s)"
  have f: "fst (on_offline dev None s) = Inr ()"
    unfolding e by (rule mark_result [where rt = "lit ''offline''" and sev = "SText (lit ''critical'')"]) simp_all
  then have p: "on_offline dev None s = (Inr (), ?s')" by (simp add: prod_eq_iff)
  have "(dev, lit ''offline'') \<in> open_pairs (wdb ?s')"
    using mark_opens [OF p [unfolded e]] by (simp add: e)
  moreover have "rules ?s' = rules s" by (rule steps_byD [OF same_rules.ev_on_offline])
  moreover have "around_engine ?s' = around_engine s" by (rule steps_byD [OF around.ev_on_offline])
  moreover have "open_pairs (wdb s) \<subseteq> open_pairs (wdb ?s')" by (rule steps_byD [OF growth.ev_on_offline])
  ultimately show ?thesis using p by blast
qed

text \<open>Setting a device offline.\<close>

definition sweepable :: "'a server_scheme \<Rightarrow> bool" where
  "sweepable s \<longleftrightarrow> map_of (rules s) (lit ''offline'') = Some offline_rule \<and> clock_ok s"

definition swept_to :: "pystr set \<Rightarrow> 'a server_scheme \<Rightarrow> 'a server_scheme \<Rightarrow> bool" where
  "swept_to D s s' \<longleftrightarrow> sweepable s' \<and> wclock s' = wclock s \<and> open_pairs (wdb s) \<subseteq> open_pairs (wdb s')
     \<and> (\<forall>dev\<in>D. (dev, lit ''offline'') \<in> open_pairs (wdb s') \<and> \<not> online (stat_of dev s') \<and> map_of (stats s') dev \<noteq> None)
     \<and> (\<forall>dev. dev \<notin> D \<longrightarrow> map_of (stats s') dev = map_of (stats s) dev)"

lemma swept_to_refl: "sweepable s \<Longrightarrow> swept_to {} s s"
  by (simp add: swept_to_def)

lemma swept_to_trans:
  assumes "swept_to D s t" "swept_to E t u"
  shows "swept_to (D \<union> E) s u"
proof -
  have "\<not> online (stat_of dev u) \<and> map_of (stats u) dev \<noteq> None" if "dev \<in> D \<union> E" for dev
  proof (cases "dev \<in> E")
    case False
    with assms that have "map_of (stats u) dev = map_of (stats t) dev" "\<not> online (stat_of dev t)" "map_of (stats t) dev \<noteq> None"
      unfolding swept_to_def by blast+
    then show ?thesis by (simp add: stat_of_def)
  qed (use assms(2) in \<open>auto simp: swept_to_def\<close>)
  moreover have "(dev, lit ''offline'') \<in> open_pairs (wdb u)" if "dev \<in> D \<union> E" for dev
    using assms that unfolding swept_to_def by blast
  moreover have "map_of (stats u) dev = map_of (stats s) dev" if "dev \<notin> D \<union> E" for dev
    using assms that unfolding swept_to_def by simp
  ultimately show ?thesis using assms unfolding swept_to_def by auto
qed

lemma set_offline_effect:
  assumes "sweepable s"
  shows "\<exists>s'. set_online_state dev False s = (Inr (), s') \<and> swept_to {dev} s s'"
proof -
  let ?s1 = "s\<lparr>stats := AList.update dev ((stat_of dev s)\<lparr>online := False\<rparr>) (stats s),
    wdb := (wdb s)\<lparr>devices := sql_update (\<lambda>d. d_id d = dev) (\<lambda>d. d\<lparr>d_online := False\<rparr>) (devices (wdb s))\<rparr>\<rparr>"
  have "map_of (rules ?s1) (lit ''offline'') = Some offline_rule" using assms by (simp add: sweepable_def)
  from on_offline_effect [OF this, of dev] obtain s2 where s2: "on_offline dev None ?s1 = (Inr (), s2)"
    "(dev, lit ''offline'') \<in> open_pairs (wdb s2)" "open_pairs (wdb ?s1) \<subseteq> open_pairs (wdb s2)" "rules s2 = rules ?s1"
    "around_engine s2 = around_engine ?s1" by blast
  have c: "wclock s2 = wclock s" "stats s2 = AList.update dev ((stat_of dev s)\<lparr>online := False\<rparr>) (stats s)"
    using s2(5) around_fields(1) [OF s2(5)] by (simp_all add: around_engine_def)
  obtain x where x: "Database.iso (wclock s2 (wreads s2)) = Inr x" using assms c(1) by (auto simp: sweepable_def clock_ok_def)
  let ?s3 = "s2\<lparr>wreads := wreads s2 + 1, wbus := publish (EvDevice dev (DevOnline False) (Some x)) (wbus s2)\<rparr>"
  have "set_online_state dev False s = (Inr (), ?s3)"
    using s2(1) x by (simp add: set_online_state_def pym_simps set_online_def db_mod_app publish_device_def)
  moreover have "open_pairs (wdb s) \<subseteq> open_pairs (wdb s2)" using s2(3) by (simp add: open_pairs_def)
  ultimately show ?thesis
    using s2(2,4) c assms by (auto simp: swept_to_def sweepable_def clock_ok_def stat_of_def update_conv')
qed


section \<open>A round of the task\<close>

definition gone :: "pyfloat \<Rightarrow> 'a server_scheme \<Rightarrow> pystr \<Rightarrow> bool" where
  "gone now s dev \<longleftrightarrow> online (stat_of dev s) \<and> silent now (last_seen (stat_of dev s))"

lemma sweep_stat_effect:
  assumes "sweepable s"
  shows "\<exists>s'. sweep_stat now dev s = (Inr (), s') \<and> swept_to {d \<in> {dev}. gone now s d} s s'"
proof (cases "gone now s dev")
  case True
  then have "{d \<in> {dev}. gone now s d} = {dev}" by blast
  with True set_offline_effect [OF assms, of dev] show ?thesis
    by (simp add: sweep_stat_def bind_gets when_app gone_def)
next
  case False
  then have e: "{d \<in> {dev}. gone now s d} = {}" by blast
  have "sweep_stat now dev s = (Inr (), s)" using False by (auto simp: sweep_stat_def bind_gets when_app gone_def)
  with swept_to_refl [OF assms] show ?thesis unfolding e by blast
qed

lemma sweep_stats_effect:
  assumes "sweepable s" "distinct ds"
  shows "\<exists>s'. for_pym (sweep_stat now) ds s = (Inr (), s') \<and> swept_to {d \<in> set ds. gone now s d} s s'"
  using assms
proof (induction ds arbitrary: s)
  case Nil
  then show ?case by (simp add: ret_app swept_to_refl)
next
  case (Cons dev ds)
  obtain s1 where s1: "sweep_stat now dev s = (Inr (), s1)" "swept_to {d \<in> {dev}. gone now s d} s s1"
    using sweep_stat_effect [OF Cons.prems(1)] by blast
  have "sweepable s1" "distinct ds" using s1(2) Cons.prems(2) by (simp_all add: swept_to_def)
  from Cons.IH [OF this] obtain s2 where s2: "for_pym (sweep_stat now) ds s1 = (Inr (), s2)"
    "swept_to {d \<in> set ds. gone now s1 d} s1 s2" by blast
  have "gone now s1 d = gone now s d" if "d \<in> set ds" for d
  proof -
    have "d \<noteq> dev" using that Cons.prems(2) by auto
    then have "map_of (stats s1) d = map_of (stats s) d" using s1(2) unfolding swept_to_def by blast
    then show ?thesis by (simp add: gone_def stat_of_def)
  qed
  then have "{d \<in> {dev}. gone now s d} \<union> {d \<in> set ds. gone now s1 d} = {d \<in> set (dev # ds). gone now s d}" by auto
  with swept_to_trans [OF s1(2) s2(2)] s1(1) s2(1) show ?case by (simp add: seq_app)
qed

lemma sweep_rows_effect:
  assumes "sweepable s"
  shows "\<exists>s' D. for_pym (sweep_row now) rows s = (Inr (), s') \<and> swept_to D s s' \<and> (\<forall>d\<in>D. map_of (stats s) d = None)"
  using assms
proof (induction rows arbitrary: s)
  case Nil
  then show ?case by (auto simp: ret_app intro: swept_to_refl)
next
  case (Cons r rows)
  obtain s1 D where s1: "sweep_row now r s = (Inr (), s1)" "swept_to D s s1" "\<forall>d\<in>D. map_of (stats s) d = None"
  proof (cases "d_online r \<and> map_of (stats s) (d_id r) = None \<and> silent now (d_last_seen r)")
    case True
    obtain s1 where "set_online_state (d_id r) False s = (Inr (), s1)" "swept_to {d_id r} s s1"
      using set_offline_effect [OF Cons.prems] by blast
    with True that [of s1 "{d_id r}"] show ?thesis by (simp add: sweep_row_def bind_gets when_app)
  next
    case False
    then have "sweep_row now r s = (Inr (), s)" by (auto simp: sweep_row_def bind_gets when_app)
    with that [of s "{}"] swept_to_refl [OF Cons.prems] show ?thesis by simp
  qed
  have "sweepable s1" using s1(2) by (simp add: swept_to_def)
  from Cons.IH [OF this] obtain s2 E where s2: "for_pym (sweep_row now) rows s1 = (Inr (), s2)" "swept_to E s1 s2"
    "\<forall>d\<in>E. map_of (stats s1) d = None" by blast
  have "map_of (stats s) d = None" if "d \<in> D \<union> E" for d
  proof (cases "d \<in> D")
    case False
    then have "map_of (stats s1) d = map_of (stats s) d" using s1(2) unfolding swept_to_def by blast
    with s2(3) that False show ?thesis by auto
  qed (use s1(3) in blast)
  with swept_to_trans [OF s1(2) s2(2)] s1(1) s2(1) show ?case by (auto simp: seq_app)
qed

lemma offline_sweep_effect:
  assumes "sweepable s" "distinct (map fst (stats s))"
  shows "\<exists>s' D. offline_sweep s = (Inr (), s') \<and> swept_to ({d \<in> fst ` set (stats s). gone (wclock s (wreads s)) s d} \<union> D) s s'
    \<and> (\<forall>d\<in>D. map_of (stats s') d \<noteq> None \<and> d \<notin> fst ` set (stats s))"
proof -
  let ?now = "wclock s (wreads s)" and ?s = "s\<lparr>wreads := wreads s + 1\<rparr>"
  have "sweepable ?s" using assms(1) by (simp add: sweepable_def clock_ok_def)
  from sweep_stats_effect [OF this assms(2), of ?now] obtain s1 where
    s1: "for_pym (sweep_stat ?now) (map fst (stats s)) ?s = (Inr (), s1)" "swept_to {d \<in> fst ` set (stats s). gone ?now ?s d} ?s s1"
    by auto
  have "sweepable s1" using s1(2) by (simp add: swept_to_def)
  from sweep_rows_effect [OF this] obtain s2 D where s2: "for_pym (sweep_row ?now) (list_devices (wdb s1)) s1 = (Inr (), s2)"
    "swept_to D s1 s2" "\<forall>d\<in>D. map_of (stats s1) d = None" by blast
  have run: "offline_sweep s = (Inr (), s2)"
    using s1(1) s2(1) by (simp add: offline_sweep_def pym_simps)
  have g: "gone ?now ?s = gone ?now s" by (simp add: gone_def fun_eq_iff)
  have "swept_to ({d \<in> fst ` set (stats s). gone ?now s d} \<union> D) ?s s2" using swept_to_trans [OF s1(2) s2(2)] by (simp only: g)
  then have "swept_to ({d \<in> fst ` set (stats s). gone ?now s d} \<union> D) s s2" by (simp add: swept_to_def)
  moreover have "map_of (stats s2) d \<noteq> None \<and> d \<notin> fst ` set (stats s)" if "d \<in> D" for d
  proof -
    have n: "map_of (stats s1) d = None" using s2(3) that by blast
    have "map_of (stats s) d = None"
    proof (cases "d \<in> {d \<in> fst ` set (stats s). gone ?now ?s d}")
      case True
      then show ?thesis using s1(2) n unfolding swept_to_def by blast
    next
      case False
      then have "map_of (stats s1) d = map_of (stats ?s) d" using s1(2) unfolding swept_to_def by blast
      with n show ?thesis by simp
    qed
    then have "d \<notin> fst ` set (stats s)" by (simp add: map_of_eq_None_iff)
    moreover have "map_of (stats s2) d \<noteq> None" using s2(2) that unfolding swept_to_def by blast
    ultimately show ?thesis by blast
  qed
  ultimately show ?thesis using run by blast
qed

section \<open>Being heard\<close>

lemma on_online_effect:
  assumes "alerts_ok (wdb s)"
  shows "\<exists>s'. on_online dev None s = (Inr (), s') \<and> open_pairs (wdb s') = open_pairs (wdb s) - {(dev, lit ''offline'')}
    \<and> around_engine s' = around_engine s"
proof (cases "open_alert dev (lit ''offline'') (wdb s)")
  case None
  then have "on_online dev None s = (Inr (), s)" by (simp add: on_online_def pym_simps)
  moreover have "(dev, lit ''offline'') \<notin> open_pairs (wdb s)" using None by (simp add: open_pairs_iff)
  ultimately show ?thesis by auto
next
  case (Some a)
  obtain s' where s': "resolve dev (JStr (lit ''offline'')) None s = (Inr (), s')"
    "open_pairs (wdb s') = open_pairs (wdb s) - {(dev, lit ''offline'')}"
    using resolve_effect [OF assms rule_text_JStr, of dev "lit ''offline''" None] by blast
  then have r: "on_online dev None s = (Inr (), s')" using Some by (simp add: on_online_def pym_simps)
  have "around_engine (snd (on_online dev None s)) = around_engine s" by (rule steps_byD [OF around.en_on_online])
  with r s'(2) show ?thesis by simp
qed

section \<open>After a restart\<close>

text \<open>No device of the server is known to be online, and every device of the table is known to the server.\<close>

definition forgotten :: "'a server_scheme \<Rightarrow> bool" where
  "forgotten s \<longleftrightarrow> (\<forall>(dev, d)\<in>set (stats s). \<not> online d) \<and> (\<forall>r\<in>set (devices (wdb s)). map_of (stats s) (d_id r) \<noteq> None)"

lemma forgotten_sweep:
  assumes "forgotten s"
  shows "offline_sweep s = (Inr (), s\<lparr>wreads := wreads s + 1\<rparr>)"
proof -
  let ?s = "s\<lparr>wreads := Suc (wreads s)\<rparr>"
  have f: "forgotten ?s" using assms by (simp add: forgotten_def)
  have a: "sweep_stat now dev ?s = (Inr (), ?s)" for now dev
  proof -
    have "\<not> online (stat_of dev ?s)"
      using f by (auto simp: forgotten_def stat_of_def DeviceStats_init_def split: option.splits dest!: map_of_SomeD)
    then show ?thesis by (simp add: sweep_stat_def bind_gets when_app)
  qed
  have b: "sweep_row now r ?s = (Inr (), ?s)" if "r \<in> set (devices (wdb s))" for now r
  proof -
    have "map_of (stats ?s) (d_id r) \<noteq> None" using f that by (simp add: forgotten_def)
    then show ?thesis by (auto simp: sweep_row_def bind_gets when_app)
  qed
  have "for_pym (sweep_stat now) ds ?s = (Inr (), ?s)" for now ds
    by (induction ds) (simp_all add: ret_app seq_app a)
  moreover have "for_pym (sweep_row now) rows ?s = (Inr (), ?s)" if "set rows \<subseteq> set (devices (wdb s))" for now rows
    using that by (induction rows) (simp_all add: ret_app seq_app b)
  ultimately show ?thesis by (simp add: offline_sweep_def pym_simps list_devices_def)
qed

lemma set_update_subset: "set (AList.update k v xs) \<subseteq> insert (k, v) (set xs)"
  by (induction xs) auto

lemma load_stats_offline:
  "(\<forall>(dev, d)\<in>set (stats s). \<not> online d) \<Longrightarrow>
   \<exists>s'. for_pym load_stat rows s = (Inr (), s') \<and> (\<forall>(dev, d)\<in>set (stats s'). \<not> online d)
     \<and> fst ` set (stats s') = fst ` set (stats s) \<union> fst ` set rows \<and> wdb s' = wdb s \<and> wreads s' = wreads s"
proof (induction rows arbitrary: s)
  case Nil
  then show ?case by (simp add: ret_app)
next
  case (Cons r rows)
  let ?d = "(stat_of (fst r) s)\<lparr>frames_rx := s_frames_rx (snd r), bad_crc := s_bad_crc (snd r), seq_gaps := s_seq_gaps (snd r),
     reconnects := s_reconnects (snd r), last_seen := s_last_seen (snd r)\<rparr>"
  let ?s = "s\<lparr>stats := AList.update (fst r) ?d (stats s)\<rparr>"
  have "\<not> online (stat_of (fst r) s)"
    using Cons.prems by (auto simp: stat_of_def DeviceStats_init_def split: option.splits dest!: map_of_SomeD)
  then have "\<forall>(dev, d)\<in>set (stats ?s). \<not> online d"
    using Cons.prems set_update_subset [of "fst r" ?d "stats s"] by auto
  from Cons.IH [OF this] obtain s' where s': "for_pym load_stat rows ?s = (Inr (), s')" "\<forall>(dev, d)\<in>set (stats s'). \<not> online d"
    "fst ` set (stats s') = fst ` set (stats ?s) \<union> fst ` set rows" "wdb s' = wdb ?s" "wreads s' = wreads ?s" by blast
  have "fst ` set (stats ?s) = insert (fst r) (fst ` set (stats s))" by (simp add: dom_update)
  moreover have "load_stat r s = (Inr (), ?s)" by (simp add: load_stat_def on_stat_app)
  then have "for_pym load_stat (r # rows) s = (Inr (), s')" using s'(1) by (simp add: seq_app)
  ultimately show ?case using s'(2-5) by auto
qed

lemma Ingest_init_forgets:
  assumes "d_id ` set (devices (wdb s)) \<subseteq> s_dev ` set (stats_t (wdb s))"
  shows "\<exists>s'. Ingest_init s = (Inr (), s') \<and> forgotten s' \<and> wdb s' = wdb s"
proof -
  let ?s = "s\<lparr>wreads := wreads s + 1, stats := [], writers := [], conns := [], latest := [], global_bad_frames := 0,
     total_frames := 0, started_at := wclock s (wreads s)\<rparr>"
  have "\<forall>(dev, d)\<in>set (stats ?s). \<not> online d" by simp
  from load_stats_offline [OF this, of "load_stats (wdb s)"] obtain s' where
    s': "for_pym load_stat (load_stats (wdb s)) ?s = (Inr (), s')" "\<forall>(dev, d)\<in>set (stats s'). \<not> online d"
      "fst ` set (stats s') = fst ` set (stats ?s) \<union> fst ` set (load_stats (wdb s))" "wdb s' = wdb ?s" by blast
  have k: "fst ` set (stats s') = s_dev ` set (stats_t (wdb s))" using s'(3) by (simp add: load_stats_def image_image)
  have "map_of (stats s') (d_id r) \<noteq> None" if "r \<in> set (devices (wdb s))" for r
    unfolding map_of_eq_None_iff k using that assms by blast
  then have "forgotten s'" unfolding forgotten_def using s'(2,4) by simp
  moreover have "Ingest_init s = (Inr (), s')" using s'(1) by (simp add: Ingest_init_def pym_simps)
  ultimately show ?thesis using s'(4) by simp
qed

section \<open>Properties\<close>

text \<open>
  C24. With exactly the default offline rule, a round of the offline task returns, and every device with statistics in
  memory is treated right: one whose statistics are online and that has been silent for more than 15 s is offline afterwards
  and has an open \<open>offline\<close> alert; every other one keeps its statistics, and no alert is closed. Other rules may make
  the round raise, and of a device that is online only in the database the theorem says nothing.
\<close>

theorem silent_devices_go_offline:
  assumes "sweepable s" "distinct (map fst (stats s))" "(dev, d) \<in> set (stats s)" "now = wclock s (wreads s)"
  shows "\<exists>s'. offline_sweep s = (Inr (), s') \<and> open_pairs (wdb s) \<subseteq> open_pairs (wdb s') \<and>
    (if online d \<and> silent now (last_seen d)
     then (dev, lit ''offline'') \<in> open_pairs (wdb s') \<and> \<not> online (stat_of dev s')
     else map_of (stats s') dev = Some d)"
proof -
  have d: "map_of (stats s) dev = Some d" using assms(2,3) by simp
  let ?G = "{d \<in> fst ` set (stats s). gone now s d}"
  obtain s' D where s': "offline_sweep s = (Inr (), s')" "swept_to (?G \<union> D) s s'" "\<forall>d\<in>D. d \<notin> fst ` set (stats s)"
    using offline_sweep_effect [OF assms(1,2)] assms(4) by blast
  have in_G: "dev \<in> ?G \<union> D \<longleftrightarrow> online d \<and> silent now (last_seen d)"
    using s'(3) assms(3) d by (force simp: gone_def stat_of_def)
  show ?thesis
  proof (cases "dev \<in> ?G \<union> D")
    case True
    then have "(dev, lit ''offline'') \<in> open_pairs (wdb s') \<and> \<not> online (stat_of dev s')" "open_pairs (wdb s) \<subseteq> open_pairs (wdb s')"
      using s'(2) unfolding swept_to_def by blast+
    with True in_G s'(1) show ?thesis by simp
  next
    case False
    then have "map_of (stats s') dev = Some d" "open_pairs (wdb s) \<subseteq> open_pairs (wdb s')"
      using s'(2) d unfolding swept_to_def by auto
    with False in_G s'(1) show ?thesis by auto
  qed
qed

definition quiet_server :: server where
  "quiet_server = sample_server\<lparr>stats := [(lit ''ECU-1'', DeviceStats_init\<lparr>online := True, last_seen := Some (Fin 984)\<rparr>)],
     wclock := (\<lambda>_. Fin 1000)\<rparr>"

text \<open>C24 at a device last heard 16 s ago.\<close>

theorem silent_devices_go_offline_witness:
  "\<exists>s'. offline_sweep quiet_server = (Inr (), s') \<and> (lit ''ECU-1'', lit ''offline'') \<in> open_pairs (wdb s')
     \<and> \<not> online (stat_of (lit ''ECU-1'') s')"
proof -
  have i: "Database.iso (Fin 1000) = Inr (lit ''1970-01-01T00:16:40.000Z'')" by code_simp
  have r: "map_of (rules quiet_server) (lit ''offline'') = Some offline_rule"
    unfolding quiet_server_def sample_server_def by simp code_simp
  have s: "sweepable quiet_server" using r i by (simp add: sweepable_def clock_ok_def quiet_server_def)
  have d: "distinct (map fst (stats quiet_server))" by (simp add: quiet_server_def)
  have m: "(lit ''ECU-1'', DeviceStats_init\<lparr>online := True, last_seen := Some (Fin 984)\<rparr>) \<in> set (stats quiet_server)"
    by (simp add: quiet_server_def)
  have t: "Fin 1000 = wclock quiet_server (wreads quiet_server)" by (simp add: quiet_server_def)
  have "silent (Fin 1000) (Some (Fin 984))" by code_simp
  with silent_devices_go_offline [OF s d m t] show ?thesis by auto
qed

text \<open>
  A device that was offline and is heard from is online, and its \<open>offline\<close> alert, and no other, is
  resolved.
\<close>

theorem heard_device_is_online:
  assumes "alerts_ok (wdb s)" "clock_ok s" "\<not> online (stat_of dev s)"
  shows "\<exists>s'. seen dev s = (Inr (), s') \<and> online (stat_of dev s') \<and> last_seen (stat_of dev s') = Some (wclock s (wreads s))
    \<and> open_pairs (wdb s') = open_pairs (wdb s) - {(dev, lit ''offline'')}"
proof -
  let ?t = "wclock s (wreads s)"
  let ?s1 = "s\<lparr>wreads := wreads s + 1, stats := AList.update dev ((stat_of dev s)\<lparr>last_seen := Some ?t, online := True\<rparr>) (stats s),
    wdb := (wdb s)\<lparr>devices := sql_update (\<lambda>d. d_id d = dev) (\<lambda>d. d\<lparr>d_online := True\<rparr>) (devices (wdb s))\<rparr>\<rparr>"
  have "alerts_ok (wdb ?s1)" using assms(1) by (simp add: alerts_ok_def)
  from on_online_effect [OF this, of dev] obtain s2 where s2: "on_online dev None ?s1 = (Inr (), s2)"
    "open_pairs (wdb s2) = open_pairs (wdb ?s1) - {(dev, lit ''offline'')}" "around_engine s2 = around_engine ?s1" by blast
  have c: "wclock s2 = wclock s" "stats s2 = AList.update dev ((stat_of dev s)\<lparr>last_seen := Some ?t, online := True\<rparr>) (stats s)"
    using s2(3) around_fields(1) [OF s2(3)] by (simp_all add: around_engine_def)
  obtain x where x: "Database.iso (wclock s2 (wreads s2)) = Inr x" using assms(2) c(1) by (auto simp: clock_ok_def)
  let ?s3 = "s2\<lparr>wreads := wreads s2 + 1, wbus := publish (EvDevice dev (DevOnline True) (Some x)) (wbus s2)\<rparr>"
  have "seen dev s = (Inr (), ?s3)"
    using assms(3) s2(1) x by (simp add: seen_def set_online_state_def pym_simps set_online_def publish_device_def
        stat_of_def update_conv')
  moreover have "open_pairs (wdb ?s3) = open_pairs (wdb s) - {(dev, lit ''offline'')}" using s2(2) by (simp add: open_pairs_def)
  ultimately show ?thesis using c(2) by (auto simp: stat_of_def update_conv')
qed

text \<open>The theorem above at a device that was never heard before.\<close>

theorem heard_device_is_online_witness:
  "\<exists>s'. seen (lit ''ECU-1'') (sample_server\<lparr>wclock := (\<lambda>_. Fin 1000)\<rparr>) = (Inr (), s') \<and> online (stat_of (lit ''ECU-1'') s')"
proof -
  let ?s = "sample_server\<lparr>wclock := (\<lambda>_. Fin 1000)\<rparr>"
  have i: "Database.iso (Fin 1000) = Inr (lit ''1970-01-01T00:16:40.000Z'')" by code_simp
  have "alerts_ok (wdb ?s)" by (simp add: sample_server_def DB_init_def alerts_ok_def ids_ok_def)
  moreover have "clock_ok ?s" using i by (simp add: clock_ok_def)
  moreover have "\<not> online (stat_of (lit ''ECU-1'') ?s)" by (simp add: sample_server_def stat_of_def DeviceStats_init_def)
  ultimately show ?thesis using heard_device_is_online by blast
qed

text \<open>
  A restart hides devices that are gone: when the server starts and every device in the table has
  saved counters, as it does some seconds after it is first seen, then no later round of the offline task
  changes anything until a device is heard, whatever the table says about who is online and however
  long ago that was.
\<close>

theorem restart_hides_silent_devices:
  assumes "d_id ` set (devices (wdb s)) \<subseteq> s_dev ` set (stats_t (wdb s))"
  shows "\<exists>s'. Ingest_init s = (Inr (), s') \<and> wdb s' = wdb s
    \<and> (\<forall>n. offline_sweep (s'\<lparr>wreads := n\<rparr>) = (Inr (), s'\<lparr>wreads := n + 1\<rparr>))"
proof -
  obtain s' where s': "Ingest_init s = (Inr (), s')" "forgotten s'" "wdb s' = wdb s"
    using Ingest_init_forgets [OF assms] by blast
  have "forgotten (s'\<lparr>wreads := n\<rparr>)" for n using s'(2) by (simp add: forgotten_def)
  from forgotten_sweep [OF this] s'(1,3) show ?thesis by simp
qed

definition restart_db :: DB where
  "restart_db = (DB_init (Fin 24))\<lparr>devices := [(new_device (lit ''ECU-1'') (Fin 1))\<lparr>d_online := True, d_last_seen := Some (Fin 1)\<rparr>],
     stats_t := [\<lparr>s_dev = lit ''ECU-1'', s_frames_rx = 5, s_bad_crc = 0, s_seq_gaps = 0, s_loss_pct = Fin 0, s_reconnects = 0,
       s_tcp_connected = True, s_last_seen = Some (Fin 1), s_last_seq = Some 5, s_updated_at = Fin 2\<rparr>]\<rparr>"

text \<open>An example: a device that was online a long time before the restart: its row still says online after a sweep.\<close>

theorem restart_hides_silent_devices_witness:
  "\<exists>s' s''. Ingest_init (sample_server\<lparr>wdb := restart_db\<rparr>) = (Inr (), s') \<and> offline_sweep s' = (Inr (), s'')
     \<and> map d_online (devices (wdb s'')) = [True]"
proof -
  have "d_id ` set (devices (wdb (sample_server\<lparr>wdb := restart_db\<rparr>))) \<subseteq> s_dev ` set (stats_t (wdb (sample_server\<lparr>wdb := restart_db\<rparr>)))"
    by (simp add: restart_db_def new_device_def)
  from restart_hides_silent_devices [OF this] obtain s' where
    s': "Ingest_init (sample_server\<lparr>wdb := restart_db\<rparr>) = (Inr (), s')" "wdb s' = restart_db"
      "\<forall>n. offline_sweep (s'\<lparr>wreads := n\<rparr>) = (Inr (), s'\<lparr>wreads := n + 1\<rparr>)" by auto
  with spec [OF s'(3), of "wreads s'"] show ?thesis by (simp add: restart_db_def)
qed

end
