(* ===== verification/Api_Laws.thy ===== *)
theory Api_Laws
  imports Api Presence
begin

text \<open>
  What an operator's request does, across the API, the database, the server and the wire: a new
  configuration reaches the device, a firmware job for a device that is away is not picked up when
  it returns, out-of-range requests leave traces in the database, and acknowledging an alert.
\<close>

section \<open>Configurations\<close>

lemma device_or_404_app: "get_device dev (wdb s) = Some d \<Longrightarrow> device_or_404 dev s = (Inr d, s)"
  by (simp add: device_or_404_def pym_simps)

lemma device_404: "get_device dev (wdb s) = None \<Longrightarrow> device_or_404 dev s = (Inl (HTTPException 404), s)"
  by (simp add: device_or_404_def pym_simps)

lemma log_only_app:
  assumes "bind_int lvl = Inr lvl"
  shows "\<exists>row. log_only dev lvl msg s = (Inr (), s\<lparr>wreads := wreads s + 1,
    wdb := (wdb s)\<lparr>log_id := log_id (wdb s) + 1, logs_t := logs_t (wdb s) @ [row]\<rparr>\<rparr>)"
  using assms by (simp add: log_only_def add_log_def pym_simps Let_def) (rule exI, rule refl)

text \<open>The acknowledgement status of the newest configuration can be changed without touching the others.\<close>

lemma ack_fresh:
  fixes s :: "'a env_scheme"
  assumes "c = fresh_config dev hz ll r t a s" "c' = c\<lparr>c_ack_status := x\<rparr>"
  shows "sql_update (\<lambda>k. c_dev k = dev \<and> c_version k = c_version c) (\<lambda>k. k\<lparr>c_ack_status := x\<rparr>) (configs_t (wdb s) @ [c])
      = configs_t (wdb s) @ [c']"
    and "configs_t db = configs_t (wdb s) @ [c'] \<Longrightarrow> current_config dev db = Some c'"
proof -
  have v: "c_dev c = dev" "c_version c = next_version dev (wdb s)" by (simp_all add: assms(1) fresh_config_def)
  have "\<not> (c_dev k = dev \<and> c_version k = c_version c)" if "k \<in> set (configs_t (wdb s))" for k
    using next_version_newer(1) [OF that, of dev] v by auto
  then have "sql_update (\<lambda>k. c_dev k = dev \<and> c_version k = c_version c) (\<lambda>k. k\<lparr>c_ack_status := x\<rparr>) (configs_t (wdb s)) = configs_t (wdb s)"
    unfolding sql_update_def by (intro map_idI) auto
  then show "sql_update (\<lambda>k. c_dev k = dev \<and> c_version k = c_version c) (\<lambda>k. k\<lparr>c_ack_status := x\<rparr>) (configs_t (wdb s) @ [c])
      = configs_t (wdb s) @ [c']"
    by (simp add: sql_update_def assms(2) v(1))
  have "first_row (order_desc c_version (filter (\<lambda>x. c_dev x = c_dev c') (configs_t (wdb s) @ [c']))) = Some c'"
    by (rule current_config_newest) (use next_version_newer(1) v in \<open>auto simp: assms(2)\<close>)
  then show "configs_t db = configs_t (wdb s) @ [c'] \<Longrightarrow> current_config dev db = Some c'"
    by (simp add: current_config_def assms(2) v(1))
qed

definition wanted :: "int \<Rightarrow> int \<Rightarrow> int \<Rightarrow> pyfloat \<Rightarrow> pyfloat \<Rightarrow> pyfloat \<Rightarrow> Payload" where
  "wanted v hz ll r t a = PConfigSet \<lparr>cs_config_version = v, cs_telemetry_hz = hz, cs_log_level = ll, rpm_limit = r,
     temp_limit_c = t, current_limit_a = a\<rparr>"

text \<open>
  What a limit becomes on the wire, where it is rounded to binary32: another double with the same four bytes. A limit that is too large
  makes \<open>struct.pack\<close> raise.
\<close>

fun to_f32 :: "pyfloat \<Rightarrow> pyfloat" where
  "to_f32 (Fin r) =
     (let m = rmag 23 (-149) \<bar>r\<bar> in if m = 0 then zero_of (r < 0) else Fin (if r < 0 then - m else m))"
| "to_f32 x = x"

lemma pack_to_f32: "pack_f32 (to_f32 x) = pack_f32 x"
proof (cases x)
  case (Fin r)
  let ?m = "rmag 23 (-149) \<bar>r\<bar>"
  have n: "0 \<le> ?m" by simp
  show ?thesis
  proof (cases "?m = 0")
    case True
    then show ?thesis by (auto simp: Fin zero_of_def bits_of_def Let_def rmag_def)
  next
    case False
    with n have "0 < ?m" by linarith
    then show ?thesis by (auto simp: Fin Let_def)
  qed
qed simp_all

lemma to_f32_fits: "pack_f32 x = Inr w \<Longrightarrow> is_f32 (to_f32 x)"
proof (cases x)
  case (Fin r)
  assume "pack_f32 x = Inr w"
  with Fin have "rmag 23 (-149) \<bar>r\<bar> < pow2 128" by (auto simp: Let_def split: if_splits)
  then show ?thesis using Fin by (auto simp: Let_def zero_of_def rmag_def [of _ _ 0])
qed simp_all

lemma to_f32_id: "is_f32 x \<Longrightarrow> x = to_f32 x"
  by (cases x) (auto simp: Let_def zero_of_def)

definition on_wire :: "int \<Rightarrow> int \<Rightarrow> int \<Rightarrow> pyfloat \<Rightarrow> pyfloat \<Rightarrow> pyfloat \<Rightarrow> Payload" where
  "on_wire v hz ll r t a = wanted v hz ll (to_f32 r) (to_f32 t) (to_f32 a)"

lemma on_wire_same:
  "payload_pack (on_wire v hz ll r t a) = payload_pack (wanted v hz ll r t a)"
  "payload_type (on_wire v hz ll r t a) = payload_type (wanted v hz ll r t a)"
  by (simp_all add: on_wire_def wanted_def ConfigSet_pack_def CONFIG_SET_FMT_def pack_to_f32)

lemma send_same:
  assumes "payload_pack p = payload_pack q" "payload_type p = payload_type q"
  shows "send dev p = send dev q"
proof -
  have "encode mt dev n ms fw (Typed p) = encode mt dev n ms fw (Typed q)" for mt n ms fw by (simp add: encode_def assms(1))
  then show ?thesis by (simp only: send_def assms(2))
qed

lemma push_config_effect:
  assumes "map_of (writers s) dev = Some w" "w \<notin> set (closed s)" "w \<notin> set (broken s)" "cfield 12 dev"
    "config_payload c = Inr p" "payload_ok q" "int_of_float (fmul (wclock s (wreads s)) (Fin 1000)) = Inr ms"
    "payload_pack q = payload_pack p" "payload_type q = payload_type p"
  shows "\<exists>fb f s'. push_config dev c s = (Inr True, s') \<and> decode fb = Inr f \<and> payload f = Typed q
    \<and> sent s' = sent s @ [(w, fb)] \<and> wclock s' = wclock s
    \<and> wdb s' = (wdb s)\<lparr>configs_t := sql_update (\<lambda>k. c_dev k = dev \<and> c_version k = c_version c)
        (\<lambda>k. k\<lparr>c_ack_status := lit ''sent''\<rparr>) (configs_t (wdb s))\<rparr>"
proof -
  from send_effect [OF assms(1,2,6,4,7)] assms(3) obtain fb f where f: "decode fb = Inr f" "payload f = Typed q"
    and s: "send dev q s = (Inr True, s\<lparr>stats := AList.update dev ((stat_of dev s)\<lparr>tx_seq := tx_seq (stat_of dev s) + 1\<rparr>) (stats s),
          wreads := wreads s + 1, sent := sent s @ [(w, fb)]\<rparr>)" by auto
  show ?thesis
    using f by (simp add: push_config_def pym_simps assms(5) s [unfolded send_same [OF assms(8,9)]] set_ack_status_def invalidate_config_def)
qed

text \<open>The view of a configuration can be printed when the clock can.\<close>

lemma config_view_ok:
  assumes "Database.iso (c_created_at c) = Inr x" "c_acked_at c = None"
  shows "\<exists>view. config_view dev (Some c) db = Inr view"
  using assms by (simp add: config_view_def iso_opt_def)

lemma fresh_payload:
  assumes "r \<noteq> NaN" "t \<noteq> NaN" "a \<noteq> NaN"
  shows "config_payload (fresh_config dev hz ll r t a s) = Inr (wanted (next_version dev (wdb s)) hz ll r t a)"
  using assms by (simp add: config_payload_def fresh_config_def float_col_def bind_real_def wanted_def)

lemma put_config_runs:
  assumes dev: "get_device dev (wdb s) = Some d" "cfield 12 dev"
    and link: "map_of (writers s) dev = Some w" "w \<notin> set (closed s)" "w \<notin> set (broken s)"
    and body: "log_level lvl = Inr ll" "payload_ok (on_wire (next_version dev (wdb s)) hz ll r t a)" "r \<noteq> NaN" "t \<noteq> NaN" "a \<noteq> NaN"
    and clock: "clock_ok s" "int_of_float (fmul (wclock s (wreads s + 1)) (Fin 1000)) = Inr ms"
  shows "\<exists>view s' fb f. put_config dev hz lvl r t a s = (Inr view, s') \<and> decode fb = Inr f
    \<and> payload f = Typed (on_wire (next_version dev (wdb s)) hz ll r t a) \<and> sent s' = sent s @ [(w, fb)]
    \<and> current_config dev (wdb s') = Some ((fresh_config dev hz ll r t a s)\<lparr>c_ack_status := lit ''sent''\<rparr>)"
proof -
  let ?c = "fresh_config dev hz ll r t a s" and ?p = "wanted (next_version dev (wdb s)) hz ll r t a"
    and ?q = "on_wire (next_version dev (wdb s)) hz ll r t a"
  let ?c' = "?c\<lparr>c_ack_status := lit ''sent''\<rparr>"
  let ?s1 = "s\<lparr>wreads := wreads s + 1, wdb := add_config ?c (wdb s)\<rparr>"
  have "u32 (next_version dev (wdb s))" "u16 hz" "u8 ll" using body(2) by (simp_all add: on_wire_def wanted_def ConfigSet_ok_def)
  then have "bind_int (next_version dev (wdb s)) = Inr (next_version dev (wdb s))" "bind_int hz = Inr hz" "bind_int ll = Inr ll"
    by (simp_all add: bind_int_def)
  note s1 = new_config_app(1) [OF this, of r t a]
  have c: "config_payload ?c = Inr ?p" using body(3-5) by (rule fresh_payload)
  have "map_of (writers ?s1) dev = Some w" "w \<notin> set (closed ?s1)" "w \<notin> set (broken ?s1)"
    "int_of_float (fmul (wclock ?s1 (wreads ?s1)) (Fin 1000)) = Inr ms" using link clock(2) by simp_all
  from push_config_effect [OF this(1-3) dev(2) c body(2) this(4) on_wire_same] obtain fb f s2 where
    f: "decode fb = Inr f" "payload f = Typed ?q" and s2: "push_config dev ?c ?s1 = (Inr True, s2)" "sent s2 = sent s @ [(w, fb)]"
      "wclock s2 = wclock s" "wdb s2 = (wdb ?s1)\<lparr>configs_t := sql_update (\<lambda>k. c_dev k = dev \<and> c_version k = c_version ?c)
        (\<lambda>k. k\<lparr>c_ack_status := lit ''sent''\<rparr>) (configs_t (wdb ?s1))\<rparr>" by auto
  have k: "configs_t (wdb s2) = configs_t (wdb s) @ [?c']" unfolding s2(4) using ack_fresh(1) [OF refl refl] by (simp add: add_config_def)
  then have cur: "current_config dev (wdb s2) = Some ?c'" by (rule ack_fresh(2) [OF refl refl])
  define msg where "msg = lit ''CONFIG_SET v'' @ py_str_int (c_version ?c') @ lit '' '' @ lit ''pushed''"
  obtain row where s3: "log_only dev 1 msg s2 = (Inr (), s2\<lparr>wreads := wreads s2 + 1,
      wdb := (wdb s2)\<lparr>log_id := log_id (wdb s2) + 1, logs_t := logs_t (wdb s2) @ [row]\<rparr>\<rparr>)"
    using log_only_app [of 1 dev msg s2] by (auto simp: bind_int_def)
  let ?s3 = "s2\<lparr>wreads := wreads s2 + 1, wdb := (wdb s2)\<lparr>log_id := log_id (wdb s2) + 1, logs_t := logs_t (wdb s2) @ [row]\<rparr>\<rparr>"
  obtain x where "Database.iso (c_created_at ?c') = Inr x" using clock(1) by (auto simp: clock_ok_def fresh_config_def)
  then obtain view where view: "config_view dev (Some ?c') (wdb ?s3) = Inr view"
    using config_view_ok [of ?c' x dev "wdb ?s3"] by (auto simp: fresh_config_def)
  obtain y where y: "Database.iso (wclock s (wreads ?s3)) = Inr y" using clock(1) by (auto simp: clock_ok_def)
  let ?s4 = "?s3\<lparr>wreads := wreads ?s3 + 1, wbus := publish (EvDevice dev (ConfigSetEv (c_version ?c') True) (Some y)) (wbus ?s3)\<rparr>"
  have "put_config dev hz lvl r t a s = (Inr (view @ [(lit ''pushed'', JBool True)]), ?s4)"
    using s3 view y s2(1)
    by (simp add: put_config_def seq_app bind_app device_or_404_app [OF dev(1)] of_res_app body(1) s1 s2(3) db_get_app cur
        msg_def time_time_app publish_device_def bus_publish_app ret_app)
  moreover have "current_config dev (wdb ?s4) = Some ?c'" using cur by (simp add: current_config_def)
  moreover have "sent ?s4 = sent s @ [(w, fb)]" using s2(2) by simp
  ultimately show ?thesis using f by blast
qed

section \<open>Firmware jobs\<close>

text \<open>Deploying to a device without a connection.\<close>

definition queued_job :: "pystr \<Rightarrow> pystr \<Rightarrow> pystr option \<Rightarrow> 'a env_scheme \<Rightarrow> FwJob" where
  "queued_job dev version from s =
     \<lparr>j_id = job_id (wdb s) + 1, j_dev = dev, j_target = version, j_from = from, j_status = lit ''queued'',
      j_created_at = wclock s (wreads s), j_updated_at = wclock s (wreads s + 1),
      j_history = [(lit ''pending'', wclock s (wreads s)), (lit ''queued'', wclock s (wreads s + 1))]\<rparr>"

lemma deploy_offline:
  assumes "get_device dev (wdb s) = Some d" "firmware_get version (wdb s) = Some f" "map_of (writers s) dev = None"
    "jobs_ok (wdb s)" "clock_ok s"
  defines "j \<equiv> queued_job dev version (d_fw_version d) s"
  shows "\<exists>s'. firmware_deploy dev version s = (Inr (False, Some j), s') \<and> jobs_t (wdb s') = jobs_t (wdb s) @ [j]
    \<and> job_id (wdb s') = job_id (wdb s) + 1 \<and> sent s' = sent s"
proof -
  let ?i = "job_id (wdb s) + 1" and ?t = "wclock s (wreads s)" and ?u = "wclock s (wreads s + 1)"
  let ?j0 = "\<lparr>j_id = ?i, j_dev = dev, j_target = version, j_from = d_fw_version d, j_status = lit ''pending'',
      j_created_at = ?t, j_updated_at = ?t, j_history = [(lit ''pending'', ?t)]\<rparr>"
  let ?s1 = "s\<lparr>wreads := wreads s + 1, wdb := (wdb s)\<lparr>job_id := ?i, jobs_t := jobs_t (wdb s) @ [?j0]\<rparr>\<rparr>"
  have old: "j_id k \<noteq> ?i" if "k \<in> set (jobs_t (wdb s))" for k
    using assms(4) that by (auto simp: jobs_ok_def ids_ok_def)
  have none: "filter (\<lambda>k. j_id k = ?i) (jobs_t (wdb s)) = []" using old by (auto simp: filter_empty_conv)
  have s1: "fw_job_create dev version (d_fw_version d) s = (Inr (Some ?j0), ?s1)"
    by (simp add: fw_job_create_def pym_simps fw_job_get_def none)
  have p: "push_fw dev f ?s1 = (Inr False, ?s1)" unfolding push_fw_def using assms(3) by (intro send_refused) simp
  let ?s2 = "s\<lparr>wreads := wreads s + 2, wdb := (wdb s)\<lparr>job_id := ?i, jobs_t := jobs_t (wdb s) @ [j]\<rparr>\<rparr>"
  have "sql_update (\<lambda>k. j_id k = ?i) g (jobs_t (wdb s)) = jobs_t (wdb s)" for g
    unfolding sql_update_def using old by (intro map_idI) auto
  then have s2: "fw_job_update ?i (lit ''queued'') ?s1 = (Inr (), ?s2)" "fw_job_get ?i (wdb ?s2) = Some j"
    by (simp_all add: fw_job_update_def pym_simps fw_job_get_def none j_def queued_job_def sql_update_def numeral_2_eq_2)
  define msg where "msg = lit ''FW_UPDATE -> '' @ version @ lit '' '' @ lit ''queued''"
  obtain row where s3: "log_only dev 1 msg ?s2 = (Inr (), ?s2\<lparr>wreads := wreads ?s2 + 1,
      wdb := (wdb ?s2)\<lparr>log_id := log_id (wdb ?s2) + 1, logs_t := logs_t (wdb ?s2) @ [row]\<rparr>\<rparr>)"
    using log_only_app [of 1 dev msg ?s2] by (auto simp: bind_int_def)
  obtain y where y: "Database.iso (wclock s (Suc (Suc (Suc (wreads s))))) = Inr y" using assms(5) by (auto simp: clock_ok_def)
  show ?thesis
    using s1 p s2 s3 y assms(2)
    by (simp add: firmware_deploy_def deploy_push_def deploy_finish_def seq_app bind_app device_or_404_app [OF assms(1)] db_get_app msg_def time_time_app
        publish_device_def of_res_app bus_publish_app ret_app numeral_2_eq_2)
qed

text \<open>A queued job is not sent when the device says hello with another version.\<close>

lemma queued_not_resumed:
  assumes "fw_job_latest dev (wdb s) = Some j" "j_status j = lit ''queued'' \<or> j_status j = lit ''sent''" "fw_string hello \<noteq> j_target j"
  shows "resume_job dev hello s = (Inr (), s)"
  using assms by (auto simp: resume_job_def pym_simps resumable_def)

section \<open>Alerts\<close>

lemma alerts_ok_update:
  assumes "alerts_ok db" "\<And>a. alert_ident (f a) = alert_ident a" "\<And>a. a \<in> set (alerts_t db) \<Longrightarrow> p a \<Longrightarrow> is_open (f a) \<Longrightarrow> is_open a"
  shows "alerts_ok (db\<lparr>alerts_t := sql_update p f (alerts_t db)\<rparr>)"
proof -
  have f: "a_id (f a) = a_id a" "(a_dev (f a), a_rule (f a)) = (a_dev a, a_rule a)" for a
    using alert_ident_eq [OF assms(2) [of a]] by simp_all
  have "distinct (map (\<lambda>a. (a_dev a, a_rule a)) (filter is_open (sql_update p f (alerts_t db))))"
    unfolding sql_update_def
  proof (rule distinct_filter_map_update)
    show "distinct (map (\<lambda>a. (a_dev a, a_rule a)) (filter is_open (alerts_t db)))" using assms(1) by (simp add: alerts_ok_def)
    show "is_open x" if "x \<in> set (alerts_t db)" "is_open (if p x then f x else x)" for x
      using that assms(3) by (simp split: if_splits)
  qed (use f(2) in simp)
  with assms(1) f(1) show ?thesis by (simp add: alerts_ok_def ids_ok_update)
qed

lemma get_alert_update:
  assumes "alerts_ok db" "get_alert i db = Some a" "\<And>a. alert_ident (f a) = alert_ident a"
  shows "get_alert i (db\<lparr>alerts_t := sql_update (\<lambda>a. a_id a = i) f (alerts_t db)\<rparr>) = Some (f a)" "a \<in> set (alerts_t db)" "a_id a = i"
proof -
  show a: "a \<in> set (alerts_t db)" "a_id a = i" using assms(2) by (auto simp: get_alert_def dest: first_row_in)
  have f: "a_id (f x) = a_id x" for x using alert_ident_eq [OF assms(3)] by simp
  have "ids_ok a_id (sql_update (\<lambda>a. a_id a = i) f (alerts_t db)) (alert_id db)"
    using assms(1) by (simp add: ids_ok_update f alerts_ok_def)
  moreover have "f a \<in> set (sql_update (\<lambda>a. a_id a = i) f (alerts_t db))" using a by (force simp: set_sql_update)
  ultimately have "first_row (filter (\<lambda>x. a_id x = a_id (f a)) (sql_update (\<lambda>a. a_id a = i) f (alerts_t db))) = Some (f a)"
    by (rule find_by_id)
  then show "get_alert i (db\<lparr>alerts_t := sql_update (\<lambda>a. a_id a = i) f (alerts_t db)\<rparr>) = Some (f a)"
    by (simp add: get_alert_def f a(2))
qed

lemma ack_alert_effect:
  assumes "alerts_ok (wdb s)" "get_alert i (wdb s) = Some a" "a_status a = lit ''open''"
  shows "\<exists>a' s'. ack_alert i s = (Inr (Some a'), s') \<and> alert_ident a' = alert_ident a \<and> a_status a' = lit ''acked''
    \<and> get_alert i (wdb s') = Some a' \<and> alerts_ok (wdb s') \<and> open_pairs (wdb s') = open_pairs (wdb s)"
proof -
  let ?t = "wclock s (wreads s)" and ?u = "wclock s (wreads s + 1)"
  let ?f = "\<lambda>a. (fold set_alcol [AStatus (lit ''acked''), AAckedAt ?t] a)\<lparr>a_updated_at := bind_real ?u\<rparr>"
  let ?db = "(wdb s)\<lparr>alerts_t := sql_update (\<lambda>a. a_id a = i) ?f (alerts_t (wdb s))\<rparr>"
  have id: "alert_ident (?f x) = alert_ident x" for x by (simp add: alert_ident_def)
  note g = get_alert_update [OF assms(1,2) id]
  have only: "x = a" if "x \<in> set (alerts_t (wdb s))" "a_id x = i" for x
    using ids_ok_inj [of a_id "alerts_t (wdb s)" "alert_id (wdb s)" x a] assms(1) g(2,3) that by (simp add: alerts_ok_def)
  have o: "is_open a" "is_open (?f x)" for x using assms(3) by (simp_all add: is_open_def)
  have ok: "alerts_ok ?db" by (rule alerts_ok_update [OF assms(1) id]) (use only o(1) in blast)
  have "{x \<in> set (alerts_t ?db). is_open x} = (\<lambda>x. if a_id x = i then ?f x else x) ` {x \<in> set (alerts_t (wdb s)). is_open x}"
    using only o by (auto simp: set_sql_update image_iff split: if_splits)
  then have p: "open_pairs ?db = open_pairs (wdb s)" unfolding open_pairs_def by (simp only: image_image) (rule image_cong, auto)
  have "ack_alert i s = (Inr (Some (?f a)), s\<lparr>wreads := wreads s + 2, wdb := ?db,
      wbus := publish (EvAlert (lit ''acked'') (?f a)) (wbus s)\<rparr>)"
    using g(1) assms(2,3) by (simp add: ack_alert_def pym_simps update_alert_app numeral_2_eq_2)
  moreover have "get_alert i ?db = Some (?f a)" by (rule g(1))
  ultimately show ?thesis using id [of a] ok p by (intro exI [of _ "?f a"]) auto
qed

section \<open>Properties\<close>

text \<open>
  C26. A new configuration reaches the device: for a device with an open connection and values that fit the frame,
  \<open>PUT /config\<close> returns, and the connection of the device receives exactly one more frame. It decodes to the
  configuration asked for, the three limits rounded to binary32, under a version above every stored one of the device and
  the one it has reported. The configuration is the current one, with the limits as they were asked for and the status \<open>sent\<close>.
\<close>

theorem put_config_delivers:
  assumes "get_device dev (wdb s) = Some d" "cfield 12 dev" "map_of (writers s) dev = Some w" "w \<notin> set (closed s)"
    "w \<notin> set (broken s)" "log_level lvl = Inr ll" "payload_ok (on_wire (next_version dev (wdb s)) hz ll r t a)"
    "r \<noteq> NaN" "t \<noteq> NaN" "a \<noteq> NaN" "clock_ok s" "int_of_float (fmul (wclock s (wreads s + 1)) (Fin 1000)) = Inr ms"
  shows "\<exists>view s' fb f c. put_config dev hz lvl r t a s = (Inr view, s') \<and> sent s' = sent s @ [(w, fb)] \<and> decode fb = Inr f
    \<and> payload f = Typed (wanted (c_version c) hz ll (to_f32 r) (to_f32 t) (to_f32 a))
    \<and> (\<forall>k\<in>set (configs_t (wdb s)). c_dev k = dev \<longrightarrow> c_version k < c_version c) \<and> d_reported_config d < c_version c
    \<and> c_version c = next_version dev (wdb s) \<and> current_config dev (wdb s') = Some c \<and> c_telemetry_hz c = hz \<and> c_log_level c = ll
    \<and> c_rpm_limit c = Some r \<and> c_temp_limit_c c = Some t \<and> c_current_limit_a c = Some a \<and> c_ack_status c = lit ''sent''"
proof -
  define c where "c = (fresh_config dev hz ll r t a s)\<lparr>c_ack_status := lit ''sent''\<rparr>"
  have v: "c_version c = next_version dev (wdb s)" by (simp add: c_def fresh_config_def)
  from put_config_runs [OF assms] obtain view s' fb f where "put_config dev hz lvl r t a s = (Inr view, s')" "decode fb = Inr f"
    "payload f = Typed (wanted (c_version c) hz ll (to_f32 r) (to_f32 t) (to_f32 a))" "sent s' = sent s @ [(w, fb)]"
    "current_config dev (wdb s') = Some c" unfolding c_def [symmetric] v on_wire_def [symmetric] by blast
  moreover have "\<forall>k\<in>set (configs_t (wdb s)). c_dev k = dev \<longrightarrow> c_version k < c_version c" "d_reported_config d < c_version c"
    unfolding v using next_version_newer assms(1) by blast+
  moreover have "c_telemetry_hz c = hz" "c_log_level c = ll" "c_rpm_limit c = Some r" "c_temp_limit_c c = Some t" "c_current_limit_a c = Some a"
    "c_ack_status c = lit ''sent''" "c_version c = next_version dev (wdb s)" using assms(8-10) by (simp_all add: c_def fresh_config_def bind_real_def)
  ultimately show ?thesis by blast
qed

definition known_server :: server where
  "known_server = sample_server\<lparr>wclock := (\<lambda>_. Fin 1000), wdb := (DB_init (Fin 24))\<lparr>devices := [new_device (lit ''ECU-1'') (Fin 1)]\<rparr>\<rparr>"

lemma known_server_facts:
  "get_device (lit ''ECU-1'') (wdb known_server) = Some (new_device (lit ''ECU-1'') (Fin 1))" "cfield 12 (lit ''ECU-1'')"
  "map_of (writers known_server) (lit ''ECU-1'') = Some 7" "closed known_server = []" "broken known_server = []" "sent known_server = []"
  "clock_ok known_server" "jobs_ok (wdb known_server)"
proof -
  have "Database.iso (Fin 1000) = Inr (lit ''1970-01-01T00:16:40.000Z'')" by code_simp
  then show "clock_ok known_server" by (simp add: clock_ok_def known_server_def)
  show "cfield 12 (lit ''ECU-1'')" by code_simp
qed (simp_all add: known_server_def sample_server_def get_device_def new_device_def jobs_ok_def ids_ok_def DB_init_def)

text \<open>C26 at the first configuration of ECU-1, with a limit that is not a binary32 number.\<close>

theorem put_config_delivers_witness:
  "\<exists>view s' fb f. put_config (lit ''ECU-1'') 20 (LevelStr (lit ''WARN'')) (Fin 5000) (Fin 80) (Fin (2 ^ 24 + 1)) known_server = (Inr view, s')
     \<and> sent s' = [(7, fb)] \<and> decode fb = Inr f \<and> payload f = Typed (wanted 1 20 2 (Fin 5000) (Fin 80) (Fin (2 ^ 24)))"
proof -
  note f = known_server_facts
  have n: "next_version (lit ''ECU-1'') (wdb known_server) = 1" by code_simp
  have l: "log_level (LevelStr (lit ''WARN'')) = Inr 2" by code_simp
  have p: "payload_ok (on_wire 1 20 2 (Fin 5000) (Fin 80) (Fin (2 ^ 24 + 1)))" by code_simp
  have x: "to_f32 (Fin 5000) = Fin 5000" "to_f32 (Fin 80) = Fin 80" "to_f32 (Fin (2 ^ 24 + 1)) = Fin (2 ^ 24)" by code_simp+
  have t: "int_of_float (fmul (wclock known_server (wreads known_server + 1)) (Fin 1000)) = Inr 1000000"
    unfolding known_server_def by simp code_simp
  have q: "payload_ok (on_wire (next_version (lit ''ECU-1'') (wdb known_server)) 20 2 (Fin 5000) (Fin 80) (Fin (2 ^ 24 + 1)))" unfolding n by (rule p)
  have o: "7 \<notin> set (closed known_server)" "7 \<notin> set (broken known_server)" "Fin 5000 \<noteq> NaN" "Fin 80 \<noteq> NaN" "Fin (2 ^ 24 + 1) \<noteq> NaN"
    using f(4,5) by simp_all
  from put_config_delivers [OF f(1-3) o(1,2) l q o(3-5) f(7) t] obtain view s' fb fr c where
    r: "put_config (lit ''ECU-1'') 20 (LevelStr (lit ''WARN'')) (Fin 5000) (Fin 80) (Fin (2 ^ 24 + 1)) known_server = (Inr view, s')"
      "sent s' = sent known_server @ [(7, fb)]" "decode fb = Inr fr"
      "payload fr = Typed (wanted (c_version c) 20 2 (to_f32 (Fin 5000)) (to_f32 (Fin 80)) (to_f32 (Fin (2 ^ 24 + 1))))"
      "c_version c = next_version (lit ''ECU-1'') (wdb known_server)" "current_config (lit ''ECU-1'') (wdb s') = Some c"
    by (elim exE conjE) (rule that)
  have "payload fr = Typed (wanted 1 20 2 (Fin 5000) (Fin 80) (Fin (2 ^ 24)))" using r(4) unfolding r(5) n x .
  with r(1-3) f(6) show ?thesis by auto
qed

text \<open>
  A firmware job for a device that is away is never sent: deploying without a connection records a
  \<open>queued\<close> job, and as long as the job table stays as it is, a hello of the device with another version
  than the target changes nothing and sends nothing.
\<close>

theorem queued_job_never_sent:
  fixes s :: "'a server_scheme"
  assumes "get_device dev (wdb s) = Some d" "firmware_get version (wdb s) = Some f" "map_of (writers s) dev = None"
    "jobs_ok (wdb s)" "clock_ok s"
  shows "\<exists>s' j. firmware_deploy dev version s = (Inr (False, Some j), s') \<and> j_status j = lit ''queued'' \<and> j_target j = version
    \<and> (\<forall>hello (t :: 'a server_scheme). jobs_t (wdb t) = jobs_t (wdb s') \<and> fw_string hello \<noteq> version \<longrightarrow> resume_job dev hello t = (Inr (), t))"
proof -
  let ?j = "queued_job dev version (d_fw_version d) s"
  obtain s' where s': "firmware_deploy dev version s = (Inr (False, Some ?j), s')" "jobs_t (wdb s') = jobs_t (wdb s) @ [?j]"
    using deploy_offline [OF assms] by blast
  have "first_row (order_desc j_id (filter (\<lambda>j. j_dev j = dev) (jobs_t (wdb s) @ [?j]))) = Some ?j"
    by (rule newest_row) (use assms(4) in \<open>simp_all add: jobs_ok_def queued_job_def\<close>)
  then have "fw_job_latest dev (wdb t) = Some ?j" if "jobs_t (wdb t) = jobs_t (wdb s')" for t :: "'a server_scheme"
    using that s'(2) by (simp add: fw_job_latest_def)
  then have "resume_job dev hello t = (Inr (), t)" if "jobs_t (wdb t) = jobs_t (wdb s')" "fw_string hello \<noteq> version"
    for t :: "'a server_scheme" and hello
    using that by (intro queued_not_resumed [of _ _ ?j]) (simp_all add: queued_job_def)
  with s'(1) show ?thesis by (intro exI [of _ s'] exI [of _ ?j]) (simp add: queued_job_def)
qed

definition sample_firmware :: Firmware where
  "sample_firmware = \<lparr>f_version = lit ''1.2.0'', f_notes = [], f_size_bytes = 1000, f_crc = 5, f_created_at = Fin 1\<rparr>"

text \<open>An example: a device that was seen but is not connected, and that still runs 1.0.0 when it returns.\<close>

theorem queued_job_never_sent_witness:
  "\<exists>s' j. firmware_deploy (lit ''ECU-1'') (lit ''1.2.0'') (known_server\<lparr>writers := [], wdb := (wdb known_server)\<lparr>firmware_t := [sample_firmware]\<rparr>\<rparr>)
     = (Inr (False, Some j), s')
   \<and> resume_job (lit ''ECU-1'') \<lparr>fw_string = lit ''1.0.0'', hw_model = [], he_config_version = 0, he_telemetry_hz = 10\<rparr>
       (s'\<lparr>writers := [(lit ''ECU-1'', 8)]\<rparr>) = (Inr (), s'\<lparr>writers := [(lit ''ECU-1'', 8)]\<rparr>)"
proof -
  let ?s = "known_server\<lparr>writers := [], wdb := (wdb known_server)\<lparr>firmware_t := [sample_firmware]\<rparr>\<rparr>"
  have f: "get_device (lit ''ECU-1'') (wdb ?s) = Some (new_device (lit ''ECU-1'') (Fin 1))" "jobs_ok (wdb ?s)" "clock_ok ?s"
    using known_server_facts(1,7,8) by (simp_all add: get_device_def jobs_ok_def clock_ok_def)
  have w: "firmware_get (lit ''1.2.0'') (wdb ?s) = Some sample_firmware" "map_of (writers ?s) (lit ''ECU-1'') = None"
    by (simp_all add: firmware_get_def sample_firmware_def)
  from queued_job_never_sent [OF f(1) w f(2,3)] obtain s' j where
    s': "firmware_deploy (lit ''ECU-1'') (lit ''1.2.0'') ?s = (Inr (False, Some j), s')"
    and n: "\<forall>hello (t :: server). jobs_t (wdb t) = jobs_t (wdb s') \<and> fw_string hello \<noteq> lit ''1.2.0'' \<longrightarrow>
      resume_job (lit ''ECU-1'') hello t = (Inr (), t)" by blast
  have "resume_job (lit ''ECU-1'') \<lparr>fw_string = lit ''1.0.0'', hw_model = [], he_config_version = 0, he_telemetry_hz = 10\<rparr>
       (s'\<lparr>writers := [(lit ''ECU-1'', 8)]\<rparr>) = (Inr (), s'\<lparr>writers := [(lit ''ECU-1'', 8)]\<rparr>)"
    by (rule n [rule_format]) simp
  with s' show ?thesis by blast
qed

text \<open>
  Acknowledging an alert: an unknown alert is a 404 and changes nothing; an open alert becomes
  acknowledged, is about the same device and rule as before, and still counts as open; the table
  keeps its invariant.
\<close>

theorem ack_keeps_alert_open:
  assumes "alerts_ok (wdb s)"
  shows "case get_alert i (wdb s) of
      None \<Rightarrow> ack_alert i s = (Inl (HTTPException 404), s)
    | Some a \<Rightarrow> a_status a = lit ''open'' \<longrightarrow>
        (\<exists>a' s'. ack_alert i s = (Inr (Some a'), s') \<and> alert_ident a' = alert_ident a \<and> a_status a' = lit ''acked''
          \<and> get_alert i (wdb s') = Some a' \<and> alerts_ok (wdb s') \<and> open_pairs (wdb s') = open_pairs (wdb s))"
proof (cases "get_alert i (wdb s)")
  case None
  then show ?thesis by (simp add: ack_alert_def pym_simps)
next
  case (Some a)
  with ack_alert_effect [OF assms Some] show ?thesis by simp
qed

text \<open>The law at an open alert.\<close>

theorem ack_keeps_alert_open_witness:
  "\<exists>a' s'. ack_alert 1 (sample_server\<lparr>wdb := wdb ticked_engine\<rparr>) = (Inr (Some a'), s') \<and> a_status a' = lit ''acked''
     \<and> (lit ''ECU-1'', lit ''temp_high'') \<in> open_pairs (wdb s')"
proof -
  let ?s = "sample_server\<lparr>wdb := wdb ticked_engine\<rparr>"
  have o: "map_option a_status (get_alert 1 (wdb ticked_engine)) = Some (lit ''open'')" by code_simp
  then obtain a where a: "get_alert 1 (wdb ticked_engine) = Some a" "a_status a = lit ''open''" by auto
  have "alerts_ok (wdb ?s)" using ticked_engine_facts(1) by simp
  from ack_keeps_alert_open [OF this, of 1] a obtain a' s' where
    "ack_alert 1 ?s = (Inr (Some a'), s')" "a_status a' = lit ''acked''" "open_pairs (wdb s') = open_pairs (wdb ticked_engine)" by auto
  with ticked_engine_facts(5) show ?thesis by auto
qed

end
