(* ===== verification/Telemetry_Path.thy ===== *)
theory Telemetry_Path
  imports Api_Views Api_Laws
begin

text \<open>
  The way of a sample through the server: from the datagram (\<open>ingest.py\<close>) over the buffer and the table (\<open>db.py\<close>) to
  the answer of the telemetry endpoint (\<open>api.py\<close>).
\<close>

section \<open>The rows of an answer\<close>

lemma rmap_fmt_raw:
  "\<forall>r\<in>set rs. \<exists>t. Database.iso (t_ts r) = Inr t \<Longrightarrow> \<exists>ys. rmap fmt_raw rs = Inr ys \<and> map fst ys = rs"
proof (induction rs)
  case (Cons r rs)
  then obtain ys t where "rmap fmt_raw rs = Inr ys" "map fst ys = rs" "Database.iso (t_ts r) = Inr t" by auto
  moreover from this have "fmt_raw r = Inr (r, t)" by (simp add: fmt_raw_def)
  ultimately show ?case by (intro exI [of _ "(r, t) # ys"]) simp
qed simp

lemma order_desc_mset: "mset (order_desc k xs) = mset xs"
  by (simp add: order_desc_def)

text \<open>A window of at most as many rows as asked for is answered whole.\<close>

lemma telemetry_raw_whole:
  assumes "int (length (raw_window dev a b db)) \<le> clamp_limit n"
  shows "mset (telemetry_raw dev a b n db) = mset (raw_window dev a b db)"
proof -
  have "length (order_desc (\<lambda>r. fval (t_ts r)) (raw_window dev a b db)) \<le> nat (clamp_limit n)"
    using assms by (simp add: order_desc_def)
  then have "sql_limit (clamp_limit n) (order_desc (\<lambda>r. fval (t_ts r)) (raw_window dev a b db)) = order_desc (\<lambda>r. fval (t_ts r)) (raw_window dev a b db)"
    by (simp add: sql_limit_def)
  then show ?thesis by (simp add: telemetry_raw_def raw_window_def order_desc_mset)
qed

lemma step_raw: "step_of step \<in> {lit ''raw'', lit ''10s'', lit ''1m''}"
  by (auto simp: step_of_def)

text \<open>The window an endpoint uses for the times it is given.\<close>

definition since_of :: "pyfloat option \<Rightarrow> pyfloat \<Rightarrow> pyfloat" where
  "since_of a now = (case a of Some t \<Rightarrow> t | None \<Rightarrow> fsub now (Fin 300))"

definition until_of :: "pyfloat option \<Rightarrow> pyfloat \<Rightarrow> pyfloat" where
  "until_of b now = (case b of Some t \<Rightarrow> t | None \<Rightarrow> fadd now (Fin 1))"

lemma raw_request:
  assumes "get_device dev (wdb s) = Some d" "parse_iso (sr_fromiso w) t0 = Inr a" "parse_iso (sr_fromiso w) t1 = Inr b"
    "step_of step = lit ''raw''" "now = wclock s (wreads s)"
    "win = raw_window dev (since_of a now) (until_of b now) (flushed (wdb s))" "int (length win) \<le> clamp_limit n"
    "\<forall>r\<in>set win. \<exists>t. Database.iso (t_ts r) = Inr t"
  shows "\<exists>rows s'. get_request w (QTelemetry dev t0 t1 n step) s = (Inr (Rows dev (lit ''raw'') (RawView rows)), s') \<and> mset (map fst rows) = mset win"
proof -
  let ?raw = "telemetry_raw dev (since_of a now) (until_of b now) n (flushed (wdb s))"
  have m: "mset ?raw = mset win" using telemetry_raw_whole assms(6,7) by simp
  then have "\<forall>r\<in>set ?raw. \<exists>t. Database.iso (t_ts r) = Inr t" using assms(8) mset_eq_setD by blast
  then obtain rows where rows: "rmap fmt_raw ?raw = Inr rows" "map fst rows = ?raw" using rmap_fmt_raw by blast
  have f: "flush s = (Inr (int (length (tel_buf (wdb s)))), s\<lparr>wdb := flushed (wdb s)\<rparr>)" by (simp add: flush_app flushed_def)
  have ne: "lit ''raw'' \<noteq> lit ''1m''" "lit ''raw'' \<noteq> lit ''60s''" "lit ''raw'' \<noteq> lit ''10s''" by (simp_all add: lit_def)
  have "telemetry (sr_avg w) dev a b n (lit ''raw'') (s\<lparr>wdb := flushed (wdb s)\<rparr>)
      = (Inr (RawView rows), s\<lparr>wdb := flushed (wdb s), wreads := wreads s + 1\<rparr>)"
    using rows(1) ne unfolding telemetry_def
    by (simp add: bind_app time_time_app gets_app Let_def of_res_app ret_app since_of_def until_of_def assms(5))
  then have "get_request w (QTelemetry dev t0 t1 n step) s
      = (Inr (Rows dev (lit ''raw'') (RawView rows)), s\<lparr>wdb := flushed (wdb s), wreads := wreads s + 1\<rparr>)"
    using f assms(1-4) by (simp add: device_telemetry_def bind_app device_or_404_app of_res_app ret_app)
  with rows(2) m show ?thesis by metis
qed

section \<open>A known device stays known\<close>

definition known :: "pystr \<Rightarrow> DB \<Rightarrow> bool" where
  "known dev db \<longleftrightarrow> dev \<in> d_id ` set (devices db)"

lemma known_get: "known dev db \<longleftrightarrow> (\<exists>d. get_device dev db = Some d)"
proof -
  have "filter (\<lambda>d. d_id d = dev) (devices db) = [] \<longleftrightarrow> \<not> known dev db" by (auto simp: known_def filter_empty_conv)
  then show ?thesis by (cases "filter (\<lambda>d. d_id d = dev) (devices db)") (auto simp: get_device_def)
qed

lemma known_update: "(\<And>d. d_id (f d) = d_id d) \<Longrightarrow> known dev (db\<lparr>devices := sql_update p f (devices db)\<rparr>) = known dev db"
proof -
  assume "\<And>d. d_id (f d) = d_id d"
  then have "map d_id (sql_update p f (devices db)) = map d_id (devices db)" by (simp add: sql_update_def)
  then have "set (map d_id (sql_update p f (devices db))) = set (map d_id (devices db))" by (rule arg_cong)
  then show ?thesis by (simp add: known_def)
qed

lemma keeps_known_engine: "steps_by (\<lambda>s t. around_engine t = around_engine s) m \<Longrightarrow> keeps (\<lambda>s. known dev (wdb s)) m"
  unfolding keeps_def steps_by_def known_def using around_tables(1) by metis

lemma set_devcols_id: "d_id (fold set_devcol cols d) = d_id d"
proof (induction cols arbitrary: d)
  case (Cons c cols)
  have "d_id (set_devcol c d) = d_id d" by (cases c) simp_all
  with Cons show ?case by simp
qed simp

lemma known_upsert:
  "known dev db \<Longrightarrow> known dev (case get_device dev' db of
      None \<Rightarrow> db\<lparr>devices := devices db @ [fold set_devcol cols (new_device dev' now)]\<rparr>
    | Some _ \<Rightarrow> db\<lparr>devices := sql_update (\<lambda>d. d_id d = dev') (fold set_devcol cols) (devices db)\<rparr>)"
  by (cases "get_device dev' db") (simp_all add: known_update set_devcols_id, simp add: known_def)

lemma keeps_known_parts:
  fixes dev :: pystr
  defines "K \<equiv> \<lambda>s :: 'a server_scheme. known dev (wdb s)"
  shows "keeps K (on_stat x f)" "keeps K (set_latest x d)" "keeps K (buffer_telemetry r)" "keeps K (upsert_device x cols)"
    "keeps K (seen x)" "keeps K (bus_telemetry x d)"
proof -
  show os: "keeps K (on_stat x f)" for x f by (simp add: keeps_def K_def on_stat_app)
  show "keeps K (set_latest x d)" by (simp add: keeps_def K_def set_latest_def modify_app)
  show "keeps K (buffer_telemetry r)" by (simp add: keeps_def K_def buffer_telemetry_def db_mod_app known_def)
  show "keeps K (upsert_device x cols)"
    unfolding K_def upsert_device_def Let_def by (intro keeps_intros) (simp_all add: known_upsert)
  have t: "keeps K time_time" unfolding K_def by (rule keeps_time_time)
  have so: "keeps K (set_online_state x b)" for x b
    unfolding set_online_state_def K_def
    by (intro keeps_intros os [unfolded K_def] keeps_known_engine [OF around.en_on_online] keeps_known_engine [OF around.ev_on_offline])
       (simp_all add: set_online_def keeps_def db_mod_app known_update publish_device_def bind_app of_res_def bus_publish_def modify_app split: sum.splits)
  show "keeps K (seen x)" unfolding seen_def by (intro keeps_intros t os so)
  show "keeps K (bus_telemetry x d)" by (simp add: keeps_def K_def bus_telemetry_def split: prod.splits)
qed

lemma known_kept:
  fixes s :: "'a server_scheme"
  assumes "known dev (wdb s)"
  shows "known dev (wdb (snd (datagram_received data s)))"
proof -
  let ?K = "\<lambda>s :: 'a server_scheme. known dev (wdb s)"
  have t: "keeps ?K time_time" by (rule keeps_time_time)
  have "keeps ?K (handle_telemetry f x)" for f x
    unfolding handle_telemetry_def Let_def
    by (intro keeps_intros t keeps_known_parts keeps_known_engine [OF around.ev_on_telemetry])
  then have "keeps ?K (on_datagram data)"
    unfolding on_datagram_def by (auto intro!: keeps_intros keeps_known_parts split: sum.splits body.splits Payload.splits)
  then have "keeps ?K (datagram_received data)" unfolding datagram_received_def by (intro keeps_intros)
  with assms show ?thesis by (simp add: keeps_def)
qed

text \<open>A datagram fills the buffer, not the table.\<close>

interpretation stored: server_order "\<lambda>s t. telemetry_t (wdb t) = telemetry_t (wdb s)"
proof
  fix s t :: "'a server_scheme"
  assume "around_engine t = around_engine s"
  then have "telemetry_t (other_tables (wdb t)) = telemetry_t (other_tables (wdb s))" by (simp add: around_engine_def)
  then show "telemetry_t (wdb t) = telemetry_t (wdb s)" by (simp add: other_tables_def)
qed (simp_all add: steps_by_def on_stat_app)

lemma stored_kept: "telemetry_t (wdb (snd (datagram_received data s))) = telemetry_t (wdb s)"
proof -
  let ?R = "\<lambda>s t :: 'a server_scheme. telemetry_t (wdb t) = telemetry_t (wdb s)"
  have b: "steps_by ?R (buffer_telemetry r)" for r by (simp add: steps_by_def buffer_telemetry_def db_mod_app)
  have o: "steps_by ?R (on_stat x f)" for x f by (simp add: steps_by_def on_stat_app)
  have "steps_by ?R (handle_telemetry f x)" for f x
    unfolding handle_telemetry_def Let_def by (intro stored.sv_intros b o)
  moreover have "steps_by ?R (modify (\<lambda>s. s\<lparr>total_frames := total_frames s + 1\<rparr>))"
    "steps_by ?R (modify (\<lambda>s. s\<lparr>global_bad_frames := global_bad_frames s + 1\<rparr>))" by (simp_all add: steps_by_def modify_app)
  ultimately have "steps_by ?R (on_datagram data)"
    unfolding on_datagram_def
    by (auto intro!: stored.so_seq stored.so_ret stored.so_throw o split: sum.splits body.splits Payload.splits)
  then have "steps_by ?R (datagram_received data)" unfolding datagram_received_def by (intro stored.so_catch stored.so_ret)
  then show ?thesis by (simp add: steps_by_def)
qed

section \<open>Property\<close>

text \<open>
  C21. What a device sends is what a client sees: after an accepted telemetry datagram of a known device, a request for the
  raw samples of a window that holds its time of arrival is answered, and the answer is the stored rows of the window, each as
  often as it is stored, among them the row with the values of that datagram; the window must have no more rows than asked
  for, all with times that can be printed. This holds even when the rule engine raised on the sample.
\<close>

theorem sample_reaches_client:
  assumes "decode data = Inr f" "msg_type (header f) = mt_val TELEMETRY" "payload f = Typed (PTelemetry t)"
    "dev = device_id (header f)" "window_ok (window (stat_of dev s))"
    "now = wclock s (wreads s)" "Database.iso now = Inr now_iso" "get_device dev (wdb s) = Some d"
    "s1 = snd (datagram_received data s)" "parse_iso (sr_fromiso w) t0 = Inr a" "parse_iso (sr_fromiso w) t1 = Inr b"
    "step_of step = lit ''raw''" "later = wclock s1 (wreads s1)" "fle (since_of a later) now" "fless now (until_of b later)"
    "win = raw_window dev (since_of a later) (until_of b later) ((wdb s1)\<lparr>telemetry_t := telemetry_t (wdb s1) @ tel_buf (wdb s1)\<rparr>)"
    "int (length win) \<le> clamp_limit n" "\<forall>r\<in>set win. \<exists>x. Database.iso (t_ts r) = Inr x"
  shows "\<exists>rows s2. get_request w (QTelemetry dev t0 t1 n step) s1 = (Inr (Rows dev (lit ''raw'') (RawView rows)), s2)
    \<and> mset (map fst rows) = mset win \<and> tel_row dev now (seq (header f)) t \<in> fst ` set rows"
proof -
  obtain d1 where d1: "get_device dev (wdb s1) = Some d1"
    using known_kept [of dev s data] assms(8,9) unfolding known_get by auto
  have win: "win = raw_window dev (since_of a later) (until_of b later) (flushed (wdb s1))"
    unfolding assms(16) by (simp add: raw_window_def flushed_def)
  from raw_request [OF d1 assms(10-13) win assms(17,18)] obtain rows s2 where
    r: "get_request w (QTelemetry dev t0 t1 n step) s1 = (Inr (Rows dev (lit ''raw'') (RawView rows)), s2)" "mset (map fst rows) = mset win"
    by blast
  have "tel_row dev now (seq (header f)) t \<in> set (tel_buf (wdb s1))"
    using telemetry_buffered_once [OF assms(1-7)] assms(9) by simp
  then have "tel_row dev now (seq (header f)) t \<in> set win"
    using assms(14,15) unfolding win raw_window_def flushed_def by (simp add: tel_row_def)
  then have "tel_row dev now (seq (header f)) t \<in> set (map fst rows)" using mset_eq_setD [OF r(2)] by simp
  with r show ?thesis by (metis list.set_map)
qed

text \<open>C21 at a frame of a device with an empty table: the request shows its sample.\<close>

definition path_server :: server where
  "path_server = sample_server\<lparr>wdb := (DB_init (Fin 24))\<lparr>devices := [new_device (lit ''ECU-1'') (Fin 900)]\<rparr>\<rparr>"

theorem sample_reaches_client_witness:
  "\<exists>data rows. fst (get_request read_context (QTelemetry (lit ''ECU-1'') (Some (lit ''0'')) (Some (lit ''5000'')) 10 (lit ''1s''))
       (snd (datagram_received data path_server))) = Inr (Rows (lit ''ECU-1'') (lit ''raw'') (RawView rows))
     \<and> map fst rows = [tel_row (lit ''ECU-1'') (Fin 1000) 3 sample_telemetry]"
proof -
  have "payload_ok (PTelemetry sample_telemetry)" by code_simp
  from encoded_decodes [OF this, of "lit ''ECU-1''" 3 1000 0] obtain fb f where
    f: "decode fb = Inr f" "payload f = Typed (PTelemetry sample_telemetry)" "msg_type (header f) = mt_val TELEMETRY"
      "device_id (header f) = cstr (pad (lit ''ECU-1'') 12)" "seq (header f) = 3 mod 2 ^ 32" by auto
  have d: "cstr (pad (lit ''ECU-1'') 12) = lit ''ECU-1''" by code_simp
  have w: "window_ok (window (stat_of (lit ''ECU-1'') path_server))"
    by (simp add: path_server_def sample_server_def stat_of_def DeviceStats_init_def window_ok_def)
  have c: "Fin 1000 = wclock path_server (wreads path_server)" by (simp add: path_server_def sample_server_def)
  have i: "Database.iso (Fin 1000) = Inr (lit ''1970-01-01T00:16:40.000Z'')" by code_simp
  have k: "get_device (lit ''ECU-1'') (wdb path_server) = Some (new_device (lit ''ECU-1'') (Fin 900))"
    by (simp add: path_server_def get_device_def new_device_def)
  have p: "parse_iso (sr_fromiso read_context) (Some (lit ''0'')) = Inr (Some (Fin 0))"
    "parse_iso (sr_fromiso read_context) (Some (lit ''5000'')) = Inr (Some (Fin 5000))" "step_of (lit ''1s'') = lit ''raw''" by code_simp+
  let ?s1 = "snd (datagram_received fb path_server)" and ?row = "tel_row (lit ''ECU-1'') (Fin 1000) 3 sample_telemetry"
  have n: "lit ''ECU-1'' = device_id (header f)" using f(4) d by simp
  have "tel_buf (wdb ?s1) = [?row]" "telemetry_t (wdb ?s1) = []"
    using telemetry_buffered_once [OF f(1,3,2) n w c i] f(5) by (simp_all add: stored_kept path_server_def DB_init_def)
  then have win: "raw_window (lit ''ECU-1'') (Fin 0) (Fin 5000) ((wdb ?s1)\<lparr>telemetry_t := telemetry_t (wdb ?s1) @ tel_buf (wdb ?s1)\<rparr>) = [?row]"
    by (simp add: raw_window_def tel_row_def fle_def)
  have o: "since_of (Some (Fin 0)) l = Fin 0" "until_of (Some (Fin 5000)) l = Fin 5000" for l by (simp_all add: since_of_def until_of_def)
  have m: "int (length [?row]) \<le> clamp_limit 10" "\<forall>r\<in>set [?row]. \<exists>x. Database.iso (t_ts r) = Inr x"
    using i by (simp_all add: clamp_limit_def tel_row_def)
  from sample_reaches_client [OF f(1,3,2) n w c i k refl p refl, unfolded o win, OF _ _ refl m]
  obtain rows s2 where r: "get_request read_context (QTelemetry (lit ''ECU-1'') (Some (lit ''0'')) (Some (lit ''5000'')) 10 (lit ''1s'')) ?s1
      = (Inr (Rows (lit ''ECU-1'') (lit ''raw'') (RawView rows)), s2)" "mset (map fst rows) = mset [?row]"
    by (auto simp: fle_def)
  from r(2) have "mset (map fst rows) = {#?row#}" by (simp only: mset.simps)
  then have "map fst rows = [?row]" by (simp only: mset_single_iff)
  with r(1) show ?thesis by (intro exI [of _ fb] exI [of _ rows]) simp
qed

end
