(* ===== verification/Telemetry_Store.thy ===== *)
theory Telemetry_Store
  imports Database "HOL-Library.Multiset"
begin

text \<open>
  The telemetry buffer of \<open>db.py\<close> under several threads. The maintenance task and two handlers call \<open>flush\<close> in threads of their own,
  while the server buffers rows. A step is one critical section, or the second one ended by an error of the database, after some of the rows: the
  others of the batch are then gone. (The code does not roll back either; that the next \<open>BEGIN\<close> may then raise too is one more such
  step.) The state holds the batches that have been taken and not yet inserted, and the rows lost.
\<close>

section \<open>Steps\<close>

datatype tel_op = TBuffer TelRow | TTake | TInsert nat | TFail nat nat

record batches =
  in_flight :: "TelRow list list"
  lost_rows :: "TelRow list"

definition without_nth :: "nat \<Rightarrow> 'a list \<Rightarrow> 'a list" where
  "without_nth i xs = take i xs @ drop (Suc i) xs"

fun tel_step :: "tel_op \<Rightarrow> 'a env_scheme \<times> batches \<Rightarrow> 'a env_scheme \<times> batches" where
  "tel_step (TBuffer r) (s, b) = (snd (buffer_telemetry r s), b)"
| "tel_step TTake (s, b) =
     (case take_buffer s of
        (Inr rows, s') \<Rightarrow> (s', b\<lparr>in_flight := in_flight b @ [rows]\<rparr>)
      | (Inl _, s') \<Rightarrow> (s', b))"
| "tel_step (TInsert i) (s, b) =
     (if i < length (in_flight b)
      then (snd (insert_rows (in_flight b ! i) s), b\<lparr>in_flight := without_nth i (in_flight b)\<rparr>) else (s, b))"
| "tel_step (TFail i k) (s, b) =
     (if i < length (in_flight b)
      then (snd (insert_rows (take k (in_flight b ! i)) s),
            b\<lparr>in_flight := without_nth i (in_flight b), lost_rows := lost_rows b @ drop k (in_flight b ! i)\<rparr>) else (s, b))"

definition tel_run :: "tel_op list \<Rightarrow> 'a env_scheme \<Rightarrow> 'a env_scheme \<times> batches" where
  "tel_run ops s = fold tel_step ops (s, \<lparr>in_flight = [], lost_rows = []\<rparr>)"

text \<open>The rows that come in; and histories in which one flush is over before the next begins, and none fails.\<close>

fun buffered :: "tel_op list \<Rightarrow> TelRow list" where
  "buffered [] = []"
| "buffered (TBuffer r # ops) = r # buffered ops"
| "buffered (_ # ops) = buffered ops"

fun in_turn :: "bool \<Rightarrow> tel_op list \<Rightarrow> bool" where
  "in_turn busy [] = True"
| "in_turn busy (TBuffer r # ops) = in_turn busy ops"
| "in_turn busy (TTake # ops) = (\<not> busy \<and> in_turn True ops)"
| "in_turn busy (TInsert i # ops) = (busy \<and> i = 0 \<and> in_turn False ops)"
| "in_turn busy (TFail i k # ops) = False"

section \<open>Laws\<close>

lemma take_buffer_app: "take_buffer s = (Inr (tel_buf (wdb s)), s\<lparr>wdb := (wdb s)\<lparr>tel_buf := []\<rparr>\<rparr>)"
  by (simp add: take_buffer_def pym_simps)

lemma insert_rows_app:
  "snd (insert_rows rows s) = s\<lparr>wdb := (wdb s)\<lparr>telemetry_t := telemetry_t (wdb s) @ rows\<rparr>\<rparr>"
  by (cases s, cases "wdb s") (simp add: insert_rows_def pym_simps)

text \<open>\<open>flush\<close> is its two steps in a row.\<close>

lemma flush_steps:
  assumes "in_flight b = []"
  shows "tel_step (TInsert 0) (tel_step TTake (s, b)) = (snd (flush s), b)"
  using assms by (simp add: take_buffer_app flush_def bind_app without_nth_def)

lemma mset_without: "i < length xs \<Longrightarrow> mset (concat (without_nth i xs)) + mset (xs ! i) = mset (concat xs)"
  by (subst (3) id_take_nth_drop [of i xs]) (simp_all add: without_nth_def)

lemma mset_without_split:
  assumes "i < length xs"
  shows "mset (concat (without_nth i xs)) + (mset (drop k (xs ! i)) + mset (take k (xs ! i))) = mset (concat xs)"
proof -
  have "mset (drop k (xs ! i)) + mset (take k (xs ! i)) = mset (xs ! i)"
    by (metis add.commute append_take_drop_id mset_append)
  then show ?thesis using mset_without [OF assms] by simp
qed

text \<open>Where the rows are: in the table, taken, in the buffer, or lost.\<close>

definition rows_in :: "'a env_scheme \<times> batches \<Rightarrow> TelRow multiset" where
  "rows_in x = mset (telemetry_t (wdb (fst x))) + mset (concat (in_flight (snd x))) + mset (tel_buf (wdb (fst x))) + mset (lost_rows (snd x))"

lemma step_rows: "rows_in (tel_step op x) = rows_in x + mset (buffered [op])"
  using mset_without [of _ "in_flight (snd x)"] mset_without_split [of _ "in_flight (snd x)"]
  by (cases x; cases op) (auto simp: rows_in_def buffer_app take_buffer_app insert_rows_app ac_simps)

lemma run_rows: "rows_in (fold tel_step ops x) = rows_in x + mset (buffered ops)"
proof (induction ops arbitrary: x)
  case (Cons op ops)
  have "mset (buffered (op # ops)) = mset (buffered [op]) + mset (buffered ops)" by (cases op) simp_all
  then show ?case by (simp add: Cons step_rows)
qed simp

lemma none_lost: "(\<And>i k. TFail i k \<notin> set ops) \<Longrightarrow> lost_rows (snd (fold tel_step ops x)) = lost_rows (snd x)"
proof (induction ops arbitrary: x)
  case (Cons op ops)
  have "lost_rows (snd (tel_step op x)) = lost_rows (snd x)"
    using Cons.prems by (cases x; cases op) (auto simp: take_buffer_app)
  moreover have "lost_rows (snd (fold tel_step ops (tel_step op x))) = lost_rows (snd (tel_step op x))"
    by (rule Cons.IH) (use Cons.prems in auto)
  ultimately show ?case by simp
qed simp

lemma in_turn_order:
  assumes "in_turn busy ops" "length (in_flight b) = (if busy then 1 else 0)" "fold tel_step ops (s, b) = (t, c)"
  shows "telemetry_t (wdb t) @ concat (in_flight c) @ tel_buf (wdb t)
    = telemetry_t (wdb s) @ concat (in_flight b) @ tel_buf (wdb s) @ buffered ops"
  using assms
proof (induction busy ops arbitrary: s b rule: in_turn.induct)
  case (2 busy r ops)
  then show ?case by (simp add: buffer_app)
next
  case (3 busy ops)
  from 3(1) [of "b\<lparr>in_flight := [tel_buf (wdb s)]\<rparr>" "s\<lparr>wdb := (wdb s)\<lparr>tel_buf := []\<rparr>\<rparr>"] 3(2-4)
  show ?case by (simp add: take_buffer_app)
next
  case (4 busy i ops)
  then obtain rows where w: "in_flight b = [rows]" by (auto simp: length_Suc_conv)
  from 4(1) [of "b\<lparr>in_flight := []\<rparr>" "s\<lparr>wdb := (wdb s)\<lparr>telemetry_t := telemetry_t (wdb s) @ rows\<rparr>\<rparr>"] 4(2-4) w
  show ?case by (simp add: insert_rows_app without_nth_def)
qed auto

section \<open>Property\<close>

text \<open>
  C10. No telemetry row is stored twice, and only an error of the database loses one: however the critical sections of several flushes and
  the arrival of rows interleave, the rows in the table, those taken by a flush that has not inserted them yet, those in the buffer and those lost
  are together exactly the rows there were and the rows that came in; nothing is lost unless an insertion fails; and when the
  flushes do not overlap, the table, the batch taken and the buffer hold the rows in the order in which they came in.
\<close>

theorem telemetry_stored_once:
  assumes "tel_run ops s = (t, b)"
  shows "mset (telemetry_t (wdb t)) + mset (concat (in_flight b)) + mset (tel_buf (wdb t)) + mset (lost_rows b)
      = mset (telemetry_t (wdb s)) + mset (tel_buf (wdb s)) + mset (buffered ops)
    \<and> ((\<forall>i k. TFail i k \<notin> set ops) \<longrightarrow> lost_rows b = [])
    \<and> (in_turn False ops \<longrightarrow> telemetry_t (wdb t) @ concat (in_flight b) @ tel_buf (wdb t) = telemetry_t (wdb s) @ tel_buf (wdb s) @ buffered ops)"
proof -
  let ?b = "\<lparr>in_flight = [], lost_rows = []\<rparr>"
  note run = assms [unfolded tel_run_def]
  have "rows_in (t, b) = rows_in (s, ?b) + mset (buffered ops)" using run_rows [of ops "(s, ?b)"] run by simp
  moreover have "lost_rows b = []" if "\<forall>i k. TFail i k \<notin> set ops" using none_lost [of ops "(s, ?b)"] that run by simp
  moreover note in_turn_order [of False ops ?b s t b] run
  ultimately show ?thesis by (simp add: rows_in_def)
qed

text \<open>C10 at two flushes that overlap, the second of which is first to insert, and a third that fails.\<close>

definition row_at :: "int \<Rightarrow> TelRow" where
  "row_at i = \<lparr>t_dev = lit ''ECU-1'', t_ts = Fin (of_int i), t_seq = i, t_rpm = None, t_temp_c = None, t_current_a = None,
     t_voltage_v = None, t_vibration_g = None, t_speed_kph = None, t_lat = None, t_lon = None, t_fault_flags = 0, t_state = 1\<rparr>"

definition sample_ops :: "tel_op list" where
  "sample_ops = [TBuffer (row_at 1), TTake, TBuffer (row_at 2), TTake, TInsert 1, TBuffer (row_at 3), TInsert 0, TTake, TFail 0 0]"

theorem telemetry_stored_once_witness:
  "\<exists>t b. tel_run sample_ops \<lparr>wclock = (\<lambda>_. Fin 0), wreads = 0, wdb = DB_init (Fin 24)\<rparr> = (t, b)
     \<and> map t_seq (telemetry_t (wdb t)) = [2, 1] \<and> map t_seq (lost_rows b) = [3]
     \<and> mset (telemetry_t (wdb t)) + mset (lost_rows b) = mset [row_at 1, row_at 2, row_at 3]"
proof -
  let ?s = "\<lparr>wclock = (\<lambda>_. Fin 0), wreads = 0, wdb = DB_init (Fin 24)\<rparr>"
  have v: "map t_seq (telemetry_t (wdb (fst (tel_run sample_ops ?s)))) = [2, 1]" "map t_seq (lost_rows (snd (tel_run sample_ops ?s))) = [3]"
    "in_flight (snd (tel_run sample_ops ?s)) = []" "map t_seq (tel_buf (wdb (fst (tel_run sample_ops ?s)))) = []"
    by code_simp+
  obtain t b where r: "tel_run sample_ops ?s = (t, b)" by fastforce
  note v = v [unfolded r fst_conv snd_conv]
  from telemetry_stored_once [OF r] have "mset (telemetry_t (wdb t)) + mset (concat (in_flight b)) + mset (tel_buf (wdb t)) + mset (lost_rows b)
      = mset (buffered sample_ops)" by (simp add: DB_init_def)
  then have "mset (telemetry_t (wdb t)) + mset (lost_rows b) = mset (buffered sample_ops)" using v(3,4) by simp
  moreover have "buffered sample_ops = [row_at 1, row_at 2, row_at 3]" by (simp add: sample_ops_def)
  ultimately show ?thesis using v(1,2) r by (intro exI [of _ t] exI [of _ b]) simp
qed

end
