(* ===== verification/Deployments.thy ===== *)
theory Deployments
  imports Api_Laws Api_Views
begin

text \<open>
  Firmware jobs over the whole server: its ingest handlers and tasks, its HTTP handlers, and the deployments
  whose request has pushed the image and waits for the writer of the device. While one waits the others
  run; when it goes on it sets the state of its job, whatever has happened to it.
\<close>

section \<open>Steps of the server\<close>

text \<open>
  A state is the server with the deployments that wait. A connection may be lost while a deployment waits for it,
  so that it goes on as if nothing had been pushed.
\<close>

inductive server_step :: "'a server_scheme \<times> deployment list \<Rightarrow> 'a server_scheme \<times> deployment list \<Rightarrow> bool" where
  ss_ingest: "ingest_step s s' \<Longrightarrow> server_step (s, ds) (s', ds)"
| ss_maintenance: "server_step (s, ds) (snd (maintenance_round avg x y ts s), ds)"
| ss_query: "server_step (s, ds) (snd (get_request w q s), ds)"
| ss_put_config: "server_step (s, ds) (snd (put_config dev hz lvl a b c s), ds)"
| ss_firmware_add: "server_step (s, ds) (snd (api_firmware_add v notes sz s), ds)"
| ss_fault_inject: "server_step (s, ds) (snd (fault_inject dev ons offs ms s), ds)"
| ss_device_cmd: "server_step (s, ds) (snd (device_cmd dev name s), ds)"
| ss_ack_alert: "server_step (s, ds) (snd (ack_alert i s), ds)"
| ss_put_rules: "server_step (s, ds) (snd (put_rules body s), ds)"
| ss_diagnose: "server_step (s, ds) (snd (diagnose_device avg model answer dev s), ds)"
| ss_sse_open: "server_step (s, ds) (snd (sse_open s), ds)"
| ss_sse_next: "server_step (s, ds) (snd (sse_next n b s), ds)"
| ss_deploy: "deploy_push dev version s = (Inr d, s') \<Longrightarrow> server_step (s, ds) (s', ds @ [d])"
| ss_refused: "deploy_push dev version s = (Inl e, s') \<Longrightarrow> server_step (s, ds) (s', ds)"
| ss_finish: "d \<in> set ds \<Longrightarrow> p = dp_pushed d \<or> \<not> p \<Longrightarrow>
    server_step (s, ds) (snd (deploy_finish (d\<lparr>dp_pushed := p\<rparr>) s), remove1 d ds)"

inductive_cases server_stepE: "server_step a b"

section \<open>Steps that leave the jobs to the ingest server\<close>

text \<open>The handlers of the interface, and the maintenance task, change jobs only where the ingest server does.\<close>

abbreviation forward :: "'a server_scheme \<Rightarrow> 'a server_scheme \<Rightarrow> bool" where
  "forward s t \<equiv> jobs_le (wdb s) (wdb t)"

lemma le_sum:
  "(\<And>e. x = Inl e \<Longrightarrow> steps_by R (f e)) \<Longrightarrow> (\<And>y. x = Inr y \<Longrightarrow> steps_by R (g y)) \<Longrightarrow>
   steps_by R (case x of Inl e \<Rightarrow> f e | Inr y \<Rightarrow> g y)"
  by (cases x) auto

lemma le_db_mod:
  assumes "\<And>db. jobs_t (f db) = jobs_t db" "\<And>db. job_id (f db) = job_id db"
  shows "steps_by forward (db_mod f)"
  using assms by (simp add: steps_by_def db_mod_app jobs_le_same)

lemma le_bus: "steps_by forward (modify (\<lambda>s. s\<lparr>wbus := f s\<rparr>))"
  by (simp add: steps_by_def modify_app jobs_le_same)

interpretation job_reads: flush_order forward
proof
  show "steps_by forward (time_time :: ('a server_scheme, pyfloat) pym)" by (rule jobs.sv_time)
  show "steps_by forward (on_stat dev (\<lambda>x. x) :: ('a server_scheme, unit) pym)" for dev by (rule jobs.wi_stat)
  show "steps_by forward (flush :: ('a server_scheme, int) pym)" by (simp add: steps_by_def flush_app jobs_le_same)
qed

lemmas le_intros = jobs.sv_intros jobs.wi_stat jobs.wi_log jobs.wi_log_only jobs.wi_push_config jobs.wi_pushes
  job_reads.ro_flush job_reads.ro_404 le_sum

lemma le_handlers:
  "steps_by forward (put_config dev hz lvl a b c)"
  "steps_by forward (api_firmware_add v notes sz)"
  "steps_by forward (fault_inject dev ons offs ms)"
  "steps_by forward (device_cmd dev name)"
  "steps_by forward (ack_alert i)"
  unfolding put_config_def new_config_def api_firmware_add_def firmware_add_def fault_inject_def fault_injection_add_def device_cmd_def
    ack_alert_def update_alert_def
  by (intro le_intros le_db_mod; simp)+

lemma le_rules: "steps_by forward (put_rules body)"
  unfolding put_rules_def by (intro le_intros jobs.sv_engine around.R_rules)

lemma le_tasks:
  "steps_by forward (maintenance_round avg x y ts)"
  "steps_by forward sse_open"
  "steps_by forward (sse_next n b)"
  unfolding maintenance_round_def rollup_def rollup_at_def prune_def Let_def sse_open_def sse_next_def sse_close_def
  by (intro le_intros le_db_mod le_bus; simp)+

lemma le_diagnose: "steps_by forward (diagnose_device avg model answer dev)"
  unfolding diagnose_device_def diagnose_def build_context_def metric_stats_def heuristic_diagnosis_def save_diagnosis_def Let_def
  by (intro le_intros le_db_mod; simp)

text \<open>What every change of a job keeps: what it is about, and its history, which only grows.\<close>

definition job_kept :: "FwJob \<Rightarrow> FwJob \<Rightarrow> bool" where
  "job_kept j j' \<longleftrightarrow> j_id j' = j_id j \<and> j_dev j' = j_dev j \<and> j_target j' = j_target j \<and> j_from j' = j_from j
     \<and> j_created_at j' = j_created_at j \<and> prefix (j_history j) (j_history j')"

lemma job_le_kept: "job_le j j' \<longleftrightarrow> job_kept j j' \<and> (unfinished (j_status j) \<or> j' = j)"
  by (auto simp: job_le_def job_kept_def)

lemma job_kept_trans: "job_kept a b \<Longrightarrow> job_kept b c \<Longrightarrow> job_kept a c"
  unfolding job_kept_def by (auto intro: prefix_order.trans)

section \<open>The two halves of a deployment\<close>

lemma fw_job_update_other:
  assumes "jobs_ok (wdb s)"
  shows "jobs_ok (wdb (snd (fw_job_update i status s))) \<and> length (jobs_t (wdb (snd (fw_job_update i status s)))) = length (jobs_t (wdb s))
    \<and> (\<forall>k<length (jobs_t (wdb s)). job_kept (jobs_t (wdb s) ! k) (jobs_t (wdb (snd (fw_job_update i status s))) ! k)
        \<and> (j_id (jobs_t (wdb s) ! k) \<noteq> i \<longrightarrow> jobs_t (wdb (snd (fw_job_update i status s))) ! k = jobs_t (wdb s) ! k))"
proof (cases "fw_job_get i (wdb s)")
  case None
  then show ?thesis using assms by (simp add: fw_job_update_def pym_simps job_kept_def)
next
  case (Some j)
  let ?js = "jobs_t (wdb s)"
  have j: "j \<in> set ?js" "j_id j = i" using Some by (auto simp: fw_job_get_def dest: first_row_in)
  have u: "k = j" if "k \<in> set ?js" "j_id k = i" for k
    using ids_ok_inj [of j_id ?js "job_id (wdb s)" k j] assms j that by (simp add: jobs_ok_def)
  let ?f = "\<lambda>k. k\<lparr>j_status := status, j_updated_at := wclock s (wreads s), j_history := j_history j @ [(status, wclock s (wreads s))]\<rparr>"
  have e: "jobs_t (wdb (snd (fw_job_update i status s))) = sql_update (\<lambda>k. j_id k = i) ?f ?js"
    "job_id (wdb (snd (fw_job_update i status s))) = job_id (wdb s)"
    using Some by (simp_all add: fw_job_update_def pym_simps)
  have "job_kept (?js ! k) (sql_update (\<lambda>k. j_id k = i) ?f ?js ! k)" if "k < length ?js" for k
    using that u [of "?js ! k"] by (auto simp: sql_update_def job_kept_def)
  moreover have "ids_ok j_id (sql_update (\<lambda>k. j_id k = i) ?f ?js) (job_id (wdb s))"
    using assms by (subst ids_ok_update) (simp_all add: jobs_ok_def)
  ultimately show ?thesis by (simp add: jobs_ok_def e) (simp add: sql_update_def)
qed

lemma fw_job_create_app:
  assumes "jobs_ok (wdb s)"
  shows "\<exists>j s'. fw_job_create dev target from_v s = (Inr (Some j), s') \<and> j_id j = job_id (wdb s) + 1 \<and> jobs_ok (wdb s')
    \<and> jobs_t (wdb s') = jobs_t (wdb s) @ [j]"
proof -
  let ?i = "job_id (wdb s) + 1" and ?t = "wclock s (wreads s)"
  let ?j = "\<lparr>j_id = ?i, j_dev = dev, j_target = target, j_from = from_v, j_status = lit ''pending'',
      j_created_at = ?t, j_updated_at = ?t, j_history = [(lit ''pending'', ?t)]\<rparr>"
  have "filter (\<lambda>k. j_id k = ?i) (jobs_t (wdb s)) = []" using assms by (auto simp: filter_empty_conv jobs_ok_def ids_ok_def)
  then have "fw_job_create dev target from_v s = (Inr (Some ?j), s\<lparr>wreads := wreads s + 1, wdb := (wdb s)\<lparr>job_id := ?i, jobs_t := jobs_t (wdb s) @ [?j]\<rparr>\<rparr>)"
    by (simp add: fw_job_create_def pym_simps fw_job_get_def)
  moreover have "ids_ok j_id (jobs_t (wdb s) @ [?j]) ?i" using assms by (intro ids_ok_append) (simp_all add: jobs_ok_def)
  ultimately show ?thesis by (simp add: jobs_ok_def)
qed

lemma deploy_push_le: "forward s (snd (deploy_push dev version s))"
proof (cases "jobs_ok (wdb s)")
  case True
  show ?thesis
  proof (cases "get_device dev (wdb s)")
    case (Some r)
    show ?thesis
    proof (cases "firmware_get version (wdb s)")
      case (Some f)
      obtain j s' where c: "fw_job_create dev version (d_fw_version r) s = (Inr (Some j), s')" "jobs_ok (wdb s')"
        "jobs_t (wdb s') = jobs_t (wdb s) @ [j]" using fw_job_create_app [OF True] by blast
      have "forward s s'" using c(2,3) by (simp add: jobs_le_def nth_append)
      moreover have "forward s' (snd (push_fw dev f s'))" by (rule steps_byD) (rule jobs.wi_pushes)
      moreover have "wdb (snd (deploy_push dev version s)) = wdb (snd (push_fw dev f s'))"
        using \<open>get_device dev (wdb s) = Some r\<close> Some c(1)
        by (simp add: deploy_push_def device_or_404_app bind_app db_get_app ret_app split: sum.splits prod.splits)
      ultimately show ?thesis using jobs_le_trans by metis
    qed (use Some in \<open>simp add: deploy_push_def device_or_404_app bind_app db_get_app throw_app jobs_le_same\<close>)
  qed (simp add: deploy_push_def device_404 bind_app jobs_le_same)
qed (simp add: jobs_le_def)

lemma deploy_push_fresh:
  assumes "deploy_push dev version s = (Inr d, s')" "jobs_ok (wdb s)"
  shows "dp_job d = job_id (wdb s) + 1"
proof -
  obtain r where r: "get_device dev (wdb s) = Some r"
    using assms(1) by (cases "get_device dev (wdb s)") (simp_all add: deploy_push_def device_404 bind_app)
  obtain f where f: "firmware_get version (wdb s) = Some f"
    using assms(1) r by (cases "firmware_get version (wdb s)") (simp_all add: deploy_push_def device_or_404_app bind_app db_get_app throw_app)
  obtain j t where c: "fw_job_create dev version (d_fw_version r) s = (Inr (Some j), t)" "j_id j = job_id (wdb s) + 1"
    using fw_job_create_app [OF assms(2)] by blast
  show ?thesis using assms(1) r f c
    by (auto simp: deploy_push_def device_or_404_app bind_app db_get_app ret_app split: sum.splits prod.splits)
qed

lemma deploy_finish_app:
  fixes s :: "'a server_scheme"
  shows "\<exists>t. forward (snd (fw_job_update (dp_job d) (lit (if dp_pushed d then ''sent'' else ''queued'')) s)) t \<and> snd (deploy_finish d s) = t"
proof -
  define n :: "('a server_scheme, bool \<times> FwJob option) pym" where "n = bind_pym (db_get (fw_job_get (dp_job d))) (\<lambda>job.
      seq_pym (log_only (dp_dev d) 1 (lit ''FW_UPDATE -> '' @ dp_version d @ lit '' '' @ lit (if dp_pushed d then ''pushed'' else ''queued'')))
      (bind_pym time_time (\<lambda>now.
       seq_pym (publish_device (dp_dev d) (FwJobEv job) now) (ret (dp_pushed d, job)))))"
  obtain t where u: "fw_job_update (dp_job d) (lit (if dp_pushed d then ''sent'' else ''queued'')) s = (Inr (), t)"
    by (cases "fw_job_get (dp_job d) (wdb s)") (simp_all add: fw_job_update_def pym_simps)
  have "steps_by forward n" unfolding n_def by (intro le_intros)
  from steps_byD [OF this, of t] u show ?thesis by (simp add: deploy_finish_def n_def seq_app)
qed

section \<open>Runs\<close>

text \<open>
  A run from \<open>a\<close> to \<open>b\<close>: no job is lost, each keeps what it is about and its history, and a finished one that
  no waiting deployment is for is the same at the end, and still none is for it.
\<close>

definition waited_for :: "deployment list \<Rightarrow> FwJob \<Rightarrow> bool" where
  "waited_for ds j \<longleftrightarrow> j_id j \<in> dp_job ` set ds"

definition run_le :: "'a server_scheme \<times> deployment list \<Rightarrow> 'a server_scheme \<times> deployment list \<Rightarrow> bool" where
  "run_le a b \<longleftrightarrow> jobs_ok (wdb (fst a)) \<longrightarrow>
     jobs_ok (wdb (fst b)) \<and> length (jobs_t (wdb (fst a))) \<le> length (jobs_t (wdb (fst b)))
     \<and> (\<forall>k<length (jobs_t (wdb (fst a))). let j = jobs_t (wdb (fst a)) ! k; j' = jobs_t (wdb (fst b)) ! k in
          job_kept j j' \<and> (waited_for (snd b) j \<longrightarrow> waited_for (snd a) j)
          \<and> (unfinished (j_status j) \<or> waited_for (snd a) j \<or> j' = j))"

lemma run_le_refl: "run_le a a"
  by (simp add: run_le_def Let_def job_kept_def)

lemma waited_for_kept: "job_kept j j' \<Longrightarrow> waited_for ds j' = waited_for ds j"
  by (simp add: waited_for_def job_kept_def)

lemma run_le_trans:
  assumes "run_le a b" "run_le b c"
  shows "run_le a c"
  unfolding run_le_def Let_def
proof (intro impI conjI allI)
  assume ok: "jobs_ok (wdb (fst a))"
  note ab = assms(1) [unfolded run_le_def Let_def, rule_format, OF ok]
  then have "jobs_ok (wdb (fst b))" by simp
  note bc = assms(2) [unfolded run_le_def Let_def, rule_format, OF this]
  show "jobs_ok (wdb (fst c))" "length (jobs_t (wdb (fst a))) \<le> length (jobs_t (wdb (fst c)))" using ab bc by simp_all
  fix k assume k: "k < length (jobs_t (wdb (fst a)))"
  let ?a = "jobs_t (wdb (fst a)) ! k" and ?b = "jobs_t (wdb (fst b)) ! k" and ?c = "jobs_t (wdb (fst c)) ! k"
  from k ab have 1: "job_kept ?a ?b" "waited_for (snd b) ?a \<longrightarrow> waited_for (snd a) ?a"
    "unfinished (j_status ?a) \<or> waited_for (snd a) ?a \<or> ?b = ?a" by simp_all
  from k ab bc have 2: "job_kept ?b ?c" "waited_for (snd c) ?b \<longrightarrow> waited_for (snd b) ?b"
    "unfinished (j_status ?b) \<or> waited_for (snd b) ?b \<or> ?c = ?b" by simp_all
  show "job_kept ?a ?c" using 1(1) 2(1) by (rule job_kept_trans)
  show "waited_for (snd a) ?a" if "waited_for (snd c) ?a"
    using that 1(2) 2(2) by (simp add: waited_for_kept [OF 1(1)])
  show "unfinished (j_status ?a) \<or> waited_for (snd a) ?a \<or> ?c = ?a"
  proof (cases "?b = ?a")
    case True
    with 2(3) have "unfinished (j_status ?a) \<or> waited_for (snd b) ?a \<or> ?c = ?a" by simp
    with 1(2) show ?thesis by blast
  qed (use 1(3) in blast)
qed

lemma forward_run_le: "forward s s' \<Longrightarrow> run_le (s, ds) (s', ds)"
  by (auto simp: run_le_def jobs_le_def job_le_kept Let_def)

lemma server_step_le: "server_step a b \<Longrightarrow> run_le a b"
proof (induction rule: server_step.induct)
  case (ss_ingest s s' ds)
  then show ?case by (intro forward_run_le) (rule jobs.wi_step, simp_all add: jobs_le_same)
next
  case (ss_query s ds w q)
  show ?case by (intro forward_run_le) (rule steps_byD, rule job_reads.fo_request)
next
  case (ss_deploy dev version s d s' ds)
  have f: "forward s s'" using deploy_push_le [of s dev version] ss_deploy by simp
  show ?case unfolding run_le_def Let_def
  proof (intro impI conjI allI)
    assume "jobs_ok (wdb (fst (s, ds)))"
    then have ok: "jobs_ok (wdb s)" by simp
    show "jobs_ok (wdb (fst (s', ds @ [d])))" "length (jobs_t (wdb (fst (s, ds)))) \<le> length (jobs_t (wdb (fst (s', ds @ [d]))))"
      using f ok by (simp_all add: jobs_le_def)
    fix k assume k: "k < length (jobs_t (wdb (fst (s, ds))))"
    let ?a = "jobs_t (wdb (fst (s, ds))) ! k" and ?b = "jobs_t (wdb (fst (s', ds @ [d]))) ! k"
    have "job_le ?a ?b" using f ok k by (simp add: jobs_le_def)
    then show "job_kept ?a ?b" "unfinished (j_status ?a) \<or> waited_for (snd (s, ds)) ?a \<or> ?b = ?a" by (auto simp: job_le_kept)
    have "j_id ?a \<le> job_id (wdb s)" using ok k by (simp add: jobs_ok_def ids_ok_def)
    then show "waited_for (snd (s, ds)) ?a" if "waited_for (snd (s', ds @ [d])) ?a"
      using that deploy_push_fresh [OF ss_deploy ok] by (auto simp: waited_for_def)
  qed
next
  case (ss_refused dev version s e s' ds)
  then show ?case using deploy_push_le [of s dev version] by (intro forward_run_le) simp
next
  case (ss_finish d ds p s)
  let ?u = "snd (fw_job_update (dp_job d) (lit (if p then ''sent'' else ''queued'')) s)"
  obtain t where t: "forward ?u t" "snd (deploy_finish (d\<lparr>dp_pushed := p\<rparr>) s) = t"
    using deploy_finish_app [of "d\<lparr>dp_pushed := p\<rparr>" s] by auto
  have u1: "run_le (s, ds) (?u, ds)"
    unfolding run_le_def Let_def fst_conv snd_conv
  proof (intro impI conjI allI)
    assume ok: "jobs_ok (wdb s)"
    note u = fw_job_update_other [OF ok, of "dp_job d" "lit (if p then ''sent'' else ''queued'')"]
    show "jobs_ok (wdb ?u)" "length (jobs_t (wdb s)) \<le> length (jobs_t (wdb ?u))" using u by simp_all
    fix k assume k: "k < length (jobs_t (wdb s))"
    show "job_kept (jobs_t (wdb s) ! k) (jobs_t (wdb ?u) ! k)" using u k by blast
    show "unfinished (j_status (jobs_t (wdb s) ! k)) \<or> waited_for ds (jobs_t (wdb s) ! k) \<or> jobs_t (wdb ?u) ! k = jobs_t (wdb s) ! k"
    proof (cases "j_id (jobs_t (wdb s) ! k) = dp_job d")
      case True
      then have "waited_for ds (jobs_t (wdb s) ! k)" using ss_finish(1) by (simp add: waited_for_def)
      then show ?thesis by (intro disjI2 disjI1)
    next
      case False
      with u k have "jobs_t (wdb ?u) ! k = jobs_t (wdb s) ! k" by blast
      then show ?thesis by (intro disjI2)
    qed
  qed
  have u2: "run_le (?u, ds) (t, ds)" using t(1) by (rule forward_run_le)
  have u3: "run_le (t, ds) (t, remove1 d ds)"
    using set_remove1_subset [of d ds] by (auto simp: run_le_def Let_def job_kept_def waited_for_def)
  show ?case unfolding t(2) by (rule run_le_trans [OF run_le_trans [OF u1 u2] u3])
qed (rule forward_run_le, rule steps_byD, rule le_handlers le_rules le_tasks le_diagnose)+

lemma server_run_le: "server_step\<^sup>*\<^sup>* a b \<Longrightarrow> run_le a b"
proof (induction rule: rtranclp_induct)
  case (step y z)
  from step.IH server_step_le [OF step.hyps(2)] show ?case by (rule run_le_trans)
qed (rule run_le_refl)

section \<open>Property\<close>

text \<open>
  C22. Firmware jobs only move forward. Whatever the server does, its ingest handlers and tasks, its HTTP handlers and
  deployments that wait among it, no job is deleted, changes its device or target or loses a part of its history; and a
  job that is complete, rejected or failed is never changed again, unless the deployment that created it still waits for
  the device: when that one goes on it changes its own job once more.
\<close>

theorem finished_jobs_final:
  assumes "server_step\<^sup>*\<^sup>* (s, ds) (s', ds')" "jobs_ok (wdb s)" "j \<in> set (jobs_t (wdb s))"
  shows "\<exists>j'\<in>set (jobs_t (wdb s')). j_id j' = j_id j \<and> j_dev j' = j_dev j \<and> j_target j' = j_target j
    \<and> prefix (j_history j) (j_history j') \<and> (unfinished (j_status j) \<or> waited_for ds j \<or> j' = j)"
proof -
  obtain k where k: "k < length (jobs_t (wdb s))" "jobs_t (wdb s) ! k = j" using assms(3) by (auto simp: in_set_conv_nth)
  have "run_le (s, ds) (s', ds')" by (rule server_run_le [OF assms(1)])
  with assms(2) k have r: "k < length (jobs_t (wdb s'))" "job_kept j (jobs_t (wdb s') ! k)"
    "unfinished (j_status j) \<or> waited_for ds j \<or> jobs_t (wdb s') ! k = j"
    by (fastforce simp: run_le_def Let_def)+
  then show ?thesis unfolding job_kept_def by (intro bexI [of _ "jobs_t (wdb s') ! k"]) auto
qed

definition sample_job :: FwJob where
  "sample_job = \<lparr>j_id = 1, j_dev = lit ''ECU-1'', j_target = lit ''1.2.0'', j_from = None, j_status = lit ''complete'',
     j_created_at = Fin 1, j_updated_at = Fin 2, j_history = [(lit ''pending'', Fin 1), (lit ''complete'', Fin 2)]\<rparr>"

text \<open>C22 at a finished job, when the deployment of another one goes on.\<close>

theorem finished_jobs_final_witness:
  "sample_job \<in> set (jobs_t (wdb (snd (deploy_finish \<lparr>dp_dev = lit ''ECU-2'', dp_version = lit ''1.2.0'', dp_job = 2, dp_pushed = True\<rparr>
     (sample_server\<lparr>wdb := (DB_init (Fin 24))\<lparr>jobs_t := [sample_job, sample_job\<lparr>j_id := 2, j_dev := lit ''ECU-2''\<rparr>], job_id := 2\<rparr>\<rparr>)))))"
proof -
  let ?d = "\<lparr>dp_dev = lit ''ECU-2'', dp_version = lit ''1.2.0'', dp_job = 2, dp_pushed = True\<rparr>"
  let ?s = "sample_server\<lparr>wdb := (DB_init (Fin 24))\<lparr>jobs_t := [sample_job, sample_job\<lparr>j_id := 2, j_dev := lit ''ECU-2''\<rparr>], job_id := 2\<rparr>\<rparr>"
  have ok: "jobs_ok (wdb ?s)" "sample_job \<in> set (jobs_t (wdb ?s))" by (simp_all add: jobs_ok_def ids_ok_def sample_job_def)
  have "server_step (?s, [?d]) (snd (deploy_finish (?d\<lparr>dp_pushed := True\<rparr>) ?s), remove1 ?d [?d])"
    by (rule ss_finish) simp_all
  then have "server_step\<^sup>*\<^sup>* (?s, [?d]) (snd (deploy_finish ?d ?s), [])" by (intro r_into_rtranclp) simp
  from finished_jobs_final [OF this ok] show ?thesis by (auto simp: sample_job_def unfinished_def waited_for_def)
qed

text \<open>
  What the exception means: whatever the state of its job is by then, be it that the device has refused the image, a
  deployment that goes on sets it to \<open>sent\<close> or \<open>queued\<close>.
\<close>

interpretation same_jobs: server_order "\<lambda>s t. jobs_t (wdb t) = jobs_t (wdb s)"
proof
  show "steps_by (\<lambda>s t. jobs_t (wdb t) = jobs_t (wdb s)) (on_stat dev f)" for dev f
    by (simp add: steps_by_def on_stat_app)
  show "jobs_t (wdb t) = jobs_t (wdb s)" if "around_engine t = around_engine s" for s t :: "'a server_scheme"
    by (rule around_tables(3) [OF that])
qed simp_all

theorem deployment_overwrites:
  assumes "jobs_ok (wdb s)" "j \<in> set (jobs_t (wdb s))" "j_id j = dp_job d"
  shows "\<exists>j'\<in>set (jobs_t (wdb (snd (deploy_finish d s)))). j_id j' = j_id j \<and> j_status j' = lit (if dp_pushed d then ''sent'' else ''queued'')"
proof -
  define n :: "('a server_scheme, bool \<times> FwJob option) pym" where "n = bind_pym (db_get (fw_job_get (dp_job d))) (\<lambda>job.
      seq_pym (log_only (dp_dev d) 1 (lit ''FW_UPDATE -> '' @ dp_version d @ lit '' '' @ lit (if dp_pushed d then ''pushed'' else ''queued'')))
      (bind_pym time_time (\<lambda>now.
       seq_pym (publish_device (dp_dev d) (FwJobEv job) now) (ret (dp_pushed d, job)))))"
  let ?st = "lit (if dp_pushed d then ''sent'' else ''queued'')"
  have "steps_by (\<lambda>s t. jobs_t (wdb t) = jobs_t (wdb s)) (db_mod (\<lambda>db. db\<lparr>log_id := i, logs_t := l db\<rparr>))" for i l
    by (simp add: steps_by_def db_mod_app)
  then have n: "steps_by (\<lambda>s t. jobs_t (wdb t) = jobs_t (wdb s)) n"
    unfolding n_def log_only_def add_log_def by (intro same_jobs.sv_intros)
  have "fw_job_get (dp_job d) (wdb s) \<noteq> None" using assms(2,3) by (auto simp: fw_job_get_def filter_empty_conv)
  then obtain k where k: "fw_job_get (dp_job d) (wdb s) = Some k" by blast
  then have u: "fw_job_update (dp_job d) ?st s = (Inr (), snd (fw_job_update (dp_job d) ?st s))"
    by (simp add: fw_job_update_def pym_simps)
  have "\<exists>j'\<in>set (jobs_t (wdb (snd (fw_job_update (dp_job d) st s)))). j_id j' = j_id j \<and> j_status j' = st" for st
  proof -
    let ?f = "\<lambda>x. x\<lparr>j_status := st, j_updated_at := wclock s (wreads s), j_history := j_history k @ [(st, wclock s (wreads s))]\<rparr>"
    have "jobs_t (wdb (snd (fw_job_update (dp_job d) st s))) = sql_update (\<lambda>x. j_id x = dp_job d) ?f (jobs_t (wdb s))"
      using k by (simp add: fw_job_update_def pym_simps)
    moreover have "?f j \<in> set (sql_update (\<lambda>x. j_id x = dp_job d) ?f (jobs_t (wdb s)))"
      unfolding set_sql_update by (rule image_eqI [OF _ assms(2)]) (simp add: assms(3))
    ultimately show ?thesis by (intro bexI [of _ "?f j"]) simp_all
  qed
  moreover have "jobs_t (wdb (snd (deploy_finish d s))) = jobs_t (wdb (snd (fw_job_update (dp_job d) ?st s)))"
  proof -
    have "deploy_finish d s = n (snd (fw_job_update (dp_job d) ?st s))" unfolding deploy_finish_def n_def by (rule seq_first [of "fw_job_update (dp_job d) ?st" s, OF u])
    with steps_byD [OF n] show ?thesis by metis
  qed
  ultimately show ?thesis by metis
qed

end
