(* ===== verification/Api_Bodies.thy ===== *)
theory Api_Bodies
  imports Api_Laws
begin

text \<open>
  The request bodies of \<open>backend/app/api.py\<close>: their fields, defaults and bounds, and the requests with a body as the handlers after
  the check of the bounds. How a JSON text becomes values of the declared types is left to the web framework. What is in bounds need not
  fit the fields of a frame.
\<close>

section \<open>Bodies\<close>

record config_body =
  cb_telemetry_hz :: int
  cb_log_level :: level_arg
  cb_rpm_limit :: pyfloat
  cb_temp_limit_c :: pyfloat
  cb_current_limit_a :: pyfloat

definition config_defaults :: config_body where
  "config_defaults = \<lparr>cb_telemetry_hz = 10, cb_log_level = LevelInt 1, cb_rpm_limit = Fin 6000, cb_temp_limit_c = Fin 90, cb_current_limit_a = Fin 120\<rparr>"

definition config_body_ok :: "config_body \<Rightarrow> bool" where
  "config_body_ok b \<longleftrightarrow> 1 \<le> cb_telemetry_hz b \<and> cb_telemetry_hz b \<le> 100 \<and> fle (Fin 0) (cb_rpm_limit b)
     \<and> fle (Fin (- 40)) (cb_temp_limit_c b) \<and> fle (cb_temp_limit_c b) (Fin 300) \<and> fle (Fin 0) (cb_current_limit_a b)"

record firmware_body =
  wb_version :: pystr
  wb_notes :: pystr
  wb_size_bytes :: int

definition firmware_defaults :: "pystr \<Rightarrow> firmware_body" where
  "firmware_defaults version = \<lparr>wb_version = version, wb_notes = [], wb_size_bytes = 1000000\<rparr>"

definition firmware_body_ok :: "firmware_body \<Rightarrow> bool" where
  "firmware_body_ok b \<longleftrightarrow> 1 \<le> wb_size_bytes b"

record fault_body =
  fb_set :: "pystr list"
  fb_clear :: "pystr list"
  fb_duration_ms :: int

definition fault_defaults :: fault_body where
  "fault_defaults = \<lparr>fb_set = [], fb_clear = [], fb_duration_ms = 0\<rparr>"

definition fault_body_ok :: "fault_body \<Rightarrow> bool" where
  "fault_body_ok b \<longleftrightarrow> 0 \<le> fb_duration_ms b"

definition cmd_body_ok :: "pystr \<Rightarrow> bool" where
  "cmd_body_ok name \<longleftrightarrow> name \<in> set (map lit [''reboot'', ''clear_faults'', ''request_hello''])"

section \<open>Requests\<close>

text \<open>A body out of bounds is answered with status 422 before the handler.\<close>

definition with_body :: "bool \<Rightarrow> ('s, 'b) pym \<Rightarrow> ('s, 'b) pym" where
  "with_body ok handler = (if ok then handler else throw (HTTPException 422))"

definition put_config_request :: "pystr \<Rightarrow> config_body \<Rightarrow> ('a server_scheme, sample) pym" where
  "put_config_request dev b = with_body (config_body_ok b)
     (put_config dev (cb_telemetry_hz b) (cb_log_level b) (cb_rpm_limit b) (cb_temp_limit_c b) (cb_current_limit_a b))"

definition firmware_add_request :: "firmware_body \<Rightarrow> ('a server_scheme, Firmware \<times> pystr) pym" where
  "firmware_add_request b = with_body (firmware_body_ok b) (api_firmware_add (wb_version b) (wb_notes b) (wb_size_bytes b))"

definition fault_request :: "pystr \<Rightarrow> fault_body \<Rightarrow> ('a server_scheme, sample) pym" where
  "fault_request dev b = with_body (fault_body_ok b) (fault_inject dev (fb_set b) (fb_clear b) (fb_duration_ms b))"

definition cmd_request :: "pystr \<Rightarrow> pystr \<Rightarrow> ('a server_scheme, sample) pym" where
  "cmd_request dev name = with_body (cmd_body_ok name) (device_cmd dev name)"

section \<open>Laws\<close>

lemma with_body_keeps: "keeps P m \<Longrightarrow> keeps P (with_body ok m)"
  by (simp add: with_body_def keeps_throw)

text \<open>The bounds exclude \<open>nan\<close>, and a body in bounds whose limits are not too large for binary32 fits its frame.\<close>

lemma config_body_numbers:
  assumes "config_body_ok b"
  shows "cb_rpm_limit b \<noteq> NaN" "cb_temp_limit_c b \<noteq> NaN" "cb_current_limit_a b \<noteq> NaN"
  using assms by (auto simp: config_body_ok_def)

lemma log_level_range: "log_level lvl = Inr ll \<Longrightarrow> 0 \<le> ll \<and> ll \<le> 3"
proof -
  have "map_of LOG_LEVELS v \<noteq> None \<Longrightarrow> 0 \<le> v \<and> v \<le> 3" for v by (auto simp: LOG_LEVELS_def split: if_splits)
  moreover have "map_of LOG_LEVEL_IDS s = Some v \<Longrightarrow> 0 \<le> v \<and> v \<le> 3" for s v
    by (auto simp: LOG_LEVEL_IDS_def LOG_LEVELS_def split: if_splits)
  ultimately show "log_level lvl = Inr ll \<Longrightarrow> 0 \<le> ll \<and> ll \<le> 3"
    by (cases lvl) (auto split: if_splits option.splits)
qed

lemma config_body_fits:
  assumes "config_body_ok b" "log_level (cb_log_level b) = Inr ll" "0 \<le> v" "v < 2 ^ 32"
    "pack_f32 (cb_rpm_limit b) = Inr w" "pack_f32 (cb_temp_limit_c b) = Inr w'" "pack_f32 (cb_current_limit_a b) = Inr w''"
  shows "payload_ok (on_wire v (cb_telemetry_hz b) ll (cb_rpm_limit b) (cb_temp_limit_c b) (cb_current_limit_a b))"
  using assms log_level_range [OF assms(2)] by (simp add: on_wire_def to_f32_fits wanted_def ConfigSet_ok_def config_body_ok_def)

lemma put_config_request_delivers:
  assumes "config_body_ok b" "log_level (cb_log_level b) = Inr ll" "next_version dev (wdb s) < 2 ^ 32" "0 \<le> next_version dev (wdb s)"
    "pack_f32 (cb_rpm_limit b) = Inr x" "pack_f32 (cb_temp_limit_c b) = Inr y" "pack_f32 (cb_current_limit_a b) = Inr z"
    "get_device dev (wdb s) = Some d" "cfield 12 dev" "map_of (writers s) dev = Some w" "w \<notin> set (closed s)" "w \<notin> set (broken s)"
    "clock_ok s" "int_of_float (fmul (wclock s (wreads s + 1)) (Fin 1000)) = Inr ms"
  shows "\<exists>view s' fb f. put_config_request dev b s = (Inr view, s') \<and> sent s' = sent s @ [(w, fb)] \<and> decode fb = Inr f
    \<and> payload f = Typed (on_wire (next_version dev (wdb s)) (cb_telemetry_hz b) ll (cb_rpm_limit b) (cb_temp_limit_c b) (cb_current_limit_a b))"
proof -
  note p = config_body_fits [OF assms(1,2,4,3,5-7)]
  from put_config_runs [OF assms(8-12) assms(2) p config_body_numbers [OF assms(1)] assms(13,14)] assms(1)
  show ?thesis by (auto simp: put_config_request_def with_body_def)
qed

text \<open>The defaults are in bounds and fit.\<close>

lemma defaults_fit:
  "config_body_ok config_defaults" "payload_ok (wanted 1 10 1 (Fin 6000) (Fin 90) (Fin 120))"
  "firmware_body_ok (firmware_defaults v)" "fault_body_ok fault_defaults"
  by (code_simp, code_simp) (simp_all add: firmware_body_ok_def firmware_defaults_def fault_body_ok_def fault_defaults_def)

text \<open>A command in bounds is known to the handler, which raises no \<open>KeyError\<close>.\<close>

lemma cmd_body_known: "cmd_body_ok name \<longleftrightarrow> map_of CMD_IDS name \<noteq> None"
  by (auto simp: cmd_body_ok_def CMD_IDS_def)

text \<open>
  Bodies in bounds that do not fit a frame: a limit above the range of binary32 and a duration above 32 bits make the handler raise after the
  row has been stored, for a device that is connected.
\<close>

lemma wide_bodies_raise:
  "config_body_ok (config_defaults\<lparr>cb_current_limit_a := Fin (10 ^ 39)\<rparr>)"
  "(case put_config_request (lit ''ECU-1'') (config_defaults\<lparr>cb_current_limit_a := Fin (10 ^ 39)\<rparr>) known_server of
      (r, s) \<Rightarrow> r = Inl OverflowError \<and> length (configs_t (wdb s)) = 1 \<and> sent s = [])"
  "(case fault_request (lit ''ECU-1'') (fault_defaults\<lparr>fb_duration_ms := 2 ^ 32\<rparr>) known_server of
      (r, s) \<Rightarrow> r = Inl StructError \<and> length (injections_t (wdb s)) = 1 \<and> sent s = [])"
  by code_simp+

end
