(* ===== verification/Default_Rules.thy ===== *)
theory Default_Rules
  imports Presence
begin

text \<open>
  The rule engine under the rules it starts with: no telemetry sample that came over the wire makes it
  raise, whatever the samples before it were. The proof needs the numerical side of the moving average (a variance
  never becomes negative, so that its root exists) and the shape of the cached configurations.
\<close>

section \<open>Floats that are not negative\<close>

definition nn :: "pyfloat \<Rightarrow> bool" where
  "nn x \<longleftrightarrow> \<not> fless x (Fin 0)"

lemma nn_simps [simp]: "nn NaN" "nn NegZero" "nn (Infty s) \<longleftrightarrow> \<not> s" "nn (Fin r) \<longleftrightarrow> 0 \<le> r" "nn (zero_of s)"
  by (auto simp: nn_def zero_of_def)

lemma nn_rnd64:
  assumes "0 \<le> r"
  shows "nn (rnd64 r)"
  by (rule rnd64_cases [OF assms]) simp_all

lemma rnd64_neg_cases:
  assumes "r \<le> 0"
  obtains x where "rnd64 r = Fin x" "x \<le> 0" | "rnd64 r = Infty True" | "rnd64 r = NegZero"
proof -
  have "rnd64 r = Infty True \<or> rnd64 r = NegZero \<or> (\<exists>x. rnd64 r = Fin x \<and> x \<le> 0)"
  proof (cases "r = 0")
    case False
    with assms have "r < 0" by simp
    then show ?thesis using rmag_nonneg [of 52 "-1074" "- r"] by (auto simp: rnd64_def Let_def)
  qed simp
  then show thesis using that by blast
qed

lemma nn_add: "nn x \<Longrightarrow> nn y \<Longrightarrow> nn (fadd x y)"
  by (cases x; cases y) (simp_all add: nn_rnd64)

lemma nn_mul: "nn x \<Longrightarrow> nn y \<Longrightarrow> nn (fmul x y)"
  by (cases x; cases y) (auto simp: fmul_def Let_def fzero_def intro: nn_rnd64)

text \<open>\<open>alpha * d * d\<close> for a positive \<open>alpha\<close>.\<close>

lemma nn_square:
  assumes "0 < a"
  shows "nn (fmul (fmul (Fin a) d) d)"
proof (cases d)
  case (Fin r)
  consider "r = 0" | "0 < r" | "r < 0" by linarith
  then show ?thesis
  proof cases
    case 2
    then have "nn (fmul (Fin a) (Fin r))" using assms by (intro nn_mul) auto
    with 2 Fin show ?thesis by (auto intro: nn_mul)
  next
    case 3
    then have neg: "a * r \<le> 0" "a * r \<noteq> 0" using assms by (simp_all add: mult_nonneg_nonpos)
    then have "fmul (Fin a) (Fin r) = rnd64 (a * r)" by (simp add: fmul_def)
    moreover have "nn (fmul (rnd64 (a * r)) (Fin r))"
    proof (rule rnd64_neg_cases [OF neg(1)])
      fix x assume "rnd64 (a * r) = Fin x" "x \<le> 0"
      with 3 have "0 \<le> x * r" by (simp add: mult_nonpos_nonpos)
      with \<open>rnd64 (a * r) = Fin x\<close> 3 show ?thesis by (auto simp: fmul_def Let_def intro: nn_rnd64)
    qed (use 3 in \<open>auto simp: fmul_def Let_def fzero_def\<close>)
    ultimately show ?thesis using Fin by simp
  qed (use Fin in \<open>simp add: fmul_def Let_def fzero_def zero_of_def\<close>)
qed (use assms in \<open>auto simp: fmul_def Let_def fzero_def zero_of_def\<close>)

lemma fsqrt_runs: "nn v \<Longrightarrow> \<exists>y. fsqrt v = Inr y"
  by (cases v) (auto simp: Let_def)

lemma fdiv_pos_runs: "fless (Fin 0) y \<Longrightarrow> \<exists>z. fdiv x y = Inr z"
  by (cases y) (auto simp: fdiv_def Let_def fzero_def)

lemma guarded_div_runs: "\<exists>z. (if b \<and> fless (Fin 0) y then fdiv x y else Inr (Fin 0)) = Inr z"
  using fdiv_pos_runs [of y x] by simp

section \<open>The moving average\<close>

definition alpha0 :: pyfloat where
  "alpha0 = rnd64 (5 / 100)"

lemma alpha0_pos: "\<exists>a. alpha0 = Fin a \<and> 0 < a" "nn (fsub (Fin 1) alpha0)"
proof -
  have "alpha0 = Fin (3602879701896397 / 72057594037927936)" by code_simp
  then show "\<exists>a. alpha0 = Fin a \<and> 0 < a" by (intro exI) (rule conjI, assumption, simp)
  show "nn (fsub (Fin 1) alpha0)" by code_simp
qed

lemma Ewma_step_runs:
  assumes "nn (var e)" "lv \<Longrightarrow> alpha = alpha0"
  shows "\<exists>z e'. Ewma_step x alpha lv e = Inr (z, e') \<and> nn (var e')"
proof (cases "ewma_n e = 0")
  case True
  then show ?thesis by (simp add: Ewma_step_def)
next
  case False
  obtain sd where sd: "fsqrt (var e) = Inr sd" using fsqrt_runs [OF assms(1)] by blast
  obtain z where z: "(if fless (Fin 0) sd then fdiv (fabs (fsub x (mean e))) sd else Inr (Fin 0)) = Inr z"
    using guarded_div_runs [of True sd] by auto
  let ?d = "fsub x (mean e)"
  have "nn (fmul (fsub (Fin 1) alpha) (fadd (var e) (fmul (fmul alpha ?d) ?d)))" if lv
  proof -
    obtain a where a: "alpha0 = Fin a" "0 < a" using alpha0_pos(1) by blast
    have "nn (fadd (var e) (fmul (fmul (Fin a) ?d) ?d))" using assms(1) nn_square [OF a(2)] by (rule nn_add)
    with alpha0_pos(2) show ?thesis unfolding assms(2) [OF that] a(1) by (rule nn_mul)
  qed
  with False assms(1) sd z show ?thesis by (auto simp: Ewma_step_def Let_def)
qed

lemma judge_runs:
  assumes "nn (var e)" "p_alpha p = alpha0"
  shows "\<exists>z hot e'. judge p excused now x e = Inr (z, hot, e') \<and> nn (var e')"
proof -
  obtain sd where sd: "fsqrt (var e) = Inr sd" using fsqrt_runs [OF assms(1)] by blast
  let ?warm = "p_warmup p \<le> ewma_n e" and ?std = "if p_warmup p \<le> ewma_n e then fmax sd (p_min_std p) else sd"
  obtain z where z: "(if ?warm \<and> fless (Fin 0) ?std then fdiv (fabs (fsub x (mean e))) ?std else Inr (Fin 0)) = Inr z"
    using guarded_div_runs by blast
  let ?hot = "?warm \<and> fless (p_z p) z \<and> \<not> excused"
  let ?alpha = "if ?hot then fmul (p_alpha p) (rnd64 (1 / 10)) else p_alpha p"
  have "?alpha = alpha0" if "\<not> ?hot" using that assms(2) by (simp only: if_False)
  from Ewma_step_runs [OF assms(1) this] obtain w e1 where e1: "Ewma_step x ?alpha (\<not> ?hot) e = Inr (w, e1)" "nn (var e1)" by blast
  show ?thesis using sd z e1 by (simp add: judge_def Let_def)
qed

section \<open>The state of the engine\<close>

definition cfg_fine :: "sample \<Rightarrow> bool" where
  "cfg_fine c \<longleftrightarrow> (\<forall>k\<in>{''rpm_limit'', ''temp_limit_c'', ''current_limit_a''}. \<forall>v. map_of c (lit k) = Some v \<longrightarrow> v = JNull \<or> (\<exists>x. v = JFloat x))"

definition dev_fine :: "DeviceState \<Rightarrow> bool" where
  "dev_fine st \<longleftrightarrow> (\<forall>k e. map_of (ewma st) k = Some e \<longrightarrow> nn (var e))"

definition engine_fine :: "'a engine_scheme \<Rightarrow> bool" where
  "engine_fine s \<longleftrightarrow> rules s = DEFAULT_RULES \<and> (\<forall>d c. map_of (config_cache s) d = Some c \<longrightarrow> cfg_fine c)
     \<and> (\<forall>d st. map_of (devs s) d = Some st \<longrightarrow> dev_fine st)"

lemma dev_fine_state: "engine_fine s \<Longrightarrow> dev_fine (dev_state dev s)"
  by (auto simp: engine_fine_def dev_state_def DeviceState_init_def dev_fine_def split: option.splits)

lemma ewma_fine: "engine_fine s \<Longrightarrow> nn (var (ewma_of k (dev_state dev s)))"
  using dev_fine_state [of s dev] by (auto simp: ewma_of_def dev_fine_def Ewma_init_def split: option.splits)

lemma cfg_fine_config: "cfg_fine (config_dict c)"
  by (auto simp: config_dict_def cfg_fine_def opt_json_def DEFAULT_CONFIG_def flt_def split: option.splits)

section \<open>Steps of the engine that raise nothing\<close>

named_theorems fine_intros \<open>code that keeps the engine fine and raises nothing\<close>

lemma fine_on_st [fine_intros]: "(\<And>st. dev_fine st \<Longrightarrow> dev_fine (f st)) \<Longrightarrow> safe engine_fine (on_st dev f)"
  unfolding on_st_def
  by (intro safe_modify) (use dev_fine_state in \<open>auto simp: engine_fine_def update_conv' split: if_splits\<close>)

lemma fine_get_st [fine_intros]: "safe engine_fine (get_st dev)"
  unfolding get_st_def by (intro safe_intros fine_intros)

lemma fine_put_ewma [fine_intros]: "nn (var e) \<Longrightarrow> safe engine_fine (put_ewma dev k e)"
  unfolding put_ewma_def by (intro fine_on_st) (simp add: dev_fine_def update_conv')

lemma fine_time [fine_intros]: "safe engine_fine time_time"
  by (simp add: safe_def pym_simps engine_fine_def)

lemma fine_db_get [fine_intros]: "safe engine_fine (db_get f)"
  by (simp add: safe_def pym_simps)

lemma fine_db_mod [fine_intros]: "safe engine_fine (db_mod f)"
  by (simp add: safe_def db_mod_def pym_simps engine_fine_def)

lemma fine_publish [fine_intros]: "safe engine_fine (bus_publish e)"
  by (simp add: safe_def bus_publish_def pym_simps engine_fine_def)

lemma fine_emit [fine_intros]: "safe engine_fine (emit a action)"
  unfolding emit_def by (intro safe_intros fine_intros)

lemma fine_or_time [fine_intros]: "safe engine_fine (or_time now)"
  unfolding or_time_def by (intro safe_intros fine_intros)

lemma fine_create [fine_intros]: "safe engine_fine (create_alert dev rule metric value (JStr sev) msg)"
  unfolding create_alert_def by (intro safe_intros fine_intros) simp

lemma fine_mark [fine_intros]: "safe engine_fine (mark dev (JStr rule) cond now metric value (JStr sev) msg)"
  unfolding mark_def by (intro safe_intros fine_intros) (simp_all add: rule_text_def dev_fine_def)

lemma fine_hw [fine_intros]: "safe engine_fine (hw_for dev)"
  unfolding hw_for_def Let_def by (intro safe_intros fine_intros) (simp add: engine_fine_def)

text \<open>Reading a rule of the default rules.\<close>

lemma fine_rule_get:
  assumes "map_of DEFAULT_RULES (lit k) = Some v" "safe engine_fine (f v)"
  shows "safe engine_fine (bind_pym (rule_get k dflt) f)"
  unfolding rule_get_def by (rule safe_bind_gets) (use assms in \<open>simp add: engine_fine_def\<close>)

text \<open>A result that satisfies a predicate.\<close>

definition yields :: "('s \<Rightarrow> bool) \<Rightarrow> ('a \<Rightarrow> bool) \<Rightarrow> ('s, 'a) pym \<Rightarrow> bool" where
  "yields P Q m \<longleftrightarrow> (\<forall>s. P s \<longrightarrow> (\<exists>x. fst (m s) = Inr x \<and> Q x) \<and> P (snd (m s)))"

lemma yields_bind: "yields P Q m \<Longrightarrow> (\<And>x. Q x \<Longrightarrow> safe P (f x)) \<Longrightarrow> safe P (bind_pym m f)"
  by (fastforce simp: yields_def safe_def bind_app)

lemma config_for_yields: "yields engine_fine cfg_fine (config_for dev)"
proof -
  have "(\<exists>x. fst (config_for dev s) = Inr x \<and> cfg_fine x) \<and> engine_fine (snd (config_for dev s))" if s: "engine_fine s" for s
  proof (cases "map_of (config_cache s) dev")
    case (Some c)
    with s show ?thesis by (auto simp: config_for_def pym_simps engine_fine_def)
  next
    case None
    with s show ?thesis by (auto simp: config_for_def pym_simps Let_def engine_fine_def update_conv' cfg_fine_config)
  qed
  then show ?thesis unfolding yields_def by blast
qed

section \<open>The rules\<close>

text \<open>The metrics of a sample that was decoded are floats, its flags an integer.\<close>

definition sample_fine :: "sample \<Rightarrow> bool" where
  "sample_fine t \<longleftrightarrow> (\<forall>k v. map_of t (lit k) = Some v \<longrightarrow>
     (k \<in> {''rpm'', ''temp_c'', ''current_a'', ''voltage_v'', ''vibration_g''} \<longrightarrow> (\<exists>x. v = JFloat x)) \<and>
     (k = ''fault_flags'' \<longrightarrow> (\<exists>i. v = JInt i)))"

lemma sample_dict_fine: "sample_fine (sample_dict f t now iso_now loss)"
  by (auto simp: sample_fine_def sample_dict_def tel_dict_def split: prod.splits if_splits)


lemma sample_float:
  assumes "sample_fine t" "map_of t (lit k) = Some v" "k \<in> {''rpm'', ''temp_c'', ''current_a'', ''voltage_v'', ''vibration_g''}"
  shows "\<exists>x. v = JFloat x"
proof -
  have "(k \<in> {''rpm'', ''temp_c'', ''current_a'', ''voltage_v'', ''vibration_g''} \<longrightarrow> (\<exists>x. v = JFloat x)) \<and>
      (k = ''fault_flags'' \<longrightarrow> (\<exists>i. v = JInt i))"
    using assms(1) [unfolded sample_fine_def, THEN spec, THEN spec, THEN mp, OF assms(2)] .
  then show ?thesis using assms(3) by (rule conjunct1 [THEN mp])
qed

lemma sample_flags: "sample_fine t \<Longrightarrow> map_of t (lit ''fault_flags'') = Some v \<Longrightarrow> \<exists>i. v = JInt i"
  unfolding sample_fine_def by metis

lemma metric_of_str: "metric_of (JStr k) t = Inr (map_option (\<lambda>v. (k, v)) (map_of t k))"
  by (cases "map_of t k") (simp_all add: metric_of_def)

lemma py_or_str [simp]: "n \<noteq> [] \<Longrightarrow> py_or (JStr (lit n)) b = JStr (lit n)"
  by (simp add: py_or_def)

lemma resolve_limit_runs:
  assumes "cfg_fine cfg" "split_spec (filter (\<lambda>c. c \<noteq> 32) (lit sp)) = Some (lit k, off)"
    "k \<in> {''rpm_limit'', ''temp_limit_c'', ''current_limit_a''}"
  shows "\<exists>r. resolve_value (JStr (lit sp)) cfg = Inr r"
proof (cases "map_of cfg (lit k)")
  case (Some v)
  with assms(1,3) have "v = JNull \<or> (\<exists>x. v = JFloat x)" unfolding cfg_fine_def by blast
  with Some assms(2) show ?thesis by (auto simp: resolve_text_def)
qed (use assms(2) in \<open>simp add: resolve_text_def\<close>)

lemma limit_specs:
  shows temp_spec: "split_spec (filter (\<lambda>c. c \<noteq> 32) (lit ''temp_limit_c'')) = Some (lit ''temp_limit_c'', Fin 0)"
    and current_spec: "split_spec (filter (\<lambda>c. c \<noteq> 32) (lit ''current_limit_a'')) = Some (lit ''current_limit_a'', Fin 0)"
    and rpm_spec: "split_spec (filter (\<lambda>c. c \<noteq> 32) (lit ''rpm_limit'')) = Some (lit ''rpm_limit'', Fin 0)"
  subgoal by code_simp
  subgoal by code_simp
  subgoal by code_simp
  done

lemma offset_spec: "split_spec (filter (\<lambda>c. c \<noteq> 32) (lit ''temp_limit_c+15'')) = Some (lit ''temp_limit_c'', Fin 15)"
  by (simp add: split_spec_def lit_def rsplit1_def, code_simp)

lemma limits_run:
  assumes "cfg_fine cfg"
  shows "\<exists>r. resolve_value (JStr (lit ''temp_limit_c'')) cfg = Inr r" "\<exists>r. resolve_value (JStr (lit ''temp_limit_c+15'')) cfg = Inr r"
    "\<exists>r. resolve_value (JStr (lit ''current_limit_a'')) cfg = Inr r" "\<exists>r. resolve_value (JStr (lit ''rpm_limit'')) cfg = Inr r"
  using resolve_limit_runs [OF assms limit_specs(1)] resolve_limit_runs [OF assms offset_spec]
    resolve_limit_runs [OF assms limit_specs(2)] resolve_limit_runs [OF assms limit_specs(3)] by blast+

text \<open>A threshold rule whose specification resolves.\<close>

definition good_spec :: "sample \<Rightarrow> json \<times> json \<Rightarrow> bool" where
  "good_spec cfg = (\<lambda>(spec, sev). (\<exists>r. resolve_value spec cfg = Inr r) \<and> (\<exists>v. sev = JStr v))"

lemma bind_Inr: "bind_pym (of_res (Inr x)) f = f x"
  by (rule ext) (simp add: bind_app of_res_app)

lemma threshold_fields:
  "py_get (threshold name metric op v sev extra) (lit ''metric'') d = Inr (JStr (lit metric))"
  "py_get (threshold name metric op v sev extra) (lit ''op'') d = Inr (JStr (lit op))"
  "py_get (threshold name metric op v sev extra) (lit ''name'') d = Inr (JStr (lit name))"
  "py_get (threshold name metric op v sev extra) (lit ''value'') d = Inr v"
  "py_get (threshold name metric op v sev extra) (lit ''severity'') d = Inr (JStr (lit sev))"
  "py_get (threshold name metric op v sev extra) (lit ''overrides'') d = Inr (case map_of extra (lit ''overrides'') of Some o' \<Rightarrow> o' | None \<Rightarrow> d)"
  by (simp_all add: threshold_def)

lemma fine_threshold:
  assumes "sample_fine t" "metric \<in> {''rpm'', ''temp_c'', ''current_a'', ''voltage_v'', ''vibration_g''}" "name \<noteq> []"
    "yields engine_fine (good_spec cfg) (threshold_spec (threshold name metric op v sev extra) dev :: ('a engine_scheme, json \<times> json) pym)"
  shows "safe engine_fine (eval_threshold dev t now cfg (threshold name metric op v sev extra) :: ('a engine_scheme, json list) pym)"
proof (cases "map_of t (lit metric)")
  case None
  then have "metric_of (JStr (lit metric)) t = Inr None" by (simp add: metric_of_str)
  then show ?thesis unfolding eval_threshold_def threshold_fields bind_Inr by (simp add: bind_Inr safe_ret)
next
  case (Some u)
  obtain x where x: "u = JFloat x" using sample_float [OF assms(1) Some assms(2)] by blast
  have m: "metric_of (JStr (lit metric)) t = Inr (Some (lit metric, JFloat x))" using Some x by (simp add: metric_of_str)
  show ?thesis unfolding eval_threshold_def threshold_fields bind_Inr m option.case prod.case py_float.simps py_or_str [OF assms(3)]
    by (rule yields_bind [OF assms(4)])
      (auto simp: good_spec_def bind_Inr py_or_str [OF assms(3)] Let_def intro!: safe_intros fine_intros)
qed

section \<open>The default thresholds\<close>

lemma yields_ret: "Q x \<Longrightarrow> yields P Q (ret x)"
  by (simp add: yields_def ret_app)

lemma yields_if: "(b \<Longrightarrow> yields P Q m) \<Longrightarrow> (\<not> b \<Longrightarrow> yields P Q n) \<Longrightarrow> yields P Q (if b then m else n)"
  by simp

lemma yields_after: "safe P m \<Longrightarrow> (\<And>x. yields P Q (f x)) \<Longrightarrow> yields P Q (bind_pym m f)"
  by (fastforce simp: yields_def safe_def bind_app)

lemma plain_threshold_spec:
  "\<exists>r. resolve_value v cfg = Inr r \<Longrightarrow> yields P (good_spec cfg) (threshold_spec (threshold name metric op v sev []) dev)"
  unfolding threshold_spec_def threshold_fields bind_Inr
  by (simp add: py_or_def bind_Inr yields_ret good_spec_def)

lemma voltage_spec:
  "yields engine_fine (good_spec cfg) (threshold_spec (threshold name metric op (flt a) sev
     [(lit ''overrides'', JList [JObj [(lit ''hw_model'', JStr (lit hw)), (lit ''value'', flt b)]])]) dev)"
  unfolding threshold_spec_def threshold_fields bind_Inr
  by (auto simp: py_or_def bind_Inr flt_def good_spec_def intro!: yields_after yields_if yields_ret fine_hw)

definition default_thresholds :: "json list" where
  "default_thresholds =
     [threshold ''temp_high'' ''temp_c'' ''>'' (JStr (lit ''temp_limit_c'')) ''warn'' [],
      threshold ''temp_critical'' ''temp_c'' ''>'' (JStr (lit ''temp_limit_c+15'')) ''critical'' [],
      threshold ''current_high'' ''current_a'' ''>'' (JStr (lit ''current_limit_a'')) ''warn'' [],
      threshold ''rpm_high'' ''rpm'' ''>'' (JStr (lit ''rpm_limit'')) ''warn'' [],
      threshold ''voltage_low'' ''voltage_v'' ''<'' (flt 80) ''warn''
        [(lit ''overrides'', JList [JObj [(lit ''hw_model'', JStr (lit ''ORIN-NANO'')), (lit ''value'', flt (45 / 10))]])],
      threshold ''vibration_high'' ''vibration_g'' ''>'' (flt (25 / 10)) ''warn'' []]"

lemma rules_thresholds: "map_of DEFAULT_RULES (lit ''thresholds'') = Some (JList default_thresholds)"
  by (simp add: DEFAULT_RULES_def default_thresholds_def)

lemma fine_thresholds:
  assumes "sample_fine t" "cfg_fine cfg"
  shows "safe engine_fine (eval_thresholds dev t now cfg)"
proof -
  note plain = fine_threshold [OF assms(1) _ _ plain_threshold_spec]
  note volt = fine_threshold [OF assms(1) _ _ voltage_spec]
  have n: "\<exists>r. resolve_value (flt x) cfg = Inr r" for x by (simp add: flt_def)
  have each: "safe engine_fine (eval_threshold dev t now cfg rule)" if "rule \<in> set default_thresholds" for rule
    using that unfolding default_thresholds_def list.set insert_iff empty_iff
    by (elim disjE) (simp_all add: plain volt limits_run [OF assms(2)] n del: resolve_value.simps)
  show ?thesis unfolding eval_thresholds_def
    by (intro fine_rule_get [OF rules_thresholds]) (simp add: bind_Inr safe_collect each)
qed

section \<open>Flags\<close>

definition default_severities :: json where
  "default_severities = JObj
     [(lit ''OVERTEMP'', JStr (lit ''critical'')), (lit ''OVERCURRENT'', JStr (lit ''critical'')),
      (lit ''UNDERVOLTAGE'', JStr (lit ''warn'')), (lit ''VIBRATION_HIGH'', JStr (lit ''warn'')),
      (lit ''SENSOR_STUCK'', JStr (lit ''warn'')), (lit ''GPS_LOST'', JStr (lit ''info'')),
      (lit ''COMM_DEGRADED'', JStr (lit ''warn'')), (lit ''ENCODER_FAULT'', JStr (lit ''critical''))]"

lemma rules_flags:
  "map_of DEFAULT_RULES (lit ''fault_flags'') = Some (JObj [(lit ''enabled'', JBool True), (lit ''severity'', default_severities)])"
  by (simp add: DEFAULT_RULES_def default_severities_def)

lemma flag_severities:
  "list_all (\<lambda>(n, b). (\<exists>s. flag_severity default_severities n = JStr s) \<and> map_of FAULT_FLAGS n = Some b \<and> \<bar>b\<bar> < 2 ^ 53) FAULT_FLAGS"
  by (simp add: FAULT_FLAGS_def default_severities_def flag_severity_def)

lemma float_of_small: "\<bar>i\<bar> < 2 ^ 53 \<Longrightarrow> float_of_int i = Inr (Fin (of_int i))"
  by (simp add: float_of_int_def)

lemma fine_flags:
  assumes "sample_fine t"
  shows "safe engine_fine (eval_flags dev t now)"
proof -
  have i: "\<exists>i. py_int (case map_of t (lit ''fault_flags'') of Some v \<Rightarrow> v | None \<Rightarrow> JInt 0) = Inr i"
    using sample_flags [OF assms] by (cases "map_of t (lit ''fault_flags'')") auto
  have "safe engine_fine (eval_flag dev now default_severities n)" if n: "n \<in> set (flags_to_names fl)" for n fl
  proof -
    obtain b where "(n, b) \<in> set FAULT_FLAGS" using n by (auto simp: flags_to_names_def)
    with flag_severities obtain s where s: "flag_severity default_severities n = JStr s" "map_of FAULT_FLAGS n = Some b" "\<bar>b\<bar> < 2 ^ 53"
      by (auto simp: list_all_iff)
    show ?thesis unfolding eval_flag_def Let_def s option.case float_of_small [OF s(3)] bind_Inr
      by (intro safe_intros fine_intros)
  qed
  then show ?thesis unfolding eval_flags_def
    by (intro fine_rule_get [OF rules_flags]) (auto simp: bind_Inr intro: safe_bind_of_res [OF i] safe_collect)
qed

section \<open>Rates\<close>

lemma rules_rate:
  "map_of DEFAULT_RULES (lit ''rate'') = Some (JObj [(lit ''temp_c'', JObj
     [(lit ''max_per_s'', flt 2), (lit ''window_s'', flt 5), (lit ''severity'', JStr (lit ''warn''))])])"
  by (simp add: DEFAULT_RULES_def)

lemma div_after_window: "fle (Fin 5) dt \<Longrightarrow> \<exists>z. fdiv x dt = Inr z"
  by (rule fdiv_pos_runs) (cases dt; auto simp: fle_def)

lemma fine_rates:
  assumes "sample_fine t"
  shows "safe engine_fine (eval_rates dev t now)"
proof -
  have w: "rnd64 5 = Fin 5" by code_simp
  have h: "safe engine_fine (on_st dev (\<lambda>st. st\<lparr>rate_hist := g st\<rparr>))" for g
    by (rule fine_on_st) (simp add: dev_fine_def)
  have each: "safe engine_fine (eval_rate dev t now (lit ''temp_c'', JObj
     [(lit ''max_per_s'', flt 2), (lit ''window_s'', flt 5), (lit ''severity'', JStr (lit ''warn''))]))"
  proof (cases "map_of t (lit ''temp_c'')")
    case (Some v)
    then obtain x where x: "v = JFloat x" using sample_float [OF assms Some] by auto
    show ?thesis unfolding eval_rate_def
      using Some x by (auto simp: flt_def bind_Inr w Let_def find_Some_iff intro!: safe_seq safe_bind_gets h safe_option safe_prod safe_bind_of_res div_after_window fine_mark safe_ret)
  qed (simp add: eval_rate_def safe_ret)
  show ?thesis unfolding eval_rates_def
    by (intro fine_rule_get [OF rules_rate]) (simp add: py_or_def, intro safe_bind each safe_ret)
qed

section \<open>Anomalies\<close>

definition default_gate :: json where
  "default_gate = JObj
     [(lit ''metric'', JStr (lit ''rpm'')), (lit ''frac'', flt (10 / 100)), (lit ''abs'', flt 100),
      (lit ''applies_to'', JList [JStr (lit ''current_a''), JStr (lit ''voltage_v''), JStr (lit ''vibration_g'')])]"

definition default_anomaly :: json where
  "default_anomaly = JObj
     [(lit ''enabled'', JBool True), (lit ''z'', flt 4), (lit ''sustain'', JInt 3), (lit ''sustain_s'', flt 3),
      (lit ''alpha'', flt (5 / 100)), (lit ''warmup'', JInt 20), (lit ''min_std'', flt (5 / 100)),
      (lit ''metrics'', JList [JStr (lit ''temp_c''), JStr (lit ''current_a''), JStr (lit ''voltage_v''), JStr (lit ''vibration_g'')]),
      (lit ''gate'', default_gate), (lit ''severity'', JStr (lit ''warn''))]"

lemma rules_anomaly: "map_of DEFAULT_RULES (lit ''anomaly'') = Some default_anomaly"
  by (simp add: DEFAULT_RULES_def default_anomaly_def default_gate_def)

lemma anomaly_fields:
  "py_get default_anomaly (lit ''enabled'') d = Inr (JBool True)" "py_get default_anomaly (lit ''gate'') d = Inr default_gate"
  "py_get default_anomaly (lit ''severity'') d = Inr (JStr (lit ''warn''))"
  "py_get default_anomaly (lit ''metrics'') d =
     Inr (JList [JStr (lit ''temp_c''), JStr (lit ''current_a''), JStr (lit ''voltage_v''), JStr (lit ''vibration_g'')])"
  "py_get default_gate (lit ''metric'') d = Inr (JStr (lit ''rpm''))"
  by (simp_all add: default_anomaly_def default_gate_def)

lemma default_params: "\<exists>p. read_params default_anomaly = Inr p \<and> p_alpha p = alpha0"
  by (simp add: default_anomaly_def read_params_def read_float_def read_int_def flt_def alpha0_def)

lemma gate_fields:
  "\<exists>g. gated_set default_gate = Inr g" "\<exists>x. read_float default_gate ''frac'' d = Inr x" "\<exists>x. read_float default_gate ''abs'' d = Inr x"
  "py_or default_gate e = default_gate"
  by (simp_all add: default_gate_def gated_set_def read_float_def flt_def py_or_def)

lemma fine_gate:
  assumes "sample_fine t" "p_alpha p = alpha0"
  shows "safe engine_fine (eval_gate dev t p default_gate)"
proof (cases "map_of t (lit ''rpm'')")
  case None
  then show ?thesis unfolding eval_gate_def anomaly_fields bind_Inr metric_of_str by (simp add: bind_Inr safe_ret)
next
  case (Some v)
  then obtain x where x: "v = JFloat x" using sample_float [OF assms(1) Some] by auto
  have step: "\<exists>r. Ewma_step x (p_alpha p) True g = Inr r" "Ewma_step x (p_alpha p) True g = Inr (z, g') \<Longrightarrow> nn (var g')"
    if "nn (var g)" for g z g'
    using Ewma_step_runs [OF that, of True "p_alpha p" x] assms(2) by auto
  show ?thesis unfolding eval_gate_def anomaly_fields bind_Inr metric_of_str Some x
    apply (simp add: bind_Inr Let_def)
    apply (rule safe_bind_gets)
    subgoal premises p for s g
    proof -
      have g: "nn (var g)" using ewma_fine p by simp
      show ?thesis by (intro safe_seq fine_put_ewma g safe_bind safe_if safe_bind_of_res gate_fields safe_ret step(1) safe_prod)
        (auto dest: step(2) [OF g])
    qed
    done
qed

lemma fine_anomaly:
  assumes "sample_fine t" "p_alpha p = alpha0" "metric \<in> {''temp_c'', ''current_a'', ''voltage_v'', ''vibration_g''}"
  shows "safe engine_fine (eval_anomaly dev t now p moving gated default_anomaly (JStr (lit metric)))"
proof (cases "map_of t (lit metric)")
  case None
  then show ?thesis unfolding eval_anomaly_def metric_of_str by (simp add: bind_Inr safe_ret)
next
  case (Some v)
  obtain x where x: "v = JFloat x" using sample_float [OF assms(1) Some] assms(3) by auto
  have step: "\<exists>r. judge p b now x e = Inr r" "judge p b now x e = Inr (z, hot, e') \<Longrightarrow> nn (var e')"
    if "nn (var e)" for e b z hot e'
    using judge_runs [OF that assms(2), of b now x] by auto
  show ?thesis unfolding eval_anomaly_def metric_of_str Some x
    apply (simp add: bind_Inr Let_def anomaly_fields)
    apply (rule safe_bind_gets)
    subgoal premises p for s e
    proof -
      have e: "nn (var e)" using ewma_fine p by simp
      show ?thesis by (intro safe_seq fine_put_ewma e safe_bind_of_res step(1) safe_prod fine_mark safe_ret)
        (auto dest: step(2) [OF e])
    qed
    done
qed

lemma fine_anomalies:
  assumes "sample_fine t"
  shows "safe engine_fine (eval_anomalies dev t now)"
proof -
  obtain p where p: "read_params default_anomaly = Inr p" "p_alpha p = alpha0" using default_params by blast
  obtain gated where g: "gated_set default_gate = Inr gated" using gate_fields(1) by blast
  show ?thesis unfolding eval_anomalies_def
    by (rule fine_rule_get [OF rules_anomaly], unfold anomaly_fields bind_Inr p(1) gate_fields(4) Let_def g)
      (auto simp: bind_Inr intro!: safe_bind fine_gate assms p(2) fine_anomaly safe_ret)
qed

section \<open>The whole evaluation\<close>

lemma rules_comm: "map_of DEFAULT_RULES (lit ''comm'') = Some (JObj [(lit ''loss_pct'', flt 10), (lit ''severity'', JStr (lit ''warn''))])"
  by (simp add: DEFAULT_RULES_def)

lemma fine_comm: "safe engine_fine (on_comm dev loss now)"
  unfolding on_comm_def
  by (rule safe_bind [OF fine_or_time], rule fine_rule_get [OF rules_comm])
    (auto simp: bind_Inr flt_def intro!: safe_when fine_mark)

lemma fine_on_telemetry:
  assumes "sample_fine t"
  shows "safe engine_fine (on_telemetry dev t ts loss)"
  unfolding on_telemetry_def
  by (intro safe_bind safe_seq fine_or_time fine_get_st yields_bind [OF config_for_yields] fine_thresholds fine_flags fine_rates
      fine_anomalies assms safe_option fine_comm safe_ret)

section \<open>A datagram from its arrival to the bus\<close>

text \<open>The server runs with the default rules, a clock whose times can be printed, and loss windows as \<open>note_seq\<close> leaves them.\<close>

definition live :: "'a server_scheme \<Rightarrow> bool" where
  "live s \<longleftrightarrow> engine_fine s \<and> clock_ok s \<and> (\<forall>dev. window_ok (window (stat_of dev s)))"

named_theorems live_intros \<open>steps of the server that raise nothing\<close>

lemma live_engine:
  assumes "safe engine_fine m" "steps_by (\<lambda>s t. around_engine t = around_engine s) m"
  shows "safe live m"
  unfolding safe_def
proof (intro allI impI)
  fix s :: "'a server_scheme"
  assume s: "live s"
  then have "(\<exists>x. fst (m s) = Inr x) \<and> engine_fine (snd (m s))" using assms(1) by (simp add: safe_def live_def)
  moreover have a: "around_engine (snd (m s)) = around_engine s" using assms(2) by (simp add: steps_by_def)
  then have "wclock (snd (m s)) = wclock s" by (simp add: around_engine_def)
  moreover have "stat_of dev (snd (m s)) = stat_of dev s" for dev using around_fields(1) [OF a] by (simp add: stat_of_def)
  ultimately show "(\<exists>x. fst (m s) = Inr x) \<and> live (snd (m s))" using s by (auto simp: live_def clock_ok_def)
qed

lemma live_modify: "(\<And>s. rules (f s) = rules s \<and> config_cache (f s) = config_cache s \<and> devs (f s) = devs s \<and> wclock (f s) = wclock s
    \<and> stats (f s) = stats s) \<Longrightarrow> safe live (modify f)"
  by (rule safe_modify) (simp add: live_def engine_fine_def clock_ok_def stat_of_def)

lemma live_on_stat [live_intros]:
  "(\<And>d. window_ok (window d) \<Longrightarrow> window_ok (window (f d))) \<Longrightarrow> safe live (on_stat dev f)"
  unfolding on_stat_def
  by (rule safe_modify) (auto simp: live_def engine_fine_def clock_ok_def stat_of_update)

lemma live_time [live_intros]: "safe live time_time"
  by (rule live_engine [OF fine_time around.ev_time])

lemma live_db_get [live_intros]: "safe live (db_get f)"
  by (rule live_engine [OF fine_db_get around.ev_db_get])

lemma live_publish [live_intros]: "safe live (bus_publish e)"
  by (rule live_engine [OF fine_publish around.ev_publish])

lemma live_db_mod [live_intros]: "safe live (db_mod f)"
  unfolding db_mod_def by (rule live_modify) simp

lemma live_buffer [live_intros]: "safe live (buffer_telemetry r)"
  unfolding buffer_telemetry_def by (intro live_intros)

lemma live_latest [live_intros]: "safe live (set_latest dev d)"
  unfolding set_latest_def by (rule live_modify) simp

text \<open>A reading of the clock can be printed.\<close>

lemma live_now: "yields live (\<lambda>t. \<exists>x. Database.iso t = Inr x) time_time"
  using live_time by (fastforce simp: yields_def safe_def time_time_app live_def clock_ok_def)

lemma live_publish_device [live_intros]: "\<exists>x. Database.iso t = Inr x \<Longrightarrow> safe live (publish_device dev e t)"
  unfolding publish_device_def by (intro safe_bind_of_res live_intros)

lemma live_bus_telemetry [live_intros]: "safe live (bus_telemetry dev d)"
proof -
  obtain p where p: "fdiv (Fin 1) (Fin 2) = Inr p" using fdiv_pos_runs [of "Fin 2"] by auto
  have "\<exists>b c. bus_telemetry dev d s = (Inr b, s\<lparr>wreads := wreads s + 1, wbus := c\<rparr>)" for s :: "'a server_scheme"
  proof -
    obtain b c where "publish_telemetry (mclock s (wreads s)) dev (EvTelemetry d) (Fin 2) (wbus s) = (Inr b, c)"
      using p that by (cases "publish_telemetry (mclock s (wreads s)) dev (EvTelemetry d) (Fin 2) (wbus s)")
        (auto simp: publish_telemetry_def Let_def split: if_splits)
    then show ?thesis by (simp add: bus_telemetry_def) metis
  qed
  moreover have "live (s\<lparr>wreads := n, wbus := c\<rparr>)" if "live s" for s :: "'a server_scheme" and n c
    using that by (simp add: live_def engine_fine_def clock_ok_def)
  ultimately show ?thesis unfolding safe_def by (metis fst_conv snd_conv)
qed

lemma fine_resolve [fine_intros]: "safe engine_fine (resolve dev (JStr rule) now)"
  unfolding resolve_def update_alert_def
  by (intro safe_intros fine_intros) (simp_all add: rule_text_def dev_fine_def)

lemma fine_on_online: "safe engine_fine (on_online dev now)"
  unfolding on_online_def by (intro safe_intros fine_intros)

lemma live_seen [live_intros]: "safe live (seen dev)"
  unfolding seen_def set_online_state_def set_online_def
  by (auto intro!: safe_bind [OF live_time] safe_seq live_intros safe_bind_gets safe_when live_engine [OF fine_on_online around.en_on_online]
      yields_bind [OF live_now])

lemma live_on_telemetry: "sample_fine t \<Longrightarrow> safe live (on_telemetry dev t ts loss)"
  by (rule live_engine [OF fine_on_telemetry around.ev_on_telemetry])

lemma live_upsert: "\<exists>r. rmap bind_devcol cols = Inr r \<Longrightarrow> list_ex is_last_seen cols \<Longrightarrow> safe live (upsert_device dev cols)"
  unfolding upsert_device_def Let_def by (intro safe_intros live_intros) simp_all

lemma note_seq_window: "window_ok (window d) \<Longrightarrow> window_ok (window (note_seq d q))"
  using note_seq_ok [of "d\<lparr>seq_gaps := 0, frames_rx := 0, bad_crc := 0, reconnects := 0, tx_seq := 0\<rparr>" q]
  by (auto simp: stats_ok_def note_seq_def Let_def split: option.splits if_splits)

lemma live_handle_telemetry:
  assumes "u64 (ts_ms (header f))" "u32 (fw_version (header f))" "u8 (state t)"
  shows "safe live (handle_telemetry f t)"
proof -
  obtain ms where ms: "float_of_int (ts_ms (header f)) = Inr ms" using u64_float [OF assms(1)] by blast
  have cols: "\<exists>r. rmap bind_devcol [CState (state t), CLat (lat t), CLon (lon t), CFwVersion (fw_decode (fw_version (header f))),
      CFwU32 (fw_version (header f)), CLastSeen now] = Inr r" for now
    using assms(2,3) by (simp add: bind_int_def)
  have loss: "\<exists>l. r = Inr l" if "live s" "r = loss_pct (stat_of dev s)" for s :: "'a server_scheme" and r dev
    using that loss_pct_range_aux by (fastforce simp: live_def)
  show ?thesis unfolding handle_telemetry_def Let_def ms bind_Inr
    by (intro safe_seq live_intros yields_bind [OF live_now] safe_bind_of_res safe_bind_gets loss live_upsert cols safe_bind
        live_on_telemetry sample_dict_fine safe_ret) (auto simp: note_seq_window)
qed

lemma decode_telemetry_ok:
  assumes "decode data = Inr f" "msg_type (header f) = mt_val TELEMETRY"
  shows "\<exists>t. payload f = Typed (PTelemetry t) \<and> Telemetry_ok t"
proof -
  obtain h n where h: "Header_unpack data = Inr h" "header f = h" "n = HEADER_LEN + nat (payload_len h)" "n + 4 \<le> length data"
    using decode_ok [OF assms(1)] by metis
  have "map_of PAYLOAD_CLASSES (mt_val TELEMETRY) = Some (\<lambda>b. res_map PTelemetry (Telemetry_unpack b))"
    by (simp add: PAYLOAD_CLASSES_def)
  with assms decode_unfold [OF h(1,3,4)] h(2) obtain b t where "payload f = Typed (PTelemetry t)" "Telemetry_unpack b = Inr t"
    by (auto simp: res_map_def rbind_Inr_iff split: if_splits) (metis Frame.select_convs(2))
  then show ?thesis using Telemetry_unpack_ok by blast
qed

lemma live_on_datagram: "safe live (on_datagram data)"
proof -
  have m: "safe live (modify (\<lambda>s. s\<lparr>total_frames := g s\<rparr>))" "safe live (modify (\<lambda>s. s\<lparr>global_bad_frames := g s\<rparr>))" for g
    by (rule live_modify, simp)+
  show ?thesis
  proof (cases "Header_unpack data")
    case (Inl e)
    then have "is_protocol_error e" using decode_error [OF decode_bad_header [OF Inl]] by auto
    with Inl m show ?thesis by (auto simp: on_datagram_def intro!: safe_seq)
  next
    case (Inr h)
    note hdr = this
    show ?thesis
    proof (cases "decode data")
      case (Inl e)
      then have "is_protocol_error e" using decode_error [OF Inl] by auto
      with hdr Inl m show ?thesis by (auto simp: on_datagram_def intro!: safe_seq live_intros)
    next
      case (Inr f)
      then have f: "header f = h" using hdr decode_ok by (metis sum.inject(2))
      show ?thesis
      proof (cases "msg_type h = mt_val TELEMETRY")
        case True
        with Inr f obtain t where t: "payload f = Typed (PTelemetry t)" "Telemetry_ok t" using decode_telemetry_ok by blast
        have "u64 (ts_ms h)" "u32 (fw_version h)"
          using Header_unpack_cases [OF Header_unpack_len(1) [OF hdr]] hdr by (metis Inl_Inr_False sum.inject(2))+
        then have "safe live (handle_telemetry f t)" using t(2) f by (intro live_handle_telemetry) (simp_all add: Telemetry_ok_def)
        with True hdr Inr f t m show ?thesis by (auto simp: on_datagram_def intro!: safe_seq live_intros)
      next
        case False
        with hdr Inr f m show ?thesis by (auto simp: on_datagram_def intro!: safe_seq live_intros safe_ret)
      qed
    qed
  qed
qed

section \<open>Property\<close>

lemma live_start: "rules s = DEFAULT_RULES \<Longrightarrow> devs s = [] \<Longrightarrow> config_cache s = [] \<Longrightarrow> stats s = [] \<Longrightarrow> clock_ok s \<Longrightarrow> live s"
  by (simp add: live_def engine_fine_def stat_of_def DeviceStats_init_def window_ok_def)

lemma for_received: "for_pym on_datagram ds s = (Inr (), s') \<Longrightarrow> received ds s = s'"
  by (induction ds arbitrary: s) (auto simp: ret_app seq_app received_def datagram_received_app split: sum.splits prod.splits)

text \<open>
  C18. Under the default rules no datagram makes the server raise: whatever bytes arrive, in whatever order, \<open>on_datagram\<close>
  returns each time, so that the handler that prints exceptions has nothing to do and the state afterwards is the one
  \<open>on_datagram\<close> leaves. It holds for every content of the tables and every stored configuration, and for samples with
  \<open>nan\<close> or infinity. A server that just started with these rules is \<open>live\<close>, and it stays so.
\<close>

theorem default_rules_never_raise:
  assumes "live s"
  shows "\<exists>s'. for_pym on_datagram ds s = (Inr (), s') \<and> received ds s = s' \<and> live s'"
proof -
  have "safe live (for_pym on_datagram ds)" by (intro safe_for live_on_datagram)
  from safeD [OF this assms] obtain s' where "for_pym on_datagram ds s = (Inr (), s')" "live s'" by auto
  with for_received show ?thesis by blast
qed

definition fresh_server :: server where
  "fresh_server = sample_server\<lparr>wclock := (\<lambda>_. Fin 1000)\<rparr>"

lemma live_fresh: "live fresh_server"
proof (rule live_start)
  have "Database.iso (Fin 1000) = Inr (lit ''1970-01-01T00:16:40.000Z'')" by code_simp
  then show "clock_ok fresh_server" by (simp add: clock_ok_def fresh_server_def)
qed (simp_all add: fresh_server_def sample_server_def)

text \<open>C18 at a server that starts, for a sample of ECU-1 whose values are all \<open>nan\<close>, a datagram that is not a frame, and the sample again.\<close>

definition nan_telemetry :: Telemetry where
  "nan_telemetry = \<lparr>rpm = NaN, temp_c = NaN, current_a = NaN, voltage_v = NaN, vibration_g = NaN,
     speed_kph = NaN, lat = NaN, lon = NaN, fault_flags = 255, state = 1\<rparr>"

theorem default_rules_never_raise_witness:
  "\<exists>fb f s'. decode fb = Inr f \<and> payload f = Typed (PTelemetry nan_telemetry) \<and> for_pym on_datagram [fb, [1, 2, 3], fb] fresh_server = (Inr (), s')"
proof -
  have "payload_ok (PTelemetry nan_telemetry)" by code_simp
  from encoded_decodes [OF this, of "lit ''ECU-1''" 3 1000 0] obtain fb f where
    "decode fb = Inr f" "payload f = Typed (PTelemetry nan_telemetry)" by auto
  with default_rules_never_raise [OF live_fresh, of "[fb, [1, 2, 3], fb]"] show ?thesis by blast
qed

end
