(* ===== verification/Lossy_Proxy.thy ===== *)
theory Lossy_Proxy
  imports Py_Json "HOL-Library.AList"
begin

text \<open>
  \<open>sim/lossy_proxy.py\<close>: the proxy that drops, delays, duplicates and reorders the datagrams between
  the devices and the server in the simulated environment, and its HTTP control endpoint.

  The generator of random numbers is a stream of floats in the state, from which each call of
  \<open>random()\<close> takes the next; \<open>uniform(0, b)\<close> is \<open>b\<close> times such a number. What is scheduled is a list of
  datagrams with their delays. What the operating system does is a stream in the state too: each time an endpoint is
  asked for and each time a datagram is handed to one, it answers whether this works or raises \<open>OSError\<close>.
\<close>

section \<open>Impairments\<close>

record Impairments =
  imp_drop :: pyfloat
  imp_delay_ms :: pyfloat
  imp_jitter_ms :: pyfloat
  imp_reorder :: pyfloat
  imp_dup :: pyfloat

datatype tunable = TDrop | TDelay | TJitter | TReorder | TDup

definition TUNABLES :: "(pystr \<times> tunable) list" where
  "TUNABLES = [(lit ''drop'', TDrop), (lit ''delay_ms'', TDelay), (lit ''jitter_ms'', TJitter), (lit ''reorder'', TReorder),
     (lit ''dup'', TDup)]"

text \<open>\<open>getattr\<close> and \<open>setattr\<close> on the five attributes.\<close>

fun get_tun :: "tunable \<Rightarrow> Impairments \<Rightarrow> pyfloat" where
  "get_tun TDrop i = imp_drop i"
| "get_tun TDelay i = imp_delay_ms i"
| "get_tun TJitter i = imp_jitter_ms i"
| "get_tun TReorder i = imp_reorder i"
| "get_tun TDup i = imp_dup i"

fun set_tun :: "tunable \<Rightarrow> pyfloat \<Rightarrow> Impairments \<Rightarrow> Impairments" where
  "set_tun TDrop v i = i\<lparr>imp_drop := v\<rparr>"
| "set_tun TDelay v i = i\<lparr>imp_delay_ms := v\<rparr>"
| "set_tun TJitter v i = i\<lparr>imp_jitter_ms := v\<rparr>"
| "set_tun TReorder v i = i\<lparr>imp_reorder := v\<rparr>"
| "set_tun TDup v i = i\<lparr>imp_dup := v\<rparr>"

definition is_prob :: "tunable \<Rightarrow> bool" where
  "is_prob k \<longleftrightarrow> k = TDrop \<or> k = TReorder \<or> k = TDup"

text \<open>One round of the loop of \<open>update\<close>: the checks and the assignment.\<close>

definition set_one :: "pystr \<times> json \<Rightarrow> (Impairments, (pystr \<times> pyfloat) list) pym" where
  "set_one kv =
     (case map_of TUNABLES (fst kv) of
        None \<Rightarrow> throw ValueError
      | Some k \<Rightarrow>
          bind_pym (of_res (py_float (snd kv))) (\<lambda>v.
          if is_prob k \<and> \<not> (fle (Fin 0) v \<and> fle v (Fin 1)) then throw ValueError
          else if fless v (Fin 0) then throw ValueError
          else seq_pym (modify (set_tun k v)) (ret [(fst kv, v)])))"

fun update_impairments :: "json \<Rightarrow> (Impairments, (pystr \<times> pyfloat) list) pym" where
  "update_impairments (JObj kvs) = collect_pym set_one kvs"
| "update_impairments _ = throw AttributeError"

definition imp_dict :: "Impairments \<Rightarrow> json" where
  "imp_dict i = JObj (map (\<lambda>(n, k). (n, JFloat (get_tun k i))) TUNABLES)"

section \<open>The proxy\<close>

type_synonym address = pystr

record Stats =
  received :: int
  forwarded :: int
  dropped :: int
  duplicated :: int
  reordered :: int
  returned :: int
  started :: pyfloat

definition Stats_init :: "pyfloat \<Rightarrow> Stats" where
  "Stats_init now = \<lparr>received = 0, forwarded = 0, dropped = 0, duplicated = 0, reordered = 0, returned = 0, started = now\<rparr>"

text \<open>\<open>Stats.as_dict\<close> at a time.\<close>

definition stats_dict :: "pyfloat \<Rightarrow> Stats \<Rightarrow> json" where
  "stats_dict now t =
     JObj [(lit ''received'', JInt (received t)), (lit ''forwarded'', JInt (forwarded t)), (lit ''dropped'', JInt (dropped t)),
           (lit ''duplicated'', JInt (duplicated t)), (lit ''reordered'', JInt (reordered t)), (lit ''returned'', JInt (returned t)),
           (lit ''started'', JFloat (started t)), (lit ''uptime_s'', JFloat (round_nd 1 (fsub now (started t))))]"

text \<open>A datagram waiting for its time: the delay in milliseconds, the bytes, and the client.\<close>

type_synonym scheduled = "pyfloat \<times> bytes \<times> address"

record proxy =
  imp :: Impairments
  pstats :: Stats
  rng :: "nat \<Rightarrow> pyfloat"
  drawn :: nat
  pending :: "scheduled list"
  upstreams :: "(address \<times> nat) list"
  next_up :: nat
  up_closing :: "nat list"
  awaiting :: "(bytes \<times> address) list"
  accepts :: "nat \<Rightarrow> bool"
  asked :: nat
  outbox :: "(nat \<times> bytes) list"
  inbox :: "(address \<times> bytes) list"

definition on_stats :: "(Stats \<Rightarrow> Stats) \<Rightarrow> (proxy, unit) pym" where
  "on_stats f = modify (\<lambda>s. s\<lparr>pstats := f (pstats s)\<rparr>)"

definition random :: "(proxy, pyfloat) pym" where
  "random = bind_pym (gets (\<lambda>s. rng s (drawn s))) (\<lambda>x. seq_pym (modify (\<lambda>s. s\<lparr>drawn := drawn s + 1\<rparr>)) (ret x))"

text \<open>\<open>uniform(0, b)\<close> is \<open>0 + (b - 0) * random()\<close>.\<close>

definition uniform0 :: "pyfloat \<Rightarrow> (proxy, pyfloat) pym" where
  "uniform0 b = bind_pym random (\<lambda>x. ret (fadd (Fin 0) (fmul (fsub b (Fin 0)) x)))"

definition schedule :: "bytes \<Rightarrow> address \<Rightarrow> (proxy, unit) pym" where
  "schedule data addr =
     bind_pym (gets imp) (\<lambda>i.
     bind_pym (uniform0 (imp_jitter_ms i)) (\<lambda>u.
     let delay = fadd (imp_delay_ms i) u in
     bind_pym (if \<not> fzero (imp_reorder i) then bind_pym random (\<lambda>x. ret (fless x (imp_reorder i))) else ret False) (\<lambda>late.
     seq_pym (when_pym late (on_stats (\<lambda>t. t\<lparr>reordered := reordered t + 1\<rparr>)))
     (let d = (if late
               then fadd delay (fmax (fmax (fmul (Fin 2) (imp_delay_ms i)) (fmul (Fin 2) (imp_jitter_ms i))) (Fin 30))
               else delay)
      in modify (\<lambda>s. s\<lparr>pending := pending s @ [(d, data, addr)]\<rparr>)))))"

definition proxy_received :: "bytes \<Rightarrow> address \<Rightarrow> (proxy, unit) pym" where
  "proxy_received data addr =
     seq_pym (on_stats (\<lambda>t. t\<lparr>received := received t + 1\<rparr>))
     (bind_pym (gets imp) (\<lambda>i.
      bind_pym random (\<lambda>x.
      if fless x (imp_drop i) then on_stats (\<lambda>t. t\<lparr>dropped := dropped t + 1\<rparr>)
      else
        bind_pym (if \<not> fzero (imp_dup i) then bind_pym random (\<lambda>y. ret (fless y (imp_dup i))) else ret False) (\<lambda>twice.
        seq_pym (when_pym twice (on_stats (\<lambda>t. t\<lparr>duplicated := duplicated t + 1\<rparr>)))
        (for_pym (\<lambda>_. schedule data addr) (if twice then [0 :: nat, 1] else [0]))))))"

text \<open>
  \<open>_send\<close>: when the time of a scheduled datagram has come. Which one comes next depends on the
  clock: any of the waiting ones may be the argument. A client without an upstream, or with one that is closing,
  gets a new one; while its endpoint is being created the datagram waits in \<open>awaiting\<close> and other handlers run, which
  may create another one for the same client.
\<close>

definition ask_os :: "(proxy, bool) pym" where
  "ask_os = bind_pym (gets (\<lambda>s. accepts s (asked s))) (\<lambda>b. seq_pym (modify (\<lambda>s. s\<lparr>asked := asked s + 1\<rparr>)) (ret b))"

definition hand_over :: "nat \<Rightarrow> bytes \<Rightarrow> (proxy, unit) pym" where
  "hand_over u data =
     bind_pym ask_os (\<lambda>ok.
     when_pym ok
       (seq_pym (modify (\<lambda>s. s\<lparr>outbox := outbox s @ [(u, data)]\<rparr>))
                (on_stats (\<lambda>t. t\<lparr>forwarded := forwarded t + 1\<rparr>))))"

definition upstream_of :: "address \<Rightarrow> proxy \<Rightarrow> nat option" where
  "upstream_of addr s =
     (case map_of (upstreams s) addr of
        Some u \<Rightarrow> if u \<in> set (up_closing s) then None else Some u
      | None \<Rightarrow> None)"

definition proxy_send :: "nat \<Rightarrow> (proxy, unit) pym" where
  "proxy_send n =
     bind_pym (gets pending) (\<lambda>ps.
     if length ps \<le> n then ret ()
     else case ps ! n of (_, data, addr) \<Rightarrow>
       seq_pym (modify (\<lambda>s. s\<lparr>pending := take n ps @ drop (n + 1) ps\<rparr>))
       (bind_pym (gets (upstream_of addr)) (\<lambda>up.
        case up of
          Some u \<Rightarrow> hand_over u data
        | None \<Rightarrow> modify (\<lambda>s. s\<lparr>awaiting := awaiting s @ [(data, addr)]\<rparr>))))"

text \<open>
  The rest of it, when \<open>create_datagram_endpoint\<close> is through. The result is whether it has made an endpoint; when it
  raises \<open>OSError\<close>, the task ends with the exception, which nobody awaits.
\<close>

definition proxy_opened :: "nat \<Rightarrow> (proxy, bool) pym" where
  "proxy_opened n =
     bind_pym (gets awaiting) (\<lambda>os.
     if length os \<le> n then ret True
     else case os ! n of (data, addr) \<Rightarrow>
       seq_pym (modify (\<lambda>s. s\<lparr>awaiting := take n os @ drop (n + 1) os\<rparr>))
       (bind_pym ask_os (\<lambda>ok.
        if \<not> ok then ret False
        else bind_pym (gets next_up) (\<lambda>u.
          seq_pym (modify (\<lambda>s. s\<lparr>next_up := u + 1, upstreams := AList.update addr u (upstreams s)\<rparr>))
          (seq_pym (hand_over u data) (ret True))))))"

definition return_to_client :: "bytes \<Rightarrow> address \<Rightarrow> (proxy, unit) pym" where
  "return_to_client data addr =
     seq_pym (modify (\<lambda>s. s\<lparr>inbox := inbox s @ [(addr, data)]\<rparr>)) (on_stats (\<lambda>t. t\<lparr>returned := returned t + 1\<rparr>))"

section \<open>The control endpoint\<close>

text \<open>
  The response of \<open>handler\<close> to a request with a body that is JSON, at a time: the status, and the body
  when the status is 200. The body of an error is its message, which is left out.
\<close>

definition on_imp :: "(Impairments, 'a) pym \<Rightarrow> (proxy, 'a) pym" where
  "on_imp m = zoom imp (\<lambda>i s. s\<lparr>imp := i\<rparr>) m"

definition control :: "pyfloat \<Rightarrow> pystr \<Rightarrow> pystr \<Rightarrow> json \<Rightarrow> (proxy, int \<times> json) pym" where
  "control now verb path body =
     (if path = lit ''/health'' then ret (200, JObj [(lit ''status'', JStr (lit ''ok''))])
      else if path = lit ''/stats'' then
        gets (\<lambda>s. (200, JObj [(lit ''stats'', stats_dict now (pstats s)), (lit ''impairments'', imp_dict (imp s))]))
      else if path = lit ''/set'' then
        if py_upper verb \<noteq> lit ''POST'' then ret (405, JNull)
        else catch_pym (\<lambda>e. e = ValueError \<or> e = TypeError)
          (seq_pym (on_imp (update_impairments body))
            (gets (\<lambda>s. (200, JObj [(lit ''ok'', JBool True), (lit ''impairments'', imp_dict (imp s))]))))
          (\<lambda>_. ret (400, JNull))
      else ret (404, JNull))"

text \<open>\<open>parse_hostport\<close>: \<open>rpartition\<close> at the last colon.\<close>

definition parse_hostport :: "pystr \<Rightarrow> (pystr \<times> int) res" where
  "parse_hostport s =
     (let port = rev (takeWhile (\<lambda>c. c \<noteq> 58) (rev s)); host = take (length s - length port - 1) s in
      rbind (py_int_of_str port) (\<lambda>p. Inr (if host = [] then lit ''127.0.0.1'' else host, p)))"

section \<open>The impairments stay in range\<close>

definition imp_ok :: "Impairments \<Rightarrow> bool" where
  "imp_ok i \<longleftrightarrow> (\<forall>k\<in>{TDrop, TReorder, TDup}. fle (Fin 0) (get_tun k i) \<and> fle (get_tun k i) (Fin 1))
     \<and> (\<forall>k\<in>{TDelay, TJitter}. \<not> fless (get_tun k i) (Fin 0))"

lemma get_set_tun: "get_tun j (set_tun k v i) = (if j = k then v else get_tun j i)"
  by (cases j; cases k) simp_all

lemma imp_ok_set:
  assumes "imp_ok i" "is_prob k \<Longrightarrow> fle (Fin 0) v \<and> fle v (Fin 1)" "\<not> fless v (Fin 0)"
  shows "imp_ok (set_tun k v i)"
  using assms by (auto simp: imp_ok_def get_set_tun is_prob_def)

lemma keeps_set_one: "keeps imp_ok (set_one kv)"
  unfolding set_one_def by (intro keeps_intros imp_ok_set) auto

lemma keeps_update: "keeps imp_ok (update_impairments body)"
  by (cases body) (auto intro!: keeps_intros keeps_set_one)

section \<open>No datagram is lost or invented by the proxy itself\<close>

text \<open>
  Every datagram received, and every second copy, was dropped, forwarded, or waits, or the operating system refused it or
  its endpoint; there may be copies still to be scheduled.
\<close>

definition refusals :: "proxy \<Rightarrow> int" where
  "refusals s = int (length (filter (\<lambda>k. \<not> accepts s k) [0..<asked s]))"

definition owes :: "int \<Rightarrow> proxy \<Rightarrow> bool" where
  "owes n s \<longleftrightarrow>
     received (pstats s) + duplicated (pstats s)
       = dropped (pstats s) + forwarded (pstats s) + int (length (pending s)) + int (length (awaiting s)) + refusals s + n
     \<and> int (length (outbox s)) = forwarded (pstats s)"

text \<open>From owing \<open>n\<close> to owing \<open>m\<close>; the code returns.\<close>

definition pays :: "int \<Rightarrow> int \<Rightarrow> (proxy, 'b) pym \<Rightarrow> bool" where
  "pays n m c \<longleftrightarrow> (\<forall>s. owes n s \<longrightarrow> (\<exists>x. fst (c s) = Inr x) \<and> owes m (snd (c s)))"

lemma pays_seq: "pays n m a \<Longrightarrow> pays m k b \<Longrightarrow> pays n k (seq_pym a b)"
  by (fastforce simp: pays_def seq_app)

lemma pays_bind: "pays n m a \<Longrightarrow> (\<And>x. pays m k (f x)) \<Longrightarrow> pays n k (bind_pym a f)"
  by (fastforce simp: pays_def bind_app)

lemma pays_same: "pays n n random" "pays n n (gets f)" "pays n n (uniform0 b)" "pays n n (ret x)"
  by (simp_all add: pays_def owes_def refusals_def random_def uniform0_def pym_simps)

lemma pays_schedule: "pays (n + 1) n (schedule data addr)"
proof -
  have r: "pays k k (if b then bind_pym random (\<lambda>x. ret (p x)) else ret False)" for k b p
    by (simp add: pays_bind [OF pays_same(1)] pays_same)
  have w: "pays k k (when_pym late (on_stats (\<lambda>t. t\<lparr>reordered := reordered t + 1\<rparr>)))" for k late
    by (simp add: pays_def owes_def refusals_def when_app on_stats_def pym_simps)
  have m: "pays (n + 1) n (modify (\<lambda>s. s\<lparr>pending := pending s @ [p]\<rparr>))" for p
    by (simp add: pays_def owes_def refusals_def modify_app)
  show ?thesis unfolding schedule_def Let_def
    by (rule pays_bind [OF pays_same(2)] pays_bind [OF pays_same(3)] pays_bind [OF r] pays_seq [OF w] m)+
qed

lemma pays_copies: "pays (int (length ks)) 0 (for_pym (\<lambda>_ :: nat. schedule data addr) ks)"
proof (induction ks)
  case (Cons k ks)
  have "int (length (k # ks)) = int (length ks) + 1" by simp
  then show ?case by (simp only: for_pym.simps) (rule pays_seq [OF pays_schedule Cons])
qed (simp add: pays_same)

lemma pays_received: "pays 0 0 (proxy_received data addr)"
proof -
  have c: "pays 0 1 (on_stats (\<lambda>t. t\<lparr>received := received t + 1\<rparr>))" "pays 1 0 (on_stats (\<lambda>t. t\<lparr>dropped := dropped t + 1\<rparr>))"
    "pays 1 (if twice then 2 else 1) (when_pym twice (on_stats (\<lambda>t. t\<lparr>duplicated := duplicated t + 1\<rparr>)))" for twice
    by (auto simp: pays_def owes_def refusals_def on_stats_def pym_simps)
  have r: "pays k k (if b then bind_pym random (\<lambda>x. ret (p x)) else ret False)" for k b p
    by (simp add: pays_bind [OF pays_same(1)] pays_same)
  have f: "pays (if twice then 2 else 1) 0 (for_pym (\<lambda>_. schedule data addr) (if twice then [0 :: nat, 1] else [0]))" for twice
    using pays_copies [of "[0, 1]" data addr] pays_copies [of "[0]" data addr] by simp
  have "pays 1 0 (if b then on_stats (\<lambda>t. t\<lparr>dropped := dropped t + 1\<rparr>) else m)" if "pays 1 0 m" for b m
    using c(2) that by simp
  note this [OF pays_bind [OF r pays_seq [OF c(3) f]]]
  then show ?thesis unfolding proxy_received_def
    by (intro pays_seq [OF c(1)] pays_bind [OF pays_same(2)] pays_bind [OF pays_same(1)])
qed

text \<open>Handing over pays for one datagram, whether it works or not.\<close>

lemma hand_over_pays: "owes 1 s \<Longrightarrow> owes 0 (snd (hand_over u data s))"
  by (simp add: hand_over_def ask_os_def pym_simps when_app on_stats_def owes_def refusals_def)

lemma hand_over_returns: "\<exists>t. hand_over u data s = (Inr (), t)"
  by (simp add: hand_over_def ask_os_def pym_simps when_app on_stats_def)

lemma send_pays:
  assumes "owes 0 s"
  shows "owes 0 (snd (proxy_send n s))"
proof (cases "n < length (pending s)")
  case True
  obtain d data addr where p: "pending s ! n = (d, data, addr)" by (metis prod_cases3)
  let ?s = "s\<lparr>pending := take n (pending s) @ drop (n + 1) (pending s)\<rparr>"
  have l: "int (length (pending ?s)) = int (length (pending s)) - 1" using True by simp
  then have o: "owes 1 ?s" using assms by (simp add: owes_def refusals_def)
  show ?thesis
  proof (cases "upstream_of addr ?s")
    case None
    with True p have "snd (proxy_send n s) = ?s\<lparr>awaiting := awaiting ?s @ [(data, addr)]\<rparr>" by (simp add: proxy_send_def pym_simps)
    with o show ?thesis by (simp add: owes_def refusals_def)
  next
    case (Some u)
    with True p have "snd (proxy_send n s) = snd (hand_over u data ?s)" by (simp add: proxy_send_def pym_simps)
    with hand_over_pays [OF o] show ?thesis by simp
  qed
qed (use assms in \<open>simp add: proxy_send_def pym_simps\<close>)

lemma opened_pays:
  assumes "owes 0 s"
  shows "owes 0 (snd (proxy_opened n s))"
proof (cases "n < length (awaiting s)")
  case True
  obtain data addr where p: "awaiting s ! n = (data, addr)" by (cases "awaiting s ! n")
  let ?s = "s\<lparr>awaiting := take n (awaiting s) @ drop (n + 1) (awaiting s)\<rparr>"
  let ?t = "?s\<lparr>asked := asked s + 1\<rparr>"
  have l: "int (length (awaiting ?s)) = int (length (awaiting s)) - 1" using True by simp
  show ?thesis
  proof (cases "accepts s (asked s)")
    case False
    with True p have "snd (proxy_opened n s) = ?t" by (simp add: proxy_opened_def ask_os_def pym_simps)
    with False l assms show ?thesis by (simp add: owes_def refusals_def)
  next
    case ok: True
    let ?u = "?t\<lparr>next_up := next_up s + 1, upstreams := AList.update addr (next_up s) (upstreams s)\<rparr>"
    have "owes 1 ?u" using ok l assms by (simp add: owes_def refusals_def)
    moreover obtain t where h: "hand_over (next_up s) data ?u = (Inr (), t)" using hand_over_returns by blast
    moreover have "snd (proxy_opened n s) = t" using True ok p h by (simp add: proxy_opened_def ask_os_def pym_simps)
    ultimately show ?thesis using hand_over_pays [of ?u "next_up s" data] by simp
  qed
qed (use assms in \<open>simp add: proxy_opened_def pym_simps\<close>)

section \<open>Runs of the proxy\<close>

inductive proxy_step :: "proxy \<Rightarrow> proxy \<Rightarrow> bool" where
  px_received: "proxy_step s (snd (proxy_received data addr s))"
| px_send: "proxy_step s (snd (proxy_send n s))"
| px_opened: "proxy_step s (snd (proxy_opened n s))"
| px_closing: "proxy_step s (s\<lparr>up_closing := List.insert u (up_closing s)\<rparr>)"
| px_return: "proxy_step s (snd (return_to_client data addr s))"
| px_control: "proxy_step s (snd (control now verb path body s))"

inductive_cases proxy_stepE: "proxy_step s s'"

lemma control_fields:
  "\<exists>i. snd (control now verb path body s) = s\<lparr>imp := i\<rparr>"
proof -
  have e: "\<exists>i. s = s\<lparr>imp := i\<rparr>" by (rule exI [of _ "imp s"]) simp
  show ?thesis
    by (auto simp: control_def on_imp_def pym_simps e split: sum.splits)
qed

lemma step_pays:
  assumes "proxy_step s s'" "owes 0 s"
  shows "owes 0 s'"
  using assms(1)
proof cases
  case (px_received data addr)
  with assms(2) pays_received [of data addr] show ?thesis by (simp add: pays_def)
next
  case (px_control now verb path body)
  with assms(2) control_fields [of now verb path body s] show ?thesis by (auto simp: owes_def refusals_def)
qed (use assms(2) send_pays opened_pays in \<open>simp_all add: return_to_client_def on_stats_def pym_simps owes_def refusals_def\<close>)

lemma control_imp_ok: "imp_ok (imp s) \<Longrightarrow> imp_ok (imp (snd (control now verb path body s)))"
  using keepsD [OF keeps_update, of "imp s" body]
  by (auto simp: control_def on_imp_def pym_simps split: sum.splits)

section \<open>Properties\<close>

definition proxy_init :: "Impairments \<Rightarrow> (nat \<Rightarrow> pyfloat) \<Rightarrow> (nat \<Rightarrow> bool) \<Rightarrow> pyfloat \<Rightarrow> proxy" where
  "proxy_init i r acc now = \<lparr>imp = i, pstats = Stats_init now, rng = r, drawn = 0, pending = [], upstreams = [], next_up = 0,
     up_closing = [], awaiting = [], accepts = acc, asked = 0, outbox = [], inbox = []\<rparr>"

text \<open>
  C28. The proxy invents nothing, and of what it does not count as dropped it loses only what the operating system refuses: after any
  sequence of datagrams, deliveries, endpoints that have been created or not, upstreams that close and control
  requests, whatever the random numbers and whenever the system raises \<open>OSError\<close>, the datagrams received plus the
  second copies are those dropped, those forwarded, those still waiting for their time or their endpoint, and as
  many as there were refusals; and what was counted as forwarded is what was handed over.
\<close>

theorem proxy_conserves:
  assumes "proxy_step\<^sup>*\<^sup>* (proxy_init i r acc now) s"
  shows "received (pstats s) + duplicated (pstats s)
      = dropped (pstats s) + forwarded (pstats s) + int (length (pending s)) + int (length (awaiting s))
        + int (length (filter (\<lambda>k. \<not> accepts s k) [0..<asked s]))
    \<and> int (length (outbox s)) = forwarded (pstats s)"
proof -
  have "owes 0 (proxy_init i r acc now)" by (simp add: owes_def refusals_def proxy_init_def Stats_init_def)
  with assms have "owes 0 s" by (induction rule: rtranclp_induct) (auto intro: step_pays)
  then show ?thesis by (simp add: owes_def refusals_def)
qed

definition sample_proxy :: proxy where
  "sample_proxy = proxy_init \<lparr>imp_drop = Fin 0, imp_delay_ms = Fin 5, imp_jitter_ms = Fin 0, imp_reorder = Fin 0, imp_dup = Fin 1\<rparr>
     (\<lambda>_. Fin (1/2)) (\<lambda>k. k \<noteq> 1) (Fin 0)"

text \<open>
  C28 at one datagram that is duplicated: the first copy gets its endpoint, but the system refuses to send it; the second one
  still waits.
\<close>

definition sample_run :: proxy where
  "sample_run = snd (proxy_opened 0 (snd (proxy_send 0 (snd (proxy_received [1, 2] (lit ''a'') sample_proxy)))))"

theorem proxy_conserves_witness:
  "received (pstats sample_run) + duplicated (pstats sample_run)
     = dropped (pstats sample_run) + forwarded (pstats sample_run) + int (length (pending sample_run)) + int (length (awaiting sample_run)) + 1
   \<and> forwarded (pstats sample_run) = 0 \<and> length (pending sample_run) = 1 \<and> outbox sample_run = []"
proof -
  have "proxy_step\<^sup>*\<^sup>* sample_proxy sample_run" unfolding sample_run_def
    by (rule rtranclp.rtrancl_into_rtrancl [OF rtranclp.rtrancl_into_rtrancl [OF r_into_rtranclp]])
      (rule px_received px_send px_opened)+
  from proxy_conserves [OF this [unfolded sample_proxy_def]]
  have "received (pstats sample_run) + duplicated (pstats sample_run)
     = dropped (pstats sample_run) + forwarded (pstats sample_run) + int (length (pending sample_run)) + int (length (awaiting sample_run))
       + int (length (filter (\<lambda>k. \<not> accepts sample_run k) [0..<asked sample_run]))" by (rule conjunct1)
  moreover have "length (filter (\<lambda>k. \<not> accepts sample_run k) [0..<asked sample_run]) = 1" by code_simp
  moreover have "forwarded (pstats sample_run) = 0" "length (pending sample_run) = 1" "outbox sample_run = []" by code_simp+
  ultimately show ?thesis by simp
qed

text \<open>
  C29. The impairments stay in range: whatever is sent to the control endpoint, and whether it is
  accepted or refused, the probabilities stay between 0 and 1 and the delays are not negative.
\<close>

theorem impairments_stay_in_range:
  assumes "imp_ok (imp s)"
  shows "imp_ok (imp (snd (control now verb path body s)))"
  using assms by (rule control_imp_ok)

text \<open>C29 at a request that asks for too large a probability.\<close>

theorem impairments_stay_in_range_witness:
  "imp_ok (imp (snd (control (Fin 0) (lit ''POST'') (lit ''/set'') (JObj [(lit ''delay_ms'', JInt 7), (lit ''drop'', JInt 2)]) sample_proxy)))"
proof -
  have "imp_ok (imp sample_proxy)" by code_simp
  then show ?thesis by (rule impairments_stay_in_range)
qed

text \<open>
  A request that is refused is not undone: when a later entry is refused, the entries before it
  stay in force although the response is 400.
\<close>

theorem refused_update_keeps_part:
  assumes "map_of TUNABLES name = Some k" "py_float x = Inr v" "is_prob k \<longrightarrow> fle (Fin 0) v \<and> fle v (Fin 1)" "\<not> fless v (Fin 0)"
    "map_of TUNABLES bad_name = None"
  shows "\<exists>s'. control now (lit ''POST'') (lit ''/set'') (JObj [(name, x), (bad_name, y)]) s = (Inr (400, JNull), s')
    \<and> get_tun k (imp s') = v"
proof -
  have "py_upper (lit ''POST'') = lit ''POST''" by code_simp
  with assms show ?thesis
    by (auto simp: control_def on_imp_def pym_simps set_one_def get_set_tun)
qed

text \<open>The theorem above at a request with a misspelt second entry.\<close>

theorem refused_update_keeps_part_witness:
  "\<exists>s'. control (Fin 0) (lit ''POST'') (lit ''/set'') (JObj [(lit ''drop'', JInt 1), (lit ''dealy_ms'', JInt 5)]) sample_proxy
     = (Inr (400, JNull), s') \<and> get_tun TDrop (imp s') = Fin 1"
  by (rule refused_update_keeps_part) code_simp+

end
