(* ===== verification/Sil_Scenario.thy ===== *)
theory Sil_Scenario
  imports Protocol Py_Json "HOL-Library.Product_Lexorder"
begin

text \<open>
  \<open>sim/run_sil.py\<close>, the runner of scenarios for the simulated fleet: the validation of a scenario, the order in
  which its actions and expectations happen, and the helpers that read the answers of the server. A scenario
  is what the YAML loader makes of a file with string keys and without dates, which is a value of type
  \<open>json\<close>. The texts of \<open>SchemaError\<close> are left out. The processes of a run are in \<open>Sil_Run\<close>.
\<close>

section \<open>Names\<close>

definition FAULT_NAMES :: "(pystr \<times> int) list" where
  "FAULT_NAMES = [(lit ''OVERTEMP'', 0x01), (lit ''OVERCURRENT'', 0x02), (lit ''UNDERVOLTAGE'', 0x04), (lit ''VIBRATION_HIGH'', 0x08),
     (lit ''SENSOR_STUCK'', 0x10), (lit ''GPS_LOST'', 0x20), (lit ''COMM_DEGRADED'', 0x40), (lit ''ENCODER_FAULT'', 0x80)]"

definition SIL_STATE_NAMES :: "(int \<times> pystr) list" where
  "SIL_STATE_NAMES = [(0, lit ''IDLE''), (1, lit ''RUNNING''), (2, lit ''DEGRADED''), (3, lit ''FAULT'')]"

definition PROFILES :: "pystr list" where
  "PROFILES = map lit [''city'', ''highway'', ''idle'', ''stress'']"

definition ACTIONS :: "pystr list" where
  "ACTIONS = map lit [''fault'', ''clear_fault'', ''config'', ''firmware_register'', ''firmware_deploy'', ''cmd'', ''proxy_set'', ''note'']"

definition CHECKS :: "pystr list" where
  "CHECKS = map lit [''alert_open'', ''alert_resolved'', ''device_state'', ''device_fw'', ''config_version'', ''loss_pct_gt'',
     ''diagnosis_nonempty'', ''no_alerts_of_severity'']"

definition SEVERITIES :: "pystr list" where
  "SEVERITIES = map lit [''info'', ''warning'', ''critical'']"

definition DEVICE_ACTIONS :: "pystr list" where
  "DEVICE_ACTIONS = map lit [''fault'', ''clear_fault'', ''config'', ''firmware_deploy'', ''cmd'']"

definition DEVICE_CHECKS :: "pystr list" where
  "DEVICE_CHECKS = map lit [''alert_open'', ''alert_resolved'', ''device_state'', ''device_fw'', ''config_version'', ''loss_pct_gt'',
     ''diagnosis_nonempty'']"

section \<open>Values\<close>

text \<open>\<open>_require\<close>, and requirements one after the other.\<close>

definition require :: "bool \<Rightarrow> unit res" where
  "require b = (if b then Inr () else Inl SchemaError)"

definition rthen :: "unit res \<Rightarrow> 'a res \<Rightarrow> 'a res" where
  "rthen a b = rbind a (\<lambda>_. b)"

fun requires :: "unit res list \<Rightarrow> unit res" where
  "requires [] = Inr ()"
| "requires (r # rs) = rthen r (requires rs)"

text \<open>\<open>k in d\<close>, \<open>d.get(k, dflt)\<close> and \<open>d[k]\<close> for a dict; the code indexes only keys it has checked.\<close>

definition has_key :: "json \<Rightarrow> string \<Rightarrow> bool" where
  "has_key d k = (case d of JObj kvs \<Rightarrow> map_of kvs (lit k) \<noteq> None | _ \<Rightarrow> False)"

definition field_or :: "json \<Rightarrow> string \<Rightarrow> json \<Rightarrow> json" where
  "field_or d k dflt = (case d of JObj kvs \<Rightarrow> (case map_of kvs (lit k) of Some v \<Rightarrow> v | None \<Rightarrow> dflt) | _ \<Rightarrow> dflt)"

definition field :: "json \<Rightarrow> string \<Rightarrow> json" where
  "field d k = field_or d k JNull"

fun is_str :: "json \<Rightarrow> bool" where
  "is_str (JStr s) = True"
| "is_str _ = False"

fun is_list :: "json \<Rightarrow> bool" where
  "is_list (JList xs) = True"
| "is_list _ = False"

text \<open>\<open>isinstance(x, int)\<close> holds of a bool too; \<open>_is_num\<close> excludes it.\<close>

fun is_int :: "json \<Rightarrow> bool" where
  "is_int (JInt i) = True"
| "is_int (JBool b) = True"
| "is_int _ = False"

fun is_num :: "json \<Rightarrow> bool" where
  "is_num (JInt i) = True"
| "is_num (JFloat x) = True"
| "is_num _ = False"

text \<open>Comparing an int with a float compares the exact values.\<close>

fun exact :: "json \<Rightarrow> pyfloat" where
  "exact (JInt i) = Fin (of_int i)"
| "exact (JBool b) = Fin (if b then 1 else 0)"
| "exact (JFloat x) = x"
| "exact _ = NaN"

definition between01 :: "json \<Rightarrow> bool" where
  "between01 x \<longleftrightarrow> is_num x \<and> fle (Fin 0) (exact x) \<and> fle (exact x) (Fin 1)"

text \<open>\<open>x in s\<close> for a set of strings: a value that cannot be hashed raises.\<close>

definition in_set :: "json \<Rightarrow> pystr list \<Rightarrow> bool res" where
  "in_set x names = py_in_keys x (map (\<lambda>n. (n, ())) names)"

definition require_in :: "json \<Rightarrow> pystr list \<Rightarrow> unit res" where
  "require_in x names = rbind (in_set x names) require"

definition text_of :: "json \<Rightarrow> pystr" where
  "text_of x = (case x of JStr s \<Rightarrow> s | _ \<Rightarrow> [])"

definition items_of :: "json \<Rightarrow> json list" where
  "items_of x = (case x of JList xs \<Rightarrow> xs | _ \<Rightarrow> [])"

text \<open>\<open>str.isdigit\<close>: the decimal digits of all scripts and the digits in superscripts, circles and the like.\<close>

definition other_digits :: "(int \<times> int) list" where
  "other_digits =
     [(0xB2, 0xB3), (0xB9, 0xB9), (0x1369, 0x1371), (0x19DA, 0x19DA), (0x2070, 0x2070), (0x2074, 0x2079), (0x2080, 0x2089),
      (0x2460, 0x2468), (0x2474, 0x247C), (0x2488, 0x2490), (0x24EA, 0x24EA), (0x24F5, 0x24FD), (0x24FF, 0x24FF),
      (0x2776, 0x277E), (0x2780, 0x2788), (0x278A, 0x2792), (0x10A40, 0x10A43), (0x10E60, 0x10E68), (0x11052, 0x1105A),
      (0x1F100, 0x1F10A)]"

definition is_digit_char :: "int \<Rightarrow> bool" where
  "is_digit_char c \<longleftrightarrow> is_digit c \<or> list_ex (\<lambda>z. z \<le> c \<and> c < z + 10) nd_zeros \<or> list_ex (\<lambda>(a, b). a \<le> c \<and> c \<le> b) other_digits"

definition py_isdigit :: "pystr \<Rightarrow> bool" where
  "py_isdigit s \<longleftrightarrow> s \<noteq> [] \<and> list_all is_digit_char s"

section \<open>Fault specifications\<close>

text \<open>\<open>FLAG@START_S:DUR_S\<close>, cut at the first \<open>@\<close> and the first colon after it.\<close>

definition parse_fault_spec :: "json \<Rightarrow> (pystr \<times> pyfloat \<times> pyfloat) res" where
  "parse_fault_spec spec =
     (case spec of
        JStr s \<Rightarrow>
          (let name = takeWhile (\<lambda>c. c \<noteq> 64) s; after = drop (length name + 1) s;
               start = takeWhile (\<lambda>c. c \<noteq> 58) after; dur = drop (length start + 1) after in
           rthen (require (64 \<in> set s \<and> 58 \<in> set after))
           (rthen (require (map_of FAULT_NAMES name \<noteq> None))
            (case rbind (py_float_of_str start) (\<lambda>x. rbind (py_float_of_str dur) (\<lambda>y. Inr (name, x, y))) of
               Inl e \<Rightarrow> Inl (if e = ValueError then SchemaError else e)
             | Inr r \<Rightarrow> Inr r)))
      | _ \<Rightarrow> Inl SchemaError)"

section \<open>Validation\<close>

definition past_end :: "json \<Rightarrow> json \<Rightarrow> bool" where
  "past_end sc t \<longleftrightarrow> fless (exact (field sc ''duration_s'')) (exact t)"

definition check_top :: "json \<Rightarrow> unit res" where
  "check_top sc =
     requires ([require (is_obj sc)] @
       map (\<lambda>k. require (has_key sc k)) [''name'', ''description'', ''duration_s'', ''backend'', ''devices'', ''timeline'', ''expect''] @
       [require (is_str (field sc ''name'') \<and> truthy (field sc ''name'')),
        require (is_num (field sc ''duration_s'') \<and> fless (Fin 0) (exact (field sc ''duration_s'')))])"

definition is_port :: "json \<Rightarrow> bool" where
  "is_port x \<longleftrightarrow> is_int x \<and> fless (Fin 0) (exact x) \<and> fless (exact x) (Fin 65536)"

definition check_backend :: "json \<Rightarrow> unit res" where
  "check_backend sc =
     (let be = field sc ''backend'' in
      requires ([require (is_obj be)] @
        map (\<lambda>k. require (has_key be k)) [''http'', ''udp_port'', ''tcp_port''] @
        [require (is_str (field be ''http'') \<and> take 4 (text_of (field be ''http'')) = lit ''http'')] @
        map (\<lambda>k. require (is_port (field be k))) [''udp_port'', ''tcp_port'']))"

definition check_proxy :: "json \<Rightarrow> unit res" where
  "check_proxy sc =
     (if has_key sc ''proxy'' then
        (let px = field sc ''proxy'' in
         requires (require (is_obj px \<and> is_int (field px ''listen'')) #
           map (\<lambda>k. require (has_key px k \<longrightarrow> between01 (field px k))) [''drop'', ''reorder'', ''dup'']))
      else Inr ())"

definition check_remote :: "json \<Rightarrow> unit res" where
  "check_remote d =
     (if has_key d ''remote'' then
        (let rm = field d ''remote'' in
         requires [require (is_obj rm \<and> list_all (\<lambda>k. is_str (field rm k) \<and> truthy (field rm k)) [''ssh'', ''agent'', ''backend_host'']),
           require (is_list (field_or rm ''extra'' (JList []))), require (\<not> truthy (field d ''via_proxy''))])
      else Inr ())"

text \<open>A device, with the ids of the devices before it; the result is its warnings.\<close>

definition fault_warning :: "json \<Rightarrow> pystr \<Rightarrow> json \<Rightarrow> pystr list res" where
  "fault_warning sc did spec =
     rbind (parse_fault_spec spec) (\<lambda>(name, start, dur).
     Inr (if past_end sc (JFloat (fadd start dur))
          then [did @ lit '': fault '' @ text_of spec @ lit '' extends past duration_s''] else []))"

definition valid_id :: "json \<Rightarrow> bool" where
  "valid_id x \<longleftrightarrow> is_str x \<and> 0 < length (text_of x) \<and> length (text_of x) \<le> 12 \<and> is_ascii (text_of x)"

definition check_device :: "json \<Rightarrow> pystr list \<Rightarrow> json \<Rightarrow> pystr list res" where
  "check_device sc ids d =
     (let did = text_of (field d ''id''); fw = py_split 46 (py_str (field_or d ''fw'' (JStr (lit ''1.0.0''))));
          hz = field_or d ''hz'' (JInt 10) in
      rthen (requires [require (is_obj d \<and> has_key d ''id''), require (valid_id (field d ''id'')), require (did \<notin> set ids),
        require_in (field_or d ''profile'' (JStr (lit ''city''))) PROFILES,
        require (length fw = 3 \<and> list_all py_isdigit fw),
        require (is_int hz \<and> fle (Fin 1) (exact hz) \<and> fle (exact hz) (Fin 100)),
        require (between01 (field_or d ''drop_rate'' (JFloat (Fin 0)))), require (is_int (field_or d ''seed'' (JInt 1)))])
      (rbind (py_iter (py_or (field_or d ''faults'' (JList [])) (JList []))) (\<lambda>specs.
       rbind (rmap (fault_warning sc did) specs) (\<lambda>ws.
       rthen (check_remote d)
       (Inr (concat ws @ (if truthy (field d ''via_proxy'') \<and> \<not> has_key sc ''proxy''
          then [did @ lit '': via_proxy set but scenario has no ''  @ 39 # lit ''proxy'' @ 39 # lit '' block (needs --via-proxy/--proxy-port)'']
          else [])))))))"

fun check_devices :: "json \<Rightarrow> pystr list \<Rightarrow> json list \<Rightarrow> (pystr list \<times> pystr list) res" where
  "check_devices sc ids [] = Inr (ids, [])"
| "check_devices sc ids (d # ds) =
     rbind (check_device sc ids d) (\<lambda>ws.
     rbind (check_devices sc (ids @ [text_of (field d ''id'')]) ds) (\<lambda>(ids', ws'). Inr (ids', ws @ ws')))"

text \<open>An event of the timeline, with its index and the ids of the devices.\<close>

definition params_of :: "json \<Rightarrow> json" where
  "params_of ev = py_or (field_or ev ''params'' (JObj [])) (JObj [])"

definition late_warning :: "json \<Rightarrow> string \<Rightarrow> nat \<Rightarrow> json \<Rightarrow> string \<Rightarrow> pystr list" where
  "late_warning sc what i ev note =
     (if past_end sc (field ev ''at_s'')
      then [lit what @ 91 # py_str_int (int i) @ 93 # lit '' at_s '' @ py_str (field ev ''at_s'') @ lit '' is after duration_s'' @ lit note]
      else [])"

definition check_timed :: "json \<Rightarrow> string \<Rightarrow> pystr list \<Rightarrow> unit res" where
  "check_timed ev k names =
     requires [require (is_obj ev \<and> has_key ev ''at_s'' \<and> has_key ev k),
       require (is_num (field ev ''at_s'') \<and> fle (Fin 0) (exact (field ev ''at_s''))), require_in (field ev k) names,
       require (is_obj (params_of ev))]"

definition full_list :: "json \<Rightarrow> bool" where
  "full_list x \<longleftrightarrow> is_list x \<and> truthy x"

definition check_action :: "json \<Rightarrow> pystr \<Rightarrow> json \<Rightarrow> unit res" where
  "check_action sc act params =
     (if act = lit ''fault'' then
        rthen (require (full_list (field params ''set'')))
          (requires (map (\<lambda>n. require_in n (map fst FAULT_NAMES)) (items_of (field params ''set''))))
      else if act = lit ''clear_fault'' then require (full_list (field params ''clear''))
      else if act = lit ''config'' then
        requires (map (\<lambda>k. require (has_key params k)) [''telemetry_hz'', ''log_level'', ''rpm_limit'', ''temp_limit_c'', ''current_limit_a''])
      else if act = lit ''firmware_register'' \<or> act = lit ''firmware_deploy'' then require (is_str (field params ''version''))
      else if act = lit ''cmd'' then
        require (field params ''cmd'' \<in> set (map (\<lambda>c. JStr (lit c)) [''reboot'', ''clear_faults'', ''request_hello'']))
      else if act = lit ''proxy_set'' then require (has_key sc ''proxy'')
      else Inr ())"

definition check_event :: "json \<Rightarrow> pystr list \<Rightarrow> nat \<Rightarrow> json \<Rightarrow> pystr list res" where
  "check_event sc ids i ev =
     rthen (requires
       [check_timed ev ''action'' ACTIONS, require (is_str (field_or ev ''say'' (JStr []))),
        require (text_of (field ev ''action'') = lit ''note'' \<longrightarrow> truthy (field ev ''say'')),
        if text_of (field ev ''action'') \<in> set DEVICE_ACTIONS then require_in (field ev ''device'') ids else Inr (),
        check_action sc (text_of (field ev ''action'')) (params_of ev)])
     (Inr (late_warning sc ''timeline'' i ev []))"

text \<open>An expectation.\<close>

definition check_params :: "pystr \<Rightarrow> json \<Rightarrow> unit res" where
  "check_params chk params =
     (if chk = lit ''alert_open'' \<or> chk = lit ''alert_resolved'' then require (has_key params ''match'')
      else if chk = lit ''device_fw'' then require (is_str (field params ''version''))
      else if chk = lit ''loss_pct_gt'' then require (is_num (field params ''value''))
      else if chk = lit ''no_alerts_of_severity'' then require_in (field params ''severity'') SEVERITIES
      else if chk = lit ''device_state'' then
        (let st = field params ''state'' in
         if st = JNull then Inr ()
         else rbind (if is_str st then Inr [st] else py_iter st) (\<lambda>ss.
           requires (map (\<lambda>x. require (x \<in> set (map (\<lambda>n. JStr (snd n)) SIL_STATE_NAMES))) ss)))
      else Inr ())"

definition check_expectation :: "json \<Rightarrow> pystr list \<Rightarrow> nat \<Rightarrow> json \<Rightarrow> pystr list res" where
  "check_expectation sc ids i e =
     rthen (requires
       [check_timed e ''check'' CHECKS,
        if text_of (field e ''check'') \<in> set DEVICE_CHECKS then require_in (field e ''device'') ids else Inr (),
        check_params (text_of (field e ''check'')) (params_of e)])
     (Inr (late_warning sc ''expect'' i e '' (will still be evaluated)''))"

fun check_each :: "(nat \<Rightarrow> json \<Rightarrow> pystr list res) \<Rightarrow> nat \<Rightarrow> json list \<Rightarrow> pystr list res" where
  "check_each f i [] = Inr []"
| "check_each f i (x # xs) = rbind (f i x) (\<lambda>ws. rbind (check_each f (i + 1) xs) (\<lambda>ws'. Inr (ws @ ws')))"

definition validate_scenario :: "json \<Rightarrow> pystr list res" where
  "validate_scenario sc =
     rthen (requires [check_top sc, check_backend sc, check_proxy sc, require (full_list (field sc ''devices''))])
     (rbind (check_devices sc [] (items_of (field sc ''devices''))) (\<lambda>(ids, ws1).
      rthen (require (is_list (field sc ''timeline'')))
      (rbind (check_each (check_event sc ids) 0 (items_of (field sc ''timeline''))) (\<lambda>ws2.
       rthen (require (full_list (field sc ''expect'')))
       (rbind (check_each (check_expectation sc ids) 0 (items_of (field sc ''expect''))) (\<lambda>ws3.
        Inr (ws1 @ ws2 @ ws3)))))))"

section \<open>The schedule\<close>

text \<open>
  The merged schedule of \<open>Runner.run\<close>: actions and expectations with their times, sorted by time, an
  action before an expectation at the same time. The times of a validated scenario are not negative, so that
  infinity, the only one that is not a number, is the greatest.
\<close>

datatype item_kind = Action | Expect

instantiation item_kind :: linorder
begin

definition less_eq_item_kind :: "item_kind \<Rightarrow> item_kind \<Rightarrow> bool" where
  "less_eq_item_kind a b \<longleftrightarrow> a = Action \<or> b = Expect"

definition less_item_kind :: "item_kind \<Rightarrow> item_kind \<Rightarrow> bool" where
  "less_item_kind a b \<longleftrightarrow> a = Action \<and> b = Expect"

instance
proof
  fix a b c :: item_kind
  show "a < b \<longleftrightarrow> a \<le> b \<and> \<not> b \<le> a" "a \<le> a" "a \<le> b \<or> b \<le> a"
    by (cases a; cases b; simp add: less_eq_item_kind_def less_item_kind_def)+
  show "a \<le> b \<Longrightarrow> b \<le> c \<Longrightarrow> a \<le> c" "a \<le> b \<Longrightarrow> b \<le> a \<Longrightarrow> a = b"
    by (cases a; cases b; simp add: less_eq_item_kind_def)+
qed

end

text \<open>The key of the sort: the time, and at one time an action before an expectation.\<close>

type_synonym item = "pyfloat \<times> item_kind \<times> json"

definition timed :: "item_kind \<Rightarrow> json \<Rightarrow> item res" where
  "timed k x = rbind (py_float (field x ''at_s'')) (\<lambda>t. Inr (t, k, x))"

definition item_key :: "item \<Rightarrow> nat \<times> rat \<times> item_kind" where
  "item_key = (\<lambda>(t, k, x). (if ffinite t then 0 else 1, fval t, k))"

definition schedule_of :: "json \<Rightarrow> item list res" where
  "schedule_of sc =
     rbind (rmap (timed Action) (items_of (field sc ''timeline''))) (\<lambda>as.
     rbind (rmap (timed Expect) (items_of (field sc ''expect''))) (\<lambda>es.
     Inr (sort_key item_key (as @ es))))"

text \<open>\<open>max\<close> of the duration and the times.\<close>

definition end_at :: "json \<Rightarrow> item list \<Rightarrow> pyfloat res" where
  "end_at sc items = rbind (py_float (field sc ''duration_s'')) (\<lambda>d. Inr (foldl fmax d (map fst items)))"

section \<open>Reading the answers of the server\<close>

definition norm_state :: "json \<Rightarrow> json" where
  "norm_state v =
     (case v of
        JNull \<Rightarrow> JNull
      | JInt i \<Rightarrow> JStr (case map_of SIL_STATE_NAMES i of Some n \<Rightarrow> n | None \<Rightarrow> py_str_int i)
      | JBool b \<Rightarrow> JStr (if b then lit ''RUNNING'' else lit ''IDLE'')
      | _ \<Rightarrow> JStr (py_upper (py_str v)))"

text \<open>\<open>fw_str\<close>: the packed version as text; a text is stripped.\<close>

definition int_of :: "json \<Rightarrow> int" where
  "int_of v = (case v of JInt i \<Rightarrow> i | JBool b \<Rightarrow> if b then 1 else 0 | _ \<Rightarrow> 0)"

definition fw_str :: "json \<Rightarrow> pystr option" where
  "fw_str v =
     (if v = JNull then None
      else if is_int v then
        Some (py_str_int (drop_bit 16 (int_of v) AND 0xFFFF) @ 46 # py_str_int (drop_bit 8 (int_of v) AND 0xFF) @ 46
          # py_str_int (int_of v AND 0xFF))
      else Some (py_strip (py_str v)))"

text \<open>
  \<open>lower\<close>, as far as it decides a comparison with ASCII text: besides the ASCII letters only the
  sign for Kelvin has an ASCII letter as its whole lower case.
\<close>

definition lower_text :: "pystr \<Rightarrow> pystr" where
  "lower_text s = map (\<lambda>c. if 65 \<le> c \<and> c \<le> 90 then c + 32 else if c = 0x212A then 107 else c) s"

definition alert_is_open :: "json \<Rightarrow> bool" where
  "alert_is_open a =
     (let st = lower_text (py_str (field_or a ''status'' (JStr []))) in
      if st \<noteq> [] then st = lit ''open''
      else field a ''resolved_at'' = JNull \<and> \<not> truthy (field_or a ''resolved'' (JBool False)))"

definition alert_device :: "json \<Rightarrow> json" where
  "alert_device a = py_or (field a ''device_id'') (field a ''device'')"

text \<open>\<open>fault_names_from\<close>: a set, here the list of its names.\<close>

definition fault_names_from :: "json \<Rightarrow> pystr list res" where
  "fault_names_from v =
     (if v = JNull then Inr []
      else if is_int v then Inr (map fst (filter (\<lambda>(n, b). (int_of v AND b) \<noteq> 0) FAULT_NAMES))
      else if is_str v then Inr [py_upper (text_of v)]
      else rbind (py_iter v) (\<lambda>xs. Inr (map (\<lambda>x. py_upper (py_str x)) xs)))"

definition latest_of :: "json \<Rightarrow> json" where
  "latest_of dev =
     (let lat = py_or (py_or (py_or (field dev ''latest'') (field dev ''latest_telemetry'')) (field dev ''telemetry'')) (JObj [])
      in if is_obj lat then lat else JObj [])"

definition loss_pct_of :: "json \<Rightarrow> pyfloat option res" where
  "loss_pct_of dev =
     (case find (\<lambda>k. field dev k \<noteq> JNull) [''loss_pct'', ''packet_loss_pct'', ''loss''] of
        Some k \<Rightarrow> rbind (py_float (field dev k)) (\<lambda>x. Inr (Some x))
      | None \<Rightarrow>
          (let st = py_or (field dev ''stats'') (JObj []) in
           if is_obj st \<and> field st ''loss_pct'' \<noteq> JNull then rbind (py_float (field st ''loss_pct'')) (\<lambda>x. Inr (Some x))
           else Inr None))"

definition config_version_of :: "json \<Rightarrow> int option res" where
  "config_version_of dev =
     (let v0 = field dev ''config_version''; cfg = field dev ''config'';
          v = (if v0 = JNull \<and> is_obj cfg then py_or (field cfg ''version'') (field cfg ''config_version'') else v0)
      in if v = JNull then Inr None else rbind (py_int v) (\<lambda>i. Inr (Some i)))"

text \<open>The acknowledgement one of the two dictionaries shows, if any.\<close>

definition shown_ack :: "json \<Rightarrow> bool option" where
  "shown_ack src =
     (case find (\<lambda>k. field src k \<noteq> JNull) [''acked'', ''config_acked'', ''ack''] of
        Some k \<Rightarrow> Some (truthy (field src k))
      | None \<Rightarrow>
          if field src ''ack_status'' \<noteq> JNull
          then Some (lower_text (py_str (field src ''ack_status'')) \<in> set (map lit [''applied'', ''0'', ''ok'', ''acked'']))
          else None)"

definition config_acked :: "json \<Rightarrow> bool option res" where
  "config_acked dev =
     (let cfg = (if is_obj (field dev ''config'') then field dev ''config'' else JObj []) in
      case shown_ack dev of
        Some b \<Rightarrow> Inr (Some b)
      | None \<Rightarrow> (case shown_ack cfg of
          Some b \<Rightarrow> Inr (Some b)
        | None \<Rightarrow>
            rbind (config_version_of dev) (\<lambda>pushed.
            let reported = py_or (py_or (field dev ''reported_config_version'') (field cfg ''reported_version'')) (field cfg ''device_version'')
            in case pushed of
                 None \<Rightarrow> Inr None
               | Some p \<Rightarrow> if reported = JNull then Inr None else rbind (py_int reported) (\<lambda>r. Inr (Some (p \<le> r))))))"

end
