(* ===== verification/Proxy_Http.thy ===== *)
theory Proxy_Http
  imports Lossy_Proxy Sil_Scenario
begin

text \<open>
  \<open>sim/lossy_proxy.py\<close>: how the control endpoint reads a request from its connection and answers it.
  A connection is the bytes the client sends until it closes its side; timeouts are left out, and \<open>json.loads\<close> is an
  argument.

  The lemmas show that a request written in the usual form is read back: method, path and body reach the handler unchanged.
\<close>

section \<open>Reading a request\<close>

text \<open>\<open>readline\<close> of a stream, with its default limit of 64 KiB for a line.\<close>

definition readline :: "bytes \<Rightarrow> (bytes \<times> bytes) res" where
  "readline s =
     (let n = length (takeWhile (\<lambda>b. b \<noteq> 10) s)
      in if 65536 < n then Inl ValueError else Inr (take (n + 1) s, drop (n + 1) s))"

text \<open>\<open>split()\<close> without arguments.\<close>

fun split_space :: "pystr \<Rightarrow> pystr list" where
  "split_space [] = [[]]"
| "split_space (c # cs) =
     (if is_space c then [] # split_space cs
      else case split_space cs of [] \<Rightarrow> [[c]] | p # ps \<Rightarrow> (c # p) # ps)"

definition py_fields :: "pystr \<Rightarrow> pystr list" where
  "py_fields s = filter (\<lambda>p. p \<noteq> []) (split_space s)"

text \<open>\<open>line.decode(errors="replace").partition(":")\<close>, as a header.\<close>

definition header_of :: "bytes \<Rightarrow> pystr \<times> pystr" where
  "header_of line =
     (let s = utf8_decode line; k = takeWhile (\<lambda>c. c \<noteq> 58) s
      in (lower_text (py_strip k), py_strip (drop (length k + 1) s)))"

function read_headers :: "(pystr \<times> pystr) list \<Rightarrow> bytes \<Rightarrow> ((pystr \<times> pystr) list \<times> bytes) res" where
  "read_headers hs s =
     (case readline s of
        Inl e \<Rightarrow> Inl e
      | Inr (line, rest) \<Rightarrow>
          if line = [13, 10] \<or> line = [10] \<or> line = [] then Inr (hs, rest)
          else (case header_of line of (k, v) \<Rightarrow> read_headers (AList.update k v hs) rest))"
  by auto
termination
proof (relation "measure (\<lambda>(hs, s). length s)")
  fix hs :: "(pystr \<times> pystr) list" and s line rest :: bytes and x k v
  assume "readline s = Inr x" "(line, rest) = x" "\<not> (line = [13, 10] \<or> line = [10] \<or> line = [])"
  then show "((AList.update k v hs, rest), (hs, s)) \<in> measure (\<lambda>(hs, s). length s)"
    by (cases s) (auto simp: readline_def Let_def split: if_splits)
qed simp

declare read_headers.simps [simp del]

text \<open>A bad request line, a connection that ends too early, or a request with its method, path and body.\<close>

datatype incoming = BadLine | Cut | Req pystr pystr bytes

definition content_length :: "(pystr \<times> pystr) list \<Rightarrow> int res" where
  "content_length hs =
     (case map_of hs (lit ''content-length'') of
        None \<Rightarrow> Inr 0 | Some v \<Rightarrow> if v = [] then Inr 0 else py_int_of_str v)"

definition read_request :: "bytes \<Rightarrow> incoming res" where
  "read_request s =
     rbind (readline s) (\<lambda>(line, rest).
     case py_fields (utf8_decode line) of
       verb # path # _ \<Rightarrow>
         rbind (read_headers [] rest) (\<lambda>(hs, rest).
         rbind (content_length hs) (\<lambda>n.
         if n < 0 then Inl ValueError
         else if length rest < nat n then Inr Cut
         else Inr (Req (py_upper verb) path (take (nat n) rest))))
     | _ \<Rightarrow> Inr BadLine)"

section \<open>Answering it\<close>

text \<open>
  The status and body of the answer; nothing when the connection is closed without one. As in \<open>control\<close>, the body
  of an error is left out.
\<close>

definition http_control :: "(bytes \<Rightarrow> json res) \<Rightarrow> pyfloat \<Rightarrow> bytes \<Rightarrow> (proxy, (int \<times> json) option) pym" where
  "http_control loads now s =
     bind_pym (of_res (read_request s)) (\<lambda>r.
     case r of
       BadLine \<Rightarrow> ret (Some (400, JNull))
     | Cut \<Rightarrow> ret None
     | Req verb path body \<Rightarrow>
         if path = lit ''/set'' \<and> verb = lit ''POST'' then
           (case loads (if body = [] then ascii_encode (lit ''{}'') else body) of
              Inl e \<Rightarrow> if e = ValueError \<or> e = TypeError then ret (Some (400, JNull)) else throw e
            | Inr v \<Rightarrow> bind_pym (control now verb path v) (\<lambda>a. ret (Some a)))
         else bind_pym (control now verb path JNull) (\<lambda>a. ret (Some a)))"

text \<open>\<open>_http_response\<close>: the head for a body of \<open>n\<close> bytes.\<close>

definition crlf :: pystr where
  "crlf = [13, 10]"

definition reason_of :: "int \<Rightarrow> pystr" where
  "reason_of status =
     (case map_of [(200, lit ''OK''), (400, lit ''Bad Request''), (404, lit ''Not Found''), (405, lit ''Method Not Allowed'')] status of
        Some r \<Rightarrow> r | None \<Rightarrow> lit ''OK'')"

definition response_head :: "int \<Rightarrow> nat \<Rightarrow> bytes" where
  "response_head status n =
     ascii_encode (lit ''HTTP/1.1 '' @ py_str_int status @ 32 # reason_of status @ crlf @ lit ''Content-Type: application/json'' @ crlf
       @ lit ''Content-Length: '' @ py_str_int (int n) @ crlf @ lit ''Connection: close'' @ crlf @ crlf)"

section \<open>Laws\<close>

text \<open>Visible ASCII text.\<close>

definition visible :: "pystr \<Rightarrow> bool" where
  "visible s \<longleftrightarrow> (\<forall>c\<in>set s. 32 \<le> c \<and> c < 127)"

definition word_ok :: "pystr \<Rightarrow> bool" where
  "word_ok s \<longleftrightarrow> s \<noteq> [] \<and> (\<forall>c\<in>set s. 32 < c \<and> c < 127)"

lemma utf8_ints_ascii: "\<forall>c\<in>set s. 0 \<le> c \<and> c < 128 \<Longrightarrow> utf8_decode_ints s = s"
  by (induction s) (simp_all add: utf8_dec1_def)

lemma utf8_ascii:
  assumes "is_ascii s"
  shows "utf8_decode (ascii_encode s) = s"
proof -
  have "map uint (ascii_encode s) = s"
    using assms by (auto simp: ascii_encode_def is_ascii_def uint_word_of_int_byte intro!: map_idI)
  with assms show ?thesis by (simp add: utf8_decode_def utf8_ints_ascii is_ascii_def)
qed

lemma readline_append:
  assumes "(10 :: byte) \<notin> set line" "length line \<le> 65536"
  shows "readline (line @ 10 # rest) = Inr (line @ [10], rest)"
proof -
  have "takeWhile (\<lambda>b. b \<noteq> 10) (line @ 10 # rest) = line" using assms(1) by (subst takeWhile_append2) auto
  with assms(2) show ?thesis by (simp add: readline_def Let_def)
qed

lemma ascii_encode_append: "ascii_encode (a @ b) = ascii_encode a @ ascii_encode b"
  by (simp add: ascii_encode_def)

lemma split_space_sep: "\<forall>c\<in>set w. \<not> is_space c \<Longrightarrow> is_space d \<Longrightarrow> split_space (w @ d # s) = w # split_space s"
  by (induction w) auto

lemma fields_line:
  assumes "word_ok verb" "word_ok path"
  shows "py_fields (verb @ 32 # path @ 32 # r) = verb # path # py_fields r"
proof -
  have "\<not> is_space c" if "32 < c" "c < 127" for c using that by (auto simp: is_space_def)
  then have "\<forall>c\<in>set verb. \<not> is_space c" "\<forall>c\<in>set path. \<not> is_space c" using assms by (auto simp: word_ok_def)
  moreover have "is_space 32" by (simp add: is_space_def)
  ultimately show ?thesis using assms by (simp add: py_fields_def split_space_sep word_ok_def)
qed

text \<open>The headers of a request as text; a name has no colon.\<close>

definition header_text :: "pystr \<times> pystr \<Rightarrow> pystr" where
  "header_text = (\<lambda>(k, v). k @ lit '': '' @ v)"

definition header_ok :: "pystr \<times> pystr \<Rightarrow> bool" where
  "header_ok h \<longleftrightarrow> visible (header_text h) \<and> 58 \<notin> set (fst h) \<and> length (header_text h) \<le> 65535"

definition request_text :: "pystr \<Rightarrow> pystr \<Rightarrow> (pystr \<times> pystr) list \<Rightarrow> bytes" where
  "request_text verb path hs =
     ascii_encode (verb @ 32 # path @ lit '' HTTP/1.1'' @ crlf) @ concat (map (\<lambda>h. ascii_encode (header_text h @ crlf)) hs) @ ascii_encode crlf"

definition header_value :: "pystr \<times> pystr \<Rightarrow> pystr \<times> pystr" where
  "header_value h = (lower_text (py_strip (fst h)), py_strip (32 # snd h @ crlf))"

lemma crlf_bytes: "ascii_encode crlf = [13, 10]"
  by (simp add: crlf_def ascii_encode_def)

lemma visible_line:
  assumes "visible s"
  shows "(10 :: byte) \<notin> set (ascii_encode s @ [13])" "is_ascii (s @ crlf)"
proof -
  have "(word_of_int c :: byte) \<noteq> 10" if "32 \<le> c" "c < 127" for c :: int
  proof
    assume "(word_of_int c :: byte) = 10"
    then have "uint (word_of_int c :: byte) = 10" by simp
    with that show False by (simp add: uint_word_of_int_byte)
  qed
  then show "(10 :: byte) \<notin> set (ascii_encode s @ [13])" using assms by (auto simp: ascii_encode_def visible_def)
  show "is_ascii (s @ crlf)" using assms by (auto simp: is_ascii_def visible_def crlf_def)
qed

lemma readline_text:
  assumes "visible s" "length s \<le> 65535"
  shows "readline (ascii_encode (s @ crlf) @ rest) = Inr (ascii_encode (s @ crlf), rest)"
proof -
  have "length (ascii_encode s @ [13]) \<le> 65536" using assms(2) by (simp add: ascii_encode_def)
  from readline_append [OF visible_line(1) [OF assms(1)] this, of rest] show ?thesis by (simp add: ascii_encode_append crlf_bytes)
qed

lemma header_of_text:
  assumes "header_ok h"
  shows "header_of (ascii_encode (header_text h @ crlf)) = header_value h"
proof -
  obtain k v where h: "h = (k, v)" by (cases h)
  have "utf8_decode (ascii_encode (header_text h @ crlf)) = header_text h @ crlf"
    using assms visible_line(2) by (intro utf8_ascii) (simp add: header_ok_def)
  moreover have "header_text h @ crlf = k @ 58 # 32 # v @ crlf" by (simp add: header_text_def h lit_def)
  moreover have "takeWhile (\<lambda>c. c \<noteq> 58) (k @ 58 # 32 # v @ crlf) = k"
    using assms by (subst takeWhile_append2) (auto simp: header_ok_def h)
  ultimately show ?thesis by (simp add: header_of_def Let_def header_value_def h)
qed

lemma read_headers_text:
  assumes "\<forall>h\<in>set hs. header_ok h"
  shows "read_headers acc (concat (map (\<lambda>h. ascii_encode (header_text h @ crlf)) hs) @ ascii_encode crlf @ body)
    = Inr (fold (\<lambda>h. AList.update (fst (header_value h)) (snd (header_value h))) hs acc, body)"
  using assms
proof (induction hs arbitrary: acc)
  case Nil
  have "readline ([13, 10] @ body) = Inr ([13, 10], body)" using readline_append [of "[13]" body] by simp
  then show ?case by (subst read_headers.simps) (simp add: crlf_bytes)
next
  case (Cons h hs)
  let ?rest = "concat (map (\<lambda>h. ascii_encode (header_text h @ crlf)) hs) @ ascii_encode crlf @ body" and ?line = "ascii_encode (header_text h @ crlf)"
  have "readline (?line @ ?rest) = Inr (?line, ?rest)" using Cons.prems by (intro readline_text) (auto simp: header_ok_def)
  moreover have "?line \<noteq> [13, 10]" "?line \<noteq> [10]" "?line \<noteq> []"
    by (cases h; cases "fst h"; simp add: crlf_bytes header_text_def lit_def ascii_encode_append; simp add: ascii_encode_def)+
  moreover have "header_of ?line = (fst (header_value h), snd (header_value h))" using header_of_text Cons.prems by simp
  ultimately have "read_headers acc (?line @ ?rest) = read_headers (AList.update (fst (header_value h)) (snd (header_value h)) acc) ?rest"
    by (subst read_headers.simps) (simp add: split_def)
  with Cons.IH [of "AList.update (fst (header_value h)) (snd (header_value h)) acc"] Cons.prems show ?case by simp
qed

lemma crlf_space: "\<forall>c\<in>set crlf. is_space c"
  by (simp add: crlf_def is_space_def)

lemma strip_digits: "0 \<le> n \<Longrightarrow> py_strip (32 # digits_of n @ crlf) = digits_of n"
proof -
  assume n: "0 \<le> n"
  have d: "\<not> is_space c" if "c \<in> set (digits_of n)" for c using digits_of_digit [OF n that] by (auto simp: is_digit_def is_space_def)
  have s: "is_space 32" by (simp add: is_space_def)
  obtain c cs where c: "digits_of n = c # cs" by (cases "digits_of n") auto
  have "dropWhile is_space (32 # digits_of n @ crlf) = digits_of n @ crlf" using d [of c] c s by simp
  moreover have "dropWhile is_space (rev (digits_of n @ crlf)) = rev (digits_of n)"
    using crlf_space dropWhile_none [of "rev (digits_of n)" is_space] d by (simp add: crlf_def is_space_def)
  ultimately show ?thesis by (simp add: py_strip_def)
qed

lemma content_length_value:
  assumes "0 \<le> n"
  shows "header_value (lit ''Content-Length'', py_str_int n) = (lit ''content-length'', digits_of n)"
proof -
  have "lower_text (py_strip (lit ''Content-Length'')) = lit ''content-length''" by code_simp
  with assms strip_digits [OF assms] show ?thesis by (simp add: header_value_def py_str_int_def)
qed

lemma int_of_size:
  assumes "0 \<le> n" "n < 2 ^ 63"
  shows "py_int_of_str (digits_of n) = Inr n" "length (digits_of n) \<le> 19"
proof -
  have n: "n < 10 ^ 19" using assms(2) by simp
  also have "(10 :: int) ^ 19 \<le> 10 ^ 4300" by (rule power_increasing) simp_all
  finally show "py_int_of_str (digits_of n) = Inr n" by (rule int_of_digits [OF assms(1)])
  show "length (digits_of n) \<le> 19" by (rule length_digits_of [OF n]) simp
qed

lemma read_request_text:
  assumes "word_ok verb" "word_ok path" "length verb + length path \<le> 60000" "\<forall>h\<in>set hs. header_ok h"
    "int (length body) < 2 ^ 63" "n = int (length body)"
  shows "read_request (request_text verb path (hs @ [(lit ''Content-Length'', py_str_int n)]) @ body) = Inr (Req (py_upper verb) path body)"
proof -
  let ?cl = "(lit ''Content-Length'', py_str_int n)" and ?first = "verb @ 32 # path @ lit '' HTTP/1.1''"
  have n: "0 \<le> n" "n < 2 ^ 63" using assms(5,6) by simp_all
  have d: "is_digit c" if "c \<in> set (py_str_int n)" for c using that n(1) digits_of_digit by (simp add: py_str_int_def)
  have "visible ?first" using assms(1,2) by (auto simp: visible_def word_ok_def lit_def)
  moreover have "length ?first \<le> 65535" using assms(3) by (simp add: lit_def)
  ultimately have l: "readline (ascii_encode (?first @ crlf) @ r) = Inr (ascii_encode (?first @ crlf), r)" for r by (rule readline_text)
  have a: "utf8_decode (ascii_encode (?first @ crlf)) = ?first @ crlf" using visible_line(2) [OF \<open>visible ?first\<close>] by (rule utf8_ascii)
  have f: "py_fields (?first @ crlf) = verb # path # py_fields (lit ''HTTP/1.1'' @ crlf)"
    using fields_line [OF assms(1,2), of "lit ''HTTP/1.1'' @ crlf"] by (simp add: lit_def)
  have "length (py_str_int n) \<le> 19" using int_of_size(2) [OF n] n(1) by (simp add: py_str_int_def)
  then have cl: "header_ok ?cl" by (auto simp: header_ok_def header_text_def visible_def lit_def is_digit_def dest!: d)
  have h: "read_headers [] (concat (map (\<lambda>h. ascii_encode (header_text h @ crlf)) (hs @ [?cl])) @ ascii_encode crlf @ body)
      = Inr (AList.update (lit ''content-length'') (digits_of n) (fold (\<lambda>h. AList.update (fst (header_value h)) (snd (header_value h))) hs []), body)"
    using read_headers_text [of "hs @ [?cl]"] assms(4) cl content_length_value [OF n(1)] by simp
  have c: "content_length (AList.update (lit ''content-length'') (digits_of n) ps) = Inr n" for ps
    by (simp add: content_length_def update_conv' int_of_size(1) [OF n])
  have t: "request_text verb path (hs @ [?cl]) @ body = ascii_encode (?first @ crlf) @
      (concat (map (\<lambda>h. ascii_encode (header_text h @ crlf)) (hs @ [?cl])) @ ascii_encode crlf @ body)"
    by (simp add: request_text_def)
  show ?thesis unfolding read_request_def t l
    using a f h c assms(6) by simp
qed

section \<open>Property\<close>

text \<open>
  C30. What a client sends to the control endpoint is what is applied: a request \<open>POST /set\<close> with any visible headers and the
  length of its body is read back exactly, so that the update sees the JSON value of the body and nothing else; the
  answer is that of the handler.
\<close>

theorem set_request_applied:
  assumes "\<forall>h\<in>set hs. header_ok h" "int (length body) < 2 ^ 63" "body \<noteq> []" "loads body = Inr v"
    "cl = (lit ''Content-Length'', py_str_int (int (length body)))"
  shows "http_control loads now (request_text (lit ''POST'') (lit ''/set'') (hs @ [cl]) @ body) s
    = bind_pym (control now (lit ''POST'') (lit ''/set'') v) (\<lambda>a. ret (Some a)) s"
proof -
  have w: "word_ok (lit ''POST'')" "word_ok (lit ''/set'')" "length (lit ''POST'') + length (lit ''/set'') \<le> 60000"
    by (simp_all add: word_ok_def lit_def)
  have u: "py_upper (lit ''POST'') = lit ''POST''" by code_simp
  from read_request_text [OF w(1-3) assms(1,2) refl] u assms(5)
  have r: "read_request (request_text (lit ''POST'') (lit ''/set'') (hs @ [cl]) @ body) = Inr (Req (lit ''POST'') (lit ''/set'') body)"
    by simp
  show ?thesis unfolding http_control_def r using assms(3,4) by (simp add: bind_app of_res_app)
qed

text \<open>C30 at the request of the scenario runner for a drop rate of one, with \<open>json.loads\<close> given on its body.\<close>

definition drop_body :: bytes where
  "drop_body = [123, 34, 100, 114, 111, 112, 34, 58, 49, 125]"

definition drop_loads :: "bytes \<Rightarrow> json res" where
  "drop_loads b = (if b = drop_body then Inr (JObj [(lit ''drop'', JInt 1)]) else Inl ValueError)"

theorem set_request_applied_witness:
  "get_tun TDrop (imp (snd (http_control drop_loads (Fin 0)
     (request_text (lit ''POST'') (lit ''/set'') [(lit ''Host'', lit ''127.0.0.1:9790''), (lit ''Content-Length'', py_str_int 10)] @ drop_body)
     sample_proxy))) = Fin 1"
proof -
  have h: "\<forall>h\<in>set [(lit ''Host'', lit ''127.0.0.1:9790'')]. header_ok h"
    by (simp add: header_ok_def header_text_def visible_def lit_def)
  have b: "int (length drop_body) = 10" "drop_body \<noteq> []" by (simp_all add: drop_body_def)
  have l: "drop_loads drop_body = Inr (JObj [(lit ''drop'', JInt 1)])" by (simp add: drop_loads_def)
  have r: "http_control drop_loads (Fin 0)
      (request_text (lit ''POST'') (lit ''/set'') ([(lit ''Host'', lit ''127.0.0.1:9790'')] @ [(lit ''Content-Length'', py_str_int 10)]) @ drop_body)
      sample_proxy = bind_pym (control (Fin 0) (lit ''POST'') (lit ''/set'') (JObj [(lit ''drop'', JInt 1)])) (\<lambda>a. ret (Some a)) sample_proxy"
    using set_request_applied [of _ drop_body drop_loads "JObj [(lit ''drop'', JInt 1)]", OF h _ b(2) l] b(1) by simp
  have "get_tun TDrop (imp (snd (bind_pym (control (Fin 0) (lit ''POST'') (lit ''/set'') (JObj [(lit ''drop'', JInt 1)])) (\<lambda>a. ret (Some a)) sample_proxy))) = Fin 1"
    by code_simp
  with r show ?thesis by simp
qed

end
