(* ===== verification/Proxy_Main.thy ===== *)
theory Proxy_Main
  imports Proxy_Http
begin

text \<open>
  \<open>sim/lossy_proxy.py\<close>: what \<open>main\<close> accepts, what \<open>amain\<close> sets up from the arguments, the end of the proxy, and the relay for TCP,
  through which an agent may send its control channel. Sockets, signals and printing are left out. The relay is a
  relation between states: the two copying loops, the two peers and the network act in any order.
\<close>

section \<open>Arguments\<close>

record proxy_args =
  pa_forward :: pystr
  pa_drop :: pyfloat
  pa_delay_ms :: pyfloat
  pa_jitter_ms :: pyfloat
  pa_reorder :: pyfloat
  pa_dup :: pyfloat
  pa_control_port :: int
  pa_tcp_listen :: int
  pa_tcp_forward :: pystr

definition in_unit :: "pyfloat \<Rightarrow> bool" where
  "in_unit x \<longleftrightarrow> fle (Fin 0) x \<and> fle x (Fin 1)"

text \<open>The exit code of \<open>main\<close> when it refuses the arguments.\<close>

definition proxy_refuses :: "proxy_args \<Rightarrow> int option" where
  "proxy_refuses a = (if list_all in_unit [pa_drop a, pa_reorder a, pa_dup a] then None else Some 2)"

text \<open>
  What \<open>amain\<close> starts with: the impairments, the target of the datagrams, whether there is a control endpoint, and the target of the TCP
  relay when there is one. An address without a port that is a number raises.
\<close>

record proxy_setup =
  su_imp :: Impairments
  su_forward :: "pystr \<times> int"
  su_control :: bool
  su_tcp :: "(pystr \<times> int) option"

definition proxy_setup_of :: "proxy_args \<Rightarrow> proxy_setup res" where
  "proxy_setup_of a =
     rbind (parse_hostport (pa_forward a)) (\<lambda>forward.
     rbind (if pa_tcp_listen a = 0 then Inr None
            else rbind (parse_hostport (if pa_tcp_forward a = [] then fst forward @ lit '':8782'' else pa_tcp_forward a)) (\<lambda>t. Inr (Some t))) (\<lambda>tcp.
     Inr \<lparr>su_imp = \<lparr>imp_drop = pa_drop a, imp_delay_ms = pa_delay_ms a, imp_jitter_ms = pa_jitter_ms a, imp_reorder = pa_reorder a, imp_dup = pa_dup a\<rparr>,
          su_forward = forward, su_control = (pa_control_port a \<noteq> 0), su_tcp = tcp\<rparr>))"

text \<open>\<open>ProxyProtocol.close\<close>: every upstream socket is closed.\<close>

definition proxy_close :: "(proxy, unit) pym" where
  "proxy_close = modify (\<lambda>s. s\<lparr>up_closing := map snd (upstreams s) @ up_closing s\<rparr>)"

text \<open>
  The arguments \<open>main\<close> accepts give impairments in the range the control endpoint keeps, except for the two times, which it does not
  look at.
\<close>

lemma accepted_in_range:
  assumes "proxy_refuses a = None" "proxy_setup_of a = Inr su"
  shows "imp_ok (su_imp su) \<longleftrightarrow> \<not> fless (pa_delay_ms a) (Fin 0) \<and> \<not> fless (pa_jitter_ms a) (Fin 0)"
  using assms by (auto simp: proxy_refuses_def proxy_setup_of_def rbind_Inr_iff imp_ok_def in_unit_def split: if_splits)

section \<open>The TCP relay\<close>

text \<open>
  A side is the device that has connected or the server the relay has connected to. For each side: the bytes that have come from it in
  all and those not read yet, the end of its stream, the bytes given to its connection, whether that connection is
  open, and whether the loop that copies from it runs.
\<close>

datatype side = Device | Server

fun other_side :: "side \<Rightarrow> side" where
  "other_side Device = Server"
| "other_side Server = Device"

record relay =
  rl_came :: "side \<Rightarrow> bytes"
  rl_unread :: "side \<Rightarrow> bytes"
  rl_eof :: "side \<Rightarrow> bool"
  rl_gave :: "side \<Rightarrow> bytes"
  rl_open :: "side \<Rightarrow> bool"
  rl_runs :: "side \<Rightarrow> bool"

definition relay_init :: relay where
  "relay_init = \<lparr>rl_came = (\<lambda>_. []), rl_unread = (\<lambda>_. []), rl_eof = (\<lambda>_. False), rl_gave = (\<lambda>_. []), rl_open = (\<lambda>_. True), rl_runs = (\<lambda>_. True)\<rparr>"

text \<open>Bytes come in while the connection is open; \<open>read(65536)\<close> takes some of them; what is written to a closed connection is dropped.\<close>

definition relay_come :: "side \<Rightarrow> bytes \<Rightarrow> relay \<Rightarrow> relay" where
  "relay_come x bs r = r\<lparr>rl_came := (rl_came r)(x := rl_came r x @ bs), rl_unread := (rl_unread r)(x := rl_unread r x @ bs)\<rparr>"

definition relay_copy :: "side \<Rightarrow> nat \<Rightarrow> relay \<Rightarrow> relay" where
  "relay_copy x n r =
     (let chunk = take n (rl_unread r x); y = other_side x; r' = r\<lparr>rl_unread := (rl_unread r)(x := drop n (rl_unread r x))\<rparr> in
      if rl_open r y then r'\<lparr>rl_gave := (rl_gave r)(y := rl_gave r y @ chunk)\<rparr> else r')"

text \<open>The \<open>finally\<close> of a loop closes the connection it writes to, which also ends what is read from there.\<close>

definition relay_close :: "side \<Rightarrow> relay \<Rightarrow> relay" where
  "relay_close x r = r\<lparr>rl_open := (rl_open r)(x := False), rl_eof := (rl_eof r)(x := True)\<rparr>"

definition relay_end :: "side \<Rightarrow> relay \<Rightarrow> relay" where
  "relay_end x r = relay_close (other_side x) (r\<lparr>rl_runs := (rl_runs r)(x := False)\<rparr>)"

text \<open>
  A step: bytes come, a peer ends its stream, a connection is lost, a loop copies a chunk of at most 65536 bytes, ends at the end of
  the stream, or ends by an error of either connection.
\<close>

inductive relay_step :: "relay \<Rightarrow> relay \<Rightarrow> bool" where
  come: "rl_open r x \<Longrightarrow> \<not> rl_eof r x \<Longrightarrow> relay_step r (relay_come x bs r)"
| finish: "relay_step r (r\<lparr>rl_eof := (rl_eof r)(x := True)\<rparr>)"
| lost: "relay_step r (relay_close x r)"
| copy: "rl_runs r x \<Longrightarrow> rl_unread r x \<noteq> [] \<Longrightarrow> 0 < n \<Longrightarrow> n \<le> 65536 \<Longrightarrow> relay_step r (relay_copy x n r)"
| at_end: "rl_runs r x \<Longrightarrow> rl_unread r x = [] \<Longrightarrow> rl_eof r x \<Longrightarrow> relay_step r (relay_end x r)"
| failed: "rl_runs r x \<Longrightarrow> \<not> rl_open r x \<or> \<not> rl_open r (other_side x) \<Longrightarrow> relay_step r (relay_end x r)"

inductive_cases relay_stepE: "relay_step r t"

inductive relay_reachable :: "relay \<Rightarrow> bool" where
  start: "relay_reachable relay_init"
| step: "relay_reachable r \<Longrightarrow> relay_step r t \<Longrightarrow> relay_reachable t"

lemma other_other [simp]: "other_side (other_side x) = x"
  by (cases x) simp_all

lemma other_neq [simp]: "other_side x \<noteq> x" "x \<noteq> other_side x"
  by (cases x, simp_all)+

lemma other_inj [simp]: "other_side x = other_side y \<longleftrightarrow> x = y"
  by (cases x; cases y) simp_all

text \<open>
  The invariant: what was given to a side is a beginning of what came from the other; with its connection open, nothing else was read; and a
  loop that has ended has closed the connection it writes to.
\<close>

definition relay_ok :: "relay \<Rightarrow> bool" where
  "relay_ok r \<longleftrightarrow> (\<forall>x. take (length (rl_gave r (other_side x))) (rl_came r x) = rl_gave r (other_side x)
     \<and> (rl_open r (other_side x) \<longrightarrow> rl_came r x = rl_gave r (other_side x) @ rl_unread r x)
     \<and> (\<not> rl_runs r x \<longrightarrow> \<not> rl_open r (other_side x)))"

lemma take_grow: "take (length g) c = g \<Longrightarrow> take (length g) (c @ bs) = g"
proof -
  assume g: "take (length g) c = g"
  have "length g \<le> length c" using arg_cong [OF g, of length] by simp
  with g show ?thesis by simp
qed

lemma take_min: "take (min (length xs) n) xs = take n xs"
  by (simp add: min_def)

lemma relay_ok_init: "relay_ok relay_init"
  by (simp add: relay_ok_def relay_init_def)

lemma relay_ok_come: "relay_ok r \<Longrightarrow> relay_ok (relay_come x bs r)"
  by (auto simp: relay_ok_def relay_come_def take_grow simp del: take_append)

lemma relay_ok_eof: "relay_ok r \<Longrightarrow> relay_ok (r\<lparr>rl_eof := e\<rparr>)"
  by (simp add: relay_ok_def)

lemma relay_ok_close: "relay_ok r \<Longrightarrow> relay_ok (relay_close x r)"
  by (auto simp: relay_ok_def relay_close_def)

lemma relay_ok_end: "relay_ok r \<Longrightarrow> relay_ok (relay_end x r)"
  by (auto simp: relay_ok_def relay_end_def relay_close_def)

lemma relay_ok_copy:
  assumes "relay_ok r"
  shows "relay_ok (relay_copy x n r)"
proof (cases "rl_open r (other_side x)")
  case True
  have "rl_came r x = (rl_gave r (other_side x) @ take n (rl_unread r x)) @ drop n (rl_unread r x)"
    using assms True by (simp add: relay_ok_def)
  with assms True show ?thesis by (auto simp: relay_ok_def relay_copy_def Let_def take_min)
next
  case False
  with assms show ?thesis by (auto simp: relay_ok_def relay_copy_def Let_def)
qed

lemma relay_reachable_ok: "relay_reachable r \<Longrightarrow> relay_ok r"
proof (induction rule: relay_reachable.induct)
  case (step r t)
  from step.hyps(2) step.IH show ?case
    by (cases rule: relay_step.cases)
      (simp_all add: relay_ok_come relay_ok_eof relay_ok_close relay_ok_end relay_ok_copy)
qed (rule relay_ok_init)

text \<open>
  C40. The relay passes the control channel through untouched: in every order of events, the bytes given to one side are the first of the bytes that
  came from the other, unchanged and in order; and as long as both connections are open they are all of those that
  have been read.
\<close>

theorem relay_transparent:
  assumes "relay_reachable r"
  shows "take (length (rl_gave r (other_side x))) (rl_came r x) = rl_gave r (other_side x)
    \<and> (rl_open r (other_side x) \<longrightarrow> rl_came r x = rl_gave r (other_side x) @ rl_unread r x \<and> rl_runs r x)"
  using relay_reachable_ok [OF assms] by (auto simp: relay_ok_def)

text \<open>C40 after the device has sent five bytes, three of which have been read.\<close>

theorem relay_transparent_witness:
  "relay_reachable (relay_copy Device 3 (relay_come Device [1, 2, 3, 4, 5] relay_init))
   \<and> (let r = relay_copy Device 3 (relay_come Device [1, 2, 3, 4, 5] relay_init) in
      rl_gave r Server = [1, 2, 3] \<and> rl_came r Device = rl_gave r Server @ [4, 5])"
proof -
  let ?r1 = "relay_come Device [1, 2, 3, 4, 5] relay_init" and ?r = "relay_copy Device 3 (relay_come Device [1, 2, 3, 4, 5] relay_init)"
  have "relay_reachable ?r1" by (rule relay_reachable.step [OF start come]) (simp_all add: relay_init_def)
  then have r: "relay_reachable ?r"
    by (rule relay_reachable.step) (rule copy; simp add: relay_come_def relay_init_def)
  have v: "rl_gave ?r Server = [1, 2, 3]" "rl_open ?r Server" "rl_unread ?r Device = [4, 5]"
    by (simp_all add: relay_copy_def relay_come_def relay_init_def Let_def)
  with relay_transparent [OF r, of Device] r show ?thesis by (simp add: Let_def)
qed

end
