(* ===== verification/Sil_Checks.thy ===== *)
theory Sil_Checks
  imports Sil_Scenario "HOL-Library.Sublist"
begin

text \<open>
  \<open>sim/run_sil.py\<close>: how an expectation is decided from the answers of the server, and the loop that polls
  it until it holds or its time is over. What the server answers is an argument; of the result of a check the verdict
  is modelled, not the text that explains it.
\<close>

section \<open>JSON as text\<close>

text \<open>\<open>json.dumps\<close> with its default of ASCII output: other characters are written as UTF-16 escapes.\<close>

definition hex4 :: "int \<Rightarrow> pystr" where
  "hex4 u = [92, 117] @ map hex_digit [u div 4096, u div 256 mod 16, u div 16 mod 16, u mod 16]"

definition dump_char :: "int \<Rightarrow> pystr" where
  "dump_char c =
     (if c = 34 \<or> c = 92 then [92, c]
      else if c = 10 then lit [CHR 0x5C, CHR ''n''] else if c = 13 then lit [CHR 0x5C, CHR ''r''] else if c = 9 then lit [CHR 0x5C, CHR ''t'']
      else if c = 8 then lit [CHR 0x5C, CHR ''b''] else if c = 12 then lit [CHR 0x5C, CHR ''f'']
      else if 32 \<le> c \<and> c < 127 then [c]
      else if c < 0x10000 then hex4 c
      else hex4 (0xD800 + (c - 0x10000) div 0x400) @ hex4 (0xDC00 + (c - 0x10000) mod 0x400))"

definition dump_str :: "pystr \<Rightarrow> pystr" where
  "dump_str s = 34 # concat (map dump_char s) @ [34]"

fun dump_float :: "pyfloat \<Rightarrow> pystr" where
  "dump_float NaN = lit ''NaN''"
| "dump_float (Infty s) = (if s then lit ''-Infinity'' else lit ''Infinity'')"
| "dump_float x = float_repr x"

fun json_dumps :: "json \<Rightarrow> pystr" where
  "json_dumps JNull = lit ''null''"
| "json_dumps (JBool b) = (if b then lit ''true'' else lit ''false'')"
| "json_dumps (JInt i) = py_str_int i"
| "json_dumps (JFloat x) = dump_float x"
| "json_dumps (JStr s) = dump_str s"
| "json_dumps (JList xs) = 91 # join_comma (map json_dumps xs) @ [93]"
| "json_dumps (JObj kvs) = 123 # join_comma (map (\<lambda>(k, v). dump_str k @ lit '': '' @ json_dumps v) kvs) @ [125]"

section \<open>Alerts\<close>

definition alert_text :: "json \<Rightarrow> pystr" where
  "alert_text a = lower_text (json_dumps a)"

definition needles_of :: "json \<Rightarrow> json list res" where
  "needles_of m = (if is_str m then Inr [m] else py_iter m)"

definition alert_matches :: "json \<Rightarrow> json \<Rightarrow> bool res" where
  "alert_matches a m =
     rbind (needles_of m) (\<lambda>ns. Inr (list_ex (\<lambda>n. sublist (lower_text (py_str n)) (alert_text a)) ns))"

text \<open>\<open>Api.alerts\<close>: the alerts in the answer, none when the request failed.\<close>

definition alerts_of :: "json option \<Rightarrow> json list res" where
  "alerts_of answer =
     (case answer of
        None \<Rightarrow> Inr []
      | Some data \<Rightarrow>
          rbind (py_iter (if is_obj data then py_or (py_or (field data ''alerts'') (field data ''items'')) (JList []) else data)) (\<lambda>as.
          Inr (filter is_obj as)))"

text \<open>\<open>[a for a in alerts if alert_device(a) in (None, did)]\<close> when the check names a device.\<close>

definition of_device :: "json \<Rightarrow> json list \<Rightarrow> json list" where
  "of_device did as = (if truthy did then filter (\<lambda>a. alert_device a = JNull \<or> alert_device a = did) as else as)"

definition check_alert :: "bool \<Rightarrow> json option \<Rightarrow> json \<Rightarrow> json \<Rightarrow> bool res" where
  "check_alert want_open answer did params =
     rbind (alerts_of answer) (\<lambda>as.
     rbind (rmap (\<lambda>a. rbind (alert_matches a (field params ''match'')) (\<lambda>b. Inr (b, a))) as) (\<lambda>ms.
     Inr (list_ex (\<lambda>a. alert_is_open a = want_open) (of_device did (map snd (filter fst ms))))))"

definition check_severity :: "json option \<Rightarrow> json \<Rightarrow> json \<Rightarrow> bool res" where
  "check_severity answer did params =
     rbind (alerts_of answer) (\<lambda>as.
     Inr (of_device did (filter (\<lambda>a. lower_text (py_str (field_or a ''severity'' (JStr []))) = lower_text (text_of (field params ''severity''))) as) = []))"

section \<open>Devices\<close>

text \<open>\<open>"online"\<close>, \<open>"has_telemetry"\<close>, \<open>"state"\<close>, \<open>"fault_flags_any"\<close> and \<open>"uptime_lt_s"\<close> of \<open>device_state\<close>: whether each is in order.\<close>

definition online_ok :: "json \<Rightarrow> json \<Rightarrow> bool" where
  "online_ok dev p = (has_key p ''online'' \<longrightarrow> truthy (field dev ''online'') = truthy (field p ''online''))"

definition telemetry_ok :: "json \<Rightarrow> json \<Rightarrow> bool" where
  "telemetry_ok dev p = (truthy (field p ''has_telemetry'') \<longrightarrow> truthy (latest_of dev))"

definition state_ok :: "json \<Rightarrow> json \<Rightarrow> bool res" where
  "state_ok dev p =
     (if has_key p ''state'' then
        rbind (if is_str (field p ''state'') then Inr [field p ''state''] else py_iter (field p ''state'')) (\<lambda>want.
        Inr (norm_state (field_or dev ''state'' (field (latest_of dev) ''state'')) \<in> set want))
      else Inr True)"

definition flags_ok :: "json \<Rightarrow> json \<Rightarrow> bool res" where
  "flags_ok dev p =
     (if has_key p ''fault_flags_any'' then
        rbind (fault_names_from (field_or (latest_of dev) ''fault_flags'' (field dev ''fault_flags''))) (\<lambda>flags.
        rbind (py_iter (field p ''fault_flags_any'')) (\<lambda>want.
        if list_all hashable want then Inr (list_ex (\<lambda>n. n \<in> set (map JStr flags)) want) else Inl TypeError))
      else Inr True)"

definition uptime_ok :: "json \<Rightarrow> json \<Rightarrow> bool res" where
  "uptime_ok dev p =
     (if has_key p ''uptime_lt_s'' then
        (let up0 = field dev ''uptime_s'';
             up = (if up0 = JNull \<and> is_obj (field dev ''stats'') then field (field dev ''stats'') ''uptime_s'' else up0)
         in if up = JNull then Inr False
            else rbind (py_float up) (\<lambda>x. rbind (py_float (field p ''uptime_lt_s'')) (\<lambda>y. Inr (\<not> fle y x))))
      else Inr True)"

definition check_state :: "json \<Rightarrow> json \<Rightarrow> bool res" where
  "check_state dev p =
     rbind (state_ok dev p) (\<lambda>a. rbind (flags_ok dev p) (\<lambda>b. rbind (uptime_ok dev p) (\<lambda>c.
     Inr (online_ok dev p \<and> telemetry_ok dev p \<and> a \<and> b \<and> c))))"

definition check_fw :: "json \<Rightarrow> json \<Rightarrow> bool" where
  "check_fw dev p = (case fw_str (py_or (field dev ''fw_version'') (field dev ''fw'')) of
     Some v \<Rightarrow> JStr v = field p ''version'' | None \<Rightarrow> False)"

definition check_config :: "json \<Rightarrow> json \<Rightarrow> bool res" where
  "check_config dev p =
     rbind (config_version_of dev) (\<lambda>v0.
     case v0 of
       None \<Rightarrow> Inr False
     | Some v \<Rightarrow>
         rbind (py_int (field_or p ''min'' (JInt 1))) (\<lambda>least.
         if v < least then (if has_key p ''min'' then Inr False else Inl KeyError)
         else rbind (config_acked dev) (\<lambda>ack. Inr (\<not> (truthy (field p ''acked'') \<and> ack = Some False)))))"

definition check_loss :: "json \<Rightarrow> json \<Rightarrow> bool res" where
  "check_loss dev p =
     rbind (loss_pct_of dev) (\<lambda>lp.
     case lp of
       None \<Rightarrow> Inr False
     | Some x \<Rightarrow> rbind (py_float (field p ''value'')) (\<lambda>v. Inr (if truthy (field p ''invert'') then fle x v else fless v x)))"

definition check_diagnosis :: "json option \<Rightarrow> bool res" where
  "check_diagnosis answer =
     (case answer of
        None \<Rightarrow> Inr False
      | Some d \<Rightarrow> rbind (py_get (py_or d (JObj [])) (lit ''probable_causes'') JNull) (\<lambda>cs.
          if truthy cs \<and> \<not> is_str cs \<and> \<not> is_list cs \<and> \<not> is_obj cs then Inl TypeError else Inr (truthy cs)))"

text \<open>
  The answers of the server to the requests of one check: the device (nothing when the request failed), all alerts, the open
  alerts, and the diagnosis.
\<close>

record answers =
  an_device :: "json option"
  an_alerts :: "json option"
  an_open :: "json option"
  an_diagnosis :: "json option"

text \<open>
  A device that is missing or empty is unknown to the server; an answer that is neither empty nor an object has no
  \<open>get\<close>, and the check raises.
\<close>

definition with_device :: "answers \<Rightarrow> (json \<Rightarrow> bool res) \<Rightarrow> bool res" where
  "with_device an f =
     (case an_device an of
        Some dev \<Rightarrow> if truthy dev then (if is_obj dev then f dev else Inl AttributeError) else Inr False
      | None \<Rightarrow> Inr False)"

definition eval_check :: "answers \<Rightarrow> json \<Rightarrow> bool res" where
  "eval_check an e =
     (let chk = text_of (field e ''check''); did = field e ''device''; p = params_of e in
      if chk = lit ''alert_open'' then check_alert True (an_alerts an) did p
      else if chk = lit ''alert_resolved'' then check_alert False (an_alerts an) did p
      else if chk = lit ''device_state'' then with_device an (\<lambda>dev. check_state dev p)
      else if chk = lit ''device_fw'' then with_device an (\<lambda>dev. Inr (check_fw dev p))
      else if chk = lit ''config_version'' then with_device an (\<lambda>dev. check_config dev p)
      else if chk = lit ''loss_pct_gt'' then with_device an (\<lambda>dev. check_loss dev p)
      else if chk = lit ''diagnosis_nonempty'' then check_diagnosis (an_diagnosis an)
      else if chk = lit ''no_alerts_of_severity'' then check_severity (an_open an) did p
      else Inr False)"

section \<open>Polling\<close>

text \<open>
  \<open>eval_with_grace\<close>: the \<open>n\<close>-th evaluation and the reading of the clock after it; a check that raises
  does not hold. The loop may not end when the clock stands still.
\<close>

definition holds :: "answers \<Rightarrow> json \<Rightarrow> bool" where
  "holds an e \<longleftrightarrow> eval_check an e = Inr True"

partial_function (option) poll_from :: "(nat \<Rightarrow> answers) \<Rightarrow> (nat \<Rightarrow> pyfloat) \<Rightarrow> pyfloat \<Rightarrow> json \<Rightarrow> nat \<Rightarrow> bool option" where
  "poll_from an clock deadline e n =
     (if holds (an n) e \<or> fle deadline (clock n) then Some (holds (an n) e) else poll_from an clock deadline e (n + 1))"

definition eval_with_grace :: "(nat \<Rightarrow> answers) \<Rightarrow> (nat \<Rightarrow> pyfloat) \<Rightarrow> pyfloat \<Rightarrow> pyfloat \<Rightarrow> json \<Rightarrow> bool option" where
  "eval_with_grace an clock now grace e = poll_from an clock (fadd now grace) e 0"

end
