(* ===== verification/Sil_Laws.thy ===== *)
theory Sil_Laws
  imports Sil_Checks
begin

text \<open>
  What the validation of a scenario guarantees: its devices are distinct, everything the timeline and the
  expectations refer to exists, and the server accepts the names of the faults to set; how the names and version strings of the runner
  relate to those of the protocol; and how long an expectation is polled.
\<close>

section \<open>Requirements\<close>

lemma require_iff [simp]: "require b = Inr () \<longleftrightarrow> b"
  by (simp add: require_def)

lemma rthen_iff [simp]: "rthen a b = Inr x \<longleftrightarrow> a = Inr () \<and> b = Inr x"
  by (cases a) (auto simp: rthen_def)

lemma requires_iff: "requires rs = Inr () \<longleftrightarrow> (\<forall>r\<in>set rs. r = Inr ())"
  by (induction rs) auto

lemma py_in_keys_True: "py_in_keys x (map (\<lambda>n. (n, ())) names) = Inr True \<longleftrightarrow> (\<exists>s. x = JStr s \<and> s \<in> set names)"
  by (cases x) (auto simp: map_of_eq_None_iff image_image)

lemma require_in_iff: "require_in x names = Inr () \<longleftrightarrow> (\<exists>s. x = JStr s \<and> s \<in> set names)"
  unfolding require_in_def in_set_def py_in_keys_True [symmetric] by (auto simp: rbind_Inr_iff)

section \<open>What was checked\<close>

lemma check_devices_ids:
  assumes "check_devices sc ids ds = Inr (ids', ws)" "distinct ids"
  shows "ids' = ids @ map (\<lambda>d. text_of (field d ''id'')) ds \<and> distinct ids' \<and> (\<forall>d\<in>set ds. valid_id (field d ''id''))"
  using assms
proof (induction ds arbitrary: ids ws)
  case (Cons d ds)
  from Cons.prems(1) obtain w ws' where w: "check_device sc ids d = Inr w"
    "check_devices sc (ids @ [text_of (field d ''id'')]) ds = Inr (ids', ws')"
    by (auto simp: rbind_Inr_iff)
  from w(1) have c: "valid_id (field d ''id'')" "text_of (field d ''id'') \<notin> set ids"
    by (simp_all add: check_device_def Let_def requires_iff)
  have "distinct (ids @ [text_of (field d ''id'')])" using c(2) Cons.prems(2) by simp
  note ih = Cons.IH [OF w(2) this]
  have "ids @ map (\<lambda>d. text_of (field d ''id'')) (d # ds) = (ids @ [text_of (field d ''id'')]) @ map (\<lambda>d. text_of (field d ''id'')) ds"
    by simp
  with ih c(1) show ?case by (metis set_ConsD)
qed simp

lemma check_each_all: "check_each f i xs = Inr ws \<Longrightarrow> x \<in> set xs \<Longrightarrow> \<exists>j w. f j x = Inr w"
proof (induction xs arbitrary: i ws)
  case (Cons y ys)
  then show ?case by (auto simp: rbind_Inr_iff)
qed simp

lemma check_event_ok:
  assumes "check_event sc ids i ev = Inr w"
  shows "\<exists>act. field ev ''action'' = JStr act \<and> act \<in> set ACTIONS
    \<and> (act \<in> set DEVICE_ACTIONS \<longrightarrow> (\<exists>d\<in>set ids. field ev ''device'' = JStr d))
    \<and> check_action sc act (params_of ev) = Inr ()"
proof -
  have r: "check_timed ev ''action'' ACTIONS = Inr ()"
    "(if text_of (field ev ''action'') \<in> set DEVICE_ACTIONS then require_in (field ev ''device'') ids else Inr ()) = Inr ()"
    "check_action sc (text_of (field ev ''action'')) (params_of ev) = Inr ()"
    using assms by (simp_all add: check_event_def requires_iff)
  from r(1) obtain act where a: "field ev ''action'' = JStr act" "act \<in> set ACTIONS"
    by (auto simp: check_timed_def requires_iff require_in_iff)
  with r(2,3) show ?thesis by (auto simp: text_of_def require_in_iff)
qed

lemma check_expectation_ok:
  assumes "check_expectation sc ids i e = Inr w"
  shows "\<exists>chk. field e ''check'' = JStr chk \<and> chk \<in> set CHECKS
    \<and> (chk \<in> set DEVICE_CHECKS \<longrightarrow> (\<exists>d\<in>set ids. field e ''device'' = JStr d))"
proof -
  have r: "check_timed e ''check'' CHECKS = Inr ()"
    "(if text_of (field e ''check'') \<in> set DEVICE_CHECKS then require_in (field e ''device'') ids else Inr ()) = Inr ()"
    using assms by (simp_all add: check_expectation_def requires_iff)
  from r(1) obtain chk where a: "field e ''check'' = JStr chk" "chk \<in> set CHECKS"
    by (auto simp: check_timed_def requires_iff require_in_iff)
  with r(2) show ?thesis by (auto simp: text_of_def require_in_iff)
qed

text \<open>The ids of the devices of a scenario.\<close>

definition device_ids :: "json \<Rightarrow> pystr list" where
  "device_ids sc = map (\<lambda>d. text_of (field d ''id'')) (items_of (field sc ''devices''))"

lemma validated:
  assumes "validate_scenario sc = Inr ws"
  shows "distinct (device_ids sc)" "device_ids sc \<noteq> []" "d \<in> set (items_of (field sc ''devices'')) \<Longrightarrow> valid_id (field d ''id'')"
    "ev \<in> set (items_of (field sc ''timeline'')) \<Longrightarrow> \<exists>i w. check_event sc (device_ids sc) i ev = Inr w"
    "e \<in> set (items_of (field sc ''expect'')) \<Longrightarrow> \<exists>i w. check_expectation sc (device_ids sc) i e = Inr w"
proof -
  obtain ids ws1 ws2 ws3 where c: "full_list (field sc ''devices'')"
    "check_devices sc [] (items_of (field sc ''devices'')) = Inr (ids, ws1)"
    "check_each (check_event sc ids) 0 (items_of (field sc ''timeline'')) = Inr ws2"
    "check_each (check_expectation sc ids) 0 (items_of (field sc ''expect'')) = Inr ws3"
    using assms by (auto simp: validate_scenario_def requires_iff rbind_Inr_iff)
  from check_devices_ids [OF c(2)] have i: "ids = device_ids sc" "distinct (device_ids sc)"
    "\<forall>d\<in>set (items_of (field sc ''devices'')). valid_id (field d ''id'')" by (auto simp: device_ids_def)
  show "distinct (device_ids sc)" "d \<in> set (items_of (field sc ''devices'')) \<Longrightarrow> valid_id (field d ''id'')" using i by simp_all
  show "device_ids sc \<noteq> []" using c(1) by (auto simp: device_ids_def full_list_def items_of_def split: json.splits)
  show "ev \<in> set (items_of (field sc ''timeline'')) \<Longrightarrow> \<exists>i w. check_event sc (device_ids sc) i ev = Inr w"
    using check_each_all [OF c(3)] i(1) by simp
  show "e \<in> set (items_of (field sc ''expect'')) \<Longrightarrow> \<exists>i w. check_expectation sc (device_ids sc) i e = Inr w"
    using check_each_all [OF c(4)] i(1) by simp
qed

section \<open>Fault names\<close>

lemma fault_tables: "FAULT_NAMES = FAULT_FLAGS" "SIL_STATE_NAMES = STATE_NAMES"
  by (simp_all add: FAULT_NAMES_def FAULT_FLAGS_def SIL_STATE_NAMES_def STATE_NAMES_def)

lemma fault_name_plain: "n \<in> set (map fst FAULT_FLAGS) \<Longrightarrow> map_of FAULT_FLAGS (py_upper (py_strip n)) \<noteq> None"
  using fault_flags_names by (auto simp: list_all_iff)

lemma names_to_flags_from_runs:
  "set ns \<subseteq> set (map fst FAULT_FLAGS) \<Longrightarrow> \<exists>f. names_to_flags_from out ns = Inr f"
proof (induction ns arbitrary: out)
  case (Cons n ns)
  then have "map_of FAULT_FLAGS (py_upper (py_strip n)) \<noteq> None" by (intro fault_name_plain) simp
  with Cons show ?case by (auto simp: Let_def)
qed simp

lemma fault_action_names:
  assumes "check_action sc (lit ''fault'') params = Inr ()"
  shows "\<exists>ns f. field params ''set'' = JList (map JStr ns) \<and> ns \<noteq> [] \<and> names_to_flags ns = Inr f"
proof -
  have c: "full_list (field params ''set'')" "\<forall>n\<in>set (items_of (field params ''set'')). \<exists>s. n = JStr s \<and> s \<in> set (map fst FAULT_NAMES)"
    using assms by (simp_all add: check_action_def requires_iff require_in_iff)
  then obtain xs where xs: "field params ''set'' = JList xs"
    by (auto simp: full_list_def elim: is_list.elims)
  have n: "\<forall>n\<in>set xs. n = JStr (text_of n) \<and> text_of n \<in> set (map fst FAULT_FLAGS)"
  proof
    fix n assume "n \<in> set xs"
    with c(2) xs have "\<exists>t. n = JStr t \<and> t \<in> set (map fst FAULT_NAMES)" by (simp add: items_of_def)
    then obtain t where "n = JStr t" "t \<in> set (map fst FAULT_NAMES)" by blast
    then show "n = JStr (text_of n) \<and> text_of n \<in> set (map fst FAULT_FLAGS)" by (simp add: text_of_def fault_tables(1))
  qed
  then have "xs = map JStr (map text_of xs)" by (simp add: map_idI)
  moreover have "\<exists>f. names_to_flags (map text_of xs) = Inr f"
    unfolding names_to_flags_def by (rule names_to_flags_from_runs) (use n in auto)
  moreover have "map text_of xs \<noteq> []" using c(1) xs by (simp add: full_list_def)
  ultimately show ?thesis using xs by metis
qed

section \<open>Polling\<close>

lemma poll_ends:
  assumes "fle deadline (clock (n + k))"
  shows "\<exists>m\<ge>n. m \<le> n + k \<and> poll_from an clock deadline e n = Some (holds (an m) e)
    \<and> (holds (an m) e \<or> fle deadline (clock m)) \<and> (\<forall>j. n \<le> j \<and> j < m \<longrightarrow> \<not> holds (an j) e \<and> \<not> fle deadline (clock j))"
  using assms
proof (induction k arbitrary: n)
  case 0
  then show ?case by (intro exI [of _ n]) (auto simp: poll_from.simps [of an clock deadline e n])
next
  case (Suc k)
  show ?case
  proof (cases "holds (an n) e \<or> fle deadline (clock n)")
    case True
    then show ?thesis by (intro exI [of _ n]) (auto simp: poll_from.simps [of an clock deadline e n])
  next
    case False
    have "fle deadline (clock (n + 1 + k))" using Suc.prems by simp
    from Suc.IH [OF this] obtain m where m: "n + 1 \<le> m" "m \<le> n + 1 + k"
      "poll_from an clock deadline e (n + 1) = Some (holds (an m) e)" "holds (an m) e \<or> fle deadline (clock m)"
      "\<forall>j. n + 1 \<le> j \<and> j < m \<longrightarrow> \<not> holds (an j) e \<and> \<not> fle deadline (clock j)" by blast
    have "poll_from an clock deadline e n = Some (holds (an m) e)"
      using False m(3) by (simp add: poll_from.simps [of an clock deadline e n])
    moreover have "\<forall>j. n \<le> j \<and> j < m \<longrightarrow> \<not> holds (an j) e \<and> \<not> fle deadline (clock j)"
      using False m(5) by (metis Suc_eq_plus1 Suc_leI le_neq_implies_less)
    ultimately show ?thesis using m(1,2,4) by (intro exI [of _ m]) simp
  qed
qed

section \<open>Properties\<close>

text \<open>
  C32. A validated scenario is closed: its device ids are distinct, not empty and ASCII; every action and
  check is one the runner knows; those about a device name a device of the scenario; and the names under
  \<open>set\<close> of a \<open>fault\<close> action, at least one, are names the server turns into flags. The names under
  \<open>clear\<close>, of this action or of \<open>clear_fault\<close>, are not looked at.
\<close>

theorem validated_scenario_closed:
  assumes "validate_scenario sc = Inr ws"
  shows "distinct (device_ids sc) \<and> device_ids sc \<noteq> [] \<and> (\<forall>i\<in>set (device_ids sc). i \<noteq> [] \<and> length i \<le> 12 \<and> is_ascii i)
    \<and> (\<forall>ev\<in>set (items_of (field sc ''timeline'')). \<exists>act\<in>set ACTIONS. field ev ''action'' = JStr act
        \<and> (act \<in> set DEVICE_ACTIONS \<longrightarrow> (\<exists>d\<in>set (device_ids sc). field ev ''device'' = JStr d))
        \<and> (act = lit ''fault'' \<longrightarrow> (\<exists>ns f. field (params_of ev) ''set'' = JList (map JStr ns) \<and> ns \<noteq> [] \<and> names_to_flags ns = Inr f)))
    \<and> (\<forall>e\<in>set (items_of (field sc ''expect'')). \<exists>chk\<in>set CHECKS. field e ''check'' = JStr chk
        \<and> (chk \<in> set DEVICE_CHECKS \<longrightarrow> (\<exists>d\<in>set (device_ids sc). field e ''device'' = JStr d)))"
proof (intro conjI ballI)
  note v = validated [OF assms]
  show "distinct (device_ids sc)" "device_ids sc \<noteq> []" by (rule v)+
  show "i \<noteq> []" "length i \<le> 12" "is_ascii i" if "i \<in> set (device_ids sc)" for i
    using that v(3) by (auto simp: device_ids_def valid_id_def)
  show "\<exists>act\<in>set ACTIONS. field ev ''action'' = JStr act
        \<and> (act \<in> set DEVICE_ACTIONS \<longrightarrow> (\<exists>d\<in>set (device_ids sc). field ev ''device'' = JStr d))
        \<and> (act = lit ''fault'' \<longrightarrow> (\<exists>ns f. field (params_of ev) ''set'' = JList (map JStr ns) \<and> ns \<noteq> [] \<and> names_to_flags ns = Inr f))"
    if "ev \<in> set (items_of (field sc ''timeline''))" for ev
    using v(4) [OF that] check_event_ok fault_action_names by blast
  show "\<exists>chk\<in>set CHECKS. field e ''check'' = JStr chk
        \<and> (chk \<in> set DEVICE_CHECKS \<longrightarrow> (\<exists>d\<in>set (device_ids sc). field e ''device'' = JStr d))"
    if "e \<in> set (items_of (field sc ''expect''))" for e
    using v(5) [OF that] check_expectation_ok by blast
qed

text \<open>A scenario with two devices whose ids have twelve characters.\<close>

definition sample_scenario :: json where
  "sample_scenario = JObj
     [(lit ''name'', JStr (lit ''pair'')), (lit ''description'', JStr []), (lit ''duration_s'', JInt 20),
      (lit ''backend'', JObj [(lit ''http'', JStr (lit ''http://localhost:8780'')), (lit ''udp_port'', JInt 8781), (lit ''tcp_port'', JInt 8782)]),
      (lit ''devices'', JList [JObj [(lit ''id'', JStr (lit ''ENGINE-ECU-1''))], JObj [(lit ''id'', JStr (lit ''ENGINE-ECU-2''))]]),
      (lit ''timeline'', JList [JObj [(lit ''at_s'', JInt 5), (lit ''action'', JStr (lit ''fault'')), (lit ''device'', JStr (lit ''ENGINE-ECU-2'')),
         (lit ''params'', JObj [(lit ''set'', JList [JStr (lit ''OVERTEMP'')])])]]),
      (lit ''expect'', JList [JObj [(lit ''at_s'', JInt 25), (lit ''check'', JStr (lit ''alert_open'')), (lit ''device'', JStr (lit ''ENGINE-ECU-2'')),
         (lit ''params'', JObj [(lit ''match'', JStr (lit ''overtemp''))])]])]"

lemma sample_scenario_valid:
  "validate_scenario sample_scenario = Inr [lit ''expect[0] at_s 25 is after duration_s (will still be evaluated)'']"
  "device_ids sample_scenario = [lit ''ENGINE-ECU-1'', lit ''ENGINE-ECU-2'']"
  by code_simp+

text \<open>C32 at a scenario with two devices and an expectation after its end.\<close>

theorem validated_scenario_closed_witness:
  "distinct (device_ids sample_scenario) \<and> length (device_ids sample_scenario) = 2"
  using validated_scenario_closed [OF sample_scenario_valid(1)] sample_scenario_valid(2) by simp

text \<open>
  The names of faults to clear are not looked at: a scenario that clears a fault no one knows is accepted, and the
  server has no flag of that name.
\<close>

theorem unknown_cleared_fault_accepted:
  "check_action sc (lit ''clear_fault'') (JObj [(lit ''clear'', JList [JStr (lit ''BOGUS'')])]) = Inr ()
   \<and> check_action sc (lit ''fault'') (JObj [(lit ''set'', JList [JStr (lit ''OVERTEMP'')]), (lit ''clear'', JList [JStr (lit ''BOGUS'')])]) = Inr ()
   \<and> names_to_flags [lit ''BOGUS''] = Inl ProtocolError"
  by (intro conjI) code_simp+

text \<open>
  Validation accepts devices the server cannot tell apart: an accepted scenario may have two ids of twelve
  characters that differ only in the last one, and every frame of the one is byte for byte the frame of the other.
\<close>

theorem validated_ids_may_collide:
  assumes "validate_scenario sc = Inr ws" "a \<in> set (device_ids sc)" "length a = 12" "0 \<notin> set a"
    "length b = 12" "take 11 b = take 11 a"
  shows "encode mt a sq ts fw p = encode mt b sq ts fw p \<and> cstr (pad a 12) = take 11 a"
proof -
  have "is_ascii a" using assms(2) validated(3) [OF assms(1)] by (auto simp: device_ids_def valid_id_def)
  from long_device_ids_collide [OF this assms(4), of b] assms(3,5,6) show ?thesis by simp
qed

text \<open>An example: two devices of one accepted scenario.\<close>

theorem validated_ids_may_collide_witness:
  "lit ''ENGINE-ECU-1'' \<in> set (device_ids sample_scenario) \<and> lit ''ENGINE-ECU-2'' \<in> set (device_ids sample_scenario)
   \<and> encode 21 (lit ''ENGINE-ECU-1'') 7 1000 65536 (Raw []) = encode 21 (lit ''ENGINE-ECU-2'') 7 1000 65536 (Raw [])"
proof -
  have d: "lit ''ENGINE-ECU-1'' \<in> set (device_ids sample_scenario)" "length (lit ''ENGINE-ECU-1'') = 12" "0 \<notin> set (lit ''ENGINE-ECU-1'')"
    "length (lit ''ENGINE-ECU-2'') = 12" "take 11 (lit ''ENGINE-ECU-2'') = take 11 (lit ''ENGINE-ECU-1'')"
    by (simp_all add: sample_scenario_valid(2) lit_def)
  from validated_ids_may_collide [OF sample_scenario_valid(1) d] d(1) sample_scenario_valid(2) show ?thesis by simp
qed

text \<open>
  The runner reads the protocol as the server writes it: its fault names, its state names and its
  reading of a packed firmware version are those of the protocol module.
\<close>

lemma runner_reads_protocol:
  "FAULT_NAMES = FAULT_FLAGS" "SIL_STATE_NAMES = STATE_NAMES" "fw_str (JInt v) = Some (fw_decode v)"
  "fault_names_from (JInt v) = Inr (flags_to_names v)"
  by (simp_all add: fault_tables fw_str_def fw_decode_def int_of_def fault_names_from_def flags_to_names_def)

text \<open>
  C34. An expectation is polled for exactly its grace period: the loop returns the verdict of the first evaluation
  that holds or after which the clock shows the deadline, and there is one as soon as the clock reaches it. It neither
  gives up earlier nor evaluates once more later.
\<close>

theorem polling_ends:
  assumes "fle (fadd now grace) (clock N)"
  shows "\<exists>n\<le>N. eval_with_grace an clock now grace e = Some (holds (an n) e)
    \<and> (holds (an n) e \<or> fle (fadd now grace) (clock n))
    \<and> (\<forall>j<n. \<not> holds (an j) e \<and> \<not> fle (fadd now grace) (clock j))"
  using poll_ends [of "fadd now grace" clock 0 N an e] assms by (simp add: eval_with_grace_def)

text \<open>
  C34 at a clock that shows half a second more each time, with a grace of 5 seconds and a server that knows the new
  firmware from the third answer on: the check is not given up before.
\<close>

theorem polling_ends_witness:
  "eval_with_grace
     (\<lambda>n. \<lparr>an_device = (if n < 2 then None else Some (JObj [(lit ''fw_version'', JStr (lit ''1.1.0''))])),
          an_alerts = None, an_open = None, an_diagnosis = None\<rparr>)
     (\<lambda>n. Fin (100 + of_nat n / 2)) (Fin 100) (Fin 5)
     (JObj [(lit ''check'', JStr (lit ''device_fw'')), (lit ''params'', JObj [(lit ''version'', JStr (lit ''1.1.0''))])]) = Some True"
proof -
  let ?e = "JObj [(lit ''check'', JStr (lit ''device_fw'')), (lit ''params'', JObj [(lit ''version'', JStr (lit ''1.1.0''))])]"
  let ?a = "\<lambda>d. \<lparr>an_device = d, an_alerts = None, an_open = None, an_diagnosis = None\<rparr>"
  let ?dev = "Some (JObj [(lit ''fw_version'', JStr (lit ''1.1.0''))])"
  let ?an = "\<lambda>n :: nat. ?a (if n < 2 then None else ?dev)"
  let ?clock = "\<lambda>n :: nat. Fin (100 + of_nat n / 2)"
  have "fle (fadd (Fin 100) (Fin 5)) (?clock 10)" by code_simp
  from polling_ends [where clock = ?clock, OF this, of ?an ?e]
  obtain n where n: "eval_with_grace ?an ?clock (Fin 100) (Fin 5) ?e = Some (holds (?an n) ?e)"
    "holds (?an n) ?e \<or> fle (fadd (Fin 100) (Fin 5)) (?clock n)" by blast
  have h: "\<not> holds (?a None) ?e" "holds (?a ?dev) ?e" by code_simp+
  have "\<not> fle (fadd (Fin 100) (Fin 5)) (?clock 0)" "\<not> fle (fadd (Fin 100) (Fin 5)) (?clock 1)" by code_simp+
  then have "\<not> (holds (?an 0) ?e \<or> fle (fadd (Fin 100) (Fin 5)) (?clock 0))"
    "\<not> (holds (?an 1) ?e \<or> fle (fadd (Fin 100) (Fin 5)) (?clock 1))" using h(1) by simp_all
  then have "n \<noteq> 0" "n \<noteq> 1" using n(2) by (metis, metis)
  then have "\<not> n < 2" by simp
  with n(1) h(2) show ?thesis by simp
qed

text \<open>
  An alert that an operator has acknowledged counts as resolved for the runner, although for the server it is
  still open.
\<close>

theorem acked_counts_as_resolved:
  assumes "field a ''status'' = JStr (lit ''acked'')" "is_obj a" "is_obj params"
    "alert_matches a (field params ''match'') = Inr True" "field a ''device_id'' = JStr d" "d \<noteq> []"
  shows "check_alert False (Some (JList [a])) (JStr d) params = Inr True"
proof -
  have l: "lower_text (lit ''acked'') = lit ''acked''" by code_simp
  have "field_or a ''status'' (JStr []) = JStr (lit ''acked'')"
    using assms(1) by (auto simp: field_def field_or_def split: json.splits option.splits)
  then have "\<not> alert_is_open a" by (simp add: alert_is_open_def Let_def l)
  with assms show ?thesis by (simp add: check_alert_def alerts_of_def of_device_def alert_device_def py_or_def)
qed

end
