(* ===== verification/Sil_Runner.thy ===== *)
theory Sil_Runner
  imports Sil_Laws "HOL-Library.Multiset"
begin

text \<open>
  \<open>sim/run_sil.py\<close>: what the runner sends to the server for an action of the timeline, the command lines
  of the proxy and of an agent, the choice of the ports, and the contents of the report, with what it says when the results belong to a
  beginning of the schedule. The run itself is in \<open>Sil_Run\<close>.
\<close>

section \<open>Actions\<close>

datatype verb = Post | Put | PostProxy

type_synonym request = "verb \<times> pystr \<times> json"

text \<open>\<open>run_action\<close>: the request of an action; an action that needs the proxy raises without one.\<close>

definition device_path :: "json \<Rightarrow> string \<Rightarrow> pystr" where
  "device_path ev what = lit ''/api/devices/'' @ py_str (field ev ''device'') @ lit what"

definition sub_item :: "json \<Rightarrow> string \<Rightarrow> json res" where
  "sub_item p k = (if has_key p k then Inr (field p k) else Inl KeyError)"

definition run_action :: "bool \<Rightarrow> json \<Rightarrow> request option res" where
  "run_action has_proxy ev =
     (let act = text_of (field ev ''action''); p = params_of ev in
      if act = lit ''note'' then Inr None
      else if act = lit ''fault'' then
        rbind (sub_item p ''set'') (\<lambda>names.
        rbind (py_int (field_or p ''duration_ms'' (JInt 0))) (\<lambda>ms.
        Inr (Some (Post, device_path ev ''/fault'',
          JObj [(lit ''set'', names), (lit ''clear'', field_or p ''clear'' (JList [])), (lit ''duration_ms'', JInt ms)]))))
      else if act = lit ''clear_fault'' then
        rbind (sub_item p ''clear'') (\<lambda>names.
        Inr (Some (Post, device_path ev ''/fault'', JObj [(lit ''set'', JList []), (lit ''clear'', names), (lit ''duration_ms'', JInt 0)])))
      else if act = lit ''config'' then Inr (Some (Put, device_path ev ''/config'', p))
      else if act = lit ''firmware_register'' then
        rbind (sub_item p ''version'') (\<lambda>v.
        rbind (py_int (field_or p ''size_bytes'' (JInt 1000000))) (\<lambda>n.
        Inr (Some (Post, lit ''/api/firmware'',
          JObj [(lit ''version'', v), (lit ''notes'', field_or p ''notes'' (JStr [])), (lit ''size_bytes'', JInt n)]))))
      else if act = lit ''firmware_deploy'' then
        rbind (sub_item p ''version'') (\<lambda>v. Inr (Some (Post, device_path ev ''/firmware'', JObj [(lit ''version'', v)])))
      else if act = lit ''cmd'' then
        rbind (sub_item p ''cmd'') (\<lambda>c. Inr (Some (Post, device_path ev ''/cmd'', JObj [(lit ''cmd'', c)])))
      else if act = lit ''proxy_set'' then
        (if has_proxy then Inr (Some (PostProxy, lit ''/set'', p)) else Inl RuntimeError)
      else Inl RuntimeError)"

section \<open>The proxy and the agents\<close>

text \<open>The command line arguments of the runner that matter here.\<close>

record sil_args =
  ar_backend :: "pystr option"
  ar_start_backend :: bool
  ar_backend_timeout :: pyfloat
  ar_grace :: pyfloat
  ar_agent :: pystr
  ar_via_proxy :: "pystr list"
  ar_proxy_port :: int
  ar_hold :: bool
  ar_fail_fast :: bool

definition set_key :: "json \<Rightarrow> string \<Rightarrow> json \<Rightarrow> json" where
  "set_key d k v = (case d of JObj kvs \<Rightarrow> JObj (AList.update (lit k) v kvs) | _ \<Rightarrow> d)"

text \<open>
  \<open>start_proxy\<close> up to the start of its process: whether a proxy is needed, the \<open>proxy\<close> block of the scenario it
  leaves, and the arguments of the process after its program.
\<close>

definition needs_proxy :: "json \<Rightarrow> sil_args \<Rightarrow> bool" where
  "needs_proxy sc args \<longleftrightarrow> list_ex (\<lambda>d. truthy (field d ''via_proxy'')) (items_of (field sc ''devices'')) \<or> ar_via_proxy args \<noteq> []"

definition proxy_block :: "json \<Rightarrow> sil_args \<Rightarrow> json" where
  "proxy_block sc args =
     (let px0 = field sc ''proxy''; port = ar_proxy_port args;
          px = (if px0 = JNull
                then JObj [(lit ''listen'', JInt port), (lit ''control_port'', JInt (port + 9)), (lit ''drop'', JFloat (rnd64 (1 / 10)))]
                else px0)
      in set_key px ''control_port'' (py_or (field px ''control_port'') (JInt (int_of (field px ''listen'') + 9))))"

definition with_proxy :: "json \<Rightarrow> sil_args \<Rightarrow> json" where
  "with_proxy sc args = (if needs_proxy sc args then set_key sc ''proxy'' (proxy_block sc args) else sc)"

definition proxy_cmd :: "json \<Rightarrow> json \<Rightarrow> pystr list" where
  "proxy_cmd sc px =
     [lit ''--listen'', py_str (field px ''listen''), lit ''--bind'', lit ''127.0.0.1'',
      lit ''--forward'', lit ''127.0.0.1:'' @ py_str (field (field sc ''backend'') ''udp_port''),
      lit ''--control-port'', py_str (field px ''control_port''), lit ''--stats-every'', lit ''10'']
     @ concat (map (\<lambda>(k, opt). if has_key px k then [lit opt, py_str (field px k)] else [])
         [(''drop'', ''--drop''), (''delay_ms'', ''--delay-ms''), (''jitter_ms'', ''--jitter-ms''), (''reorder'', ''--reorder''), (''dup'', ''--dup'')])"

text \<open>
  \<open>agent_cmd\<close>, on the scenario with its \<open>proxy\<close> block. The command is a list of values, as a value the scenario
  gives for a text need not be one.
\<close>

definition opt_arg :: "string \<Rightarrow> json \<Rightarrow> json list" where
  "opt_arg name v = [JStr (lit ''--'' @ lit name), v]"

definition jlits :: "string list \<Rightarrow> json list" where
  "jlits = map (\<lambda>x. JStr (lit x))"

definition agent_cmd :: "json \<Rightarrow> sil_args \<Rightarrow> json \<Rightarrow> json list res" where
  "agent_cmd sc args d =
     (let be = field sc ''backend''; rm = field d ''remote''; str = (\<lambda>k dflt. JStr (py_str (field_or d k dflt))) in
      rbind (sub_item d ''id'') (\<lambda>did.
      rbind (if truthy (field d ''via_proxy'') \<or> did \<in> set (map JStr (ar_via_proxy args))
             then sub_item (field sc ''proxy'') ''listen'' else sub_item be ''udp_port'') (\<lambda>udp.
      rbind (if truthy rm then rbind (sub_item rm ''ssh'') (\<lambda>target. rbind (sub_item rm ''agent'') (\<lambda>ag. rbind (sub_item rm ''backend_host'') (\<lambda>h.
               Inr (jlits [''ssh'', ''-tt'', ''-o'', ''BatchMode=yes'', ''-o'', ''ConnectTimeout=10''] @ [target, ag], h))))
             else Inr ([JStr (ar_agent args)], JStr (lit ''127.0.0.1''))) (\<lambda>(head, host).
      rbind (sub_item be ''tcp_port'') (\<lambda>tcp.
      rbind (if ar_hold args then Inr []
             else rbind (py_int (field sc ''duration_s'')) (\<lambda>n. Inr (opt_arg ''duration'' (JStr (py_str_int (n + 10)))))) (\<lambda>dur.
      rbind (py_iter (py_or (field_or d ''faults'' (JList [])) (JList []))) (\<lambda>specs.
      rbind (if truthy rm then py_iter (field_or rm ''extra'' (JList [])) else Inr []) (\<lambda>extra.
      Inr (head @ opt_arg ''id'' did @ opt_arg ''host'' host @ opt_arg ''udp-port'' (JStr (py_str udp))
        @ opt_arg ''tcp-port'' (JStr (py_str tcp)) @ opt_arg ''hz'' (str ''hz'' (JInt 10))
        @ opt_arg ''fw'' (str ''fw'' (JStr (lit ''1.0.0''))) @ opt_arg ''hw'' (str ''hw'' (JStr (lit ''SIM-MOTOR-A'')))
        @ opt_arg ''profile'' (field_or d ''profile'' (JStr (lit ''city'')))
        @ opt_arg ''drop-rate'' (str ''drop_rate'' (JFloat (Fin 0))) @ opt_arg ''seed'' (str ''seed'' (JInt 1))
        @ opt_arg ''log-level'' (field_or d ''log_level'' (JStr (lit ''info''))) @ dur
        @ concat (map (opt_arg ''fault'') specs)
        @ (if truthy (field d ''no_gps'') then [JStr (lit ''--no-gps'')] else []) @ map (\<lambda>x. JStr (py_str x)) extra)))))))))"

section \<open>Ports\<close>

text \<open>
  \<open>urlparse(url).port\<close> of a text of ASCII characters without brackets: the digits after the first colon of the address, which
  stands between the two slashes after the scheme and the next of \<open>/ ? #\<close>, from its last \<open>@\<close> on. What the
  library makes of other texts is an argument.
\<close>

definition scheme_char :: "int \<Rightarrow> bool" where
  "scheme_char c \<longleftrightarrow> 97 \<le> c \<and> c \<le> 122 \<or> 65 \<le> c \<and> c \<le> 90 \<or> is_digit c \<or> c \<in> {43, 45, 46}"

definition without_scheme :: "pystr \<Rightarrow> pystr" where
  "without_scheme u =
     (case takeWhile (\<lambda>c. c \<noteq> 58) u of
        [] \<Rightarrow> u
      | c # cs \<Rightarrow>
          (let rest = drop (length (c # cs)) u in
           if rest \<noteq> [] \<and> scheme_char c \<and> 65 \<le> c \<and> list_all scheme_char cs then drop 1 rest else u))"

definition netloc_of :: "pystr \<Rightarrow> pystr" where
  "netloc_of url =
     (let u = without_scheme (filter (\<lambda>c. c \<notin> {9, 10, 13}) (dropWhile (\<lambda>c. c \<le> 32) url)) in
      if take 2 u = [47, 47] then takeWhile (\<lambda>c. c \<notin> {47, 63, 35}) (drop 2 u) else [])"

definition url_port :: "(pystr \<Rightarrow> int option res) \<Rightarrow> pystr \<Rightarrow> int option res" where
  "url_port other url =
     (if \<not> is_ascii url \<or> 91 \<in> set url \<or> 93 \<in> set url then other url
      else (let host = last (py_split 64 (netloc_of url)); port = drop 1 (dropWhile (\<lambda>c. c \<noteq> 58) host) in
        if port = [] then Inr None
        else if \<not> list_all is_digit port then Inl ValueError
        else (let n = foldl (\<lambda>a c. a * 10 + (c - 48)) 0 port in if n \<le> 65535 then Inr (Some n) else Inl ValueError)))"

text \<open>\<open>urlparse(be["http"]).port or 8780\<close>.\<close>

definition http_port :: "(pystr \<Rightarrow> int option res) \<Rightarrow> json \<Rightarrow> int res" where
  "http_port other sc =
     rbind (url_port other (text_of (field (field sc ''backend'') ''http''))) (\<lambda>p.
     Inr (case p of None \<Rightarrow> 8780 | Some n \<Rightarrow> if n = 0 then 8780 else n))"

text \<open>
  \<open>ports_free\<close>: \<open>taken\<close> tells whether something answers on a TCP port, \<open>binds\<close> whether a UDP port can be bound. A number that is
  no port raises in the socket library.
\<close>

definition ports_free :: "(int \<Rightarrow> bool) \<Rightarrow> (int \<Rightarrow> bool) \<Rightarrow> int \<Rightarrow> bool res" where
  "ports_free taken binds base =
     (if base < 0 \<or> 65535 < base then Inl OverflowError
      else if taken base then Inr False
      else if 65535 < base + 2 then Inl OverflowError
      else if taken (base + 2) then Inr False
      else Inr (binds (base + 1)))"

text \<open>
  The port \<open>apply_ports\<close> settles on, with what \<open>ports_free\<close> finds: for \<open>auto\<close> the wanted one when
  its triple is free, otherwise the first free of 8790, 8800, up to 8980; otherwise a given number.
\<close>

fun first_free :: "(int \<Rightarrow> bool res) \<Rightarrow> int list \<Rightarrow> int option res" where
  "first_free free [] = Inr None"
| "first_free free (b # bs) = rbind (free b) (\<lambda>f. if f then Inr (Some b) else first_free free bs)"

definition choose_base :: "(int \<Rightarrow> bool res) \<Rightarrow> int \<Rightarrow> pystr \<Rightarrow> int res" where
  "choose_base free want spec =
     (if spec = lit ''auto'' then
        rbind (first_free free (want # map (\<lambda>i. 8790 + 10 * int i) [0..<20])) (\<lambda>b. case b of Some b \<Rightarrow> Inr b | None \<Rightarrow> Inl SchemaError)
      else (case py_int_of_str spec of
          Inl _ \<Rightarrow> Inl SchemaError
        | Inr b \<Rightarrow> if 1024 \<le> b \<and> b \<le> 65533 then Inr b else Inl SchemaError))"

text \<open>\<open>be.update({...})\<close>: the three addresses of the backend; and all of \<open>apply_ports\<close>, with the note it returns.\<close>

definition ports_of :: "int \<Rightarrow> (string \<times> json) list" where
  "ports_of b = [(''http'', JStr (lit ''http://127.0.0.1:'' @ py_str_int b)), (''udp_port'', JInt (b + 1)), (''tcp_port'', JInt (b + 2))]"

definition ports_note :: "pystr \<Rightarrow> int \<Rightarrow> int \<Rightarrow> pystr option" where
  "ports_note spec want base =
     (if spec = lit ''auto'' \<and> base \<noteq> want
      then Some (lit ''ports '' @ py_str_int want @ 45 # py_str_int (want + 2) @ lit '' are in use; this run is on ''
        @ py_str_int base @ 45 # py_str_int (base + 2))
      else None)"

definition apply_ports :: "(pystr \<Rightarrow> int option res) \<Rightarrow> (int \<Rightarrow> bool res) \<Rightarrow> json \<Rightarrow> pystr \<Rightarrow> (json \<times> pystr option) res" where
  "apply_ports other free sc spec =
     rbind (http_port other sc) (\<lambda>want.
     rbind (choose_base free want spec) (\<lambda>base.
     Inr (set_key sc ''backend'' (foldl (\<lambda>be (k, v). set_key be k v) (field sc ''backend'') (ports_of base)), ports_note spec want base)))"

section \<open>The report\<close>

record report =
  rp_actions :: "(json \<times> bool) list"
  rp_expectations :: "(json \<times> bool) list"
  rp_passed :: nat
  rp_failed :: nat
  rp_total :: nat
  rp_fatal :: bool
  rp_ok :: bool

text \<open>
  The report: \<open>fatal\<close> is an interruption or an exception outside of the actions and checks. Times and
  texts are left out.
\<close>

definition make_report :: "json \<Rightarrow> bool \<Rightarrow> (json \<times> bool) list \<Rightarrow> (json \<times> bool) list \<Rightarrow> report" where
  "make_report sc fatal actions results =
     (let passed = length (filter snd results); expected = length (items_of (field sc ''expect'')) in
      \<lparr>rp_actions = actions, rp_expectations = results, rp_passed = passed, rp_failed = length results - passed,
       rp_total = expected, rp_fatal = fatal, rp_ok = (\<not> fatal \<and> passed = expected)\<rparr>)"

section \<open>What the report says\<close>

definition expectations :: "item list \<Rightarrow> json list" where
  "expectations items = map (snd \<circ> snd) (filter (\<lambda>i. fst (snd i) = Expect) items)"

lemma expectations_simps [simp]:
  "expectations [] = []" "expectations ((t, Action, x) # is) = expectations is" "expectations ((t, Expect, x) # is) = x # expectations is"
  by (simp_all add: expectations_def)

text \<open>The expectations of the schedule are those of the scenario, in another order.\<close>

lemma rmap_timed:
  "rmap (timed k) xs = Inr is \<Longrightarrow> map (snd \<circ> snd) is = xs \<and> (\<forall>i\<in>set is. fst (snd i) = k)"
proof (induction xs arbitrary: "is")
  case (Cons x xs)
  then obtain t js where "is = (t, k, x) # js" "rmap (timed k) xs = Inr js" unfolding timed_def by (fastforce simp: rbind_Inr_iff)
  with Cons.IH [of js] show ?case by simp
qed simp

lemma schedule_expectations:
  assumes "schedule_of sc = Inr items"
  shows "mset (expectations items) = mset (items_of (field sc ''expect''))"
proof -
  obtain as es where s: "rmap (timed Action) (items_of (field sc ''timeline'')) = Inr as"
    "rmap (timed Expect) (items_of (field sc ''expect'')) = Inr es" "items = sort_key item_key (as @ es)"
    using assms by (auto simp: schedule_of_def rbind_Inr_iff)
  have "mset (expectations items) = image_mset (snd \<circ> snd) (filter_mset (\<lambda>i. fst (snd i) = Expect) (mset items))"
    by (simp add: expectations_def)
  also have "\<dots> = image_mset (snd \<circ> snd) (filter_mset (\<lambda>i. fst (snd i) = Expect) (mset as + mset es))" by (simp add: s(3))
  also have "filter_mset (\<lambda>i. fst (snd i) = Expect) (mset as + mset es) = mset es"
    proof -
    have "filter (\<lambda>i. fst (snd i) = Expect) as = []" "filter (\<lambda>i. fst (snd i) = Expect) es = es"
      using rmap_timed [OF s(1)] rmap_timed [OF s(2)] by (simp_all add: filter_empty_conv)
    then show ?thesis by (metis add_0 filter_union_mset mset.simps(1) mset_filter)
  qed
  also have "image_mset (snd \<circ> snd) (mset es) = mset (items_of (field sc ''expect''))"
    using rmap_timed [OF s(2)] by (metis mset_map)
  finally show ?thesis .
qed

text \<open>
  Results that belong to a beginning of the expectations of a scenario count as many passed as it expects exactly when they belong to
  all of them and all are good.
\<close>

lemma all_passed_iff:
  assumes "schedule_of sc = Inr items" "map fst results = take n (expectations items)"
  shows "rp_ok (make_report sc fatal acts results)
    \<longleftrightarrow> \<not> fatal \<and> results = map (\<lambda>e. (e, True)) (expectations items)"
proof -
  have l: "length (items_of (field sc ''expect'')) = length (expectations items)"
    using schedule_expectations [OF assms(1)] mset_eq_length by metis
  have le: "length results \<le> length (expectations items)" using arg_cong [OF assms(2), of length] by simp
  have "results = map (\<lambda>e. (e, True)) (expectations items)" if len: "length (filter snd results) = length (expectations items)"
  proof -
    have n0: "length results = length (expectations items)" using len le length_filter_le [of snd results] by linarith
    with len have "\<forall>r\<in>set results. snd r" using length_filter_less [of _ results snd] by (metis less_irrefl)
    moreover have "map fst results = expectations items"
    proof -
      have "length (expectations items) \<le> n" using arg_cong [OF assms(2), of length] n0 by simp
      with assms(2) show ?thesis by simp
    qed
    moreover from \<open>\<forall>r\<in>set results. snd r\<close> have "map ((\<lambda>e. (e, True)) \<circ> fst) results = results" by (intro map_idI) (auto simp: prod_eq_iff)
    ultimately show ?thesis by (metis map_map)
  qed
  moreover have "length (filter snd (map (\<lambda>e. (e, True)) (expectations items))) = length (expectations items)" by (simp add: filter_map o_def)
  ultimately show ?thesis using l by (auto simp: make_report_def Let_def)
qed

section \<open>Ports laws\<close>

lemma field_set_key: "is_obj d \<Longrightarrow> field (set_key d k v) k' = (if k' = k then v else field d k')"
  by (cases d) (auto simp: set_key_def field_def field_or_def update_conv')

lemma is_obj_set_key [simp]: "is_obj (set_key d k v) = is_obj d"
  by (cases d) (auto simp: set_key_def)

text \<open>The addresses of the backend after \<open>apply_ports\<close>.\<close>

lemma apply_ports_backend:
  assumes "apply_ports other free sc spec = Inr (sc', note)" "is_obj sc" "is_obj (field sc ''backend'')"
  obtains b where "\<forall>(k, v)\<in>set (ports_of b). field (field sc' ''backend'') k = v"
    "spec \<noteq> lit ''auto'' \<longrightarrow> py_int_of_str spec = Inr b \<and> 1024 \<le> b \<and> b \<le> 65533"
    "\<forall>k. k \<noteq> ''backend'' \<longrightarrow> field sc' k = field sc k" "is_obj sc'"
proof -
  obtain want b where w: "choose_base free want spec = Inr b"
    "sc' = set_key sc ''backend'' (foldl (\<lambda>be (k, v). set_key be k v) (field sc ''backend'') (ports_of b))"
    using assms(1) by (auto simp: apply_ports_def rbind_Inr_iff)
  have "spec \<noteq> lit ''auto'' \<longrightarrow> py_int_of_str spec = Inr b \<and> 1024 \<le> b \<and> b \<le> 65533"
    using w(1) by (auto simp: choose_base_def split: sum.splits if_splits)
  with that [of b] show thesis using assms(2,3) by (simp add: w(2) field_set_key ports_of_def)
qed

text \<open>The port of the address is read back from it.\<close>

lemma split_tail: "d \<notin> set s \<Longrightarrow> last (py_split d s) = s"
  by (simp add: py_split_none)

lemma url_port_of_base:
  assumes "0 \<le> b" "b \<le> 65535"
  shows "url_port other (lit ''http://127.0.0.1:'' @ py_str_int b) = Inr (Some b)"
proof -
  have s: "py_str_int b = digits_of b" using assms(1) by (simp add: py_str_int_def)
  have d: "list_all is_digit (digits_of b)" using digits_of_digit [OF assms(1)] by (auto simp: list_all_iff)
  then have d': "\<forall>c\<in>set (digits_of b). 48 \<le> c \<and> c \<le> 57" by (auto simp: list_all_iff is_digit_def)
  let ?h = "lit ''127.0.0.1:'' @ digits_of b"
  have h: "lit ''http://127.0.0.1:'' = lit ''http:'' @ [47, 47] @ lit ''127.0.0.1:''" by (simp add: lit_def)
  have f: "filter (\<lambda>c. c \<notin> {9, 10, 13}) (lit ''http:'' @ [47, 47] @ ?h) = lit ''http:'' @ [47, 47] @ ?h"
    using d' by (intro filter_True) (auto simp: lit_def)
  have w: "without_scheme (lit ''http:'' @ [47, 47] @ ?h) = [47, 47] @ ?h"
    by (simp add: without_scheme_def lit_def scheme_char_def)
  have t: "takeWhile (\<lambda>c. c \<notin> {47, 63, 35}) ?h = ?h" using d' by (intro takeWhile_eq_all_conv [THEN iffD2]) (auto simp: lit_def)
  have n: "netloc_of (lit ''http:'' @ [47, 47] @ ?h) = ?h"
  proof -
    have "dropWhile (\<lambda>c. c \<le> 32) (lit ''http:'' @ [47, 47] @ ?h) = lit ''http:'' @ [47, 47] @ ?h" by (simp add: lit_def)
    then show ?thesis unfolding netloc_of_def by (simp add: f [simplified] w [simplified] t [simplified])
  qed
  have at: "last (py_split 64 ?h) = ?h" using d' by (intro split_tail) (auto simp: lit_def)
  have p: "drop 1 (dropWhile (\<lambda>c. c \<noteq> 58) ?h) = digits_of b" by (simp add: lit_def)
  have u: "is_ascii (lit ''http:'' @ [47, 47] @ ?h)" "91 \<notin> set (lit ''http:'' @ [47, 47] @ ?h)" "93 \<notin> set (lit ''http:'' @ [47, 47] @ ?h)"
    using d' by (auto simp: is_ascii_def lit_def)
  show ?thesis unfolding s h append_assoc url_port_def Let_def n at p using u d assms(2)
    by (simp add: foldl_digits_of [OF assms(1)])
qed

end
