(* ===== verification/Run_Monad.thy ===== *)
theory Run_Monad
  imports Prelude
begin

text \<open>
  Code that waits: it may never return, and Ctrl-C may end it. The tools under \<open>sim/\<close> start processes and wait
  for them in loops that only a clock, a process or the operator ends.

  \<^item> \<open>('s, 'a) run\<close> is code over a state \<open>'s\<close>: \<open>None\<close> when it never returns, otherwise what it returns or
    raises and the state it leaves. \<open>KeyboardInterrupt\<close> is kept apart from the exceptions, as \<open>except Exception\<close>
    does not catch it.
  \<^item> \<open>repeat_run\<close> is the loop \<open>while True\<close>; every loop of the tools is one.
  \<^item> Three ways to reason: \<open>returns m\<close> (the code always comes to an end), \<open>moves R m\<close> (it takes the state
    along a relation, however it ends) and \<open>yields P m Q\<close> (what holds when it returns), each with one rule
    per combinator.
\<close>

named_theorems run_simps \<open>equations of the combinators\<close>
named_theorems returns_intros \<open>rules that show that code comes to an end\<close>

section \<open>Combinators\<close>

datatype raised = Raised pyexn | OSError | TimeoutExpired | StopIteration | KeyboardInterrupt

type_synonym ('s, 'a) run = "'s \<Rightarrow> ((raised + 'a) \<times> 's) option"

definition give :: "'a \<Rightarrow> ('s, 'a) run" where
  "give x s = Some (Inr x, s)"

definition abort :: "raised \<Rightarrow> ('s, 'a) run" where
  "abort e s = Some (Inl e, s)"

definition bind_run :: "('s, 'a) run \<Rightarrow> ('a \<Rightarrow> ('s, 'b) run) \<Rightarrow> ('s, 'b) run" where
  "bind_run m f s = Option.bind (m s) (\<lambda>(r, t). case r of Inl e \<Rightarrow> Some (Inl e, t) | Inr x \<Rightarrow> f x t)"

definition seq_run :: "('s, 'a) run \<Rightarrow> ('s, 'b) run \<Rightarrow> ('s, 'b) run" where
  "seq_run m n = bind_run m (\<lambda>_. n)"

definition look :: "('s \<Rightarrow> 'a) \<Rightarrow> ('s, 'a) run" where
  "look f s = Some (Inr (f s), s)"

definition alter :: "('s \<Rightarrow> 's) \<Rightarrow> ('s, unit) run" where
  "alter f s = Some (Inr (), f s)"

text \<open>A step that always works and gives a result.\<close>

definition step_run :: "('s \<Rightarrow> 'a \<times> 's) \<Rightarrow> ('s, 'a) run" where
  "step_run f s = (case f s of (x, t) \<Rightarrow> Some (Inr x, t))"

definition result :: "'a res \<Rightarrow> ('s, 'a) run" where
  "result r = (case r of Inl e \<Rightarrow> abort (Raised e) | Inr x \<Rightarrow> give x)"

definition when_run :: "bool \<Rightarrow> ('s, unit) run \<Rightarrow> ('s, unit) run" where
  "when_run b m = (if b then m else give ())"

text \<open>\<open>try: m except ...: h\<close> and \<open>try: m finally: n\<close>; what \<open>n\<close> raises replaces what \<open>m\<close> raised.\<close>

definition try_run :: "(raised \<Rightarrow> bool) \<Rightarrow> ('s, 'a) run \<Rightarrow> (raised \<Rightarrow> ('s, 'a) run) \<Rightarrow> ('s, 'a) run" where
  "try_run c m h s = Option.bind (m s) (\<lambda>(r, t). case r of Inl e \<Rightarrow> (if c e then h e t else Some (Inl e, t)) | Inr x \<Rightarrow> Some (Inr x, t))"

definition finally_run :: "('s, 'a) run \<Rightarrow> ('s, unit) run \<Rightarrow> ('s, 'a) run" where
  "finally_run m n s = Option.bind (m s) (\<lambda>(r, t). Option.bind (n t) (\<lambda>(q, u). case q of Inl e \<Rightarrow> Some (Inl e, u) | Inr _ \<Rightarrow> Some (r, u)))"

primrec for_run :: "('a \<Rightarrow> ('s, unit) run) \<Rightarrow> 'a list \<Rightarrow> ('s, unit) run" where
  "for_run f [] = give ()"
| "for_run f (x # xs) = seq_run (f x) (for_run f xs)"

text \<open>\<open>while True: m\<close>; a round gives \<open>Some x\<close> to leave the loop with \<open>x\<close>.\<close>

partial_function (option) repeat_run :: "('s, 'a option) run \<Rightarrow> 's \<Rightarrow> ((raised + 'a) \<times> 's) option" where
  "repeat_run m s = Option.bind (m s) (\<lambda>(r, t). case r of
      Inl e \<Rightarrow> Some (Inl e, t)
    | Inr (Some x) \<Rightarrow> Some (Inr x, t)
    | Inr None \<Rightarrow> repeat_run m t)"

declare repeat_run.simps [code]

lemma bind_run_app [run_simps]:
  "bind_run m f s = (case m s of None \<Rightarrow> None | Some (Inl e, t) \<Rightarrow> Some (Inl e, t) | Some (Inr x, t) \<Rightarrow> f x t)"
  by (auto simp: bind_run_def split: option.splits sum.splits)

lemma seq_run_app [run_simps]:
  "seq_run m n s = (case m s of None \<Rightarrow> None | Some (Inl e, t) \<Rightarrow> Some (Inl e, t) | Some (Inr x, t) \<Rightarrow> n t)"
  by (simp add: seq_run_def bind_run_app)

lemma try_run_app [run_simps]:
  "try_run c m h s = (case m s of None \<Rightarrow> None | Some (Inl e, t) \<Rightarrow> if c e then h e t else Some (Inl e, t) | Some (Inr x, t) \<Rightarrow> Some (Inr x, t))"
  by (auto simp: try_run_def split: option.splits sum.splits)

lemma finally_run_app [run_simps]:
  "finally_run m n s = (case m s of None \<Rightarrow> None | Some (r, t) \<Rightarrow>
     (case n t of None \<Rightarrow> None | Some (Inl e, u) \<Rightarrow> Some (Inl e, u) | Some (Inr _, u) \<Rightarrow> Some (r, u)))"
  by (auto simp: finally_run_def split: option.splits sum.splits)

lemma step_run_app [run_simps]: "step_run f s = Some (Inr (fst (f s)), snd (f s))"
  by (simp add: step_run_def split: prod.splits)

lemma result_app [run_simps]: "result r s = Some (case r of Inl e \<Rightarrow> Inl (Raised e) | Inr x \<Rightarrow> Inr x, s)"
  by (simp add: result_def abort_def give_def split: sum.splits)

lemma bind_result_Inr [simp]: "bind_run (result (Inr x)) f = f x"
  by (rule ext) (simp add: bind_run_app result_app)

lemmas [run_simps] = give_def abort_def look_def alter_def when_run_def

text \<open>The result of evaluated code.\<close>

lemma ranD: "(case x of Some (Inr a, t) \<Rightarrow> P a t | _ \<Rightarrow> False) \<Longrightarrow> \<exists>a t. x = Some (Inr a, t) \<and> P a t"
proof (cases x)
  case (Some y)
  moreover assume "case x of Some (Inr a, t) \<Rightarrow> P a t | _ \<Rightarrow> False"
  ultimately show ?thesis by (cases "fst y") (auto split: prod.splits)
qed simp

section \<open>Code that comes to an end\<close>

definition returns :: "('s, 'a) run \<Rightarrow> bool" where
  "returns m \<longleftrightarrow> (\<forall>s. m s \<noteq> None)"

lemma returnsD: "returns m \<Longrightarrow> \<exists>r t. m s = Some (r, t)"
  by (metis not_Some_eq returns_def surj_pair)

lemma returns_simple [returns_intros]:
  "returns (give x)" "returns (abort e)" "returns (look g)" "returns (alter f)" "returns (step_run h)" "returns (result r)"
  by (simp_all add: returns_def run_simps)

lemma returns_bind [returns_intros]: "returns m \<Longrightarrow> (\<And>x. returns (f x)) \<Longrightarrow> returns (bind_run m f)"
  by (auto simp: returns_def bind_run_app split: option.splits sum.splits)

lemma returns_seq [returns_intros]: "returns m \<Longrightarrow> returns n \<Longrightarrow> returns (seq_run m n)"
  by (simp add: seq_run_def returns_bind)

lemma returns_when [returns_intros]: "(b \<Longrightarrow> returns m) \<Longrightarrow> returns (when_run b m)"
  by (simp add: when_run_def returns_simple)

lemma returns_if [returns_intros]: "(b \<Longrightarrow> returns m) \<Longrightarrow> (\<not> b \<Longrightarrow> returns n) \<Longrightarrow> returns (if b then m else n)"
  by simp

lemma returns_option [returns_intros]:
  "(x = None \<Longrightarrow> returns m) \<Longrightarrow> (\<And>y. x = Some y \<Longrightarrow> returns (f y)) \<Longrightarrow> returns (case x of None \<Rightarrow> m | Some y \<Rightarrow> f y)"
  by (cases x) auto

lemma returns_try [returns_intros]: "returns m \<Longrightarrow> (\<And>e. returns (h e)) \<Longrightarrow> returns (try_run c m h)"
  by (auto simp: returns_def try_run_app split: option.splits sum.splits)

lemma returns_finally [returns_intros]:
  assumes "returns m" "returns n"
  shows "returns (finally_run m n)"
  unfolding returns_def
proof
  fix s
  obtain r t where m: "m s = Some (r, t)" using returnsD [OF assms(1)] by blast
  obtain q u where "n t = Some (q, u)" using returnsD [OF assms(2)] by blast
  with m show "finally_run m n s \<noteq> None" by (simp add: finally_run_app split: sum.splits)
qed

lemma returns_for [returns_intros]: "(\<And>x. x \<in> set xs \<Longrightarrow> returns (f x)) \<Longrightarrow> returns (for_run f xs)"
  by (induction xs) (simp_all add: returns_simple returns_seq)

text \<open>
  A loop ends when each round comes to an end and a measure falls with every round that is followed by another; in
  particular when a counter grows and the loop goes on only while it is below a bound.
\<close>

lemma repeat_ends_measure:
  assumes "returns m" "\<And>s t. m s = Some (Inr None, t) \<Longrightarrow> g t < (g s :: nat)"
  shows "returns (repeat_run m)"
proof -
  have "repeat_run m s \<noteq> None" for s
  proof (induction "g s" arbitrary: s rule: less_induct)
    case less
    obtain r t where m: "m s = Some (r, t)" using returnsD [OF assms(1)] by blast
    show ?case
    proof (cases "r = Inr None")
      case True
      with m assms(2) have "g t < g s" by simp
      from less [OF this] m True show ?thesis by (simp add: repeat_run.simps [of m s])
    next
      case False
      with m show ?thesis by (auto simp: repeat_run.simps [of m s] split: sum.splits option.splits)
    qed
  qed
  then show ?thesis by (simp add: returns_def)
qed

lemma repeat_ends:
  assumes "returns m" "\<And>s t. m s = Some (Inr None, t) \<Longrightarrow> f s < f t \<and> f s < (N :: nat)"
  shows "returns (repeat_run m)"
  by (rule repeat_ends_measure [OF assms(1), of "\<lambda>s. N - f s"]) (use assms(2) in force)

text \<open>A loop whose rounds count up to one that is interrupted.\<close>

lemma repeat_until_interrupt:
  assumes "returns m" "\<And>s t. m s = Some (Inr None, t) \<Longrightarrow> \<not> P (f s) \<and> f t = f s + (1 :: nat)" "\<forall>k. \<exists>j\<ge>k. P j"
  shows "returns (repeat_run m)"
proof (rule repeat_ends_measure [OF assms(1), of "\<lambda>s. LEAST n. P (f s + n)"])
  fix s t assume "m s = Some (Inr None, t)"
  with assms(2) have t: "\<not> P (f s)" "f t = f s + 1" by blast+
  obtain j where "f s \<le> j" "P j" using assms(3) by blast
  then have "P (f s + (j - f s))" by simp
  then have g: "P (f s + (LEAST n. P (f s + n)))" by (rule LeastI)
  with t(1) obtain n where n: "(LEAST n. P (f s + n)) = Suc n" by (cases "LEAST n. P (f s + n)") auto
  with g t(2) have "P (f t + n)" by simp
  then have "(LEAST n. P (f t + n)) \<le> n" by (rule Least_le)
  with n show "(LEAST n. P (f t + n)) < (LEAST n. P (f s + n))" by simp
qed

section \<open>Moving along a relation\<close>

definition moves :: "('s \<Rightarrow> 's \<Rightarrow> bool) \<Rightarrow> ('s, 'a) run \<Rightarrow> bool" where
  "moves R m \<longleftrightarrow> (\<forall>s r t. m s = Some (r, t) \<longrightarrow> R s t)"

lemma movesD: "moves R m \<Longrightarrow> m s = Some (r, t) \<Longrightarrow> R s t"
  by (simp add: moves_def)

lemma moves_mono: "moves R m \<Longrightarrow> (\<And>s t. R s t \<Longrightarrow> Q s t) \<Longrightarrow> moves Q m"
  by (auto simp: moves_def)

locale run_order =
  fixes R :: "'s \<Rightarrow> 's \<Rightarrow> bool"
  assumes stay: "R s s"
    and thence: "R s t \<Longrightarrow> R t u \<Longrightarrow> R s u"
begin

lemma mv_simple: "moves R (give x)" "moves R (abort e)" "moves R (look g)" "moves R (result r)"
  by (simp_all add: moves_def run_simps stay)

lemma mv_alter: "(\<And>s. R s (f s)) \<Longrightarrow> moves R (alter f)"
  by (simp add: moves_def run_simps)

lemma mv_step: "(\<And>s. R s (snd (f s))) \<Longrightarrow> moves R (step_run f)"
  by (simp add: moves_def run_simps)

lemma mv_bind: "moves R m \<Longrightarrow> (\<And>x. moves R (f x)) \<Longrightarrow> moves R (bind_run m f)"
  by (fastforce simp: moves_def bind_run_app split: option.splits sum.splits intro: thence)

lemma mv_seq: "moves R m \<Longrightarrow> moves R n \<Longrightarrow> moves R (seq_run m n)"
  by (simp add: seq_run_def mv_bind)

lemma mv_when: "(b \<Longrightarrow> moves R m) \<Longrightarrow> moves R (when_run b m)"
  by (simp add: when_run_def mv_simple)

lemma mv_if: "(b \<Longrightarrow> moves R m) \<Longrightarrow> (\<not> b \<Longrightarrow> moves R n) \<Longrightarrow> moves R (if b then m else n)"
  by simp

lemma mv_option:
  "(x = None \<Longrightarrow> moves R m) \<Longrightarrow> (\<And>y. x = Some y \<Longrightarrow> moves R (f y)) \<Longrightarrow> moves R (case x of None \<Rightarrow> m | Some y \<Rightarrow> f y)"
  by (cases x) auto

lemma mv_try: "moves R m \<Longrightarrow> (\<And>e. moves R (h e)) \<Longrightarrow> moves R (try_run c m h)"
  by (fastforce simp: moves_def try_run_app split: option.splits sum.splits if_splits intro: thence)

lemma mv_finally: "moves R m \<Longrightarrow> moves R n \<Longrightarrow> moves R (finally_run m n)"
  by (fastforce simp: moves_def finally_run_app split: option.splits sum.splits intro: thence)

lemma mv_for: "(\<And>x. x \<in> set xs \<Longrightarrow> moves R (f x)) \<Longrightarrow> moves R (for_run f xs)"
  by (induction xs) (simp_all add: mv_simple mv_seq)

lemma mv_repeat:
  assumes "moves R m"
  shows "moves R (repeat_run m)"
proof -
  have step: "R s (snd y)"
    if ih: "\<And>k s y. rec k s = Some y \<Longrightarrow> k = m \<longrightarrow> R s (snd y)"
      and eq: "Option.bind (k s) (\<lambda>(r, t). case r of Inl e \<Rightarrow> Some (Inl e, t) | Inr (Some x) \<Rightarrow> Some (Inr x, t) | Inr None \<Rightarrow> rec k t) = Some y"
      and k: "k = m" for "rec" k s y
  proof -
    obtain r t where m: "m s = Some (r, t)" using eq k by (auto split: Option.bind_splits)
    from movesD [OF assms m] have st: "R s t" .
    show ?thesis
    proof (cases "r = Inr None")
      case True
      with eq k m have "rec m t = Some y" by simp
      from ih [OF this] st show ?thesis by (auto intro: thence)
    next
      case False
      with eq k m st show ?thesis by (auto split: sum.splits option.splits)
    qed
  qed
  have "repeat_run k s = Some y \<Longrightarrow> k = m \<longrightarrow> R s (snd y)" for k s y
    by (rule repeat_run.raw_induct [of "\<lambda>k s y. k = m \<longrightarrow> R s (snd y)"]) (use step in blast)+
  then show ?thesis by (force simp: moves_def)
qed

lemmas mv_intros = mv_simple mv_alter mv_step mv_bind mv_seq mv_when mv_if mv_option mv_try mv_finally mv_for mv_repeat

end

section \<open>What holds when code returns\<close>

definition yields :: "('s \<Rightarrow> bool) \<Rightarrow> ('s, 'a) run \<Rightarrow> ('a \<Rightarrow> 's \<Rightarrow> bool) \<Rightarrow> bool" where
  "yields P m Q \<longleftrightarrow> (\<forall>s x t. P s \<longrightarrow> m s = Some (Inr x, t) \<longrightarrow> Q x t)"

lemma yieldsD: "yields P m Q \<Longrightarrow> P s \<Longrightarrow> m s = Some (Inr x, t) \<Longrightarrow> Q x t"
  by (auto simp: yields_def)

lemma yields_then: "yields P m Q \<Longrightarrow> (\<And>x. yields (Q x) (f x) W) \<Longrightarrow> yields P (bind_run m f) W"
  by (fastforce simp: yields_def bind_run_app split: option.splits sum.splits)

lemma yields_seq: "yields P m (\<lambda>_. Q) \<Longrightarrow> yields Q n W \<Longrightarrow> yields P (seq_run m n) W"
  unfolding seq_run_def by (rule yields_then)

lemma yields_weaken: "yields P m Q \<Longrightarrow> (\<And>s. P' s \<Longrightarrow> P s) \<Longrightarrow> (\<And>x s. Q x s \<Longrightarrow> Q' x s) \<Longrightarrow> yields P' m Q'"
  unfolding yields_def by blast

lemma yields_alternative: "(b \<Longrightarrow> yields P m Q) \<Longrightarrow> (\<not> b \<Longrightarrow> yields P n Q) \<Longrightarrow> yields P (if b then m else n) Q"
  by simp

lemma yields_result: "(\<And>x. v = Inr x \<Longrightarrow> yields P (f x) Q) \<Longrightarrow> yields P (bind_run (result v) f) Q"
  by (cases v) (auto simp: yields_def run_simps)

lemma yields_look: "(\<And>s. P s \<Longrightarrow> yields P (f (g s)) Q) \<Longrightarrow> yields P (bind_run (look g) f) Q"
  by (auto simp: yields_def run_simps)

lemma yields_look_eq: "(\<And>s. P s \<Longrightarrow> g s = v) \<Longrightarrow> yields P (f v) Q \<Longrightarrow> yields P (bind_run (look g) f) Q"
  by (auto simp: yields_def run_simps)

lemma yields_abort: "yields P (abort e) Q"
  by (simp add: yields_def abort_def)

lemma yields_for: "(\<And>x. x \<in> set xs \<Longrightarrow> yields P (f x) (\<lambda>_. P)) \<Longrightarrow> yields P (for_run f xs) (\<lambda>_. P)"
proof (induction xs)
  case (Cons x xs)
  then have "yields P (seq_run (f x) (for_run f xs)) (\<lambda>_. P)" by (intro yields_seq) simp_all
  then show ?case by simp
qed (simp add: yields_def run_simps)

text \<open>
  A loop that treats one thing after the other, where what is achieved for one of them is not undone by what is done for the
  others.
\<close>

lemma yields_for_each:
  assumes "\<And>x s t. Q x s \<Longrightarrow> R s t \<Longrightarrow> Q x t" "\<And>x. moves R (f x)" "\<And>x. yields P (f x) (\<lambda>_ s. P s \<and> Q x s)"
  shows "yields P (for_run f xs) (\<lambda>_ s. P s \<and> (\<forall>x\<in>set xs. Q x s))"
proof (induction xs)
  case Nil
  then show ?case by (auto simp: yields_def run_simps)
next
  case (Cons x xs)
  show ?case unfolding yields_def
  proof (intro allI impI)
    fix s y u
    assume p: "P s" and "for_run f (x # xs) s = Some (Inr y, u)"
    then obtain t v where f: "f x s = Some (Inr v, t)" "for_run f xs t = Some (Inr y, u)"
      by (auto simp: run_simps split: option.splits sum.splits)
    from yieldsD [OF assms(3) p f(1)] have "P t" "Q x t" by auto
    moreover have "Q x' w" if "Q x' s'" "for_run f ys s' = Some (r, w)" for x' s' ys r w
      using that
    proof (induction ys arbitrary: s')
      case (Cons z zs)
      then show ?case using assms(1) movesD [OF assms(2)]
        by (fastforce simp: run_simps split: option.splits sum.splits)
    qed (simp add: run_simps)
    ultimately show "P u \<and> (\<forall>x\<in>set (x # xs). Q x u)" using yieldsD [OF Cons \<open>P t\<close> f(2)] f(2) by auto
  qed
qed

end
