(* ===== verification/Processes.thy ===== *)
theory Processes
  imports Run_Monad Py_Float
begin

text \<open>
  Processes as the tools under \<open>sim/\<close> handle them: the clock, waiting, starting a process, asking whether it
  has ended, signals, and the way a group of processes is stopped, which \<open>Runner.kill_all\<close> of \<open>sim/run_sil.py\<close> and
  \<open>shutdown\<close> of \<open>sim/fleet.py\<close> share.

  The operating system is an argument: a record of functions that say what the \<open>n\<close>-th reading of the clock shows, whether
  a process has ended at the \<open>n\<close>-th question, how the \<open>n\<close>-th signal came out, and so on. The state counts the questions.
  A process is named by the number of its \<open>Popen\<close> object, which remembers the exit status once it has
  seen it. Ctrl-C and SIGTERM are seen where the code sleeps.
\<close>

section \<open>The operating system\<close>

datatype signal = SigTerm | SigKill

datatype outcome = Delivered | NoProcess | Denied

record os =
  os_clock :: "nat \<Rightarrow> pyfloat"
  os_exit :: "nat \<Rightarrow> nat \<Rightarrow> int option"
  os_signal :: "nat \<Rightarrow> outcome"
  os_interrupt :: "nat \<Rightarrow> bool"
  os_start :: "nat \<Rightarrow> raised option"

text \<open>A process with its command line (for the runner a list of texts), the environment and directory when given, and the status seen.\<close>

record 'c proc =
  pr_cmd :: 'c
  pr_env :: "(pystr \<times> pystr) list option"
  pr_cwd :: "pystr option"
  pr_rc :: "int option"

record 'c machine =
  mc_times :: nat
  mc_polls :: nat
  mc_sleeps :: nat
  mc_procs :: "'c proc list"
  mc_signals :: "(signal \<times> bool \<times> nat \<times> outcome) list"

text \<open>\<open>time.time()\<close>.\<close>

definition time_now :: "'o os_scheme \<Rightarrow> (('c, 'z) machine_scheme, pyfloat) run" where
  "time_now os = step_run (\<lambda>m. (os_clock os (mc_times m), m\<lparr>mc_times := mc_times m + 1\<rparr>))"

text \<open>\<open>time.sleep(d)\<close>: the times it refuses, and otherwise a wait the operator may interrupt.\<close>

definition check_sleep :: "pyfloat \<Rightarrow> unit res" where
  "check_sleep d =
     (if d = NaN \<or> fless d (Fin 0) then Inl ValueError
      else if fle (Fin 9223372036854775808) (fmul d (Fin 1000000000)) then Inl OverflowError else Inr ())"

definition doze :: "'o os_scheme \<Rightarrow> (('c, 'z) machine_scheme, unit) run" where
  "doze os =
     bind_run (step_run (\<lambda>m. (os_interrupt os (mc_sleeps m), m\<lparr>mc_sleeps := mc_sleeps m + 1\<rparr>))) (\<lambda>interrupted.
     if interrupted then abort KeyboardInterrupt else give ())"

definition pause :: "'o os_scheme \<Rightarrow> pyfloat \<Rightarrow> (('c, 'z) machine_scheme, unit) run" where
  "pause os d = seq_run (result (check_sleep d)) (doze os)"

text \<open>
  \<open>Popen(cmd, env=env, cwd=cwd)\<close>: the number of the process. \<open>os_start\<close> tells of failures; otherwise a command that is not a
  list of texts is refused.
\<close>

definition popen :: "'o os_scheme \<Rightarrow> ('c \<Rightarrow> bool) \<Rightarrow> 'c \<Rightarrow> (pystr \<times> pystr) list option \<Rightarrow> pystr option \<Rightarrow> (('c, 'z) machine_scheme, nat) run" where
  "popen os texts cmd env cwd =
     bind_run (look (\<lambda>m. os_start os (length (mc_procs m)))) (\<lambda>refused.
     case refused of
       Some e \<Rightarrow> abort e
     | None \<Rightarrow> seq_run (result (if texts cmd then Inr () else Inl TypeError))
         (step_run (\<lambda>m. (length (mc_procs m),
           m\<lparr>mc_procs := mc_procs m @ [\<lparr>pr_cmd = cmd, pr_env = env, pr_cwd = cwd, pr_rc = None\<rparr>]\<rparr>))))"

text \<open>\<open>proc.poll()\<close>: the status is asked for until it has been seen once.\<close>

definition poll_proc :: "'o os_scheme \<Rightarrow> nat \<Rightarrow> (('c, 'z) machine_scheme, int option) run" where
  "poll_proc os h = step_run (\<lambda>m.
     case pr_rc (mc_procs m ! h) of
       Some rc \<Rightarrow> (Some rc, m)
     | None \<Rightarrow> (let rc = os_exit os (mc_polls m) h in
         (rc, m\<lparr>mc_polls := mc_polls m + 1, mc_procs := (mc_procs m)[h := (mc_procs m ! h)\<lparr>pr_rc := rc\<rparr>]\<rparr>)))"

text \<open>
  \<open>os.killpg(pid, sig)\<close>, to the process and all it has started, and \<open>os.kill(pid, sig)\<close>. The machine keeps a record of
  every signal sent: which, whether to the group, to which process, and how it came out.
\<close>

definition send_sig :: "'o os_scheme \<Rightarrow> signal \<Rightarrow> bool \<Rightarrow> nat \<Rightarrow> (('c, 'z) machine_scheme, outcome) run" where
  "send_sig os sg whole h = step_run (\<lambda>m. let out = os_signal os (length (mc_signals m)) in
     (out, m\<lparr>mc_signals := mc_signals m @ [(sg, whole, h, out)]\<rparr>))"

text \<open>\<open>proc.terminate()\<close> and \<open>proc.kill()\<close>.\<close>

definition send_direct :: "'o os_scheme \<Rightarrow> signal \<Rightarrow> nat \<Rightarrow> (('c, 'z) machine_scheme, unit) run" where
  "send_direct os sg h =
     bind_run (poll_proc os h) (\<lambda>rc.
     if rc \<noteq> None then give ()
     else bind_run (send_sig os sg False h) (\<lambda>out. if out = Denied then abort OSError else give ()))"

section \<open>Stopping a group of processes\<close>

text \<open>\<open>kill_group\<close> is what \<open>kill_all\<close> does to a process that runs, \<open>kill_or_pass\<close> what \<open>shutdown\<close> does.\<close>

definition kill_group :: "'o os_scheme \<Rightarrow> signal \<Rightarrow> nat \<Rightarrow> (('c, 'z) machine_scheme, unit) run" where
  "kill_group os sg h =
     bind_run (send_sig os sg True h) (\<lambda>out. if out = Delivered then give () else send_direct os sg h)"

definition kill_or_pass :: "'o os_scheme \<Rightarrow> signal \<Rightarrow> nat \<Rightarrow> (('c, 'z) machine_scheme, unit) run" where
  "kill_or_pass os sg h =
     bind_run (send_sig os sg True h) (\<lambda>out. if out = Denied then abort OSError else give ())"

text \<open>\<open>while proc.poll() is None and time.time() < deadline: time.sleep(0.05)\<close>.\<close>

definition await_exit :: "'o os_scheme \<Rightarrow> pyfloat \<Rightarrow> nat \<Rightarrow> (('c, 'z) machine_scheme, unit) run" where
  "await_exit os deadline h = repeat_run (
     bind_run (poll_proc os h) (\<lambda>rc.
     if rc \<noteq> None then give (Some ())
     else bind_run (time_now os) (\<lambda>t.
       if fless t deadline then seq_run (doze os) (give None) else give (Some ()))))"

definition term_running :: "'o os_scheme \<Rightarrow> (signal \<Rightarrow> nat \<Rightarrow> (('c, 'z) machine_scheme, unit) run) \<Rightarrow> nat \<Rightarrow> (('c, 'z) machine_scheme, unit) run" where
  "term_running os kill h = bind_run (poll_proc os h) (\<lambda>rc. when_run (rc = None) (kill SigTerm h))"

definition reap :: "'o os_scheme \<Rightarrow> (signal \<Rightarrow> nat \<Rightarrow> (('c, 'z) machine_scheme, unit) run) \<Rightarrow> pyfloat \<Rightarrow> nat \<Rightarrow> (('c, 'z) machine_scheme, unit) run" where
  "reap os kill deadline h =
     seq_run (await_exit os deadline h) (bind_run (poll_proc os h) (\<lambda>rc. when_run (rc = None) (kill SigKill h)))"

text \<open>
  SIGTERM to those that run, in the order \<open>first\<close>; then five seconds in all for them to end, one after the other in the order
  \<open>hs\<close>, and SIGKILL to each that has not.
\<close>

definition stop_procs :: "'o os_scheme \<Rightarrow> (signal \<Rightarrow> nat \<Rightarrow> (('c, 'z) machine_scheme, unit) run) \<Rightarrow> nat list \<Rightarrow> nat list \<Rightarrow> (('c, 'z) machine_scheme, unit) run" where
  "stop_procs os kill first hs =
     seq_run (for_run (term_running os kill) first)
     (bind_run (time_now os) (\<lambda>t. for_run (reap os kill (fadd t (Fin 5))) hs))"

section \<open>Time\<close>

text \<open>The clock comes to show a time and never falls back behind it; and it does so for every time \<open>d\<close> later than it shows.\<close>

definition reached :: "(nat \<Rightarrow> pyfloat) \<Rightarrow> pyfloat \<Rightarrow> bool" where
  "reached clock d \<longleftrightarrow> (\<exists>N. \<forall>j\<ge>N. fle d (clock j))"

definition passes :: "(nat \<Rightarrow> pyfloat) \<Rightarrow> pyfloat \<Rightarrow> bool" where
  "passes clock d \<longleftrightarrow> (\<forall>k. reached clock (fadd (clock k) d))"

lemma fle_not_less: "fle d c \<Longrightarrow> \<not> fless c d"
  using fless_trans fless_irrefl by (cases c; cases d) (auto simp: fle_def)

lemma returns_now [returns_intros]: "(\<And>k. returns (f (os_clock os k))) \<Longrightarrow> returns (bind_run (time_now os) f)"
  by (simp add: returns_def bind_run_app time_now_def run_simps)

lemma returns_machine [returns_intros]:
  "returns (time_now os)" "returns (doze os)" "returns (pause os d)" "returns (poll_proc os h)" "returns (send_sig os sg w h)"
  "returns (send_direct os sg h)" "returns (kill_group os sg h)" "returns (kill_or_pass os sg h)" "returns (popen os texts cmd env cwd)"
  by (auto simp: time_now_def doze_def pause_def poll_proc_def send_sig_def send_direct_def kill_group_def kill_or_pass_def popen_def
      intro!: returns_intros split: option.splits)

text \<open>A clock for examples, which counts seconds for a while and then leaps past every time.\<close>

definition sample_clock :: "nat \<Rightarrow> pyfloat" where
  "sample_clock n = (if n < 40 then Fin (of_nat n) else Infty False)"

lemma passes_sample: "passes sample_clock (Fin d)"
proof -
  have top: "x \<noteq> NaN \<Longrightarrow> fle x (Infty False)" for x by (cases x) (auto simp: fle_def)
  have "fadd (sample_clock k) (Fin d) \<noteq> NaN" for k by (auto simp: sample_clock_def rnd64_def zero_of_def Let_def)
  then have "fle (fadd (sample_clock k) (Fin d)) (sample_clock j)" if "40 \<le> j" for j k
    using that top by (simp add: sample_clock_def)
  then show ?thesis unfolding passes_def reached_def by blast
qed

section \<open>What only grows\<close>

text \<open>
  Later states: the counts grow, processes stay with their commands and the status seen of them, and signals sent
  stay sent.
\<close>

definition same_proc :: "'c proc \<Rightarrow> 'c proc \<Rightarrow> bool" where
  "same_proc p q \<longleftrightarrow> pr_cmd q = pr_cmd p \<and> pr_env q = pr_env p \<and> pr_cwd q = pr_cwd p \<and> (pr_rc p \<noteq> None \<longrightarrow> pr_rc q = pr_rc p)"

definition later :: "('c, 'z) machine_scheme \<Rightarrow> ('c, 'z) machine_scheme \<Rightarrow> bool" where
  "later m n \<longleftrightarrow> mc_times m \<le> mc_times n \<and> set (mc_signals m) \<subseteq> set (mc_signals n)
     \<and> length (mc_procs m) \<le> length (mc_procs n) \<and> (\<forall>h<length (mc_procs m). same_proc (mc_procs m ! h) (mc_procs n ! h))"

lemma same_proc_refl [simp]: "same_proc p p"
  by (simp add: same_proc_def)

lemma same_proc_trans: "same_proc p q \<Longrightarrow> same_proc q r \<Longrightarrow> same_proc p r"
  by (auto simp: same_proc_def)

interpretation lt: run_order later
proof unfold_locales
  show "later s s" for s :: "('c, 'z) machine_scheme" by (simp add: later_def)
  show "later s u" if "later s t" "later t u" for s t u :: "('c, 'z) machine_scheme"
    using that unfolding later_def by (meson less_le_trans order_trans same_proc_trans)
qed

lemma same_proc_update:
  "pr_rc (ps ! h) = None \<Longrightarrow> same_proc (ps ! j) (ps[h := (ps ! h)\<lparr>pr_rc := rc\<rparr>] ! j)"
  by (cases "h < length ps"; cases "h = j") (auto simp: same_proc_def list_update_beyond)

lemma poll_later: "moves later (poll_proc os h)"
  unfolding poll_proc_def
  by (rule lt.mv_step) (auto simp: later_def Let_def same_proc_update split: option.splits)

lemma later_machine:
  "moves later (time_now os)" "moves later (doze os)" "moves later (pause os d)" "moves later (poll_proc os h)" "moves later (send_sig os sg w h)"
  unfolding time_now_def doze_def pause_def send_sig_def
  by (auto intro!: lt.mv_intros poll_later simp: later_def Let_def)

lemma later_popen: "moves later (popen os texts cmd env cwd)"
  unfolding popen_def by (auto intro!: lt.mv_intros simp: later_def nth_append)

lemma later_kill: "moves later (send_direct os sg h)" "moves later (kill_group os sg h)" "moves later (kill_or_pass os sg h)"
  unfolding kill_group_def kill_or_pass_def send_direct_def by (auto intro!: lt.mv_intros later_machine)

lemma later_await: "moves later (await_exit os deadline h)"
  unfolding await_exit_def by (intro lt.mv_intros later_machine)

text \<open>What has been started: command lines and environments; only \<open>Popen\<close> changes it.\<close>

definition launches :: "('c, 'z) machine_scheme \<Rightarrow> ('c \<times> (pystr \<times> pystr) list option) list" where
  "launches m = map (\<lambda>p. (pr_cmd p, pr_env p)) (mc_procs m)"

interpretation ln: run_order "\<lambda>m n. launches n = launches m"
  by unfold_locales simp_all

lemma launch_update:
  "map (\<lambda>p. (pr_cmd p, pr_env p)) (ps[h := (ps ! h)\<lparr>pr_rc := rc\<rparr>]) = map (\<lambda>p. (pr_cmd p, pr_env p)) ps"
  by (cases "h < length ps") (auto simp: map_update list_update_beyond list_update_same_conv)

lemma launches_machine:
  "moves (\<lambda>m n. launches n = launches m) (time_now os)" "moves (\<lambda>m n. launches n = launches m) (doze os)"
  "moves (\<lambda>m n. launches n = launches m) (pause os d)" "moves (\<lambda>m n. launches n = launches m) (poll_proc os h)"
  "moves (\<lambda>m n. launches n = launches m) (send_sig os sg w h)"
proof -
  show "moves (\<lambda>m n. launches n = launches m) (poll_proc os h)"
    unfolding poll_proc_def by (rule ln.mv_step) (auto simp: launches_def launch_update Let_def split: option.splits)
  show "moves (\<lambda>m n. launches n = launches m) (time_now os)" "moves (\<lambda>m n. launches n = launches m) (send_sig os sg w h)"
    unfolding time_now_def send_sig_def Let_def by (rule ln.mv_step, simp add: launches_def)+
  show "moves (\<lambda>m n. launches n = launches m) (doze os)"
    unfolding doze_def by (intro ln.mv_intros) (simp add: launches_def)
  then show "moves (\<lambda>m n. launches n = launches m) (pause os d)" unfolding pause_def by (intro ln.mv_intros)
qed

lemma launches_kill:
  "moves (\<lambda>m n. launches n = launches m) (kill_group os sg h)" "moves (\<lambda>m n. launches n = launches m) (kill_or_pass os sg h)"
  unfolding kill_group_def kill_or_pass_def send_direct_def by (intro ln.mv_intros launches_machine)+

lemma launches_stop:
  "(\<And>sg h. moves (\<lambda>m n. launches n = launches m) (kill sg h)) \<Longrightarrow> moves (\<lambda>m n. launches n = launches m) (stop_procs os kill first hs)"
  unfolding stop_procs_def term_running_def reap_def await_exit_def by (intro ln.mv_intros launches_machine) simp_all

section \<open>Waiting for an exit\<close>

lemma returns_await:
  assumes "reached (os_clock os) deadline"
  shows "returns (await_exit os deadline h :: (('c, 'z) machine_scheme, unit) run)"
proof -
  obtain N where N: "\<forall>j\<ge>N. fle deadline (os_clock os j)" using assms by (auto simp: reached_def)
  let ?round = "bind_run (poll_proc os h) (\<lambda>rc. if rc \<noteq> None then give (Some ()) else bind_run (time_now os) (\<lambda>t.
       if fless t deadline then seq_run (doze os) (give None) else give (Some ())))"
  have r: "returns ?round" by (intro returns_intros)
  have c: "mc_times s < mc_times t \<and> mc_times s < N" if "?round s = Some (Inr None, t)" for s t :: "('c, 'z) machine_scheme"
  proof -
    obtain rc s1 where p: "poll_proc os h s = Some (rc, s1)" using returnsD [OF returns_machine(4)] by blast
    then have "mc_times s1 = mc_times s" by (auto simp: poll_proc_def run_simps Let_def split: option.splits)
    moreover have "fless (os_clock os (mc_times s1)) deadline \<and> mc_times t = mc_times s1 + 1"
      using that p by (auto simp: bind_run_app time_now_def doze_def run_simps split: sum.splits if_splits)
    ultimately show ?thesis using N fle_not_less by (metis less_add_one not_less)
  qed
  show ?thesis unfolding await_exit_def by (rule repeat_ends [OF r, of mc_times N]) (rule c)
qed

section \<open>Stopped processes\<close>

text \<open>A process is stopped when it has been seen to have ended, or has got SIGKILL, or was not there any more to get it.\<close>

definition stopped :: "nat \<Rightarrow> ('c, 'z) machine_scheme \<Rightarrow> bool" where
  "stopped h m \<longleftrightarrow> h < length (mc_procs m)
     \<and> (pr_rc (mc_procs m ! h) \<noteq> None \<or> (\<exists>w. \<exists>out\<in>{Delivered, NoProcess}. (SigKill, w, h, out) \<in> set (mc_signals m)))"

lemma stopped_later: "stopped h s \<Longrightarrow> later s t \<Longrightarrow> stopped h t"
  by (auto simp: stopped_def later_def same_proc_def)

definition started :: "nat \<Rightarrow> ('c, 'z) machine_scheme \<Rightarrow> bool" where
  "started h m \<longleftrightarrow> h < length (mc_procs m)"

lemma started_later: "started h s \<Longrightarrow> later s t \<Longrightarrow> started h t"
  by (auto simp: started_def later_def)

lemma sent_stops: "yields (started h) (send_sig os SigKill w h) (\<lambda>out s. started h s \<and> (out \<noteq> Denied \<longrightarrow> stopped h s))"
proof -
  have "x \<noteq> Denied \<longleftrightarrow> x = Delivered \<or> x = NoProcess" for x by (cases x) simp_all
  then show ?thesis by (auto simp: yields_def send_sig_def run_simps started_def stopped_def Let_def)
qed

lemma poll_stops: "yields (started h) (poll_proc os h) (\<lambda>rc s. started h s \<and> (rc \<noteq> None \<longrightarrow> stopped h s))"
  by (auto simp: yields_def poll_proc_def run_simps started_def stopped_def Let_def split: option.splits)

lemma direct_stops: "yields (started h) (send_direct os SigKill h) (\<lambda>_. stopped h)"
proof -
  have "yields (started h) (bind_run (send_sig os SigKill False h) (\<lambda>out. if out = Denied then abort OSError else give ())) (\<lambda>_. stopped h)"
    by (rule yields_then [OF sent_stops]) (auto simp: yields_def give_def abort_def)
  then have "yields (\<lambda>s. started h s \<and> (rc \<noteq> None \<longrightarrow> stopped h s))
      (if rc \<noteq> None then give () else bind_run (send_sig os SigKill False h) (\<lambda>out. if out = Denied then abort OSError else give ()))
      (\<lambda>_. stopped h)" for rc :: "int option"
    by (cases rc) (auto simp: yields_def give_def)
  then show ?thesis unfolding send_direct_def by (rule yields_then [OF poll_stops])
qed

text \<open>
  What stopping a group relies on: sending a signal comes to an end, changes the machine as every operation does,
  and a process sent SIGKILL without an exception is stopped.
\<close>

locale killer =
  fixes kill :: "signal \<Rightarrow> nat \<Rightarrow> (('c, 'z) machine_scheme, unit) run"
  assumes kill_returns: "returns (kill sg h)"
    and kill_later: "moves later (kill sg h)"
    and kill_stops: "yields (started h) (kill SigKill h) (\<lambda>_. stopped h)"
begin

lemma later_reap: "moves later (reap os kill deadline h)"
  unfolding reap_def by (intro lt.mv_intros later_machine kill_later later_await)

lemma later_stop: "moves later (stop_procs os kill first hs)"
  unfolding stop_procs_def term_running_def by (intro lt.mv_intros later_machine kill_later later_reap)

lemma returns_stop: "passes (os_clock os) (Fin 5) \<Longrightarrow> returns (stop_procs os kill first hs)"
  unfolding stop_procs_def term_running_def reap_def
  by (intro returns_intros kill_returns returns_await) (simp add: passes_def)

lemma yields_reap: "yields (started h) (reap os kill deadline h) (\<lambda>_. stopped h)"
proof -
  have "yields (\<lambda>s. started h s \<and> (rc \<noteq> None \<longrightarrow> stopped h s)) (when_run (rc = None) (kill SigKill h)) (\<lambda>_. stopped h)" for rc :: "int option"
    using kill_stops [of h] by (auto simp: yields_def when_run_def give_def)
  then have "yields (started h) (bind_run (poll_proc os h) (\<lambda>rc. when_run (rc = None) (kill SigKill h))) (\<lambda>_. stopped h)"
    by (rule yields_then [OF poll_stops])
  moreover have "yields (started h) (await_exit os deadline h) (\<lambda>_. started h)"
    using movesD [OF later_await] started_later by (fastforce simp: yields_def)
  ultimately show ?thesis unfolding reap_def by (blast intro: yields_seq)
qed

text \<open>When the group has been stopped without an exception, each process of it is.\<close>

lemma stop_stops: "yields (\<lambda>s. \<forall>h\<in>set hs. started h s) (stop_procs os kill first hs) (\<lambda>_ s. \<forall>h\<in>set hs. stopped h s)"
proof -
  have kept: "yields (\<lambda>s. \<forall>h\<in>set hs. started h s) m (\<lambda>_ s. \<forall>h\<in>set hs. started h s)" if "moves later m" for m :: "(('c, 'z) machine_scheme, 'x) run"
    using movesD [OF that] started_later by (fastforce simp: yields_def)
  have "moves later (for_run (term_running os kill) first)"
    unfolding term_running_def by (intro lt.mv_intros later_machine kill_later)
  moreover have each: "yields (\<lambda>s. \<forall>h\<in>set hs. started h s) (for_run (reap os kill d) ks) (\<lambda>_ s. (\<forall>h\<in>set hs. started h s) \<and> (\<forall>h\<in>set ks. h \<in> set hs \<longrightarrow> stopped h s))" for d ks
  proof (rule yields_for_each [OF _ later_reap])
    show "h \<in> set hs \<longrightarrow> stopped h t" if "h \<in> set hs \<longrightarrow> stopped h s" "later s t" for h and s t :: "('c, 'z) machine_scheme"
      using that stopped_later by blast
    show "yields (\<lambda>s. \<forall>h\<in>set hs. started h s) (reap os kill d h) (\<lambda>_ s. (\<forall>h\<in>set hs. started h s) \<and> (h \<in> set hs \<longrightarrow> stopped h s))" for h
      using kept [OF later_reap] yields_reap [of h os d] unfolding yields_def by blast
  qed
  have "yields (\<lambda>s. \<forall>h\<in>set hs. started h s) (for_run (reap os kill d) hs) (\<lambda>_ s. \<forall>h\<in>set hs. stopped h s)" for d
    by (rule yields_weaken [OF each]) auto
  ultimately show ?thesis unfolding stop_procs_def
    by (intro yields_seq [OF kept] yields_then [OF kept] later_machine) auto
qed

end

interpretation group_kill: killer "kill_group os" for os
proof
  show "yields (started h) (kill_group os SigKill h) (\<lambda>_. stopped h)" for h unfolding kill_group_def
    by (rule yields_then [OF sent_stops]) (use direct_stops [of h os] in \<open>auto simp: yields_def give_def\<close>)
qed (intro returns_machine later_kill)+

interpretation passing_kill: killer "kill_or_pass os" for os
proof
  show "yields (started h) (kill_or_pass os SigKill h) (\<lambda>_. stopped h)" for h unfolding kill_or_pass_def
    by (rule yields_then [OF sent_stops]) (auto simp: yields_def give_def abort_def)
qed (intro returns_machine later_kill)+

end
