(* ===== verification/Sil_Run.thy ===== *)
theory Sil_Run
  imports Sil_Runner Processes
begin

text \<open>
  The class \<open>Runner\<close> of \<open>sim/run_sil.py\<close>: it starts the backend, the proxy and the agents of a scenario, waits for
  them, plays the schedule, and stops whatever it has started. The state is that of the machine with the runner's
  own fields and the local lists of \<open>run\<close>; printing and the texts of errors are left out.
\<close>

section \<open>State\<close>

text \<open>
  What else the runner asks its surroundings: the status of the \<open>n\<close>-th health request (nothing when it fails), whether the
  \<open>n\<close>-th request of an action is accepted, the answers for the \<open>n\<close>-th check, the files there are, removing a
  file, the environment, and the paths of the repository and the interpreter.
\<close>

record sil_os = os +
  os_get :: "nat \<Rightarrow> int option"
  os_accept :: "nat \<Rightarrow> bool"
  os_answers :: "nat \<Rightarrow> answers"
  os_exists :: "pystr \<Rightarrow> bool"
  os_unlink :: "pystr \<Rightarrow> raised option"
  os_environ :: "(pystr \<times> pystr) list"
  os_root :: pystr
  os_executable :: pystr
  os_url_port :: "pystr \<Rightarrow> int option res"

record child =
  ch_name :: pystr
  ch_proc :: nat
  ch_log :: pystr

record runner = "json list machine" +
  rn_sc :: json
  rn_children :: "child list"
  rn_gets :: nat
  rn_asked :: nat
  rn_sent :: "request list"
  rn_actions :: "(json \<times> bool) list"
  rn_results :: "(json \<times> bool) list"
  rn_fatal :: bool

section \<open>Starting and stopping\<close>

text \<open>\<open>str(Path(dir) / p)\<close> for a directory that is written in its normal form.\<close>

definition path_join :: "pystr \<Rightarrow> pystr \<Rightarrow> pystr" where
  "path_join dir p =
     (let parts = filter (\<lambda>x. x \<noteq> [] \<and> x \<noteq> [46]) (py_split 47 p); tail = concat (map (\<lambda>x. 47 # x) parts) in
      if take 1 p \<noteq> [47] then dir @ tail
      else (if take 2 p = [47, 47] \<and> take 3 p \<noteq> [47, 47, 47] then [47] else []) @ (if parts = [] then [47] else tail))"

definition report_dir :: "sil_os \<Rightarrow> pystr" where
  "report_dir os = os_root os @ lit ''/sim/reports''"

definition scenario_name :: "json \<Rightarrow> pystr" where
  "scenario_name sc = py_str (field sc ''name'')"

definition log_path :: "sil_os \<Rightarrow> json \<Rightarrow> pystr \<Rightarrow> pystr" where
  "log_path os sc name =
     path_join (report_dir os @ lit ''/logs'') (scenario_name sc @ 45 # map (\<lambda>c. if c = 58 then 45 else c) name @ lit ''.log'')"

text \<open>\<open>spawn\<close>, where \<open>os_start\<close> tells also of a log file that cannot be opened.\<close>

definition spawn :: "sil_os \<Rightarrow> pystr \<Rightarrow> json list \<Rightarrow> pystr option \<Rightarrow> (pystr \<times> pystr) list option \<Rightarrow> (runner, unit) run" where
  "spawn os name words cwd env =
     bind_run (popen os (list_all is_str) words env cwd) (\<lambda>h.
      alter (\<lambda>r. r\<lparr>rn_children := rn_children r @ [\<lparr>ch_name = name, ch_proc = h, ch_log = log_path os (rn_sc r) name\<rparr>]\<rparr>))"

definition kill_all :: "sil_os \<Rightarrow> (runner, unit) run" where
  "kill_all os =
     bind_run (look (\<lambda>r. map ch_proc (rn_children r))) (\<lambda>hs.
     seq_run (stop_procs os (kill_group os) (rev hs) hs) (alter (\<lambda>r. r\<lparr>rn_children := []\<rparr>)))"

text \<open>\<open>check_children\<close>: the warnings about agents that have ended.\<close>

fun dead_children :: "sil_os \<Rightarrow> child list \<Rightarrow> (runner, pystr list) run" where
  "dead_children os [] = give []"
| "dead_children os (c # cs) =
     bind_run (poll_proc os (ch_proc c)) (\<lambda>rc.
     bind_run (dead_children os cs) (\<lambda>dead.
     give (case rc of
         Some i \<Rightarrow> if take 6 (ch_name c) = lit ''agent:'' then (ch_name c @ lit '' exited rc='' @ py_str_int i) # dead else dead
       | None \<Rightarrow> dead)))"

definition check_children :: "sil_os \<Rightarrow> (runner, pystr list) run" where
  "check_children os = bind_run (look rn_children) (dead_children os)"

text \<open>\<open>Api.health_ok\<close> and the request to the proxy: the status of the answer.\<close>

definition http_get :: "sil_os \<Rightarrow> (runner, int option) run" where
  "http_get os = step_run (\<lambda>r. (os_get os (rn_gets r), r\<lparr>rn_gets := rn_gets r + 1\<rparr>))"

section \<open>The backend\<close>

definition backend_python :: "sil_os \<Rightarrow> pystr" where
  "backend_python os = (let venv = os_root os @ lit ''/backend/.venv/bin/python'' in if os_exists os venv then venv else os_executable os)"

definition db_path :: "sil_os \<Rightarrow> json \<Rightarrow> pystr" where
  "db_path os sc = path_join (report_dir os) (scenario_name sc @ lit ''.db'')"

definition backend_env :: "sil_os \<Rightarrow> json \<Rightarrow> int \<Rightarrow> (pystr \<times> pystr) list" where
  "backend_env os sc port =
     (let be = field sc ''backend'' in
      foldl (\<lambda>env (k, v). AList.update (lit k) v env) (os_environ os)
        [(''ECU_HTTP_PORT'', py_str_int port), (''ECU_UDP_PORT'', py_str (field be ''udp_port'')),
         (''ECU_TCP_PORT'', py_str (field be ''tcp_port'')), (''ECU_DB_PATH'', db_path os sc), (''PYTHONUNBUFFERED'', lit ''1'')])"

definition backend_cmd :: "sil_os \<Rightarrow> int \<Rightarrow> json list" where
  "backend_cmd os port =
     map JStr [backend_python os, lit ''-m'', lit ''uvicorn'', lit ''app.main:app'', lit ''--host'', lit ''127.0.0.1'',
       lit ''--port'', py_str_int port, lit ''--log-level'', lit ''warning'']"

definition remove_file :: "sil_os \<Rightarrow> pystr \<Rightarrow> (runner, unit) run" where
  "remove_file os path = (case os_unlink os path of Some e \<Rightarrow> abort e | None \<Rightarrow> give ())"

text \<open>The loop at the end of \<open>start_backend\<close>.\<close>

definition await_healthy :: "sil_os \<Rightarrow> pyfloat \<Rightarrow> (runner, unit) run" where
  "await_healthy os deadline = repeat_run (
     bind_run (time_now os) (\<lambda>t.
     if \<not> fless t deadline then abort (Raised RuntimeError)
     else bind_run (http_get os) (\<lambda>status.
       if status = Some 200 then give (Some ())
       else bind_run (look (\<lambda>r. ch_proc (last (rn_children r)))) (\<lambda>h.
         bind_run (poll_proc os h) (\<lambda>rc.
         if rc \<noteq> None then abort (Raised RuntimeError) else seq_run (doze os) (give None))))))"

definition start_backend :: "sil_os \<Rightarrow> sil_args \<Rightarrow> (runner, unit) run" where
  "start_backend os args =
     bind_run (look rn_sc) (\<lambda>sc.
     bind_run (result (http_port (os_url_port os) sc)) (\<lambda>port.
     bind_run (http_get os) (\<lambda>status.
     if status = Some 200 then abort (Raised RuntimeError)
     else seq_run (for_run (\<lambda>suffix. remove_file os (db_path os sc @ lit suffix)) [[], ''-wal'', ''-shm''])
       (seq_run (spawn os (lit ''backend'') (backend_cmd os port) (Some (os_root os @ lit ''/backend'')) (Some (backend_env os sc port)))
       (bind_run (time_now os) (\<lambda>t. await_healthy os (fadd t (ar_backend_timeout args))))))))"

section \<open>The proxy\<close>

text \<open>Up to 40 requests; after an answer other than 200 the next follows at once, after a failure a tenth of a second later.\<close>

fun await_proxy :: "sil_os \<Rightarrow> nat \<Rightarrow> (runner, unit) run" where
  "await_proxy os 0 = abort (Raised RuntimeError)"
| "await_proxy os (Suc n) =
     bind_run (http_get os) (\<lambda>status.
     if status = Some 200 then give ()
     else seq_run (when_run (status = None) (doze os)) (await_proxy os n))"

text \<open>\<open>start_proxy\<close>: whether there is a proxy; its block of the scenario is completed.\<close>

definition proxy_command :: "sil_os \<Rightarrow> json \<Rightarrow> json list" where
  "proxy_command os sc = map JStr (os_executable os # (os_root os @ lit ''/sim/lossy_proxy.py'') # proxy_cmd sc (field sc ''proxy''))"

definition start_proxy :: "sil_os \<Rightarrow> sil_args \<Rightarrow> (runner, bool) run" where
  "start_proxy os args =
     bind_run (look (\<lambda>r. needs_proxy (rn_sc r) args)) (\<lambda>needed.
     if \<not> needed then give False
     else seq_run (alter (\<lambda>r. r\<lparr>rn_sc := with_proxy (rn_sc r) args\<rparr>))
       (bind_run (look rn_sc) (\<lambda>sc.
        seq_run (spawn os (lit ''lossy_proxy'') (proxy_command os sc) None None)
        (seq_run (await_proxy os 40) (give True)))))"

section \<open>The agents\<close>

definition start_agent :: "sil_os \<Rightarrow> sil_args \<Rightarrow> json \<Rightarrow> (runner, unit) run" where
  "start_agent os args d =
     bind_run (look rn_sc) (\<lambda>sc.
     bind_run (result (agent_cmd sc args d)) (\<lambda>words.
     spawn os (lit ''agent:'' @ py_str (field d ''id'')) words None None))"

definition start_agents :: "sil_os \<Rightarrow> sil_args \<Rightarrow> json list \<Rightarrow> (runner, unit) run" where
  "start_agents os args devices =
     seq_run (when_run (\<not> os_exists os (ar_agent args) \<and> \<not> list_all (\<lambda>d. has_key d ''remote'') devices) (abort (Raised RuntimeError)))
     (for_run (start_agent os args) devices)"

text \<open>The first part of \<open>run\<close>: the backend, the proxy, the agents. The result tells whether there is a proxy.\<close>

definition start_all :: "sil_os \<Rightarrow> sil_args \<Rightarrow> (runner, bool) run" where
  "start_all os args =
     bind_run (look (\<lambda>r. items_of (field (rn_sc r) ''devices''))) (\<lambda>devices.
     seq_run
       (if ar_start_backend args then start_backend os args
        else bind_run (http_get os) (\<lambda>status. when_run (status \<noteq> Some 200) (abort (Raised RuntimeError))))
     (bind_run (start_proxy os args) (\<lambda>proxy.
      seq_run (start_agents os args devices) (give proxy))))"

section \<open>The schedule\<close>

text \<open>Printing a line about an item fails when its \<open>device\<close> is a list or a mapping, which cannot be padded.\<close>

definition print_item :: "json \<Rightarrow> unit res" where
  "print_item x = (let d = field x ''device'' in if truthy d \<and> (is_list d \<or> is_obj d) then Inl TypeError else Inr ())"

text \<open>An action: whether its request could be made and was accepted.\<close>

definition do_action :: "sil_os \<Rightarrow> bool \<Rightarrow> json \<Rightarrow> (runner, unit) run" where
  "do_action os proxy x =
     bind_run (case run_action proxy x of
         Inl e \<Rightarrow> give False
       | Inr None \<Rightarrow> give True
       | Inr (Some rq) \<Rightarrow> step_run (\<lambda>r. (os_accept os (rn_asked r), r\<lparr>rn_asked := rn_asked r + 1, rn_sent := rn_sent r @ [rq]\<rparr>)))
     (\<lambda>ok. alter (\<lambda>r. r\<lparr>rn_actions := rn_actions r @ [(x, ok)]\<rparr>))"

text \<open>\<open>eval_with_grace\<close> on the clock of the machine.\<close>

definition await_check :: "sil_os \<Rightarrow> pyfloat \<Rightarrow> json \<Rightarrow> (runner, bool) run" where
  "await_check os grace e =
     bind_run (time_now os) (\<lambda>t0. repeat_run (
       bind_run (step_run (\<lambda>r. (holds (os_answers os (rn_asked r)) e, r\<lparr>rn_asked := rn_asked r + 1\<rparr>))) (\<lambda>ok.
       if ok then give (Some True)
       else bind_run (time_now os) (\<lambda>t.
         if fle (fadd t0 grace) t then give (Some False) else seq_run (doze os) (give None)))))"

definition do_check :: "sil_os \<Rightarrow> pyfloat \<Rightarrow> json \<Rightarrow> (runner, bool) run" where
  "do_check os grace x =
     bind_run (await_check os grace x) (\<lambda>ok.
     seq_run (alter (\<lambda>r. r\<lparr>rn_results := rn_results r @ [(x, ok)]\<rparr>)) (give ok))"

text \<open>The loop over the schedule: wait for the time of the item, look after the children, act or check.\<close>

definition wait_until :: "sil_os \<Rightarrow> pyfloat \<Rightarrow> (runner, unit) run" where
  "wait_until os due =
     bind_run (time_now os) (\<lambda>t. let wait = fsub due t in when_run (fless (Fin 0) wait) (pause os wait))"

fun play :: "sil_os \<Rightarrow> sil_args \<Rightarrow> bool \<Rightarrow> pyfloat \<Rightarrow> item list \<Rightarrow> (runner, unit) run" where
  "play os args proxy clock0 [] = give ()"
| "play os args proxy clock0 ((at_s, kind, x) # items) =
     seq_run (wait_until os (fadd clock0 at_s))
     (seq_run (bind_run (check_children os) (\<lambda>_. give ()))
     (if kind = Action then
        (if field x ''action'' = JStr (lit ''note'') then play os args proxy clock0 items
         else seq_run (do_action os proxy x) (seq_run (result (print_item x)) (play os args proxy clock0 items)))
      else
        bind_run (do_check os (ar_grace args) x) (\<lambda>ok.
        seq_run (result (print_item x)) (if \<not> ok \<and> ar_fail_fast args then give () else play os args proxy clock0 items))))"

text \<open>\<open>hold\<close>: until Ctrl-C.\<close>

definition hold :: "sil_os \<Rightarrow> (runner, unit) run" where
  "hold os = try_run (\<lambda>e. e = KeyboardInterrupt) (repeat_run (seq_run (doze os) (give None))) (\<lambda>_. give ())"

definition play_all :: "sil_os \<Rightarrow> sil_args \<Rightarrow> bool \<Rightarrow> json \<Rightarrow> (runner, unit) run" where
  "play_all os args proxy sc =
     bind_run (result (schedule_of sc)) (\<lambda>items.
     bind_run (result (end_at sc items)) (\<lambda>end_s.
     bind_run (time_now os) (\<lambda>clock0.
     seq_run (play os args proxy clock0 items)
     (bind_run (time_now os) (\<lambda>t. let remaining = fsub (fadd clock0 end_s) t in
      seq_run (when_run (fless (Fin 0) remaining \<and> \<not> ar_fail_fast args) (pause os (if fless (Fin 2) remaining then Fin 2 else remaining)))
      (when_run (ar_hold args) (hold os)))))))"

section \<open>The whole run\<close>

text \<open>
  \<open>Runner.run\<close>: whatever happens on the way ends in a report, after every child has been stopped. The report needs a
  description that is a text.
\<close>

definition report_of :: "runner \<Rightarrow> report res" where
  "report_of r =
     (if is_str (field (rn_sc r) ''description'') then Inr (make_report (rn_sc r) (rn_fatal r) (rn_actions r) (rn_results r))
      else Inl AttributeError)"

definition run_body :: "sil_os \<Rightarrow> sil_args \<Rightarrow> (runner, unit) run" where
  "run_body os args = bind_run (look rn_sc) (\<lambda>sc. bind_run (start_all os args) (\<lambda>proxy. play_all os args proxy sc))"

definition run_scenario :: "sil_os \<Rightarrow> sil_args \<Rightarrow> (runner, report) run" where
  "run_scenario os args =
     seq_run (alter (\<lambda>r. r\<lparr>rn_actions := [], rn_results := [], rn_fatal := False\<rparr>))
     (seq_run
       (finally_run
         (try_run (\<lambda>_. True) (run_body os args) (\<lambda>_. alter (\<lambda>r. r\<lparr>rn_fatal := True\<rparr>)))
         (kill_all os))
       (bind_run (look report_of) result))"

end
