(* ===== verification/Sil_Run_Laws.thy ===== *)
theory Sil_Run_Laws
  imports Sil_Run
begin

text \<open>
  What a run of \<open>sim/run_sil.py\<close> guarantees: it comes to an end and leaves no process behind, its verdict is that of
  every expectation in the order of the schedule, and it starts the processes the scenario describes.
\<close>

named_theorems calm_intros \<open>rules that show that code starts nothing and records no result\<close>
named_theorems track_intros \<open>rules that show that code keeps track of its processes\<close>

section \<open>Two relations\<close>

text \<open>Code that starts nothing and records no result, and code that has every process it starts among its children.\<close>

definition calm :: "runner \<Rightarrow> runner \<Rightarrow> bool" where
  "calm r t \<longleftrightarrow> later r t \<and> rn_sc t = rn_sc r \<and> rn_children t = rn_children r \<and> rn_results t = rn_results r
     \<and> rn_fatal t = rn_fatal r \<and> launches t = launches r"

definition all_children :: "runner \<Rightarrow> bool" where
  "all_children r \<longleftrightarrow> (\<forall>c\<in>set (rn_children r). started (ch_proc c) r)"

definition tracks :: "runner \<Rightarrow> runner \<Rightarrow> bool" where
  "tracks r t \<longleftrightarrow> later r t \<and> rn_fatal t = rn_fatal r \<and> (all_children r \<longrightarrow> all_children t) \<and> (\<forall>k. k \<noteq> ''proxy'' \<longrightarrow> field (rn_sc t) k = field (rn_sc r) k)
     \<and> set (rn_children r) \<subseteq> set (rn_children t)
     \<and> {length (mc_procs r)..<length (mc_procs t)} \<subseteq> ch_proc ` set (rn_children t)"

interpretation cm: run_order calm
  by unfold_locales (auto simp: calm_def intro: lt.stay lt.thence)

lemma tracks_trans:
  assumes "tracks r s" "tracks s t"
  shows "tracks r t"
proof -
  note r = assms(1) [unfolded tracks_def] and t = assms(2) [unfolded tracks_def]
  have l: "later r t" by (rule lt.thence [OF conjunct1 [OF r] conjunct1 [OF t]])
  have f: "\<forall>k. k \<noteq> ''proxy'' \<longrightarrow> field (rn_sc t) k = field (rn_sc r) k" using r t by simp
  have c: "set (rn_children s) \<subseteq> set (rn_children t)" "set (rn_children r) \<subseteq> set (rn_children s)" using r t by simp_all
  have p: "h \<in> ch_proc ` set (rn_children t)" if "length (mc_procs r) \<le> h" "h < length (mc_procs t)" for h
  proof (cases "h < length (mc_procs s)")
    case True
    with r that have "h \<in> ch_proc ` set (rn_children s)" by auto
    with c show ?thesis by blast
  next
    case False
    with t that show ?thesis by auto
  qed
  then have "{length (mc_procs r)..<length (mc_procs t)} \<subseteq> ch_proc ` set (rn_children t)" by (meson atLeastLessThan_iff subsetI)
  moreover have "rn_fatal t = rn_fatal r" "all_children r \<longrightarrow> all_children t" using r t by simp_all
  ultimately show ?thesis using l f subset_trans [OF c(2) c(1)] unfolding tracks_def by simp
qed

interpretation tk: run_order tracks
  by unfold_locales (simp add: tracks_def lt.stay, rule tracks_trans)

lemma calm_tracks: "moves calm m \<Longrightarrow> moves tracks m"
proof (erule moves_mono)
  fix r t assume c: "calm r t"
  then have "length (mc_procs t) = length (mc_procs r)" unfolding calm_def launches_def using map_eq_imp_length_eq by blast
  moreover have "all_children t" if "all_children r"
    using that c started_later unfolding all_children_def calm_def by auto
  ultimately show "tracks r t" using c by (simp add: calm_def tracks_def)
qed

lemma calm_later: "moves calm m \<Longrightarrow> moves later m"
  by (erule moves_mono) (simp add: calm_def)

lemma calm_machine [calm_intros]:
  "moves calm (time_now os)" "moves calm (doze os)" "moves calm (pause os d)" "moves calm (poll_proc os h)" "moves calm (http_get os)"
proof -
  have poll: "moves later (poll_proc os h :: (runner, int option) run)" "moves (\<lambda>r t. launches t = launches r) (poll_proc os h :: (runner, int option) run)"
    by (rule poll_later launches_machine)+
  then show "moves calm (poll_proc os h)"
    by (auto simp: moves_def calm_def poll_proc_def run_simps Let_def split: option.splits)
  show "moves calm (time_now os)" "moves calm (http_get os)"
    unfolding time_now_def http_get_def by (auto intro!: cm.mv_intros simp: calm_def launches_def later_def)
  show "moves calm (doze os)" unfolding doze_def by (auto intro!: cm.mv_intros simp: calm_def launches_def later_def)
  then show "moves calm (pause os d)" unfolding pause_def by (intro cm.mv_intros)
qed

lemma calm_loops [calm_intros]:
  "moves calm (await_healthy os d)" "moves calm (hold os)" "moves calm (wait_until os d)" "moves calm (remove_file os path)"
  "moves calm (await_check os d x)" "moves calm (do_action os proxy x)"
  unfolding await_healthy_def hold_def wait_until_def remove_file_def await_check_def do_action_def Let_def
  by (auto intro!: cm.mv_intros calm_intros simp: calm_def launches_def later_def split: option.splits sum.splits)

lemma calm_await_proxy [calm_intros]: "moves calm (await_proxy os n)"
  by (induction n) (auto intro!: cm.mv_intros calm_intros)

lemma calm_dead [calm_intros]: "moves calm (dead_children os cs)"
  by (induction cs) (auto intro!: cm.mv_intros calm_intros)

lemma calm_check [calm_intros]: "moves calm (check_children os)"
  unfolding check_children_def by (intro cm.mv_intros calm_intros)

section \<open>Every process started is a child\<close>

lemma spawn_result:
  assumes "spawn os name words cwd env r = Some (v, t)"
  shows "t = r \<and> (\<exists>e. v = Inl e) \<or>
    v = Inr () \<and> t = r\<lparr>mc_procs := mc_procs r @ [\<lparr>pr_cmd = words, pr_env = env, pr_cwd = cwd, pr_rc = None\<rparr>],
      rn_children := rn_children r @ [\<lparr>ch_name = name, ch_proc = length (mc_procs r), ch_log = log_path os (rn_sc r) name\<rparr>]\<rparr>"
  using assms by (auto simp: spawn_def popen_def run_simps split: option.splits if_splits)

lemma track_spawn [track_intros]: "moves tracks (spawn os name words cwd env)"
  unfolding moves_def
proof (intro allI impI)
  fix r v t assume "spawn os name words cwd env r = Some (v, t)"
  from spawn_result [OF this] show "tracks r t"
    by (auto simp: tracks_def later_def nth_append less_Suc_eq all_children_def started_def)
qed

lemma field_set_other: "k' \<noteq> k \<Longrightarrow> field (set_key d k v) k' = field d k'"
  by (cases d) (auto simp: set_key_def field_def field_or_def update_conv')

lemma field_with_proxy: "k \<noteq> ''proxy'' \<Longrightarrow> field (with_proxy sc args) k = field sc k"
  by (simp add: with_proxy_def field_set_other)

lemma track_starts [track_intros]:
  "moves tracks (start_backend os args)" "moves tracks (start_proxy os args)" "moves tracks (start_agents os args ds)"
  unfolding start_backend_def start_proxy_def start_agents_def start_agent_def
  by (intro tk.mv_intros track_intros calm_intros [THEN calm_tracks]; simp add: tracks_def later_def all_children_def started_def field_with_proxy)+

lemma track_start_all [track_intros]: "moves tracks (start_all os args)"
  unfolding start_all_def by (intro tk.mv_intros track_intros calm_intros [THEN calm_tracks])

lemma track_do_check [track_intros]: "moves tracks (do_check os grace x)"
  unfolding do_check_def
  by (intro tk.mv_intros track_intros calm_intros [THEN calm_tracks]) (simp add: tracks_def later_def all_children_def started_def)

lemma track_play [track_intros]: "moves tracks (play os args proxy clock0 items)"
proof (induction items)
  case (Cons i items)
  obtain at_s kind x where "i = (at_s, kind, x)" by (cases i)
  then show ?case
    by (simp only: play.simps) (intro tk.mv_intros track_intros calm_intros [THEN calm_tracks] Cons)
qed (simp add: tk.mv_simple)

lemma track_body: "moves tracks (run_body os args)"
  unfolding run_body_def play_all_def Let_def by (intro tk.mv_intros track_intros calm_intros [THEN calm_tracks])

section \<open>A run comes to an end\<close>

text \<open>
  What a run needs to come to an end: the clock passes its time limits, and a run that is to be held is interrupted in
  the end.
\<close>

definition time_goes_on :: "sil_os \<Rightarrow> sil_args \<Rightarrow> bool" where
  "time_goes_on os args \<longleftrightarrow> passes (os_clock os) (Fin 5) \<and> passes (os_clock os) (ar_backend_timeout args)
     \<and> passes (os_clock os) (ar_grace args) \<and> (ar_hold args \<longrightarrow> (\<forall>k. \<exists>j\<ge>k. os_interrupt os j))"

lemma after_now:
  assumes "bind_run (time_now os) f s = Some (v, t)" "\<And>x. moves calm (f x)"
  obtains u where "f (os_clock os (mc_times s)) u = Some (v, t)" "mc_times s < mc_times t"
proof -
  let ?u = "s\<lparr>mc_times := mc_times s + 1\<rparr>"
  have f: "f (os_clock os (mc_times s)) ?u = Some (v, t)" using assms(1) by (simp add: bind_run_app time_now_def run_simps)
  from movesD [OF assms(2) f] have "mc_times ?u \<le> mc_times t" unfolding calm_def later_def by blast
  then show thesis using that [OF f] by simp
qed

lemma returns_http [returns_intros]: "returns (http_get os)" "returns (remove_file os path)"
  by (auto simp: http_get_def remove_file_def intro!: returns_intros split: option.splits)

lemma returns_await_healthy:
  assumes "reached (os_clock os) d"
  shows "returns (await_healthy os d)"
proof -
  obtain N where N: "\<forall>j\<ge>N. fle d (os_clock os j)" using assms by (auto simp: reached_def)
  let ?f = "\<lambda>t. if \<not> fless t d then abort (Raised RuntimeError)
     else bind_run (http_get os) (\<lambda>status.
       if status = Some 200 then give (Some ())
       else bind_run (look (\<lambda>r. ch_proc (last (rn_children r)))) (\<lambda>h.
         bind_run (poll_proc os h) (\<lambda>rc.
         if rc \<noteq> None then abort (Raised RuntimeError) else seq_run (doze os) (give None))))"
  have m: "moves calm (?f x)" for x by (intro cm.mv_intros calm_intros)
  have c: "mc_times s < mc_times t \<and> mc_times s < N" if r: "bind_run (time_now os) ?f s = Some (Inr None, t)" for s t
  proof -
    obtain u where u: "?f (os_clock os (mc_times s)) u = Some (Inr None, t)" "mc_times s < mc_times t" by (rule after_now [OF r m])
    from u(1) have "fless (os_clock os (mc_times s)) d" by (simp add: abort_def split: if_splits)
    with N fle_not_less have "mc_times s < N" by (meson not_less)
    with u(2) show ?thesis by simp
  qed
  show ?thesis unfolding await_healthy_def by (rule repeat_ends [of _ mc_times N], intro returns_intros) (rule c)
qed

lemma returns_await_check:
  assumes "passes (os_clock os) grace"
  shows "returns (await_check os grace e)"
proof -
  have "returns (repeat_run (
       bind_run (step_run (\<lambda>r. (holds (os_answers os (rn_asked r)) e, r\<lparr>rn_asked := rn_asked r + 1\<rparr>))) (\<lambda>ok.
       if ok then give (Some True)
       else bind_run (time_now os) (\<lambda>t. if fle d t then give (Some False) else seq_run (doze os) (give None)))) :: (runner, bool) run)"
    if reaches: "reached (os_clock os) d" for d
  proof -
    obtain N where N: "\<forall>j\<ge>N. fle d (os_clock os j)" using reaches by (auto simp: reached_def)
    let ?f = "\<lambda>t. if fle d t then give (Some False) else seq_run (doze os) (give None) :: (runner, bool option) run"
    let ?m = "bind_run (step_run (\<lambda>r. (holds (os_answers os (rn_asked r)) e, r\<lparr>rn_asked := rn_asked r + 1\<rparr>)))
      (\<lambda>ok. if ok then give (Some True) else bind_run (time_now os) ?f)"
    have m: "moves calm (?f x)" for x by (intro cm.mv_intros calm_intros)
    have c: "mc_times s < mc_times t \<and> mc_times s < N" if "?m s = Some (Inr None, t)" for s t
    proof -
      have b: "bind_run (time_now os) ?f (s\<lparr>rn_asked := rn_asked s + 1\<rparr>) = Some (Inr None, t)"
        using that by (simp add: bind_run_app step_run_app give_def split: if_splits)
      obtain u where u: "?f (os_clock os (mc_times s)) u = Some (Inr None, t)" "mc_times s < mc_times t"
        using after_now [OF b m] by auto
      from u(1) have "\<not> fle d (os_clock os (mc_times s))" by (auto simp: give_def)
      with N have "mc_times s < N" by (meson not_less)
      with u(2) show ?thesis by simp
    qed
    show ?thesis by (rule repeat_ends [of _ mc_times N], intro returns_intros) (rule c)
  qed
  then show ?thesis unfolding await_check_def using assms by (intro returns_now) (simp add: passes_def)
qed

lemma returns_hold:
  assumes "\<forall>k. \<exists>j\<ge>k. os_interrupt os j"
  shows "returns (hold os)"
proof -
  have r: "returns (seq_run (doze os) (give None) :: (runner, unit option) run)" by (intro returns_intros)
  have "returns (repeat_run (seq_run (doze os) (give None)) :: (runner, unit) run)"
    by (rule repeat_until_interrupt [OF r, of "os_interrupt os" mc_sleeps])
      (use assms in \<open>auto simp: doze_def run_simps split: if_splits\<close>)
  then show ?thesis unfolding hold_def by (intro returns_intros)
qed

lemma returns_await_proxy [returns_intros]: "returns (await_proxy os n)"
  by (induction n) (auto intro!: returns_intros)

lemma returns_dead [returns_intros]: "returns (dead_children os cs)"
  by (induction cs) (auto intro!: returns_intros)

lemma returns_small [returns_intros]:
  "returns (spawn os name words cwd env)" "returns (check_children os)" "returns (wait_until os due)" "returns (do_action os proxy x)"
  "returns (start_proxy os args)" "returns (start_agents os args ds)"
  by (auto simp: spawn_def check_children_def wait_until_def do_action_def Let_def start_proxy_def start_agents_def start_agent_def
      intro!: returns_intros split: option.splits sum.splits)

lemma returns_play:
  assumes "time_goes_on os args"
  shows "returns (play os args proxy clock0 items)"
proof (induction items)
  case (Cons i items)
  obtain at_s kind x where i: "i = (at_s, kind, x)" by (cases i)
  have "returns (do_check os (ar_grace args) x)"
    using assms unfolding do_check_def time_goes_on_def by (intro returns_intros returns_await_check) blast
  then show ?case unfolding i play.simps by (intro returns_intros Cons)
qed (simp add: returns_simple)

lemma returns_body:
  assumes "time_goes_on os args"
  shows "returns (run_body os args)"
proof -
  have "returns (start_backend os args)"
    using assms unfolding start_backend_def time_goes_on_def passes_def by (intro returns_intros returns_await_healthy) blast
  moreover have "ar_hold args \<Longrightarrow> returns (hold os)" using assms returns_hold unfolding time_goes_on_def by blast
  ultimately show ?thesis unfolding run_body_def start_all_def play_all_def Let_def
    by (intro returns_intros returns_play assms)
qed

lemma returns_kill_all: "passes (os_clock os) (Fin 5) \<Longrightarrow> returns (kill_all os)"
  unfolding kill_all_def by (intro returns_intros group_kill.returns_stop)

text \<open>Polling on the clock of the machine gives the verdict of \<open>eval_with_grace\<close> for the answers and times it meets.\<close>

lemma await_check_polls:
  assumes "await_check os grace e r = Some (Inr v, t)"
  shows "eval_with_grace (\<lambda>n. os_answers os (rn_asked r + n)) (\<lambda>n. os_clock os (mc_times r + 1 + n)) (os_clock os (mc_times r)) grace e = Some v"
proof -
  define d where "d = fadd (os_clock os (mc_times r)) grace"
  let ?an = "\<lambda>n. os_answers os (rn_asked r + n)" and ?clock = "\<lambda>n. os_clock os (mc_times r + 1 + n)"
  define round :: "(runner, bool option) run" where "round = bind_run (step_run (\<lambda>r. (holds (os_answers os (rn_asked r)) e, r\<lparr>rn_asked := rn_asked r + 1\<rparr>))) (\<lambda>ok.
       if ok then give (Some True)
       else bind_run (time_now os) (\<lambda>t. if fle d t then give (Some False) else seq_run (doze os) (give None)))"
  have one: "round s = (if holds (?an n) e then Some (Inr (Some True), s\<lparr>rn_asked := rn_asked s + 1\<rparr>)
      else if fle d (?clock n) then Some (Inr (Some False), s\<lparr>rn_asked := rn_asked s + 1, mc_times := mc_times s + 1\<rparr>)
      else seq_run (doze os) (give None) (s\<lparr>rn_asked := rn_asked s + 1, mc_times := mc_times s + 1\<rparr>))"
    if "rn_asked s = rn_asked r + n" "mc_times s = mc_times r + 1 + n" for s n
    using that by (simp add: round_def run_simps time_now_def)
  have doze: "rn_asked u = rn_asked s \<and> mc_times u = mc_times s" if "seq_run (doze os) (give None) s = Some (q, u)" for s u and q :: "raised + bool option"
    using that by (auto simp: doze_def run_simps split: if_splits)
  have "k = round \<longrightarrow> (\<forall>n. rn_asked s = rn_asked r + n \<and> mc_times s = mc_times r + 1 + n \<and> fst y = Inr v \<longrightarrow> poll_from ?an ?clock d e n = Some v)"
    if "repeat_run k s = Some y" for k s y
  proof (rule repeat_run.raw_induct [of "\<lambda>k s y. k = round \<longrightarrow> (\<forall>n. rn_asked s = rn_asked r + n \<and> mc_times s = mc_times r + 1 + n \<and> fst y = Inr v \<longrightarrow> poll_from ?an ?clock d e n = Some v)", OF _ that], intro impI allI, elim conjE)
    fix "rec" k s y n
    assume ih: "\<And>k s y. rec k s = Some y \<Longrightarrow> k = round \<longrightarrow> (\<forall>n. rn_asked s = rn_asked r + n \<and> mc_times s = mc_times r + 1 + n \<and> fst y = Inr v \<longrightarrow> poll_from ?an ?clock d e n = Some v)"
      and eq: "Option.bind (k s) (\<lambda>(q, t). case q of Inl e \<Rightarrow> Some (Inl e, t) | Inr (Some x) \<Rightarrow> Some (Inr x, t) | Inr None \<Rightarrow> rec k t) = Some y"
      and k: "k = round" and n: "rn_asked s = rn_asked r + n" "mc_times s = mc_times r + 1 + n" and y: "fst y = Inr v"
    note eq = eq [unfolded k one [OF n]]
    show "poll_from ?an ?clock d e n = Some v"
    proof (cases "holds (?an n) e \<or> fle d (?clock n)")
      case True
      with eq y have "v = holds (?an n) e" by (auto split: if_splits)
      with True show ?thesis by (subst poll_from.simps) simp
    next
      case False
      let ?s = "s\<lparr>rn_asked := rn_asked s + 1, mc_times := mc_times s + 1\<rparr>"
      have "returns (seq_run (doze os) (give None) :: (runner, bool option) run)" by (intro returns_intros)
      from returnsD [OF this, of ?s] obtain q :: "raised + bool option" and u where u: "seq_run (doze os) (give None) ?s = Some (q, u)" by blast
      have "q = Inr None" using u eq False y by (auto simp: doze_def run_simps split: if_splits)
      with u eq False have "rec round u = Some y" by auto
      moreover have "rn_asked u = rn_asked r + (n + 1)" "mc_times u = mc_times r + 1 + (n + 1)" using doze [OF u] n by simp_all
      ultimately have "poll_from ?an ?clock d e (n + 1) = Some v" using ih y by blast
      with False show ?thesis by (subst poll_from.simps) simp
    qed
  qed
  moreover have "repeat_run round (r\<lparr>mc_times := mc_times r + 1\<rparr>) = Some (Inr v, t)"
    using assms unfolding await_check_def round_def d_def by (simp add: bind_run_app time_now_def step_run_app)
  ultimately have "poll_from ?an ?clock d e 0 = Some v" by force
  then show ?thesis by (simp add: eval_with_grace_def d_def)
qed

section \<open>No process is left\<close>

lemma kill_all_stops:
  assumes "kill_all os r = Some (Inr v, t)" "all_children r"
  shows "rn_children t = [] \<and> (\<forall>c\<in>set (rn_children r). stopped (ch_proc c) t)"
proof -
  let ?hs = "map ch_proc (rn_children r)"
  obtain s u where s: "stop_procs os (kill_group os) (rev ?hs) ?hs r = Some (Inr u, s)" "t = s\<lparr>rn_children := []\<rparr>"
    using assms(1) by (auto simp: kill_all_def run_simps split: option.splits sum.splits)
  have "\<forall>h\<in>set ?hs. started h r" using assms(2) by (simp add: all_children_def)
  from yieldsD [OF group_kill.stop_stops this s(1)] have "\<forall>h\<in>set ?hs. stopped h s" .
  then show ?thesis by (simp add: s(2) stopped_def)
qed

section \<open>What is started\<close>

lemma calm_launches: "moves calm m \<Longrightarrow> moves (\<lambda>r t. launches t = launches r) m"
  by (erule moves_mono) (simp add: calm_def)

lemma launches_play: "moves (\<lambda>r t. launches t = launches r) (play os args proxy clock0 items)"
proof (induction items)
  case (Cons i items)
  obtain at_s kind x where i: "i = (at_s, kind, x)" by (cases i)
  show ?case unfolding i play.simps do_check_def
    by (intro ln.mv_intros calm_intros [THEN calm_launches] Cons) (simp add: launches_def)
qed (simp add: ln.mv_simple)

lemma launches_play_all: "moves (\<lambda>r t. launches t = launches r) (play_all os args proxy sc)"
  unfolding play_all_def Let_def by (intro ln.mv_intros calm_intros [THEN calm_launches] launches_play)

lemma launches_kill_all: "moves (\<lambda>r t. launches t = launches r) (kill_all os)"
  unfolding kill_all_def by (intro ln.mv_intros launches_stop launches_kill) (simp add: launches_def)

definition at_start :: "json \<Rightarrow> (json list \<times> (pystr \<times> pystr) list option) list \<Rightarrow> runner \<Rightarrow> bool" where
  "at_start sc ls r \<longleftrightarrow> rn_sc r = sc \<and> launches r = ls"

lemma calm_start: "moves calm m \<Longrightarrow> yields (at_start sc ls) m (\<lambda>_. at_start sc ls)"
  by (auto simp: yields_def at_start_def calm_def dest: movesD)

lemma yields_spawn: "yields (at_start sc ls) (spawn os name words cwd env) (\<lambda>_. at_start sc (ls @ [(words, env)]))"
  by (auto simp: yields_def at_start_def launches_def dest!: spawn_result)

definition backend_launch :: "sil_os \<Rightarrow> sil_args \<Rightarrow> json \<Rightarrow> (json list \<times> (pystr \<times> pystr) list option) list res" where
  "backend_launch os args sc =
     (if ar_start_backend args
      then rbind (http_port (os_url_port os) sc) (\<lambda>port. Inr [(backend_cmd os port, Some (backend_env os sc port))]) else Inr [])"

definition proxy_launch :: "sil_os \<Rightarrow> sil_args \<Rightarrow> json \<Rightarrow> (json list \<times> (pystr \<times> pystr) list option) list" where
  "proxy_launch os args sc = (if needs_proxy sc args then [(proxy_command os (with_proxy sc args), None)] else [])"

lemma yields_start_backend:
  "yields (at_start sc ls) (start_backend os args)
     (\<lambda>_ r. \<exists>port. http_port (os_url_port os) sc = Inr port \<and> at_start sc (ls @ [(backend_cmd os port, Some (backend_env os sc port))]) r)"
proof -
  have "yields (at_start sc ls)
     (bind_run (http_get os) (\<lambda>status.
     if status = Some 200 then abort (Raised RuntimeError)
     else seq_run (for_run (\<lambda>suffix. remove_file os (db_path os sc @ lit suffix)) [[], ''-wal'', ''-shm''])
       (seq_run (spawn os (lit ''backend'') (backend_cmd os port) (Some (os_root os @ lit ''/backend'')) (Some (backend_env os sc port)))
       (bind_run (time_now os) (\<lambda>t. await_healthy os (fadd t (ar_backend_timeout args)))))))
     (\<lambda>_. at_start sc (ls @ [(backend_cmd os port, Some (backend_env os sc port))]))" for port
    by (intro yields_then [OF calm_start] yields_alternative yields_abort yields_seq [OF calm_start]
        yields_seq [OF yields_spawn] calm_start cm.mv_intros calm_intros)
  note body = this
  have "yields (at_start sc ls) (bind_run (result (http_port (os_url_port os) sc)) (\<lambda>port. bind_run (http_get os) (\<lambda>status.
     if status = Some 200 then abort (Raised RuntimeError)
     else seq_run (for_run (\<lambda>suffix. remove_file os (db_path os sc @ lit suffix)) [[], ''-wal'', ''-shm''])
       (seq_run (spawn os (lit ''backend'') (backend_cmd os port) (Some (os_root os @ lit ''/backend'')) (Some (backend_env os sc port)))
       (bind_run (time_now os) (\<lambda>t. await_healthy os (fadd t (ar_backend_timeout args))))))))
     (\<lambda>_ r. \<exists>port. http_port (os_url_port os) sc = Inr port \<and> at_start sc (ls @ [(backend_cmd os port, Some (backend_env os sc port))]) r)"
    by (rule yields_result, rule yields_weaken [OF body]) auto
  then show ?thesis unfolding start_backend_def by (rule yields_look_eq [rotated]) (simp add: at_start_def)
qed

lemma yields_start_proxy:
  "yields (at_start sc ls) (start_proxy os args) (\<lambda>_. at_start (with_proxy sc args) (ls @ proxy_launch os args sc))"
proof -
  let ?sc = "with_proxy sc args"
  have "yields (at_start sc ls) (alter (\<lambda>r. r\<lparr>rn_sc := with_proxy (rn_sc r) args\<rparr>)) (\<lambda>_. at_start ?sc ls)"
    by (simp add: yields_def alter_def at_start_def launches_def)
  moreover have "yields (at_start ?sc ls)
      (seq_run (spawn os (lit ''lossy_proxy'') (proxy_command os ?sc) None None) (seq_run (await_proxy os 40) (give True)))
      (\<lambda>_. at_start ?sc (ls @ [(proxy_command os ?sc, None)]))"
    by (intro yields_seq [OF yields_spawn] calm_start cm.mv_intros calm_intros)
  then have "yields (at_start ?sc ls)
      (bind_run (look rn_sc) (\<lambda>sc. seq_run (spawn os (lit ''lossy_proxy'') (proxy_command os sc) None None)
        (seq_run (await_proxy os 40) (give True))))
      (\<lambda>_. at_start ?sc (ls @ [(proxy_command os ?sc, None)]))"
    by (intro yields_look) (simp add: at_start_def)
  ultimately have "yields (at_start sc ls)
      (seq_run (alter (\<lambda>r. r\<lparr>rn_sc := with_proxy (rn_sc r) args\<rparr>))
       (bind_run (look rn_sc) (\<lambda>sc. seq_run (spawn os (lit ''lossy_proxy'') (proxy_command os sc) None None)
        (seq_run (await_proxy os 40) (give True))))) (\<lambda>_. at_start ?sc (ls @ [(proxy_command os ?sc, None)]))"
    by (rule yields_seq)
  moreover have "yields (at_start sc ls) (give False) (\<lambda>_. at_start sc ls)" by (simp add: yields_def give_def)
  ultimately show ?thesis unfolding start_proxy_def
    by (intro yields_look yields_alternative) (auto simp: at_start_def proxy_launch_def with_proxy_def)
qed

lemma yields_start_agents:
  "yields (at_start sc ls) (start_agents os args ds)
     (\<lambda>_ r. \<exists>cmds. rmap (agent_cmd sc args) ds = Inr cmds \<and> at_start sc (ls @ map (\<lambda>c. (c, None)) cmds) r)"
proof -
  have one: "yields (at_start sc ls) (start_agent os args d) (\<lambda>_ r. \<exists>c. agent_cmd sc args d = Inr c \<and> at_start sc (ls @ [(c, None)]) r)" for ls d
    unfolding start_agent_def
    by (intro yields_look yields_result) (auto simp: at_start_def intro: yields_weaken [OF yields_spawn [of sc ls, unfolded at_start_def]])
  have "yields (at_start sc ls) (for_run (start_agent os args) ds)
     (\<lambda>_ r. \<exists>cmds. rmap (agent_cmd sc args) ds = Inr cmds \<and> at_start sc (ls @ map (\<lambda>c. (c, None)) cmds) r)"
  proof (induction ds arbitrary: ls)
    case (Cons d ds)
    have "yields (\<lambda>r. \<exists>c. agent_cmd sc args d = Inr c \<and> at_start sc (ls @ [(c, None)]) r) (for_run (start_agent os args) ds)
       (\<lambda>_ r. \<exists>cmds. rmap (agent_cmd sc args) (d # ds) = Inr cmds \<and> at_start sc (ls @ map (\<lambda>c. (c, None)) cmds) r)"
      unfolding yields_def
    proof (intro allI impI)
      fix s x t
      assume "\<exists>c. agent_cmd sc args d = Inr c \<and> at_start sc (ls @ [(c, None)]) s" and f: "for_run (start_agent os args) ds s = Some (Inr x, t)"
      then obtain c where c: "agent_cmd sc args d = Inr c" "at_start sc (ls @ [(c, None)]) s" by blast
      from yieldsD [OF Cons c(2) f] c(1) show "\<exists>cmds. rmap (agent_cmd sc args) (d # ds) = Inr cmds \<and> at_start sc (ls @ map (\<lambda>c. (c, None)) cmds) t"
        by auto
    qed
    with one [of ls d] show ?case unfolding for_run.simps by (rule yields_seq)
  qed (simp add: yields_def give_def)
  then show ?thesis unfolding start_agents_def
    by (intro yields_seq [OF calm_start] cm.mv_intros)
qed

lemma yields_start_all:
  "yields (at_start sc ls) (start_all os args)
     (\<lambda>_ r. \<exists>bl cmds. backend_launch os args sc = Inr bl
        \<and> rmap (agent_cmd (with_proxy sc args) args) (items_of (field sc ''devices'')) = Inr cmds
        \<and> launches r = ls @ bl @ proxy_launch os args sc @ map (\<lambda>c. (c, None)) cmds)"
proof -
  let ?ds = "items_of (field sc ''devices'')"
  let ?W = "\<lambda>_ r. \<exists>bl cmds. backend_launch os args sc = Inr bl \<and> rmap (agent_cmd (with_proxy sc args) args) ?ds = Inr cmds
        \<and> launches r = ls @ bl @ proxy_launch os args sc @ map (\<lambda>c. (c, None)) cmds"
  have backend: "yields (at_start sc ls)
       (if ar_start_backend args then start_backend os args
        else bind_run (http_get os) (\<lambda>status. when_run (status \<noteq> Some 200) (abort (Raised RuntimeError))))
     (\<lambda>_ r. \<exists>bl. backend_launch os args sc = Inr bl \<and> at_start sc (ls @ bl) r)"
  proof (rule yields_alternative)
    assume "ar_start_backend args"
    then show "yields (at_start sc ls) (start_backend os args) (\<lambda>_ r. \<exists>bl. backend_launch os args sc = Inr bl \<and> at_start sc (ls @ bl) r)"
      by (intro yields_weaken [OF yields_start_backend]) (auto simp: backend_launch_def)
  next
    assume b: "\<not> ar_start_backend args"
    have "moves calm (bind_run (http_get os) (\<lambda>status. when_run (status \<noteq> Some 200) (abort (Raised RuntimeError))))"
      by (intro cm.mv_intros calm_intros)
    from calm_start [OF this] b show "yields (at_start sc ls)
        (bind_run (http_get os) (\<lambda>status. when_run (status \<noteq> Some 200) (abort (Raised RuntimeError))))
        (\<lambda>_ r. \<exists>bl. backend_launch os args sc = Inr bl \<and> at_start sc (ls @ bl) r)"
      by (auto simp: backend_launch_def elim: yields_weaken)
  qed
  have rest: "yields (at_start sc (ls @ bl)) (bind_run (start_proxy os args) (\<lambda>proxy. seq_run (start_agents os args ?ds) (give proxy))) ?W"
    if bl: "backend_launch os args sc = Inr bl" for bl
  proof (rule yields_then [OF yields_start_proxy], rule yields_seq [OF yields_start_agents])
    show "yields (\<lambda>r. \<exists>cmds. rmap (agent_cmd (with_proxy sc args) args) ?ds = Inr cmds
         \<and> at_start (with_proxy sc args) (((ls @ bl) @ proxy_launch os args sc) @ map (\<lambda>c. (c, None)) cmds) r) (give proxy) ?W" for proxy
      using bl by (auto simp: yields_def give_def at_start_def)
  qed
  have "yields (at_start sc ls) (seq_run
       (if ar_start_backend args then start_backend os args
        else bind_run (http_get os) (\<lambda>status. when_run (status \<noteq> Some 200) (abort (Raised RuntimeError))))
     (bind_run (start_proxy os args) (\<lambda>proxy. seq_run (start_agents os args ?ds) (give proxy)))) ?W"
  proof (rule yields_seq [OF backend])
    show "yields (\<lambda>r. \<exists>bl. backend_launch os args sc = Inr bl \<and> at_start sc (ls @ bl) r)
        (bind_run (start_proxy os args) (\<lambda>proxy. seq_run (start_agents os args ?ds) (give proxy))) ?W"
      using rest unfolding yields_def by blast
  qed
  then show ?thesis unfolding start_all_def by (rule yields_look_eq [rotated]) (simp add: at_start_def)
qed

section \<open>The verdict\<close>

interpretation rz: run_order "\<lambda>r t. rn_results t = rn_results r"
  by unfold_locales simp_all

lemma calm_results: "moves calm m \<Longrightarrow> moves (\<lambda>r t. rn_results t = rn_results r) m"
  by (erule moves_mono) (simp add: calm_def)

lemma results_spawn: "moves (\<lambda>r t. rn_results t = rn_results r) (spawn os name words cwd env)"
  by (auto simp: moves_def dest!: spawn_result)

lemma results_start_all: "moves (\<lambda>r t. rn_results t = rn_results r) (start_all os args)"
  unfolding start_all_def start_backend_def start_proxy_def start_agents_def start_agent_def
  by (intro rz.mv_intros results_spawn calm_intros [THEN calm_results]) simp

lemma kept_results: "moves (\<lambda>r t. rn_results t = rn_results r) m \<Longrightarrow> yields (\<lambda>r. rn_results r = rs) m (\<lambda>_ r. rn_results r = rs)"
  by (auto simp: yields_def dest: movesD)

definition so_far :: "(json \<times> bool) list \<Rightarrow> json list \<Rightarrow> runner \<Rightarrow> bool" where
  "so_far rs es r \<longleftrightarrow> (\<exists>n. map fst (rn_results r) = map fst rs @ take n es)"

lemma yields_play: "yields (\<lambda>r. rn_results r = rs) (play os args proxy clock0 items) (\<lambda>_. so_far rs (expectations items))"
proof (induction items arbitrary: rs)
  case (Cons i items)
  obtain at_s kind x where i: "i = (at_s, kind, x)" by (cases i)
  have wait: "moves (\<lambda>r t. rn_results t = rn_results r) (wait_until os (fadd clock0 at_s))"
    "moves (\<lambda>r t. rn_results t = rn_results r) (bind_run (check_children os) (\<lambda>_. give ()))"
    "moves (\<lambda>r t. rn_results t = rn_results r) (do_action os proxy x)"
    "moves (\<lambda>r t. rn_results t = rn_results r) (result (print_item x))"
    by (intro rz.mv_intros calm_intros [THEN calm_results])+
  show ?case
  proof (cases kind)
    case Action
    then show ?thesis unfolding i play.simps
      by (intro yields_seq [OF kept_results [OF wait(1)]] yields_seq [OF kept_results [OF wait(2)]])
        (auto intro!: yields_seq [OF kept_results [OF wait(3)]] yields_seq [OF kept_results [OF wait(4)]] Cons)
  next
    case Expect
    have check: "yields (\<lambda>r. rn_results r = rs) (do_check os (ar_grace args) x) (\<lambda>ok r. rn_results r = rs @ [(x, ok)])"
    proof -
      have "moves (\<lambda>r t. rn_results t = rn_results r) (await_check os (ar_grace args) x)" by (intro calm_intros [THEN calm_results])
      then show ?thesis unfolding do_check_def
        by (intro yields_then [OF kept_results]) (auto simp: yields_def run_simps)
    qed
    have one: "yields (\<lambda>r. rn_results r = rs @ [(x, ok)]) (give ()) (\<lambda>_. so_far rs (x # expectations items))" for ok
      by (auto simp: yields_def give_def so_far_def intro!: exI [of _ 1])
    have more: "so_far rs (x # es) r" if one_more: "so_far (rs @ [(x, ok)]) es r" for ok es r
    proof -
      obtain n where "map fst (rn_results r) = map fst (rs @ [(x, ok)]) @ take n es" using one_more by (auto simp: so_far_def)
      then show ?thesis unfolding so_far_def by (intro exI [of _ "Suc n"]) simp
    qed
    have rest: "yields (\<lambda>r. rn_results r = rs @ [(x, ok)])
        (seq_run (result (print_item x)) (if \<not> ok \<and> ar_fail_fast args then give () else play os args proxy clock0 items))
        (\<lambda>_. so_far rs (x # expectations items))" for ok
      by (intro yields_seq [OF kept_results [OF wait(4)]] yields_alternative one yields_weaken [OF Cons]) (auto intro: more)
    have "yields (\<lambda>r. rn_results r = rs)
       (bind_run (do_check os (ar_grace args) x) (\<lambda>ok. seq_run (result (print_item x))
         (if \<not> ok \<and> ar_fail_fast args then give () else play os args proxy clock0 items)))
       (\<lambda>_. so_far rs (x # expectations items))"
      by (rule yields_then [OF check rest])
    with Expect show ?thesis unfolding i play.simps
      by (intro yields_seq [OF kept_results [OF wait(1)]] yields_seq [OF kept_results [OF wait(2)]]) simp
  qed
qed (auto simp: yields_def give_def so_far_def)

lemma yields_play_all:
  assumes "schedule_of sc = Inr items"
  shows "yields (\<lambda>r. rn_results r = []) (play_all os args proxy sc) (\<lambda>_. so_far [] (expectations items))"
proof -
  have kept: "yields (so_far [] es) m (\<lambda>_. so_far [] es)" if "moves (\<lambda>r t. rn_results t = rn_results r) m" for es and m :: "(runner, 'a) run"
    using movesD [OF that] by (auto simp: yields_def so_far_def)
  have now: "moves (\<lambda>r t. rn_results t = rn_results r) (time_now os :: (runner, pyfloat) run)" by (intro calm_intros [THEN calm_results])
  have tail: "moves (\<lambda>r t. rn_results t = rn_results r)
      (seq_run (when_run b (pause os d)) (when_run (ar_hold args) (hold os)))" for b d
    by (intro rz.mv_intros calm_intros [THEN calm_results])
  have rest: "moves (\<lambda>r t. rn_results t = rn_results r) (bind_run (time_now os) (\<lambda>t. let remaining = fsub d t in
      seq_run (when_run (fless (Fin 0) remaining \<and> \<not> ar_fail_fast args) (pause os (if fless (Fin 2) remaining then Fin 2 else remaining)))
      (when_run (ar_hold args) (hold os))))" for d
    unfolding Let_def by (intro rz.mv_bind now tail)
  have "yields (\<lambda>r. rn_results r = []) (bind_run (result (end_at sc items)) (\<lambda>end_s.
     bind_run (time_now os) (\<lambda>clock0.
     seq_run (play os args proxy clock0 items)
     (bind_run (time_now os) (\<lambda>t. let remaining = fsub (fadd clock0 end_s) t in
      seq_run (when_run (fless (Fin 0) remaining \<and> \<not> ar_fail_fast args) (pause os (if fless (Fin 2) remaining then Fin 2 else remaining)))
      (when_run (ar_hold args) (hold os))))))) (\<lambda>_. so_far [] (expectations items))"
    by (intro yields_result yields_then [OF kept_results [OF now]] yields_seq [OF yields_play] kept rest)
  then show ?thesis unfolding play_all_def assms bind_result_Inr .
qed

section \<open>Properties\<close>

text \<open>What stopping the children leaves as it is, and that only the handler of \<open>run\<close> marks a run as cut short.\<close>

definition beside_children :: "runner \<Rightarrow> runner \<Rightarrow> bool" where
  "beside_children r t \<longleftrightarrow> rn_sc t = rn_sc r \<and> rn_results t = rn_results r \<and> rn_actions t = rn_actions r \<and> rn_fatal t = rn_fatal r"

interpretation bc: run_order beside_children
  by unfold_locales (simp_all add: beside_children_def)

lemma kill_all_keeps: "moves beside_children (kill_all os)"
  unfolding kill_all_def stop_procs_def term_running_def reap_def await_exit_def kill_group_def send_direct_def send_sig_def
    poll_proc_def time_now_def doze_def Let_def
  by (intro bc.mv_intros) (simp_all add: beside_children_def split: option.splits)

lemma run_scenario_cases:
  assumes "run_scenario os args r = Some (v, t)"
  obtains q s e u where "run_body os args (r\<lparr>rn_actions := [], rn_results := [], rn_fatal := False\<rparr>) = Some (q, s)"
    "kill_all os (if q = Inr () then s else s\<lparr>rn_fatal := True\<rparr>) = Some (e, u)" "u = t"
    "v = (case e of Inl x \<Rightarrow> Inl x | Inr _ \<Rightarrow> (case report_of t of Inl x \<Rightarrow> Inl (Raised x) | Inr rep \<Rightarrow> Inr rep))"
proof -
  let ?r = "r\<lparr>rn_actions := [], rn_results := [], rn_fatal := False\<rparr>"
  obtain q s where b: "run_body os args ?r = Some (q, s)"
    using assms by (cases "run_body os args ?r") (auto simp: run_scenario_def run_simps)
  let ?s = "if q = Inr () then s else s\<lparr>rn_fatal := True\<rparr>"
  have f: "run_scenario os args r = (case kill_all os ?s of None \<Rightarrow> None
     | Some (Inl x, u) \<Rightarrow> Some (Inl x, u)
     | Some (Inr _, u) \<Rightarrow> Some (case report_of u of Inl x \<Rightarrow> Inl (Raised x) | Inr rep \<Rightarrow> Inr rep, u))"
    by (cases q) (auto simp: run_scenario_def run_simps b split: option.splits sum.splits)
  obtain e u where k: "kill_all os ?s = Some (e, u)" using assms f by (cases "kill_all os ?s") auto
  then have "u = t" "v = (case e of Inl x \<Rightarrow> Inl x | Inr _ \<Rightarrow> (case report_of t of Inl x \<Rightarrow> Inl (Raised x) | Inr rep \<Rightarrow> Inr rep))"
    using assms f by (auto split: sum.splits)
  with that [OF b k] show thesis by blast
qed

lemma run_report:
  "run_scenario os args r = Some (Inr rep, t) \<Longrightarrow> rep = make_report (rn_sc t) (rn_fatal t) (rn_actions t) (rn_results t)"
  by (erule run_scenario_cases) (auto simp: report_of_def split: sum.splits if_splits)

text \<open>
  The verdict: the report says \<open>ok\<close> exactly when nothing cut the run short and its results are those of all the
  expectations of the scenario, in the order of the schedule, each of them found to hold.
\<close>

lemma scheduled: "yields P (play_all os args proxy sc) (\<lambda>_ _. \<exists>items. schedule_of sc = Inr items)"
  unfolding play_all_def by (cases "schedule_of sc") (simp_all add: yields_def bind_run_app result_app)

lemma run_verdict:
  assumes "run_scenario os args r = Some (Inr rep, t)"
  shows "rp_ok rep \<longleftrightarrow> \<not> rp_fatal rep \<and> (\<exists>items. schedule_of (rn_sc r) = Inr items \<and> rp_expectations rep = map (\<lambda>e. (e, True)) (expectations items))"
proof -
  let ?r = "r\<lparr>rn_actions := [], rn_results := [], rn_fatal := False\<rparr>"
  obtain q s e u where s: "run_body os args ?r = Some (q, s)"
    "kill_all os (if q = Inr () then s else s\<lparr>rn_fatal := True\<rparr>) = Some (e, u)" "u = t"
    "Inr rep = (case e of Inl x \<Rightarrow> Inl x | Inr _ \<Rightarrow> (case report_of t of Inl x \<Rightarrow> Inl (Raised x) | Inr rep \<Rightarrow> Inr rep))"
    by (rule run_scenario_cases [OF assms])
  let ?s = "if q = Inr () then s else s\<lparr>rn_fatal := True\<rparr>"
  note rep = run_report [OF assms]
  have tr: "tracks ?r s" by (rule movesD [OF track_body s(1)])
  have fatal: "rp_fatal rep = (q \<noteq> Inr ())" "rp_expectations rep = rn_results s" "rn_sc t = rn_sc s"
    using movesD [OF kill_all_keeps s(2)] s(3) tr by (auto simp: rep make_report_def Let_def beside_children_def tracks_def split: if_splits)
  have "field (rn_sc s) ''timeline'' = field (rn_sc r) ''timeline''" "field (rn_sc s) ''expect'' = field (rn_sc r) ''expect''"
    using tr by (simp_all add: tracks_def)
  then have sched: "schedule_of (rn_sc t) = schedule_of (rn_sc r)" using fatal(3) by (simp add: schedule_of_def)
  show ?thesis
  proof (cases "q = Inr ()")
    case True
    have start: "yields (\<lambda>x. x = ?r) (start_all os args) (\<lambda>_ r. rn_results r = [])"
      by (auto simp: yields_def dest: movesD [OF results_start_all])
    have "yields (\<lambda>x. x = ?r) (run_body os args) (\<lambda>_ _. \<exists>items. schedule_of (rn_sc r) = Inr items)"
      unfolding run_body_def by (rule yields_look_eq [of _ _ "rn_sc r"], simp, rule yields_then [OF start scheduled])
    from yieldsD [OF this refl] s(1) True obtain items where i: "schedule_of (rn_sc r) = Inr items" by auto
    have "yields (\<lambda>x. x = ?r) (run_body os args) (\<lambda>_. so_far [] (expectations items))"
      unfolding run_body_def by (rule yields_look_eq [of _ _ "rn_sc r"], simp, rule yields_then [OF start yields_play_all [OF i]])
    from yieldsD [OF this refl] s(1) True have "so_far [] (expectations items) s" by simp
    then obtain n where "map fst (rn_results s) = take n (expectations items)" by (auto simp: so_far_def)
    with fatal(2) have "map fst (rn_results t) = take n (expectations items)" by (simp add: rep make_report_def Let_def)
    from all_passed_iff [OF _ this, of "rn_sc t" "rn_fatal t" "rn_actions t"] i sched show ?thesis
      unfolding rep by (simp add: make_report_def Let_def)
  next
    case False
    then show ?thesis using fatal(1) by (simp add: rep make_report_def Let_def)
  qed
qed

text \<open>A run that nothing cut short has started the backend when asked to, the proxy when one is needed, and one agent for each device.\<close>

lemma run_launches:
  assumes "run_scenario os args r = Some (Inr rep, t)" "\<not> rp_fatal rep"
  obtains bl cmds where "backend_launch os args (rn_sc r) = Inr bl"
    "rmap (agent_cmd (with_proxy (rn_sc r) args) args) (items_of (field (rn_sc r) ''devices'')) = Inr cmds"
    "launches t = launches r @ bl @ proxy_launch os args (rn_sc r) @ map (\<lambda>c. (c, None)) cmds"
proof -
  let ?r = "r\<lparr>rn_actions := [], rn_results := [], rn_fatal := False\<rparr>"
  obtain q s e u where s: "run_body os args ?r = Some (q, s)"
    "kill_all os (if q = Inr () then s else s\<lparr>rn_fatal := True\<rparr>) = Some (e, u)" "u = t"
    "Inr rep = (case e of Inl x \<Rightarrow> Inl x | Inr _ \<Rightarrow> (case report_of t of Inl x \<Rightarrow> Inl (Raised x) | Inr rep \<Rightarrow> Inr rep))"
    by (rule run_scenario_cases [OF assms(1)])
  have "rp_fatal rep = rn_fatal t" using run_report [OF assms(1)] by (simp add: make_report_def Let_def)
  with assms(2) movesD [OF kill_all_keeps s(2)] s(3) have q: "q = Inr ()" by (auto simp: beside_children_def split: if_splits)
  have r: "at_start (rn_sc r) (launches r) ?r" by (simp add: at_start_def launches_def)
  let ?W = "\<lambda>r'. \<exists>bl cmds. backend_launch os args (rn_sc r) = Inr bl
        \<and> rmap (agent_cmd (with_proxy (rn_sc r) args) args) (items_of (field (rn_sc r) ''devices'')) = Inr cmds
        \<and> launches r' = launches r @ bl @ proxy_launch os args (rn_sc r) @ map (\<lambda>c. (c, None)) cmds"
  have play: "yields ?W (play_all os args proxy (rn_sc r)) (\<lambda>_. ?W)" for proxy
    unfolding yields_def by (auto dest: movesD [OF launches_play_all])
  have "yields (at_start (rn_sc r) (launches r)) (run_body os args) (\<lambda>_. ?W)"
    unfolding run_body_def
    by (rule yields_look_eq [of _ _ "rn_sc r"], simp add: at_start_def, rule yields_then [OF yields_start_all play])
  from yieldsD [OF this r] s(1) q have "?W s" by simp
  moreover have "launches t = launches s" using movesD [OF launches_kill_all s(2)] s(3) q by simp
  ultimately show thesis using that by auto
qed

text \<open>
  C36. A run of a scenario comes to an end and leaves nothing running: when the clock passes the time limits (and a held run is interrupted
  in the end), \<open>run\<close> returns or raises, whatever the processes, requests and signals do; and when it returns a report, every process
  it has started has been seen to have ended or has got SIGKILL, and it has no children left.
\<close>

theorem run_leaves_nothing:
  assumes "time_goes_on os args" "rn_children r = []"
  shows "\<exists>v t. run_scenario os args r = Some (v, t)
    \<and> (\<forall>rep. v = Inr rep \<longrightarrow> rn_children t = [] \<and> (\<forall>h. length (mc_procs r) \<le> h \<and> h < length (mc_procs t) \<longrightarrow> stopped h t))"
proof -
  have "passes (os_clock os) (Fin 5)" using assms(1) by (simp add: time_goes_on_def)
  then have "returns (run_scenario os args)"
    unfolding run_scenario_def
    by (intro returns_seq returns_finally returns_try returns_bind returns_simple returns_body returns_kill_all assms(1))
  from returnsD [OF this] obtain v t where v: "run_scenario os args r = Some (v, t)" by blast
  have "rn_children t = [] \<and> (\<forall>h. length (mc_procs r) \<le> h \<and> h < length (mc_procs t) \<longrightarrow> stopped h t)" if rep: "v = Inr rep" for rep
  proof -
    obtain q s e u where s: "run_body os args (r\<lparr>rn_actions := [], rn_results := [], rn_fatal := False\<rparr>) = Some (q, s)"
      "kill_all os (if q = Inr () then s else s\<lparr>rn_fatal := True\<rparr>) = Some (e, u)" "u = t"
      "v = (case e of Inl x \<Rightarrow> Inl x | Inr _ \<Rightarrow> (case report_of t of Inl x \<Rightarrow> Inl (Raised x) | Inr rep \<Rightarrow> Inr rep))"
      by (rule run_scenario_cases [OF v])
    let ?s = "if q = Inr () then s else s\<lparr>rn_fatal := True\<rparr>"
    have tr: "tracks (r\<lparr>rn_actions := [], rn_results := [], rn_fatal := False\<rparr>) s" by (rule movesD [OF track_body s(1)])
    from s(4) rep obtain w where "e = Inr w" by (cases e) auto
    moreover have "all_children ?s" using tr assms(2) by (auto simp: tracks_def all_children_def started_def)
    ultimately have k: "rn_children t = []" "\<forall>c\<in>set (rn_children s). stopped (ch_proc c) t"
      using kill_all_stops [of os ?s w t] s(2,3) by (simp_all split: if_splits)
    have l: "length (mc_procs t) = length (mc_procs s)"
      using arg_cong [OF movesD [OF launches_kill_all s(2)], of length] s(3) by (simp add: launches_def split: if_splits)
    have "stopped h t" if "length (mc_procs r) \<le> h" "h < length (mc_procs t)" for h
    proof -
      have "h \<in> ch_proc ` set (rn_children s)" using tr that l by (auto simp: tracks_def)
      with k(2) show ?thesis by blast
    qed
    with k(1) show ?thesis by blast
  qed
  with v show ?thesis by blast
qed

text \<open>
  C36 at the sample scenario with its own backend: the agents do not end by themselves and ignore SIGTERM.
\<close>

definition sample_os :: sil_os where
  "sample_os = \<lparr>os_clock = sample_clock, os_exit = (\<lambda>_ _. None), os_signal = (\<lambda>_. Delivered), os_interrupt = (\<lambda>_. False),
     os_start = (\<lambda>_. None), os_get = (\<lambda>n. if n = 0 then None else Some 200), os_accept = (\<lambda>_. True),
     os_answers = (\<lambda>_. \<lparr>an_device = None,
       an_alerts = Some (JList [JObj [(lit ''device_id'', JStr (lit ''ENGINE-ECU-2'')), (lit ''rule'', JStr (lit ''flag:OVERTEMP'')), (lit ''status'', JStr (lit ''open''))]]),
       an_open = None, an_diagnosis = None\<rparr>),
     os_exists = (\<lambda>_. True), os_unlink = (\<lambda>_. None), os_environ = [], os_root = lit ''/ecu'', os_executable = lit ''python3'',
     os_url_port = (\<lambda>_. Inr None)\<rparr>"

definition sample_args :: sil_args where
  "sample_args = \<lparr>ar_backend = None, ar_start_backend = True, ar_backend_timeout = Fin 30, ar_grace = Fin 5, ar_agent = lit ''ecu_agent'',
     ar_via_proxy = [], ar_proxy_port = 9781, ar_hold = False, ar_fail_fast = True\<rparr>"

definition sample_runner :: "json \<Rightarrow> runner" where
  "sample_runner sc = \<lparr>mc_times = 0, mc_polls = 0, mc_sleeps = 0, mc_procs = [], mc_signals = [], rn_sc = sc, rn_children = [], rn_gets = 0,
     rn_asked = 0, rn_sent = [], rn_actions = [], rn_results = [], rn_fatal = False\<rparr>"

lemma sample_run: "(case run_scenario sample_os sample_args (sample_runner sample_scenario) of
    Some (Inr rep, t) \<Rightarrow> rp_ok rep \<and> length (mc_procs t) = 3 | _ \<Rightarrow> False)"
  by code_simp

theorem run_leaves_nothing_witness:
  "\<exists>rep t. run_scenario sample_os sample_args (sample_runner sample_scenario) = Some (Inr rep, t)
     \<and> rn_children t = [] \<and> length (mc_procs t) = 3 \<and> stopped 0 t \<and> stopped 1 t \<and> stopped 2 t"
proof -
  have "passes (os_clock sample_os) (Fin d)" for d unfolding sample_os_def os.simps by (rule passes_sample)
  then have "time_goes_on sample_os sample_args" by (simp add: time_goes_on_def sample_args_def)
  moreover have n: "rn_children (sample_runner sample_scenario) = []" "mc_procs (sample_runner sample_scenario) = []" by (simp_all add: sample_runner_def)
  ultimately obtain v t where v: "run_scenario sample_os sample_args (sample_runner sample_scenario) = Some (v, t)"
    "\<And>rep. v = Inr rep \<Longrightarrow> rn_children t = [] \<and> (\<forall>h. 0 \<le> h \<and> h < length (mc_procs t) \<longrightarrow> stopped h t)"
    using run_leaves_nothing [of sample_os sample_args "sample_runner sample_scenario"] by auto
  with ranD [OF sample_run] obtain rep where "v = Inr rep" "length (mc_procs t) = 3" by auto
  with v show ?thesis by simp
qed

end
