(* ===== verification/App.thy ===== *)
theory App
  imports Telemetry_Views Presence
begin

text \<open>
  \<open>backend/app/main.py\<close>: the addresses \<open>create_app\<close> settles on and the life of the application, from \<open>Database(...)\<close> to
  \<open>db.close()\<close>. Opening the sockets, the tasks and the web framework are left out; the tables of the database are what a restart finds.
\<close>

section \<open>Start and stop\<close>

text \<open>The start of \<open>lifespan\<close>: database, bus, engine, ingest server and the time of the start. \<open>h\<close> is \<open>ECU_RAW_RETENTION_H\<close>.\<close>

definition db_open :: "pyfloat \<Rightarrow> ('a env_scheme, unit) pym" where
  "db_open h = db_mod (\<lambda>db. db\<lparr>tel_buf := [], retention_h := h\<rparr>)"

definition engine_init :: "('a engine_scheme, unit) pym" where
  "engine_init =
     seq_pym (modify (\<lambda>s. s\<lparr>devs := [], config_cache := [], hw_cache := []\<rparr>))
     (bind_pym (db_get engine_rules) (\<lambda>r.
      bind_pym (of_res r) (\<lambda>rs. modify (\<lambda>s. s\<lparr>rules := rs\<rparr>))))"

definition app_start :: "pyfloat \<Rightarrow> ('a server_scheme, unit) pym" where
  "app_start h =
     seq_pym (db_open h)
     (seq_pym (modify (\<lambda>s. s\<lparr>wbus := EventBus_init 1000\<rparr>))
     (seq_pym engine_init
     (seq_pym Ingest_init
     (bind_pym time_time (\<lambda>_. ret ())))))"

text \<open>Its end: \<open>ingest.stop()\<close>, which may raise or wait, and \<open>db.close()\<close>.\<close>

definition app_stop :: "pyexn option list \<Rightarrow> (nat \<times> bytes) list \<Rightarrow> 'a server_scheme \<Rightarrow> (unit res \<times> 'a server_scheme) option" where
  "app_stop ends reads s =
     (case stop ends reads s of
        None \<Rightarrow> None
      | Some (Inl e, s') \<Rightarrow> Some (Inl e, s')
      | Some (Inr _, s') \<Rightarrow> Some (db_close s'))"

text \<open>
  The addresses \<open>create_app\<close> settles on: an argument that is given, otherwise the environment, otherwise the default; \<open>int\<close> of
  a text may raise.
\<close>

definition app_port :: "(pystr \<times> pystr) list \<Rightarrow> int option \<Rightarrow> string \<Rightarrow> int \<Rightarrow> int res" where
  "app_port env arg key dflt =
     (case arg of
        Some p \<Rightarrow> Inr p
      | None \<Rightarrow> (case map_of env (lit key) of Some v \<Rightarrow> py_int_of_str v | None \<Rightarrow> Inr dflt))"

definition app_ports :: "(pystr \<times> pystr) list \<Rightarrow> int option \<Rightarrow> int option \<Rightarrow> (int \<times> int) res" where
  "app_ports env udp tcp =
     rbind (app_port env udp ''ECU_UDP_PORT'' 8781) (\<lambda>u. rbind (app_port env tcp ''ECU_TCP_PORT'' 8782) (\<lambda>t. Inr (u, t)))"

definition app_bind :: "(pystr \<times> pystr) list \<Rightarrow> pystr option \<Rightarrow> pystr" where
  "app_bind env host =
     (case host of
        Some (c # cs) \<Rightarrow> c # cs
      | _ \<Rightarrow> (case map_of env (lit ''ECU_BIND'') of Some v \<Rightarrow> v | None \<Rightarrow> lit ''0.0.0.0''))"

section \<open>Saving the statistics\<close>

text \<open>The counters that a restart keeps.\<close>

definition kept_of :: "DeviceStats \<Rightarrow> int \<times> int \<times> int \<times> int \<times> pyfloat option" where
  "kept_of d = (frames_rx d, bad_crc d, seq_gaps d, reconnects d, last_seen d)"

definition row_kept :: "StatRow \<Rightarrow> int \<times> int \<times> int \<times> int \<times> pyfloat option" where
  "row_kept r = (s_frames_rx r, s_bad_crc r, s_seq_gaps r, s_reconnects r, s_last_seen r)"

text \<open>The table holds rows for the device, all with these counters.\<close>

definition saved :: "pystr \<Rightarrow> DeviceStats \<Rightarrow> StatRow list \<Rightarrow> bool" where
  "saved dev d rows \<longleftrightarrow> (\<exists>r\<in>set rows. s_dev r = dev) \<and> (\<forall>r\<in>set rows. s_dev r = dev \<longrightarrow> row_kept r = kept_of d)"

text \<open>Statistics that can be written: the loss can be computed and the time of the last frame can be printed.\<close>

definition savable :: "DeviceStats \<Rightarrow> bool" where
  "savable d \<longleftrightarrow> window_ok (window d) \<and> (\<forall>t. last_seen d = Some t \<longrightarrow> (\<exists>x. Database.iso t = Inr x))"

lemma iso_not_NaN: "Database.iso t = Inr x \<Longrightarrow> t \<noteq> NaN"
  by (auto simp: Database.iso_def)

lemma stat_row_runs:
  assumes "savable d"
  shows "\<exists>r. stat_row dev d = Inr r \<and> s_dev r = dev \<and> row_kept r = kept_of d"
proof -
  obtain l where l: "loss_pct d = Inr l" using assms loss_pct_range_aux by (fastforce simp: savable_def)
  show ?thesis
  proof (cases "last_seen d")
    case None
    with l show ?thesis by (simp add: stat_row_def row_kept_def kept_of_def)
  next
    case (Some t)
    then obtain x where "Database.iso t = Inr x" using assms by (auto simp: savable_def)
    with Some l iso_not_NaN [OF this] show ?thesis by (simp add: stat_row_def row_kept_def kept_of_def bind_real_def)
  qed
qed

lemma save_stats_effect:
  "\<exists>rows n. save_stats row s = (Inr (), s\<lparr>wreads := n, wdb := (wdb s)\<lparr>stats_t := rows\<rparr>\<rparr>)
     \<and> (\<exists>r\<in>set rows. s_dev r = s_dev row) \<and> (\<forall>r\<in>set rows. s_dev r = s_dev row \<longrightarrow> row_kept r = row_kept row)
     \<and> (\<forall>dev d. dev \<noteq> s_dev row \<longrightarrow> saved dev d (stats_t (wdb s)) \<longrightarrow> saved dev d rows)"
proof -
  let ?new = "row\<lparr>s_updated_at := wclock s (wreads s)\<rparr>" and ?old = "stats_t (wdb s)"
  let ?rows = "if list_ex (\<lambda>r. s_dev r = s_dev row) ?old then sql_update (\<lambda>r. s_dev r = s_dev row) (\<lambda>_. ?new) ?old else ?old @ [?new]"
  have "save_stats row s = (Inr (), s\<lparr>wreads := wreads s + 1, wdb := (wdb s)\<lparr>stats_t := ?rows\<rparr>\<rparr>)"
    by (simp add: save_stats_def pym_simps Let_def)
  moreover have "?new \<in> set ?rows" by (auto simp: list_ex_iff sql_update_def)
  then have "\<exists>r\<in>set ?rows. s_dev r = s_dev row" by (intro bexI [of _ ?new]) simp_all
  moreover have "\<forall>r\<in>set ?rows. s_dev r = s_dev row \<longrightarrow> row_kept r = row_kept row"
    by (auto simp: list_ex_iff sql_update_def row_kept_def)
  moreover have "saved dev d ?rows" if "dev \<noteq> s_dev row" "saved dev d ?old" for dev d
    using that by (auto simp: saved_def sql_update_def)
  ultimately show ?thesis by blast
qed

lemma persist_effect:
  assumes "\<forall>(dev, d)\<in>set ds. savable d" "distinct (map fst ds)"
  shows "\<exists>rows n. for_pym (\<lambda>(dev, d). bind_pym (of_res (stat_row dev d)) save_stats) ds s
      = (Inr (), s\<lparr>wreads := n, wdb := (wdb s)\<lparr>stats_t := rows\<rparr>\<rparr>)
    \<and> (\<forall>(dev, d)\<in>set ds. saved dev d rows)
    \<and> (\<forall>dev d. dev \<notin> fst ` set ds \<longrightarrow> saved dev d (stats_t (wdb s)) \<longrightarrow> saved dev d rows)"
  using assms
proof (induction ds arbitrary: s)
  case Nil
  show ?case by (intro exI [of _ "stats_t (wdb s)"] exI [of _ "wreads s"]) (simp add: ret_app)
next
  case (Cons x ds)
  obtain dev d where x: "x = (dev, d)" by (cases x)
  from Cons.prems(1) x have "savable d" by simp
  from stat_row_runs [OF this] obtain r where r: "stat_row dev d = Inr r" "s_dev r = dev" "row_kept r = kept_of d" by blast
  from save_stats_effect [of r s] obtain rows1 n1 where
    s1: "save_stats r s = (Inr (), s\<lparr>wreads := n1, wdb := (wdb s)\<lparr>stats_t := rows1\<rparr>\<rparr>)"
      "\<exists>q\<in>set rows1. s_dev q = dev" "\<forall>q\<in>set rows1. s_dev q = dev \<longrightarrow> row_kept q = kept_of d"
      "\<forall>dev' d'. dev' \<noteq> dev \<longrightarrow> saved dev' d' (stats_t (wdb s)) \<longrightarrow> saved dev' d' rows1"
    using r(2,3) by auto
  let ?s1 = "s\<lparr>wreads := n1, wdb := (wdb s)\<lparr>stats_t := rows1\<rparr>\<rparr>"
  have "saved dev d rows1" using s1(2,3) by (simp add: saved_def)
  obtain rows n where ih: "for_pym (\<lambda>(dev, d). bind_pym (of_res (stat_row dev d)) save_stats) ds ?s1
      = (Inr (), ?s1\<lparr>wreads := n, wdb := (wdb ?s1)\<lparr>stats_t := rows\<rparr>\<rparr>)"
    "\<forall>(dev, d)\<in>set ds. saved dev d rows"
    "\<forall>dev d. dev \<notin> fst ` set ds \<longrightarrow> saved dev d (stats_t (wdb ?s1)) \<longrightarrow> saved dev d rows"
    using Cons.IH [of ?s1] Cons.prems by auto
  have "for_pym (\<lambda>(dev, d). bind_pym (of_res (stat_row dev d)) save_stats) (x # ds) s
      = (Inr (), s\<lparr>wreads := n, wdb := (wdb s)\<lparr>stats_t := rows\<rparr>\<rparr>)"
    using x r(1) s1(1) ih(1) by (simp add: seq_app bind_app of_res_app)
  moreover have "dev \<notin> fst ` set ds" using Cons.prems(2) x by simp
  ultimately show ?case using x s1(4) ih(2,3) \<open>saved dev d rows1\<close> by (intro exI [of _ rows] exI [of _ n]) auto
qed

section \<open>Loading them\<close>

lemma load_stat_app:
  "load_stat x s = (Inr (), s\<lparr>stats := AList.update (fst x) ((stat_of (fst x) s)\<lparr>frames_rx := s_frames_rx (snd x), bad_crc := s_bad_crc (snd x),
     seq_gaps := s_seq_gaps (snd x), reconnects := s_reconnects (snd x), last_seen := s_last_seen (snd x)\<rparr>) (stats s)\<rparr>)"
  by (simp add: load_stat_def on_stat_app)

lemma load_effect:
  assumes "\<forall>r\<in>set rows. s_dev r = dev \<longrightarrow> row_kept r = c"
    "(\<exists>r\<in>set rows. s_dev r = dev) \<or> (\<exists>d. map_of (stats s) dev = Some d \<and> kept_of d = c)"
  shows "\<exists>st d. for_pym load_stat (map (\<lambda>r. (s_dev r, r)) rows) s = (Inr (), s\<lparr>stats := st\<rparr>) \<and> map_of st dev = Some d \<and> kept_of d = c"
  using assms
proof (induction rows arbitrary: s)
  case Nil
  then show ?case by (auto simp: ret_app intro!: exI [of _ "stats s"])
next
  case (Cons r rows)
  let ?s1 = "snd (load_stat (s_dev r, r) s)"
  have s1: "load_stat (s_dev r, r) s = (Inr (), ?s1)" "?s1 = s\<lparr>stats := stats ?s1\<rparr>"
    by (simp_all add: load_stat_app)
  have "(\<exists>q\<in>set rows. s_dev q = dev) \<or> (\<exists>d. map_of (stats ?s1) dev = Some d \<and> kept_of d = c)"
    using Cons.prems by (auto simp: load_stat_app update_conv' kept_of_def row_kept_def)
  then obtain st d where ih: "for_pym load_stat (map (\<lambda>r. (s_dev r, r)) rows) ?s1 = (Inr (), ?s1\<lparr>stats := st\<rparr>)"
    "map_of st dev = Some d" "kept_of d = c" using Cons.IH [of ?s1] Cons.prems(1) by auto
  have "?s1\<lparr>stats := st\<rparr> = s\<lparr>stats := st\<rparr>" by (simp add: load_stat_app)
  moreover have "for_pym load_stat (map (\<lambda>r. (s_dev r, r)) (r # rows)) s = for_pym load_stat (map (\<lambda>r. (s_dev r, r)) rows) ?s1"
    by (simp add: seq_app load_stat_app)
  ultimately show ?case using ih by (intro exI [of _ st] exI [of _ d]) simp
qed

section \<open>Property\<close>

lemma await_tasks_cancelled: "await_tasks (replicate k None) s = (Inr (), s)"
  by (induction k) (simp_all add: ret_app)

lemma stop_effect:
  assumes "wait_closed reads s = Some s0" "\<forall>(dev, d)\<in>set (stats s0). savable d" "distinct (map fst (stats s0))"
  shows "\<exists>rows n. app_stop (replicate k None) reads s = Some (Inr (), s0\<lparr>closed := fold (\<lambda>(_, w). List.insert w) (writers s0) (closed s0), wreads := n,
      wdb := (wdb s0)\<lparr>stats_t := rows, tel_buf := [], telemetry_t := telemetry_t (wdb s0) @ tel_buf (wdb s0)\<rparr>\<rparr>)
    \<and> (\<forall>(dev, d)\<in>set (stats s0). saved dev d rows)"
proof -
  let ?s = "s0\<lparr>closed := fold (\<lambda>(_, w). List.insert w) (writers s0) (closed s0)\<rparr>"
  from persist_effect [OF assms(2,3), of ?s] obtain rows n where p:
    "for_pym (\<lambda>(dev, d). bind_pym (of_res (stat_row dev d)) save_stats) (stats s0) ?s = (Inr (), ?s\<lparr>wreads := n, wdb := (wdb ?s)\<lparr>stats_t := rows\<rparr>\<rparr>)"
    "\<forall>(dev, d)\<in>set (stats s0). saved dev d rows" by auto
  have "close_and_save s0 = (Inr (), ?s\<lparr>wreads := n, wdb := (wdb ?s)\<lparr>stats_t := rows\<rparr>\<rparr>)"
    using p(1) by (simp add: close_and_save_def persist_stats_def pym_simps)
  then have "app_stop (replicate k None) reads s = Some (Inr (), s0\<lparr>closed := fold (\<lambda>(_, w). List.insert w) (writers s0) (closed s0), wreads := n,
      wdb := (wdb s0)\<lparr>stats_t := rows, tel_buf := [], telemetry_t := telemetry_t (wdb s0) @ tel_buf (wdb s0)\<rparr>\<rparr>)"
    using assms(1) by (simp add: app_stop_def stop_def await_tasks_cancelled db_close_def flush_app pym_simps)
  with p(2) show ?thesis by blast
qed

lemma engine_init_app:
  "engine_rules (wdb s) = Inr rs \<Longrightarrow> engine_init s = (Inr (), s\<lparr>devs := [], config_cache := [], hw_cache := [], rules := rs\<rparr>)"
  by (simp add: engine_init_def seq_app bind_app modify_app db_get_app of_res_app)

lemma Ingest_init_app:
  "Ingest_init s = for_pym load_stat (load_stats (wdb s)) (s\<lparr>wreads := wreads s + 1, stats := [], writers := [], conns := [], latest := [],
      global_bad_frames := 0, total_frames := 0, started_at := wclock s (wreads s)\<rparr>)"
  by (simp add: Ingest_init_def bind_app seq_app time_time_app modify_app db_get_app)

lemma start_effect:
  assumes "engine_rules (wdb s) = Inr rs" "saved dev d (stats_t (wdb s))"
  shows "\<exists>s'. app_start h s = (Inr (), s') \<and> telemetry_t (wdb s') = telemetry_t (wdb s) \<and> rules s' = rs \<and> writers s' = []
    \<and> (\<exists>d'. map_of (stats s') dev = Some d' \<and> kept_of d' = kept_of d)"
proof -
  let ?db = "(wdb s)\<lparr>tel_buf := [], retention_h := h\<rparr>"
  let ?s = "s\<lparr>wdb := ?db, wbus := EventBus_init 1000, devs := [], config_cache := [], hw_cache := [], rules := rs, wreads := wreads s + 1,
      stats := [], writers := [], conns := [], latest := [], global_bad_frames := 0, total_frames := 0, started_at := wclock s (wreads s)\<rparr>"
  have rl: "engine_rules ?db = Inr rs" using assms(1) by (simp add: engine_rules_def get_rules_def)
  have rows: "\<forall>r\<in>set (stats_t (wdb s)). s_dev r = dev \<longrightarrow> row_kept r = kept_of d" "\<exists>r\<in>set (stats_t (wdb s)). s_dev r = dev"
    using assms(2) by (simp_all add: saved_def)
  from load_effect [OF rows(1), of ?s] rows(2) obtain st d' where
    l: "for_pym load_stat (map (\<lambda>r. (s_dev r, r)) (stats_t (wdb s))) ?s = (Inr (), ?s\<lparr>stats := st\<rparr>)"
      "map_of st dev = Some d'" "kept_of d' = kept_of d" by auto
  have "Ingest_init (s\<lparr>wdb := ?db, wbus := EventBus_init 1000, devs := [], config_cache := [], hw_cache := [], rules := rs\<rparr>)
      = (Inr (), ?s\<lparr>stats := st\<rparr>)" using l(1) by (simp add: Ingest_init_app load_stats_def)
  then have "app_start h s = (Inr (), ?s\<lparr>stats := st, wreads := wreads s + 2\<rparr>)"
    by (simp add: app_start_def seq_app bind_app ret_app time_time_app db_open_def db_mod_app modify_app engine_init_app rl)
  then show ?thesis using l(2,3) by auto
qed

text \<open>
  C25. A restart keeps what the server has counted. The stop waits as long as a connection is open. When the connections have been
  closed, after the handlers have read \<open>reads\<close>, it ends, and after a new start every device has the numbers of
  frames, bad frames, gaps and reconnects and the time of its last frame it had then, every buffered sample is in the
  table once, and every writer is closed; while one is open it comes to no end, and nothing is saved.
\<close>

theorem restart_keeps_counters:
  assumes "wait_closed reads s = Some s0" "\<forall>(dev, d)\<in>set (stats s0). savable d" "distinct (map fst (stats s0))"
    "engine_rules (wdb s0) = Inr rs" "map_of (stats s0) dev = Some d"
  shows "(\<exists>s1 s2 d'. app_stop [None, None] reads s = Some (Inr (), s1) \<and> app_start h s1 = (Inr (), s2)
    \<and> map_of (stats s2) dev = Some d' \<and> kept_of d' = kept_of d
    \<and> telemetry_t (wdb s2) = telemetry_t (wdb s0) @ tel_buf (wdb s0) \<and> snd ` set (writers s0) \<subseteq> set (closed s1))
    \<and> (\<not> all_closed s \<longrightarrow> app_stop [None, None] [] s = None)"
proof (intro conjI impI)
  have two: "[None, None] = replicate 2 None" by (simp add: numeral_2_eq_2)
  from stop_effect [OF assms(1-3), of 2] obtain rows n where st:
    "app_stop [None, None] reads s = Some (Inr (), s0\<lparr>closed := fold (\<lambda>(_, w). List.insert w) (writers s0) (closed s0), wreads := n,
       wdb := (wdb s0)\<lparr>stats_t := rows, tel_buf := [], telemetry_t := telemetry_t (wdb s0) @ tel_buf (wdb s0)\<rparr>\<rparr>)" (is "_ = Some (Inr (), ?s1)")
    "\<forall>(dev, d)\<in>set (stats s0). saved dev d rows" unfolding two by blast
  have "saved dev d rows" using st(2) assms(5) by (auto dest: map_of_SomeD)
  moreover have "engine_rules (wdb ?s1) = Inr rs" using assms(4) by (simp add: engine_rules_def get_rules_def)
  ultimately obtain s2 d' where "app_start h ?s1 = (Inr (), s2)" "telemetry_t (wdb s2) = telemetry_t (wdb ?s1)"
    "map_of (stats s2) dev = Some d'" "kept_of d' = kept_of d" using start_effect [of ?s1 rs dev d h] by auto
  moreover have "snd ` set ws \<subseteq> set (fold (\<lambda>(_, w). List.insert w) ws cs)" for ws :: "(pystr \<times> nat) list" and cs
  proof -
    have "set (fold (\<lambda>(_, w). List.insert w) ws cs) = set cs \<union> snd ` set ws" by (induction ws arbitrary: cs) auto
    then show ?thesis by simp
  qed
  ultimately show "\<exists>s1 s2 d'. app_stop [None, None] reads s = Some (Inr (), s1) \<and> app_start h s1 = (Inr (), s2)
    \<and> map_of (stats s2) dev = Some d' \<and> kept_of d' = kept_of d
    \<and> telemetry_t (wdb s2) = telemetry_t (wdb s0) @ tel_buf (wdb s0) \<and> snd ` set (writers s0) \<subseteq> set (closed s1)" using st(1) by auto
  show "app_stop [None, None] [] s = None" if "\<not> all_closed s"
    using that unfolding two by (simp add: app_stop_def stop_def await_tasks_cancelled)
qed

text \<open>
  C25 at a server that has heard one device, holds one sample in its buffer and is stopped while the device is connected: it waits
  until the device hangs up.
\<close>

definition heard_server :: server where
  "heard_server = sample_server\<lparr>stats := [(lit ''ECU-1'', DeviceStats_init\<lparr>frames_rx := 12, seq_gaps := 2, last_seen := Some (Fin 1000)\<rparr>)],
     wdb := (DB_init (Fin 24))\<lparr>tel_buf := [sample_row (Fin 999)]\<rparr>\<rparr>"

theorem restart_keeps_counters_witness:
  "app_stop [None, None] [] heard_server = None
   \<and> (\<exists>s1 s2 d'. app_stop [None, None] [(7, [])] heard_server = Some (Inr (), s1) \<and> app_start (Fin 24) s1 = (Inr (), s2)
    \<and> map_of (stats s2) (lit ''ECU-1'') = Some d' \<and> frames_rx d' = 12 \<and> seq_gaps d' = 2 \<and> last_seen d' = Some (Fin 1000)
    \<and> telemetry_t (wdb s2) = [sample_row (Fin 999)])"
proof -
  define s0 where "s0 = snd (tcp_read 7 [] heard_server)"
  have o: "\<not> all_closed heard_server" by code_simp
  have "all_closed s0" unfolding s0_def by code_simp
  with o have w: "wait_closed [(7, [])] heard_server = Some s0" by (simp add: s0_def)
  have st: "stats s0 = [(lit ''ECU-1'', DeviceStats_init\<lparr>frames_rx := 12, seq_gaps := 2, last_seen := Some (Fin 1000)\<rparr>)]"
    unfolding s0_def by code_simp
  have db: "tel_buf (wdb s0) = [sample_row (Fin 999)]" "telemetry_t (wdb s0) = []" "engine_rules (wdb s0) = Inr DEFAULT_RULES"
    unfolding s0_def by code_simp+
  have "Database.iso (Fin 1000) = Inr (lit ''1970-01-01T00:16:40.000Z'')" by code_simp
  then have a: "\<forall>(dev, d)\<in>set (stats s0). savable d"
    by (simp add: st savable_def DeviceStats_init_def window_ok_def)
  have "distinct (map fst (stats s0))" "map_of (stats s0) (lit ''ECU-1'') = Some (DeviceStats_init\<lparr>frames_rx := 12, seq_gaps := 2, last_seen := Some (Fin 1000)\<rparr>)"
    by (simp_all add: st)
  from restart_keeps_counters [OF w a this(1) db(3) this(2), of "Fin 24"] db(1,2) o show ?thesis by (auto simp: kept_of_def)
qed

text \<open>A task that has ended with an exception makes the stop raise: no connection is closed and nothing is saved.\<close>

theorem dead_task_blocks_stop: "app_stop [Some e, None] reads s = Some (Inl e, s)"
  by (simp add: app_stop_def stop_def throw_app)

end
