(* ===== verification/Sil_Main.thy ===== *)
theory Sil_Main
  imports Sil_Run_Laws App
begin

text \<open>
  \<open>main\<close> of \<open>sim/run_sil.py\<close>: validation of scenario files, one run, and the exit code; and what connects the runner
  with the server it starts: the ports. What a file holds is an argument, as is what the system finds on a port.
\<close>

section \<open>The command line\<close>

text \<open>What \<open>argparse\<close> makes of it; the other arguments are those of the runner.\<close>

record main_args =
  ma_scenarios :: "pystr list"
  ma_validate :: bool
  ma_via_proxy :: pystr
  ma_ports :: "pystr option"
  ma_run :: sil_args

definition via_list :: "pystr \<Rightarrow> pystr list" where
  "via_list text = filter (\<lambda>x. x \<noteq> []) (map py_strip (py_split 44 text))"

text \<open>
  A file gives a scenario, or nothing when it cannot be opened or is no YAML; other exceptions are those of the decoder.
  \<open>load_scenario\<close> and the ports: nothing when \<open>main\<close> reports an error.
\<close>

definition caught :: "'a res \<Rightarrow> 'a option res" where
  "caught v = (case v of Inr x \<Rightarrow> Inr (Some x) | Inl e \<Rightarrow> if e = SchemaError then Inr None else Inl e)"

definition load_scenario :: "(pystr \<Rightarrow> json option res) \<Rightarrow> pystr \<Rightarrow> json option res" where
  "load_scenario load path =
     rbind (load path) (\<lambda>found.
     case found of
       None \<Rightarrow> Inr None
     | Some sc \<Rightarrow> rbind (caught (validate_scenario sc)) (\<lambda>ws. Inr (case ws of None \<Rightarrow> None | Some _ \<Rightarrow> Some sc)))"

definition with_ports :: "(pystr \<Rightarrow> int option res) \<Rightarrow> (int \<Rightarrow> bool res) \<Rightarrow> pystr option \<Rightarrow> json \<Rightarrow> json option res" where
  "with_ports other free spec sc =
     (case spec of
        Some (c # cs) \<Rightarrow> rbind (caught (apply_ports other free sc (c # cs))) (\<lambda>v. Inr (map_option fst v))
      | _ \<Rightarrow> Inr (Some sc))"

text \<open>\<open>--validate\<close>: every file is looked at.\<close>

fun validate_files :: "(pystr \<Rightarrow> json option res) \<Rightarrow> pystr list \<Rightarrow> int res" where
  "validate_files load [] = Inr 0"
| "validate_files load (p # ps) =
     rbind (load_scenario load p) (\<lambda>sc. rbind (validate_files load ps) (\<lambda>rc. Inr (if sc = None then 2 else rc)))"

text \<open>\<open>Runner(sc, args)\<close>.\<close>

definition Runner_init :: "json \<Rightarrow> (runner, unit) run" where
  "Runner_init sc = alter (\<lambda>r. r\<lparr>rn_sc := sc, rn_children := [], rn_actions := [], rn_results := [], rn_fatal := False\<rparr>)"

text \<open>\<open>main\<close> after the parsing: the exit code. The line it prints before the run needs a description that is a text.\<close>

definition main :: "sil_os \<Rightarrow> (int \<Rightarrow> bool res) \<Rightarrow> (pystr \<Rightarrow> json option res) \<Rightarrow> main_args \<Rightarrow> (runner, int) run" where
  "main os free load a =
     (if ma_validate a then result (validate_files load (ma_scenarios a))
      else if length (ma_scenarios a) \<noteq> 1 then give 2
      else bind_run (result (load_scenario load (ma_scenarios a ! 0))) (\<lambda>loaded.
        case loaded of
          None \<Rightarrow> give 2
        | Some sc0 \<Rightarrow> bind_run (result (with_ports (os_url_port os) free (ma_ports a) sc0)) (\<lambda>ported.
            case ported of
              None \<Rightarrow> give 2
            | Some sc \<Rightarrow>
                if \<not> is_str (field sc ''description'') then abort (Raised AttributeError)
                else seq_run (Runner_init sc)
                  (bind_run (run_scenario os ((ma_run a)\<lparr>ar_via_proxy := via_list (ma_via_proxy a)\<rparr>)) (\<lambda>rep.
                   give (if rp_ok rep then 0 else 1))))))"

section \<open>Loaded scenarios\<close>

lemma load_scenario_valid:
  "load_scenario load p = Inr (Some sc) \<Longrightarrow> load p = Inr (Some sc) \<and> (\<exists>ws. validate_scenario sc = Inr ws)"
  by (auto simp: load_scenario_def caught_def rbind_Inr_iff split: option.splits sum.splits if_splits)

text \<open>Files are accepted together exactly when each of them is.\<close>

lemma validate_files_ok:
  "validate_files load ps = Inr rc \<Longrightarrow> (rc = 0 \<or> rc = 2) \<and> (rc = 0 \<longleftrightarrow> (\<forall>p\<in>set ps. \<exists>sc. load_scenario load p = Inr (Some sc)))"
proof (induction ps arbitrary: rc)
  case (Cons p ps)
  then obtain sc rc' where "load_scenario load p = Inr sc" "validate_files load ps = Inr rc'" "rc = (if sc = None then 2 else rc')"
    by (auto simp: rbind_Inr_iff)
  with Cons.IH [of rc'] show ?case by auto
qed simp

lemma with_ports_other:
  assumes "with_ports other free spec sc = Inr (Some sc')" "is_obj sc" "is_obj (field sc ''backend'')"
  shows "\<forall>k. k \<noteq> ''backend'' \<longrightarrow> field sc' k = field sc k"
proof (cases "\<exists>c cs. spec = Some (c # cs)")
  case True
  then obtain c cs remark where "apply_ports other free sc (c # cs) = Inr (sc', remark)"
    using assms(1) by (auto simp: with_ports_def caught_def rbind_Inr_iff split: sum.splits if_splits)
  then show ?thesis using apply_ports_backend assms(2,3) by metis
next
  case False
  then show ?thesis using assms(1) by (auto simp: with_ports_def split: option.splits list.splits)
qed

lemma validated_backend:
  assumes "validate_scenario sc = Inr ws"
  shows "is_obj sc" "is_obj (field sc ''backend'')"
  using assms by (auto simp: validate_scenario_def check_top_def check_backend_def Let_def requires_iff)

text \<open>
  C37. The exit code of a run. It is 2 when nothing was done; otherwise there was one scenario, it passed validation, and the exit code is 0
  exactly when nothing cut the run short and every expectation of the scenario, in the order of the schedule, was found to hold,
  and 1 in all other cases.
\<close>

theorem main_exit_code:
  assumes "main os free load a r = Some (Inr code, t)" "\<not> ma_validate a"
  shows "code = 2 \<and> t = r
    \<or> (\<exists>p sc ws. ma_scenarios a = [p] \<and> load p = Inr (Some sc) \<and> validate_scenario sc = Inr ws
        \<and> code = (if \<not> rn_fatal t \<and> (\<exists>items. schedule_of sc = Inr items \<and> rn_results t = map (\<lambda>e. (e, True)) (expectations items)) then 0 else 1))"
proof (cases "code = 2 \<and> t = r")
  case False
  let ?args = "(ma_run a)\<lparr>ar_via_proxy := via_list (ma_via_proxy a)\<rparr>"
  obtain sc0 sc where sc: "length (ma_scenarios a) = 1" "load_scenario load (ma_scenarios a ! 0) = Inr (Some sc0)"
    "with_ports (os_url_port os) free (ma_ports a) sc0 = Inr (Some sc)" "is_str (field sc ''description'')"
    and main: "seq_run (Runner_init sc) (bind_run (run_scenario os ?args) (\<lambda>rep. give (if rp_ok rep then 0 else 1))) r = Some (Inr code, t)"
    using assms False
    by (auto simp: main_def bind_run_app result_app give_def abort_def split: if_splits sum.splits option.splits)
  obtain p where p: "ma_scenarios a = [p]" using sc(1) by (auto simp: length_Suc_conv)
  with sc(2) load_scenario_valid obtain ws where v: "load p = Inr (Some sc0)" "validate_scenario sc0 = Inr ws" by fastforce
  let ?r = "r\<lparr>rn_sc := sc, rn_children := [], rn_actions := [], rn_results := [], rn_fatal := False\<rparr>"
  obtain rep where rep: "run_scenario os ?args ?r = Some (Inr rep, t)" "code = (if rp_ok rep then 0 else 1)"
    using main by (auto simp: Runner_init_def run_simps split: option.splits sum.splits)
  have "\<forall>k. k \<noteq> ''backend'' \<longrightarrow> field sc k = field sc0 k" by (rule with_ports_other [OF sc(3) validated_backend [OF v(2)]])
  then have "schedule_of sc = schedule_of sc0" by (simp add: schedule_of_def)
  with run_verdict [OF rep(1)] have "rp_ok rep \<longleftrightarrow> \<not> rn_fatal t \<and> (\<exists>items. schedule_of sc0 = Inr items \<and> rn_results t = map (\<lambda>e. (e, True)) (expectations items))"
    by (simp add: run_report [OF rep(1)] make_report_def Let_def)
  with rep(2) p v show ?thesis by simp
qed simp

text \<open>C37 at the sample scenario, its file given by name.\<close>

definition sample_main :: main_args where
  "sample_main = \<lparr>ma_scenarios = [lit ''pair.yml''], ma_validate = False, ma_via_proxy = lit '' ENGINE-ECU-1 , '', ma_ports = Some (lit ''9000''),
     ma_run = sample_args\<rparr>"

lemma sample_main_runs: "(case main sample_os (\<lambda>_. Inr True) (\<lambda>_. Inr (Some sample_scenario)) sample_main (sample_runner JNull) of
    Some (Inr c, t) \<Rightarrow> c = 0 | _ \<Rightarrow> False)"
  by code_simp

theorem main_exit_code_witness:
  "\<exists>t items. main sample_os (\<lambda>_. Inr True) (\<lambda>_. Inr (Some sample_scenario)) sample_main (sample_runner JNull) = Some (Inr 0, t)
     \<and> schedule_of sample_scenario = Inr items \<and> rn_results t = map (\<lambda>e. (e, True)) (expectations items) \<and> \<not> rn_fatal t"
proof -
  obtain t where t: "main sample_os (\<lambda>_. Inr True) (\<lambda>_. Inr (Some sample_scenario)) sample_main (sample_runner JNull) = Some (Inr 0, t)"
    using ranD [OF sample_main_runs] by blast
  have "\<not> ma_validate sample_main" by (simp add: sample_main_def)
  from main_exit_code [OF t this] obtain sc where "Inr (Some sample_scenario) = (Inr (Some sc) :: json option res)"
    "\<not> rn_fatal t \<and> (\<exists>items. schedule_of sc = Inr items \<and> rn_results t = map (\<lambda>e. (e, True)) (expectations items))"
    by (auto split: if_splits)
  with t show ?thesis by auto
qed

section \<open>The ports of a run\<close>

text \<open>An option and its value on a command line.\<close>

definition told :: "string \<Rightarrow> pystr \<Rightarrow> json list \<Rightarrow> bool" where
  "told opt v words \<longleftrightarrow> (JStr (lit opt), JStr v) \<in> set (zip words (tl words))"

definition uses_proxy :: "sil_args \<Rightarrow> json \<Rightarrow> bool" where
  "uses_proxy args d \<longleftrightarrow> truthy (field d ''via_proxy'') \<or> field d ''id'' \<in> set (map JStr (ar_via_proxy args))"

lemma told_append: "told opt v (xs @ JStr (lit opt) # JStr v # ys)"
proof (induction xs)
  case (Cons x xs)
  have "zip (x # ws) ws = (x, hd ws) # zip ws (tl ws)" if "ws \<noteq> []" for ws :: "json list" using that by (cases ws) simp_all
  with Cons show ?case by (simp add: told_def)
qed (simp add: told_def)

lemma sub_item_field: "sub_item d k = Inr v \<Longrightarrow> v = field d k"
  by (simp add: sub_item_def split: if_splits)

lemma agent_cmd_ports:
  assumes "agent_cmd sc args d = Inr c"
  shows "told ''--tcp-port'' (py_str (field (field sc ''backend'') ''tcp_port'')) c"
    "told ''--udp-port'' (py_str (if uses_proxy args d then field (field sc ''proxy'') ''listen'' else field (field sc ''backend'') ''udp_port'')) c"
proof -
  let ?udp = "if uses_proxy args d then field (field sc ''proxy'') ''listen'' else field (field sc ''backend'') ''udp_port''"
  define be where "be = field sc ''backend''"
  obtain did where did: "sub_item d ''id'' = Inr did" using assms by (cases "sub_item d ''id''") (simp_all add: agent_cmd_def Let_def)
  note e = assms [unfolded agent_cmd_def Let_def did rbind.simps, folded be_def]
  obtain udp where udp: "(if truthy (field d ''via_proxy'') \<or> did \<in> set (map JStr (ar_via_proxy args))
      then sub_item (field sc ''proxy'') ''listen'' else sub_item be ''udp_port'') = Inr udp"
    using e by (subst (asm) rbind_Inr_iff) blast
  note e = e [unfolded udp rbind.simps]
  obtain hd_host where hh: "(if truthy (field d ''remote'') then rbind (sub_item (field d ''remote'') ''ssh'') (\<lambda>target.
      rbind (sub_item (field d ''remote'') ''agent'') (\<lambda>ag. rbind (sub_item (field d ''remote'') ''backend_host'') (\<lambda>h.
      Inr (jlits [''ssh'', ''-tt'', ''-o'', ''BatchMode=yes'', ''-o'', ''ConnectTimeout=10''] @ [target, ag], h))))
     else Inr ([JStr (ar_agent args)], JStr (lit ''127.0.0.1''))) = Inr hd_host"
    using e by (subst (asm) rbind_Inr_iff) blast
  note e = e [unfolded hh rbind.simps]
  obtain tcp where tcp: "sub_item be ''tcp_port'' = Inr tcp" using e by (cases "sub_item be ''tcp_port''") (simp_all split: prod.splits)
  obtain post where "c = fst hd_host @ opt_arg ''id'' did @ opt_arg ''host'' (snd hd_host) @ opt_arg ''udp-port'' (JStr (py_str udp))
      @ opt_arg ''tcp-port'' (JStr (py_str tcp)) @ post"
    using e unfolding tcp rbind.simps by (auto simp: rbind_Inr_iff split: prod.splits)
  moreover have "udp = ?udp" using udp sub_item_field sub_item_field [OF did] by (auto simp: uses_proxy_def be_def split: if_splits)
  moreover define pre where "pre = fst hd_host @ opt_arg ''id'' did @ opt_arg ''host'' (snd hd_host)"
  ultimately have c: "c = pre @ JStr (lit ''--udp-port'') # JStr (py_str ?udp) # JStr (lit ''--tcp-port'') # JStr (py_str (field (field sc ''backend'') ''tcp_port'')) # post"
    using sub_item_field [OF tcp] by (simp add: opt_arg_def be_def lit_append [symmetric] del: lit_append)
  show "told ''--udp-port'' (py_str ?udp) c" unfolding c by (rule told_append)
  show "told ''--tcp-port'' (py_str (field (field sc ''backend'') ''tcp_port'')) c"
    unfolding c using told_append [of "''--tcp-port''" _ "pre @ [JStr (lit ''--udp-port''), JStr (py_str ?udp)]"] by simp
qed

text \<open>The port the free triple starts at.\<close>

lemma ports_free_range: "ports_free taken binds b = Inr True \<Longrightarrow> 0 \<le> b \<and> b \<le> 65533"
  by (simp add: ports_free_def split: if_splits)

lemma first_free_range: "first_free (ports_free taken binds) bs = Inr (Some b) \<Longrightarrow> b \<in> set bs \<and> 0 \<le> b \<and> b \<le> 65533"
proof (induction bs)
  case (Cons x bs)
  then show ?case using ports_free_range by (auto simp: rbind_Inr_iff split: if_splits)
qed simp

lemma apply_ports_range:
  assumes "apply_ports other (ports_free taken binds) sc spec = Inr (sc', note_text)" "is_obj sc" "is_obj (field sc ''backend'')"
  obtains b where "0 < b" "b \<le> 65533" "field (field sc' ''backend'') ''http'' = JStr (lit ''http://127.0.0.1:'' @ py_str_int b)"
    "field (field sc' ''backend'') ''udp_port'' = JInt (b + 1)" "field (field sc' ''backend'') ''tcp_port'' = JInt (b + 2)"
    "\<forall>k. k \<noteq> ''backend'' \<longrightarrow> field sc' k = field sc k"
proof -
  obtain want b where want: "http_port other sc = Inr want" and w: "choose_base (ports_free taken binds) want spec = Inr b"
    "sc' = set_key sc ''backend'' (foldl (\<lambda>be (k, v). set_key be k v) (field sc ''backend'') (ports_of b))"
    using assms(1) by (auto simp: apply_ports_def rbind_Inr_iff)
  have "want \<noteq> 0"
    using want unfolding http_port_def
    by (cases "url_port other (text_of (field (field sc ''backend'') ''http''))") (auto split: option.splits if_splits)
  have "0 < b \<and> b \<le> 65533"
  proof (cases "spec = lit ''auto''")
    case True
    have "first_free (ports_free taken binds) (want # map (\<lambda>i. 8790 + 10 * int i) [0..<20]) = Inr (Some b)"
      using w(1) [unfolded choose_base_def True if_P [OF refl]]
      by (cases "first_free (ports_free taken binds) (want # map (\<lambda>i. 8790 + 10 * int i) [0..<20])") (auto split: option.splits simp del: first_free.simps upt.simps)
    from first_free_range [OF this] \<open>want \<noteq> 0\<close> show ?thesis by (auto simp del: upt.simps)
  next
    case False
    with w(1) show ?thesis by (auto simp: choose_base_def split: sum.splits if_splits)
  qed
  with that [of b] show thesis using assms(2,3) by (simp add: w(2) field_set_key ports_of_def)
qed

lemma backend_env_lookup:
  "map_of (backend_env os sc p) (lit ''ECU_UDP_PORT'') = Some (py_str (field (field sc ''backend'') ''udp_port''))"
  "map_of (backend_env os sc p) (lit ''ECU_TCP_PORT'') = Some (py_str (field (field sc ''backend'') ''tcp_port''))"
  by (simp_all add: backend_env_def Let_def update_conv')

lemma port_text: "0 \<le> n \<Longrightarrow> n \<le> 65535 \<Longrightarrow> py_int_of_str (py_str_int n) = Inr n"
proof -
  assume n: "0 \<le> n" "n \<le> 65535"
  have "(65535 :: int) < 10 ^ 5" by simp
  also have "(10 :: int) ^ 5 \<le> 10 ^ 4300" by (rule power_increasing) simp_all
  finally have "n < 10 ^ 4300" using n(2) by (rule le_less_trans [rotated])
  from int_of_digits [OF n(1) this] n(1) show ?thesis by (simp add: py_str_int_def)
qed

lemma rmap_zip: "rmap f xs = Inr ys \<Longrightarrow> list_all2 (\<lambda>x y. f x = Inr y) xs ys"
  by (induction xs arbitrary: ys) (auto simp: rbind_Inr_iff)

text \<open>
  C38. The parts of a run find each other. With \<open>--ports\<close> and \<open>--start-backend\<close>, in a run that nothing cut short: the server is started on one port and
  \<open>create_app\<close> reads back from its environment the next two for UDP and TCP; every agent is told the TCP port, and as its UDP port either
  that of the server or, when it is to go through the proxy, the one the proxy listens on; and the proxy is told to forward to the UDP port of the server.
\<close>

theorem parts_find_each_other:
  assumes "apply_ports (os_url_port os) (ports_free taken binds) sc spec = Inr (rn_sc r, note_text)" "validate_scenario sc = Inr ws"
    "ar_start_backend args" "run_scenario os args r = Some (Inr rep, t)" "\<not> rp_fatal rep"
  shows "\<exists>b env cmds. launches t = launches r @ (backend_cmd os b, Some env) # proxy_launch os args (rn_sc r) @ map (\<lambda>c. (c, None)) cmds
    \<and> app_ports env None None = Inr (b + 1, b + 2)
    \<and> list_all2 (\<lambda>d c. told ''--tcp-port'' (py_str_int (b + 2)) c
        \<and> (if uses_proxy args d
           then \<exists>port. told ''--udp-port'' port c \<and> (\<exists>p\<in>set (proxy_launch os args (rn_sc r)). told ''--listen'' port (fst p) \<and> told ''--forward'' (lit ''127.0.0.1:'' @ py_str_int (b + 1)) (fst p))
           else told ''--udp-port'' (py_str_int (b + 1)) c)) (items_of (field sc ''devices'')) cmds"
proof -
  let ?sc = "rn_sc r" and ?sc' = "with_proxy (rn_sc r) args"
  obtain b where b: "0 < b" "b \<le> 65533" "field (field ?sc ''backend'') ''http'' = JStr (lit ''http://127.0.0.1:'' @ py_str_int b)"
    "field (field ?sc ''backend'') ''udp_port'' = JInt (b + 1)" "field (field ?sc ''backend'') ''tcp_port'' = JInt (b + 2)"
    "\<forall>k. k \<noteq> ''backend'' \<longrightarrow> field ?sc k = field sc k"
    by (rule apply_ports_range [OF assms(1) validated_backend [OF assms(2)]])
  obtain bl cmds where l: "backend_launch os args ?sc = Inr bl"
    "rmap (agent_cmd ?sc' args) (items_of (field ?sc ''devices'')) = Inr cmds"
    "launches t = launches r @ bl @ proxy_launch os args ?sc @ map (\<lambda>c. (c, None)) cmds"
    by (rule run_launches [OF assms(4,5)])
  let ?env = "backend_env os ?sc b"
  have "http_port (os_url_port os) ?sc = Inr b" using url_port_of_base [of b] b(1-3) by (simp add: http_port_def text_of_def)
  with l(1) assms(3) have bl: "bl = [(backend_cmd os b, Some ?env)]" by (simp add: backend_launch_def)
  have "py_int_of_str (py_str_int (b + 1)) = Inr (b + 1)" "py_int_of_str (py_str_int (b + 2)) = Inr (b + 2)"
    using b(1,2) by (intro port_text; simp)+
  then have env: "app_ports ?env None None = Inr (b + 1, b + 2)"
    by (simp add: app_ports_def app_port_def backend_env_lookup b(4,5))
  have be: "field ?sc' ''backend'' = field ?sc ''backend''" by (simp add: field_with_proxy)
  have proxy: "\<exists>p\<in>set (proxy_launch os args ?sc). told ''--listen'' (py_str (field (field ?sc' ''proxy'') ''listen'')) (fst p)
      \<and> told ''--forward'' (lit ''127.0.0.1:'' @ py_str_int (b + 1)) (fst p)"
    if "d \<in> set (items_of (field sc ''devices''))" "uses_proxy args d" for d
  proof -
    have n: "needs_proxy ?sc args"
      using that b(6) by (auto simp: needs_proxy_def uses_proxy_def list_ex_iff)
    have "told ''--listen'' (py_str (field (field ?sc' ''proxy'') ''listen'')) (proxy_command os ?sc')"
      "told ''--forward'' (lit ''127.0.0.1:'' @ py_str_int (b + 1)) (proxy_command os ?sc')"
      by (simp_all add: told_def proxy_command_def proxy_cmd_def be b(4))
    with n show ?thesis by (simp add: proxy_launch_def)
  qed
  have "list_all2 (\<lambda>d c. agent_cmd ?sc' args d = Inr c) (items_of (field sc ''devices'')) cmds" using rmap_zip [OF l(2)] b(6) by simp
  then have agents: "list_all2 (\<lambda>d c. told ''--tcp-port'' (py_str_int (b + 2)) c
        \<and> (if uses_proxy args d
           then \<exists>port. told ''--udp-port'' port c \<and> (\<exists>p\<in>set (proxy_launch os args ?sc). told ''--listen'' port (fst p) \<and> told ''--forward'' (lit ''127.0.0.1:'' @ py_str_int (b + 1)) (fst p))
           else told ''--udp-port'' (py_str_int (b + 1)) c)) (items_of (field sc ''devices'')) cmds"
  proof (rule list.rel_mono_strong)
    fix d c assume d: "d \<in> set (items_of (field sc ''devices''))" "c \<in> set cmds" "agent_cmd ?sc' args d = Inr c"
        show "told ''--tcp-port'' (py_str_int (b + 2)) c
        \<and> (if uses_proxy args d
           then \<exists>port. told ''--udp-port'' port c \<and> (\<exists>p\<in>set (proxy_launch os args ?sc). told ''--listen'' port (fst p) \<and> told ''--forward'' (lit ''127.0.0.1:'' @ py_str_int (b + 1)) (fst p))
           else told ''--udp-port'' (py_str_int (b + 1)) c)"
      using agent_cmd_ports [OF d(3)] proxy [OF d(1)] by (auto simp: be b(4,5))
  qed
  have "launches t = launches r @ (backend_cmd os b, Some ?env) # proxy_launch os args ?sc @ map (\<lambda>c. (c, None)) cmds"
    using l(3) unfolding bl by simp
  with env agents show ?thesis by blast
qed

text \<open>C38 at the sample scenario on port 9000, with one of its devices sent through the proxy.\<close>

definition ported_scenario :: json where
  "ported_scenario =
     (case apply_ports (os_url_port sample_os) (ports_free (\<lambda>_. False) (\<lambda>_. True)) sample_scenario (lit ''9000'') of Inr (sc, _) \<Rightarrow> sc | Inl _ \<Rightarrow> JNull)"

definition proxied_args :: sil_args where
  "proxied_args = sample_args\<lparr>ar_via_proxy := [lit ''ENGINE-ECU-1'']\<rparr>"

lemma ported_run:
  "apply_ports (os_url_port sample_os) (ports_free (\<lambda>_. False) (\<lambda>_. True)) sample_scenario (lit ''9000'') = Inr (ported_scenario, None)"
  "(case run_scenario sample_os proxied_args (sample_runner ported_scenario) of
    Some (Inr rep, t) \<Rightarrow> \<not> rp_fatal rep \<and> length (launches t) = 4 | _ \<Rightarrow> False)"
  by code_simp+

theorem parts_find_each_other_witness:
  "\<exists>rep t b env cmds. run_scenario sample_os proxied_args (sample_runner ported_scenario) = Some (Inr rep, t) \<and> length (launches t) = 4
     \<and> launches t = (backend_cmd sample_os b, Some env) # proxy_launch sample_os proxied_args ported_scenario @ map (\<lambda>c. (c, None)) cmds
     \<and> app_ports env None None = Inr (b + 1, b + 2) \<and> length cmds = 2"
proof -
  obtain rep t where t: "run_scenario sample_os proxied_args (sample_runner ported_scenario) = Some (Inr rep, t)" "\<not> rp_fatal rep" "length (launches t) = 4"
    using ranD [OF ported_run(2)] by blast
  have sc: "rn_sc (sample_runner ported_scenario) = ported_scenario" "launches (sample_runner ported_scenario) = []"
    by (simp_all add: sample_runner_def launches_def)
  have "ar_start_backend proxied_args" by (simp add: proxied_args_def sample_args_def)
  have ports: "apply_ports (os_url_port sample_os) (ports_free (\<lambda>_. False) (\<lambda>_. True)) sample_scenario (lit ''9000'')
      = Inr (rn_sc (sample_runner ported_scenario), None)"
    unfolding sc by (rule ported_run(1))
  note parts = parts_find_each_other [where os = sample_os and args = proxied_args and r = "sample_runner ported_scenario"
    and sc = sample_scenario and rep = rep and t = t, OF ports sample_scenario_valid(1) \<open>ar_start_backend proxied_args\<close> t(1,2), unfolded sc]
  obtain b env cmds where p: "launches t = (backend_cmd sample_os b, Some env) # proxy_launch sample_os proxied_args ported_scenario @ map (\<lambda>c. (c, None)) cmds"
    "app_ports env None None = Inr (b + 1, b + 2)" "length (items_of (field sample_scenario ''devices'')) = length cmds"
    using parts by (elim exE conjE) (drule list_all2_lengthD, simp)
  have "length (items_of (field sample_scenario ''devices'')) = 2" by code_simp
  with p(3) have "length cmds = 2" by simp
  with t p(1,2) show ?thesis by blast
qed

end
