(* ===== verification/Fleet.thy ===== *)
theory Fleet
  imports Sil_Runner Diagnostics Processes
begin

text \<open>
  \<open>sim/fleet.py\<close>, which starts a number of agents and stops them: the checks and ids, the command lines, and the life of the processes.
  Printing is left out.
\<close>

section \<open>The command line of an agent\<close>

text \<open>The arguments of \<open>fleet.py\<close>.\<close>

record fleet_args =
  fl_n :: int
  fl_profiles :: pystr
  fl_drop :: pyfloat
  fl_hz :: int
  fl_fw :: pystr
  fl_hw :: pystr
  fl_host :: pystr
  fl_udp :: int
  fl_tcp :: int
  fl_prefix :: pystr
  fl_start :: int
  fl_seed :: int
  fl_faults :: "pystr list"
  fl_every :: int
  fl_duration :: int
  fl_agent :: pystr

text \<open>\<open>f"{i:04d}"\<close> and \<open>f"{i:03d}"\<close>: the sign counts for the width and stands before the zeros.\<close>

definition zero_padded :: "nat \<Rightarrow> int \<Rightarrow> pystr" where
  "zero_padded w i =
     (let ds = digits_of \<bar>i\<bar> in
      if i < 0 then 45 # replicate (w - 1 - length ds) 48 @ ds else replicate (w - length ds) 48 @ ds)"

definition split_profiles :: "pystr \<Rightarrow> pystr list" where
  "split_profiles s = filter (\<lambda>p. p \<noteq> []) (map py_strip (py_split 44 s))"

text \<open>The exit code when the arguments are refused.\<close>

definition fleet_check :: "bool \<Rightarrow> fleet_args \<Rightarrow> int option" where
  "fleet_check agent_exists a =
     (if \<not> agent_exists then Some 2
      else if \<not> (fle (Fin 0) (fl_drop a) \<and> fle (fl_drop a) (Fin 1)) then Some 2
      else if split_profiles (fl_profiles a) = [] then Some 2 else None)"

definition fleet_id :: "fleet_args \<Rightarrow> nat \<Rightarrow> pystr" where
  "fleet_id a i = fl_prefix a @ zero_padded 4 (fl_start a + int i)"

definition gets_faults :: "fleet_args \<Rightarrow> nat \<Rightarrow> bool" where
  "gets_faults a i \<longleftrightarrow> fl_faults a \<noteq> [] \<and> int i mod max 1 (fl_every a) = 0"

definition fleet_cmd :: "fleet_args \<Rightarrow> nat \<Rightarrow> pystr list" where
  "fleet_cmd a i =
     (let profiles = split_profiles (fl_profiles a); num = (\<lambda>x. py_str_int x) in
      [fl_agent a, lit ''--id'', fleet_id a i, lit ''--host'', fl_host a, lit ''--udp-port'', num (fl_udp a),
       lit ''--tcp-port'', num (fl_tcp a), lit ''--hz'', num (fl_hz a), lit ''--fw'', fl_fw a, lit ''--hw'', fl_hw a,
       lit ''--profile'', profiles ! (i mod length profiles), lit ''--drop-rate'', float_repr (fl_drop a),
       lit ''--seed'', num (fl_seed a + int i), lit ''--duration'', num (fl_duration a)]
      @ (if gets_faults a i then concat (map (\<lambda>f. [lit ''--fault'', f]) (fl_faults a)) else []))"

text \<open>The loop stops at the first id of more than 12 characters.\<close>

definition fleet_indices :: "fleet_args \<Rightarrow> nat list" where
  "fleet_indices a = takeWhile (\<lambda>i. length (fleet_id a i) \<le> 12) [0..<nat (fl_n a)]"

definition fleet_cmds :: "fleet_args \<Rightarrow> pystr list list" where
  "fleet_cmds a = map (fleet_cmd a) (fleet_indices a)"

section \<open>Starting and stopping the agents\<close>

text \<open>The loop that starts them: the numbers of the processes.\<close>

primrec start_fleet :: "os \<Rightarrow> pystr list list \<Rightarrow> (pystr list machine, nat list) run" where
  "start_fleet os [] = give []"
| "start_fleet os (c # cs) =
     bind_run (popen os (\<lambda>_. True) c None None) (\<lambda>h. bind_run (start_fleet os cs) (\<lambda>hs. give (h # hs)))"

text \<open>\<open>any(pr.poll() is None for pr in procs)\<close> stops asking at the first that runs.\<close>

primrec any_running :: "os \<Rightarrow> nat list \<Rightarrow> (pystr list machine, bool) run" where
  "any_running os [] = give False"
| "any_running os (h # hs) = bind_run (poll_proc os h) (\<lambda>rc. if rc = None then give True else any_running os hs)"

definition fleet_wait :: "os \<Rightarrow> nat list \<Rightarrow> (pystr list machine, unit) run" where
  "fleet_wait os hs = repeat_run (
     bind_run (any_running os hs) (\<lambda>b. if b then seq_run (doze os) (give None) else give (Some ())))"

text \<open>\<open>main\<close>: what it starts before its \<open>try\<close> is stopped only when all could be started.\<close>

definition fleet_main :: "os \<Rightarrow> bool \<Rightarrow> fleet_args \<Rightarrow> (pystr list machine, int) run" where
  "fleet_main os agent_exists a =
     (case fleet_check agent_exists a of
        Some rc \<Rightarrow> give rc
      | None \<Rightarrow>
          bind_run (start_fleet os (fleet_cmds a)) (\<lambda>hs.
          seq_run (finally_run
             (try_run (\<lambda>e. e = KeyboardInterrupt) (fleet_wait os hs) (\<lambda>_. give ()))
             (stop_procs os (kill_or_pass os) hs hs))
          (give 0)))"

section \<open>Laws\<close>

lemma digits_of_inj: "0 \<le> m \<Longrightarrow> 0 \<le> n \<Longrightarrow> digits_of m = digits_of n \<Longrightarrow> m = n"
  by (metis foldl_digits_of)

lemma zero_padded_value: "0 \<le> i \<Longrightarrow> foldl (\<lambda>a c. a * 10 + (c - 48)) 0 (zero_padded w i) = i"
proof -
  have z: "foldl (\<lambda>a c. a * 10 + (c - 48)) 0 (replicate k 48) = (0 :: int)" for k by (induction k) simp_all
  assume "0 \<le> i"
  then show ?thesis by (simp add: zero_padded_def Let_def z foldl_digits_of)
qed

lemma zero_padded_inj: "0 \<le> i \<Longrightarrow> 0 \<le> j \<Longrightarrow> zero_padded w i = zero_padded w j \<Longrightarrow> i = j"
  by (metis zero_padded_value)

lemma zero_padded_digit: "0 \<le> i \<Longrightarrow> c \<in> set (zero_padded w i) \<Longrightarrow> is_digit c"
  by (auto simp: zero_padded_def Let_def is_digit_def dest: digits_of_digit)

lemma fleet_id_inj: "0 \<le> fl_start a \<Longrightarrow> fleet_id a i = fleet_id a j \<Longrightarrow> i = j"
  using zero_padded_inj [of "fl_start a + int i" "fl_start a + int j" 4] by (simp add: fleet_id_def)

section \<open>Property\<close>

text \<open>
  C35. The devices of a fleet are told apart by the server: a fleet whose prefix is ASCII text and whose ids have less than twelve
  characters sends frames under pairwise different ids, each of them the id given on the command line. (With the twelfth character the program allows, ids can
  be the same on the wire.)
\<close>

theorem fleet_ids_distinct:
  assumes "0 \<le> fl_start a" "is_ascii (fl_prefix a)" "0 \<notin> set (fl_prefix a)" "\<forall>i\<in>set (fleet_indices a). length (fleet_id a i) < 12"
  shows "distinct (map (\<lambda>cmd. cstr (pad (cmd ! 2) 12)) (fleet_cmds a))
    \<and> (\<forall>cmd\<in>set (fleet_cmds a). cstr (pad (cmd ! 2) 12) = cmd ! 2)"
proof -
  have id: "fleet_cmd a i ! 2 = fleet_id a i" for i by (simp add: fleet_cmd_def Let_def)
  have w: "cstr (pad (fleet_id a i) 12) = fleet_id a i" if "i \<in> set (fleet_indices a)" for i
  proof (rule cstr_pad)
    have d: "is_digit c" if "c \<in> set (zero_padded 4 (fl_start a + int i))" for c using zero_padded_digit [OF _ that] assms(1) by simp
    have "is_ascii (fleet_id a i) \<and> 0 \<notin> set (fleet_id a i)"
      using assms(2,3) by (auto simp: fleet_id_def is_ascii_def is_digit_def dest!: d)
    then show "cfield 12 (fleet_id a i)" using assms(4) that by (simp add: cfield_def)
  qed
  have "distinct (fleet_indices a)" by (simp add: fleet_indices_def)
  then have "distinct (map (fleet_id a) (fleet_indices a))" using fleet_id_inj [OF assms(1)] by (auto simp: distinct_map inj_on_def)
  moreover have "map (\<lambda>cmd. cstr (pad (cmd ! 2) 12)) (fleet_cmds a) = map (fleet_id a) (fleet_indices a)"
    by (simp add: fleet_cmds_def id w cong: map_cong)
  moreover have "\<forall>cmd\<in>set (fleet_cmds a). cstr (pad (cmd ! 2) 12) = cmd ! 2" by (simp add: fleet_cmds_def id w)
  ultimately show ?thesis by simp
qed

text \<open>C35 at the default arguments with eight agents.\<close>

definition default_fleet :: fleet_args where
  "default_fleet = \<lparr>fl_n = 8, fl_profiles = lit ''city,highway,idle'', fl_drop = Fin 0, fl_hz = 10, fl_fw = lit ''1.0.0'',
     fl_hw = lit ''SIM-MOTOR-A'', fl_host = lit ''127.0.0.1'', fl_udp = 8781, fl_tcp = 8782, fl_prefix = lit ''ECU-'', fl_start = 1,
     fl_seed = 1000, fl_faults = [], fl_every = 1, fl_duration = 0, fl_agent = lit ''ecu_agent''\<rparr>"

theorem fleet_ids_distinct_witness:
  "map (\<lambda>cmd. cmd ! 2) (fleet_cmds default_fleet) = map lit [''ECU-0001'', ''ECU-0002'', ''ECU-0003'', ''ECU-0004'', ''ECU-0005'', ''ECU-0006'', ''ECU-0007'', ''ECU-0008'']
   \<and> distinct (map (\<lambda>cmd. cstr (pad (cmd ! 2) 12)) (fleet_cmds default_fleet))"
proof -
  have "map (\<lambda>cmd. cmd ! 2) (fleet_cmds default_fleet) = map lit [''ECU-0001'', ''ECU-0002'', ''ECU-0003'', ''ECU-0004'', ''ECU-0005'', ''ECU-0006'', ''ECU-0007'', ''ECU-0008'']"
    by code_simp
  moreover have "list_all (\<lambda>i. length (fleet_id default_fleet i) < 12) (fleet_indices default_fleet)" "is_ascii (fl_prefix default_fleet)" "0 \<notin> set (fl_prefix default_fleet)"
    "0 \<le> fl_start default_fleet" by code_simp+
  then have "distinct (map (\<lambda>cmd. cstr (pad (cmd ! 2) 12)) (fleet_cmds default_fleet))"
    using fleet_ids_distinct [of default_fleet] by (simp add: list_all_iff)
  ultimately show ?thesis by blast
qed

section \<open>The life of a fleet\<close>

lemma start_fleet_result:
  assumes "start_fleet os cs m = Some (Inr hs, n)"
  shows "n = m\<lparr>mc_procs := mc_procs m @ map (\<lambda>c. \<lparr>pr_cmd = c, pr_env = None, pr_cwd = None, pr_rc = None\<rparr>) cs\<rparr>
    \<and> hs = [length (mc_procs m)..<length (mc_procs m) + length cs]"
  using assms
proof (induction cs arbitrary: m hs)
  case (Cons c cs)
  let ?m = "m\<lparr>mc_procs := mc_procs m @ [\<lparr>pr_cmd = c, pr_env = None, pr_cwd = None, pr_rc = None\<rparr>]\<rparr>"
  obtain ks where k: "start_fleet os cs ?m = Some (Inr ks, n)" "hs = length (mc_procs m) # ks"
    using Cons.prems by (auto simp: popen_def run_simps split: option.splits sum.splits)
  have "[length (mc_procs m)..<length (mc_procs m) + length (c # cs)] = length (mc_procs m) # [Suc (length (mc_procs m))..<Suc (length (mc_procs m)) + length cs]"
    by (subst upt_rec) simp
  with Cons.IH [OF k(1)] k(2) show ?case by simp
qed (simp add: run_simps)

lemma returns_start [returns_intros]: "returns (start_fleet os cs)" "returns (any_running os hs)"
  by (induction cs, auto intro!: returns_intros) (induction hs, auto intro!: returns_intros)

lemma sleeps_any: "any_running os hs m = Some (v, n) \<Longrightarrow> mc_sleeps n = mc_sleeps m"
  by (induction hs arbitrary: m)
    (auto simp: run_simps poll_proc_def Let_def split: option.splits sum.splits if_splits)

lemma returns_wait:
  assumes "\<forall>k. \<exists>j\<ge>k. os_interrupt os j"
  shows "returns (fleet_wait os hs)"
proof -
  let ?round = "bind_run (any_running os hs) (\<lambda>b. if b then seq_run (doze os) (give None) else give (Some ()))"
  have r: "returns ?round" by (intro returns_intros)
  have c: "\<not> os_interrupt os (mc_sleeps s) \<and> mc_sleeps t = mc_sleeps s + 1" if "?round s = Some (Inr None, t)" for s t
    using that sleeps_any [of os hs s] by (auto simp: doze_def run_simps split: option.splits sum.splits if_splits)
  show ?thesis unfolding fleet_wait_def by (rule repeat_until_interrupt [OF r, of "os_interrupt os" mc_sleeps]) (use c assms in auto)
qed

text \<open>
  C39. A fleet is stopped as a whole: when the clock passes the time limit and the operator interrupts in the end, \<open>main\<close> comes to an end, and when it
  gives the exit code 0 it has started exactly the agents of the command line, in order, and each of them has been seen to have ended
  or has got SIGKILL.
\<close>

theorem fleet_stops:
  assumes "fleet_check agent_exists a = None" "passes (os_clock os) (Fin 5)" "\<forall>k. \<exists>j\<ge>k. os_interrupt os j"
  shows "\<exists>v n. fleet_main os agent_exists a m = Some (v, n)
    \<and> (v = Inr 0 \<longrightarrow> launches n = launches m @ map (\<lambda>c. (c, None)) (fleet_cmds a)
        \<and> (\<forall>h. length (mc_procs m) \<le> h \<and> h < length (mc_procs n) \<longrightarrow> stopped h n))"
proof -
  have "returns (fleet_main os agent_exists a)" unfolding fleet_main_def assms(1) option.case
    by (intro returns_intros returns_wait passing_kill.returns_stop assms)
  from returnsD [OF this] obtain v n where v: "fleet_main os agent_exists a m = Some (v, n)" by blast
  have "launches n = launches m @ map (\<lambda>c. (c, None)) (fleet_cmds a)
        \<and> (\<forall>h. length (mc_procs m) \<le> h \<and> h < length (mc_procs n) \<longrightarrow> stopped h n)" if code: "v = Inr 0"
  proof -
    let ?wait = "\<lambda>hs. try_run (\<lambda>e. e = KeyboardInterrupt) (fleet_wait os hs) (\<lambda>_. give ())"
    obtain hs m1 q m2 w where s: "start_fleet os (fleet_cmds a) m = Some (Inr hs, m1)" "?wait hs m1 = Some (q, m2)"
      "stop_procs os (kill_or_pass os) hs hs m2 = Some (Inr w, n)"
      using v code unfolding fleet_main_def assms(1) option.case
      by (auto simp: bind_run_app seq_run_app finally_run_app give_def split: option.splits sum.splits)
    note m1 = start_fleet_result [OF s(1)]
    have any: "moves later (any_running os hs)" "moves (\<lambda>m n. launches n = launches m) (any_running os hs)" for hs
      by (induction hs) (auto intro!: lt.mv_intros ln.mv_intros later_machine launches_machine)
    have w: "moves later (?wait hs)" "moves (\<lambda>m n. launches n = launches m) (?wait hs)"
      unfolding fleet_wait_def by (intro lt.mv_intros ln.mv_intros later_machine launches_machine any)+
    note m2 = movesD [OF w(1) s(2)] movesD [OF w(2) s(2)]
    have n: "launches n = launches m2" by (rule movesD [OF launches_stop [OF launches_kill(2)] s(3)])
    have l: "launches n = launches m @ map (\<lambda>c. (c, None)) (fleet_cmds a)" using n m2(2) m1 by (simp add: launches_def o_def)
    have "\<forall>h\<in>set hs. started h m2" using m1 m2(1) by (auto simp: started_def later_def)
    from yieldsD [OF passing_kill.stop_stops this s(3)] have "\<forall>h\<in>set hs. stopped h n" .
    moreover have "length (mc_procs n) = length (mc_procs m) + length (fleet_cmds a)" using arg_cong [OF l, of length] by (simp add: launches_def)
    ultimately show ?thesis using l m1 by auto
  qed
  with v show ?thesis by blast
qed

text \<open>C39 at the default arguments, with processes that ignore SIGTERM and an interrupt at the third wait and after every further twenty.\<close>

definition sample_fleet_os :: os where
  "sample_fleet_os = \<lparr>os_clock = sample_clock, os_exit = (\<lambda>_ h. if h = 1 then Some 0 else None), os_signal = (\<lambda>_. Delivered),
     os_interrupt = (\<lambda>n. n mod 20 = 2), os_start = (\<lambda>_. None)\<rparr>"

definition no_processes :: "pystr list machine" where
  "no_processes = \<lparr>mc_times = 0, mc_polls = 0, mc_sleeps = 0, mc_procs = [], mc_signals = []\<rparr>"

lemma sample_fleet_runs: "(case fleet_main sample_fleet_os True default_fleet no_processes of Some (Inr c, n) \<Rightarrow> c = 0 \<and> length (mc_procs n) = 8 | _ \<Rightarrow> False)"
  by code_simp

theorem fleet_stops_witness:
  "\<exists>n. fleet_main sample_fleet_os True default_fleet no_processes = Some (Inr 0, n) \<and> length (mc_procs n) = 8 \<and> stopped 0 n \<and> stopped 7 n"
proof -
  have "fleet_check True default_fleet = None" by code_simp
  moreover have "passes (os_clock sample_fleet_os) (Fin 5)" unfolding sample_fleet_os_def os.simps by (rule passes_sample)
  moreover have "(20 * k + 2) mod 20 = (2 :: nat)" for k by presburger
  then have "os_interrupt sample_fleet_os (20 * k + 2)" for k by (simp add: sample_fleet_os_def del: mod_Suc_eq)
  then have "\<forall>k. \<exists>j\<ge>k. os_interrupt sample_fleet_os j" by (intro allI, rule_tac x = "20 * k + 2" in exI) simp
  ultimately obtain v n where v: "fleet_main sample_fleet_os True default_fleet no_processes = Some (v, n)"
    "v = Inr 0 \<Longrightarrow> \<forall>h. length (mc_procs no_processes) \<le> h \<and> h < length (mc_procs n) \<longrightarrow> stopped h n"
    using fleet_stops [of True default_fleet sample_fleet_os no_processes] by blast
  with ranD [OF sample_fleet_runs] have "v = Inr 0" "length (mc_procs n) = 8" by auto
  with v show ?thesis by (simp add: no_processes_def)
qed

end
