(* ===== verification/Bench.thy ===== *)
theory Bench
  imports Sil_Run_Laws Fleet
begin

text \<open>
  \<open>sim/bench.py\<close>, the load benchmark, which drives a backend and agents through the class \<open>Runner\<close>: its scenario,
  the agents of a level, the rows of its tables, and the life of the processes. What the server, the proxy and \<open>ps\<close> report
  is an argument; printing is left out.
\<close>

section \<open>Devices and statistics\<close>

definition bench_device :: "pystr \<Rightarrow> bool \<Rightarrow> int \<Rightarrow> nat \<Rightarrow> json" where
  "bench_device tag via hz i = JObj
     [(lit ''id'', JStr (tag @ 45 # zero_padded 3 (int i + 1))), (lit ''hz'', JInt hz), (lit ''seed'', JInt (500 + int i)),
      (lit ''profile'', JStr ([lit ''city'', lit ''highway'', lit ''idle''] ! (i mod 3))),
      (lit ''via_proxy'', JBool via), (lit ''log_level'', JStr (lit ''warn''))]"

definition LEVELS :: "(int \<times> int) list" where
  "LEVELS = [(6, 10), (20, 50), (40, 100), (50, 200), (50, 400)]"

text \<open>\<open>throughput\<close>: the levels it measures, up to the first whose mean loss is above 5 percent.\<close>

fun throughput_levels :: "(int \<times> int \<Rightarrow> pyfloat) \<Rightarrow> (int \<times> int) list \<Rightarrow> (int \<times> int) list" where
  "throughput_levels loss [] = []"
| "throughput_levels loss (l # ls) = l # (if fless (Fin 5) (loss l) then [] else throughput_levels loss ls)"

text \<open>\<open>pct\<close> on values that are not \<open>nan\<close>; an empty list raises.\<close>

definition pct :: "pyfloat list \<Rightarrow> pyfloat \<Rightarrow> pyfloat res" where
  "pct xs p =
     (let ys = sort_key (\<lambda>x. (if ffinite x then 1 else if fsign x then 0 else 2 :: nat, fval x)) xs; n = int (length ys) in
      rbind (fdiv p (Fin 100)) (\<lambda>q.
      rbind (float_of_int (n - 1)) (\<lambda>m.
      case fmul q m of
        Fin r \<Rightarrow> (let i = min (n - 1) (rhe r) in if n = 0 \<or> i < - n then Inl IndexError
                 else Inr (if i < 0 then ys ! nat (n + i) else ys ! nat i))
      | NegZero \<Rightarrow> (if n = 0 then Inl IndexError else Inr (ys ! 0))
      | Infty s \<Rightarrow> Inl OverflowError
      | NaN \<Rightarrow> Inl ValueError)))"

text \<open>\<open>cpu_seconds\<close> of what \<open>ps -o time=\<close> prints: the sum starts with the integer 0, and \<open>60 ** i\<close> is an integer.\<close>

definition cpu_seconds :: "pystr \<Rightarrow> pyfloat res" where
  "cpu_seconds text =
     (let out = py_strip text in
      rbind (if out = [] then Inr [Fin 0] else rmap py_float_of_str (py_split 58 (map (\<lambda>c. if c = 45 then 58 else c) out))) (\<lambda>parts.
      Inr (foldl (\<lambda>acc (i, v). fadd acc (fmul v (rnd64 (of_int (60 ^ i))))) (Fin 0) (enumerate 0 (rev parts)))))"

text \<open>\<open>statistics.mean\<close> of finite floats is the exact mean, rounded once; \<open>max\<close> and \<open>min\<close> keep the first of equal values.\<close>

definition mean_of :: "pyfloat list \<Rightarrow> pyfloat res" where
  "mean_of xs = (if xs = [] then Inl ValueError else Inr (rnd64 (sum_list (map fval xs) / of_nat (length xs))))"

definition max_of :: "pyfloat list \<Rightarrow> pyfloat res" where
  "max_of xs = (case xs of [] \<Rightarrow> Inl ValueError | y # ys \<Rightarrow> Inr (foldl fmax y ys))"

definition min_of :: "pyfloat list \<Rightarrow> pyfloat res" where
  "min_of xs = (case xs of [] \<Rightarrow> Inl ValueError | y # ys \<Rightarrow> Inr (foldl (\<lambda>a b. if fless b a then b else a) y ys))"

section \<open>Rows\<close>

text \<open>What is read at the two ends of a measurement of \<open>throughput\<close>: the frames counted, the CPU time, and in the end the losses of the devices.\<close>

record level_reading =
  lr_frames_a :: int
  lr_cpu_a :: pyfloat
  lr_frames_b :: int
  lr_cpu_b :: pyfloat
  lr_losses :: "pyfloat list"

record level_row =
  lw_agents :: int
  lw_hz :: int
  lw_offered :: int
  lw_ingested :: pyfloat
  lw_loss :: pyfloat
  lw_worst :: pyfloat
  lw_cpu :: pyfloat

definition level_row_of :: "int \<times> int \<Rightarrow> level_reading \<Rightarrow> pyfloat \<Rightarrow> pyfloat \<Rightarrow> level_row res" where
  "level_row_of l q t_a t_b =
     (case l of (n, hz) \<Rightarrow>
      rbind (mean_of (lr_losses q)) (\<lambda>loss.
      rbind (float_of_int (lr_frames_b q - lr_frames_a q)) (\<lambda>frames.
      rbind (fdiv frames (fsub t_b t_a)) (\<lambda>ingested.
      rbind (max_of (lr_losses q)) (\<lambda>worst.
      rbind (fdiv (fmul (Fin 100) (fsub (lr_cpu_b q) (lr_cpu_a q))) (fsub t_b t_a)) (\<lambda>cpu.
      Inr \<lparr>lw_agents = n, lw_hz = hz, lw_offered = n * hz, lw_ingested = ingested, lw_loss = loss, lw_worst = worst, lw_cpu = cpu\<rparr>))))))"

text \<open>A row of \<open>loss\<close>: the rate set, the counters of the proxy before and after, and the losses the backend shows in between.\<close>

record loss_reading =
  ls_received_a :: int
  ls_dropped_a :: int
  ls_received_b :: int
  ls_dropped_b :: int
  ls_samples :: "pyfloat list"

record loss_row =
  lo_injected :: pyfloat
  lo_proxy :: pyfloat
  lo_measured :: pyfloat
  lo_spread :: pyfloat

definition loss_row_of :: "pyfloat \<Rightarrow> loss_reading \<Rightarrow> loss_row res" where
  "loss_row_of rate q =
     (let rx = ls_received_b q - ls_received_a q; dropped = ls_dropped_b q - ls_dropped_a q in
      rbind (if rx = 0 then Inr (Fin 0)
             else (case rnd64 (of_int (100 * dropped) / of_int rx) of Infty _ \<Rightarrow> Inl OverflowError | x \<Rightarrow> Inr x)) (\<lambda>proxy.
      rbind (mean_of (ls_samples q)) (\<lambda>mean.
      rbind (max_of (ls_samples q)) (\<lambda>top.
      rbind (min_of (ls_samples q)) (\<lambda>bottom.
      Inr \<lparr>lo_injected = fmul (Fin 100) rate, lo_proxy = proxy, lo_measured = mean, lo_spread = fsub top bottom\<rparr>)))))"

definition DROPS :: "pyfloat list" where
  "DROPS = [Fin 0, rnd64 (5 / 100), rnd64 (1 / 10), rnd64 (2 / 10), rnd64 (3 / 10), rnd64 (5 / 10)]"

section \<open>The class \<open>Bench\<close>\<close>

text \<open>The scenario and the arguments for the runner; those of the runner's \<open>main\<close> that \<open>Bench\<close> does not set play no part.\<close>

definition bench_scenario :: "int \<Rightarrow> json" where
  "bench_scenario base = JObj
     [(lit ''name'', JStr (lit ''bench'')), (lit ''duration_s'', JInt 3600), (lit ''devices'', JList []),
      (lit ''backend'', JObj [(lit ''http'', JStr (lit ''http://127.0.0.1:'' @ py_str_int base)), (lit ''udp_port'', JInt (base + 1)), (lit ''tcp_port'', JInt (base + 2))]),
      (lit ''proxy'', JObj [(lit ''listen'', JInt (base + 5)), (lit ''control_port'', JInt (base + 6)), (lit ''drop'', JFloat (Fin 0))])]"

definition bench_args :: "pystr \<Rightarrow> int \<Rightarrow> sil_args" where
  "bench_args agent base = \<lparr>ar_backend = None, ar_start_backend = True, ar_backend_timeout = Fin 30, ar_grace = Fin 5, ar_agent = agent,
     ar_via_proxy = [], ar_proxy_port = base + 5, ar_hold = True, ar_fail_fast = False\<rparr>"

text \<open>\<open>Bench(args)\<close>: the first free triple of ports, and the backend.\<close>

definition bench_init :: "sil_os \<Rightarrow> (int \<Rightarrow> bool res) \<Rightarrow> pystr \<Rightarrow> (runner, sil_args) run" where
  "bench_init os free agent =
     bind_run (result (first_free free (map (\<lambda>i. 8890 + 10 * int i) [0..<10]))) (\<lambda>found.
     case found of
       None \<Rightarrow> abort StopIteration
     | Some base \<Rightarrow>
         seq_run (alter (\<lambda>r. r\<lparr>rn_sc := bench_scenario base, rn_children := []\<rparr>))
         (seq_run (start_backend os (bench_args agent base)) (give (bench_args agent base))))"

text \<open>\<open>agents\<close>: the processes started; and \<open>stop\<close>, where a process that does not end within five seconds raises.\<close>

fun bench_agents_from :: "sil_os \<Rightarrow> sil_args \<Rightarrow> pystr \<Rightarrow> bool \<Rightarrow> int \<Rightarrow> nat list \<Rightarrow> (runner, nat list) run" where
  "bench_agents_from os args tag via hz [] = give []"
| "bench_agents_from os args tag via hz (i # is) =
     seq_run (start_agent os args (bench_device tag via hz i))
     (bind_run (look (\<lambda>r. ch_proc (last (rn_children r)))) (\<lambda>h.
      bind_run (bench_agents_from os args tag via hz is) (\<lambda>hs. give (h # hs))))"

definition bench_agents :: "sil_os \<Rightarrow> sil_args \<Rightarrow> int \<Rightarrow> int \<Rightarrow> pystr \<Rightarrow> bool \<Rightarrow> (runner, nat list) run" where
  "bench_agents os args n hz tag via = bench_agents_from os args tag via hz [0..<nat n]"

definition wait_proc :: "sil_os \<Rightarrow> nat \<Rightarrow> (runner, unit) run" where
  "wait_proc os h = bind_run (poll_proc os h) (\<lambda>rc. if rc = None then abort TimeoutExpired else give ())"

definition bench_stop :: "sil_os \<Rightarrow> nat list \<Rightarrow> (runner, unit) run" where
  "bench_stop os hs =
     seq_run (for_run (send_direct os SigTerm) hs)
     (for_run (\<lambda>h. seq_run (wait_proc os h) (alter (\<lambda>r. r\<lparr>rn_children := filter (\<lambda>c. ch_proc c \<noteq> h) (rn_children r)\<rparr>))) hs)"

text \<open>\<open>throughput\<close>: one row for each level, until the mean loss of one is above 5 percent.\<close>

fun throughput :: "sil_os \<Rightarrow> sil_args \<Rightarrow> (int \<times> int \<Rightarrow> level_reading) \<Rightarrow> (int \<times> int) list \<Rightarrow> (runner, level_row list) run" where
  "throughput os args read [] = give []"
| "throughput os args read ((n, hz) # ls) =
     bind_run (bench_agents os args n hz (84 # py_str_int hz) False) (\<lambda>hs.
     seq_run (doze os)
     (bind_run (time_now os) (\<lambda>t_a.
      seq_run (doze os)
      (bind_run (time_now os) (\<lambda>t_b.
       bind_run (result (level_row_of (n, hz) (read (n, hz)) t_a t_b)) (\<lambda>row.
       seq_run (bench_stop os hs)
       (seq_run (doze os)
        (if fless (Fin 5) (lw_loss row) then give [row]
         else bind_run (throughput os args read ls) (\<lambda>rows. give (row # rows))))))))))"

text \<open>
  \<open>latency\<close>: the loop that waits up to three seconds for the alert of a fault; \<open>found\<close> is the time the \<open>n\<close>-th answer of the server
  gives for it, if it has it.
\<close>

definition await_alert :: "sil_os \<Rightarrow> (nat \<Rightarrow> pyfloat option) \<Rightarrow> pyfloat \<Rightarrow> (runner, pyfloat option) run" where
  "await_alert os found t0 = repeat_run (
     bind_run (time_now os) (\<lambda>t.
     if \<not> fless t (fadd t0 (Fin 3)) then give (Some None)
     else bind_run (step_run (\<lambda>r. (found (rn_asked r), r\<lparr>rn_asked := rn_asked r + 1\<rparr>))) (\<lambda>hit.
       case hit of
         Some opened \<Rightarrow> give (Some (Some (fmul (fsub opened t0) (Fin 1000))))
       | None \<Rightarrow> seq_run (doze os) (give None))))"

text \<open>
  The rest of \<open>latency\<close>: what is read of the server is \<open>transit\<close>, the delay it shows for a device in a round, \<open>refused\<close>, the
  exception a request to inject a fault ends in if it does, and \<open>found\<close>. The result are the delays, those of the alerts that came in
  time, and how many faults were tried.
\<close>

definition FLAGS :: "pystr list" where
  "FLAGS = map fst FAULT_NAMES"

fun flag_delays :: "sil_os \<Rightarrow> (pystr \<times> pystr \<Rightarrow> raised option) \<Rightarrow> (pystr \<times> pystr \<Rightarrow> nat \<Rightarrow> pyfloat option) \<Rightarrow> pystr \<Rightarrow> pystr list \<Rightarrow> (runner, pyfloat list) run" where
  "flag_delays os refused found flag [] = give []"
| "flag_delays os refused found flag (d # ds) =
     bind_run (time_now os) (\<lambda>t0.
     seq_run (case refused (flag, d) of Some e \<Rightarrow> abort e | None \<Rightarrow> give ())
     (bind_run (await_alert os (found (flag, d)) t0) (\<lambda>hit.
      bind_run (flag_delays os refused found flag ds) (\<lambda>xs.
      give (case hit of Some x \<Rightarrow> x # xs | None \<Rightarrow> xs)))))"

fun fault_delays :: "sil_os \<Rightarrow> (pystr \<times> pystr \<Rightarrow> raised option) \<Rightarrow> (pystr \<times> pystr \<Rightarrow> nat \<Rightarrow> pyfloat option) \<Rightarrow> pystr list \<Rightarrow> pystr list \<Rightarrow> (runner, pyfloat list) run" where
  "fault_delays os refused found ids [] = give []"
| "fault_delays os refused found ids (f # fs) =
     bind_run (flag_delays os refused found f ids) (\<lambda>xs.
     seq_run (doze os)
     (bind_run (fault_delays os refused found ids fs) (\<lambda>ys. give (xs @ ys))))"

definition latency :: "sil_os \<Rightarrow> sil_args \<Rightarrow> (nat \<Rightarrow> pystr \<Rightarrow> pyfloat option) \<Rightarrow> (pystr \<times> pystr \<Rightarrow> raised option)
    \<Rightarrow> (pystr \<times> pystr \<Rightarrow> nat \<Rightarrow> pyfloat option) \<Rightarrow> (runner, pyfloat list \<times> pyfloat list \<times> nat) run" where
  "latency os args transit refused found =
     bind_run (bench_agents os args 3 10 (lit ''L'') False) (\<lambda>hs.
     seq_run (doze os)
     (let ids = map (\<lambda>i. lit ''L-'' @ zero_padded 3 (int i + 1)) [0..<3] in
      seq_run (for_run (\<lambda>_. doze os) [0..<100])
      (bind_run (fault_delays os refused found ids FLAGS) (\<lambda>fault.
       seq_run (bench_stop os hs)
       (give (concat (map (\<lambda>i. List.map_filter (transit i) ids) [0..<100]), fault, length FLAGS * length ids))))))"

text \<open>The numbers \<open>main\<close> prints of a list of delays: \<open>statistics.median\<close>, the 95th percentile and the maximum; an empty list raises.\<close>

definition median_of :: "pyfloat list \<Rightarrow> pyfloat res" where
  "median_of xs =
     (let ys = sort_key (\<lambda>x. (if ffinite x then 1 else if fsign x then 0 else 2 :: nat, fval x)) xs; n = length ys in
      if n = 0 then Inl ValueError
      else if n mod 2 = 1 then Inr (ys ! (n div 2))
      else fdiv (fadd (ys ! (n div 2 - 1)) (ys ! (n div 2))) (Fin 2))"

definition delay_row :: "pyfloat list \<Rightarrow> (pyfloat \<times> pyfloat \<times> pyfloat) res" where
  "delay_row xs = rbind (median_of xs) (\<lambda>m. rbind (pct xs (Fin 95)) (\<lambda>p. rbind (max_of xs) (\<lambda>top. Inr (m, p, top))))"

text \<open>\<open>loss\<close>: the rows for the drop rates, with one device behind the proxy; the wait for a rate is computed and may raise.\<close>

definition settle_time :: "int \<Rightarrow> pyfloat \<Rightarrow> pyfloat res" where
  "settle_time hz rate =
     rbind (float_of_int hz) (\<lambda>h. rbind (fdiv (Fin 200) (fmul h (fsub (Fin 1) rate))) (\<lambda>x. Inr (fadd x (Fin 3))))"

fun loss_rows :: "sil_os \<Rightarrow> int \<Rightarrow> (pyfloat \<Rightarrow> loss_reading) \<Rightarrow> pyfloat list \<Rightarrow> (runner, loss_row list) run" where
  "loss_rows os hz read [] = give []"
| "loss_rows os hz read (rate # rates) =
     bind_run (result (settle_time hz rate)) (\<lambda>d.
     seq_run (pause os d)
     (seq_run (for_run (\<lambda>_. doze os) [0..<20])
     (bind_run (result (loss_row_of rate (read rate))) (\<lambda>row.
      bind_run (loss_rows os hz read rates) (\<lambda>rows. give (row # rows))))))"

definition bench_loss :: "sil_os \<Rightarrow> sil_args \<Rightarrow> int \<Rightarrow> (pyfloat \<Rightarrow> loss_reading) \<Rightarrow> (runner, loss_row list) run" where
  "bench_loss os args hz read =
     seq_run (alter (\<lambda>r. r\<lparr>rn_sc := set_key (rn_sc r) ''devices'' (JList [JObj [(lit ''id'', JStr (lit ''P-001'')), (lit ''via_proxy'', JBool True)]])\<rparr>))
     (seq_run (bind_run (start_proxy os args) (\<lambda>_. give ()))
     (bind_run (bench_agents os args 1 hz (lit ''P'') True) (\<lambda>hs.
      seq_run (doze os)
      (bind_run (loss_rows os hz read DROPS) (\<lambda>rows.
       seq_run (bench_stop os hs) (give rows))))))"

text \<open>
  \<open>main\<close>: the part of the work that is asked for, with all that is read on the way in a record. \<open>Bench(args)\<close> stands before the
  \<open>try\<close>, and \<open>close\<close> stops what is left.
\<close>

record readings =
  rd_level :: "int \<times> int \<Rightarrow> level_reading"
  rd_transit :: "nat \<Rightarrow> pystr \<Rightarrow> pyfloat option"
  rd_refused :: "pystr \<times> pystr \<Rightarrow> raised option"
  rd_opened :: "pystr \<times> pystr \<Rightarrow> nat \<Rightarrow> pyfloat option"
  rd_loss :: "pyfloat \<Rightarrow> loss_reading"

definition bench_work :: "sil_os \<Rightarrow> readings \<Rightarrow> pystr option \<Rightarrow> sil_args \<Rightarrow> (runner, unit) run" where
  "bench_work os q only args =
     (let asked = (\<lambda>part. only = None \<or> only = Some (lit part)) in
      seq_run (when_run (asked ''throughput'') (bind_run (throughput os args (rd_level q) LEVELS) (\<lambda>_. give ())))
      (seq_run (when_run (asked ''latency'') (bind_run (latency os args (rd_transit q) (rd_refused q) (rd_opened q)) (\<lambda>(one_way, fault, n).
          seq_run (result (delay_row one_way)) (bind_run (result (delay_row fault)) (\<lambda>_. give ())))))
      (when_run (asked ''loss'') (bind_run (bench_loss os args 50 (rd_loss q)) (\<lambda>_. give ())))))"

definition bench_main :: "sil_os \<Rightarrow> (int \<Rightarrow> bool res) \<Rightarrow> pystr \<Rightarrow> (sil_args \<Rightarrow> (runner, unit) run) \<Rightarrow> (runner, int) run" where
  "bench_main os free agent work =
     bind_run (bench_init os free agent) (\<lambda>args.
     seq_run (finally_run (work args) (kill_all os)) (give 0))"

section \<open>Laws\<close>

text \<open>Alerts are measured for at most the faults tried.\<close>

lemma flag_delays_length: "flag_delays os refused found f ids r = Some (Inr xs, t) \<Longrightarrow> length xs \<le> length ids"
proof (induction ids arbitrary: r xs)
  case (Cons d ds)
  then show ?case
    by (fastforce simp: bind_run_app seq_run_app give_def abort_def split: option.splits sum.splits)
qed (simp add: give_def)

lemma fault_delays_length: "fault_delays os refused found ids fs r = Some (Inr xs, t) \<Longrightarrow> length xs \<le> length fs * length ids"
proof (induction fs arbitrary: r xs t)
  case (Cons f fs)
  then obtain ys zs r' q1 q2 where "flag_delays os refused found f ids r = Some (Inr ys, r')"
    "fault_delays os refused found ids fs q1 = Some (Inr zs, q2)" "xs = ys @ zs"
    by (auto simp: bind_run_app seq_run_app give_def split: option.splits sum.splits)
  with Cons.IH [of q1 zs q2] flag_delays_length show ?case by fastforce
qed (simp add: give_def)

lemma latency_attempts:
  assumes "latency os args transit refused found r = Some (Inr (one_way, fault, n), t)"
  shows "length fault \<le> n"
  using assms by (auto simp: latency_def Let_def bind_run_app seq_run_app give_def dest!: fault_delays_length split: option.splits sum.splits)

text \<open>A day of CPU time counts as sixty hours.\<close>

lemma cpu_seconds_examples:
  "cpu_seconds (lit ''01:02:03'') = Inr (Fin 3723)" "cpu_seconds (lit ''1-00:00:00'') = Inr (Fin 216000)"
  by code_simp+

text \<open>The rows of \<open>throughput\<close> are those of the levels it measures, in order, each with the mean loss of its level.\<close>

definition loss_of :: "level_reading \<Rightarrow> pyfloat" where
  "loss_of q = (case mean_of (lr_losses q) of Inr x \<Rightarrow> x | Inl _ \<Rightarrow> NaN)"

lemma throughput_rows:
  assumes "throughput os args read ls r = Some (Inr rows, t)"
  shows "map (\<lambda>w. (lw_agents w, lw_hz w)) rows = throughput_levels (\<lambda>l. loss_of (read l)) ls
    \<and> (\<forall>w\<in>set rows. lw_offered w = lw_agents w * lw_hz w \<and> lw_loss w = loss_of (read (lw_agents w, lw_hz w)))"
  using assms
proof (induction ls arbitrary: r rows)
  case (Cons l ls)
  obtain n hz where l: "l = (n, hz)" by (cases l)
  obtain row t_a t_b r' where row: "level_row_of (n, hz) (read (n, hz)) t_a t_b = Inr row"
    and rest: "(if fless (Fin 5) (lw_loss row) then give [row]
         else bind_run (throughput os args read ls) (\<lambda>rows. give (row # rows))) r' = Some (Inr rows, t)"
    using Cons.prems unfolding l by (auto simp: bind_run_app seq_run_app result_app split: option.splits sum.splits)
  have w: "lw_agents row = n" "lw_hz row = hz" "lw_offered row = n * hz" "lw_loss row = loss_of (read (n, hz))"
    using row by (auto simp: level_row_of_def loss_of_def rbind_Inr_iff)
  show ?case
  proof (cases "fless (Fin 5) (lw_loss row)")
    case True
    with rest have "rows = [row]" by (simp add: give_def)
    with True w show ?thesis by (simp add: l)
  next
    case False
    with rest obtain more where m: "throughput os args read ls r' = Some (Inr more, t)" "rows = row # more"
      by (auto simp: bind_run_app give_def split: option.splits sum.splits)
    from Cons.IH [OF m(1)] m(2) w False show ?thesis by (simp add: l)
  qed
qed (simp add: give_def)

text \<open>
  What the benchmark has started is either stopped or among the children of its runner, at every moment, even when a part of the work
  raises in the middle.
\<close>

definition accounted :: "runner \<Rightarrow> bool" where
  "accounted r \<longleftrightarrow> all_children r \<and> (\<forall>h<length (mc_procs r). stopped h r \<or> h \<in> ch_proc ` set (rn_children r))"

interpretation ac: run_order "\<lambda>r t. accounted r \<longrightarrow> accounted t"
  by unfold_locales simp_all

lemma tracks_accounted: "moves tracks m \<Longrightarrow> moves (\<lambda>r t. accounted r \<longrightarrow> accounted t) m"
proof (erule moves_mono, intro impI)
  fix r t assume a: "tracks r t" "accounted r"
  have "stopped h t \<or> h \<in> ch_proc ` set (rn_children t)" if h: "h < length (mc_procs t)" for h
  proof (cases "h < length (mc_procs r)")
    case True
    with a(2) have "stopped h r \<or> h \<in> ch_proc ` set (rn_children r)" by (simp add: accounted_def)
    then show ?thesis using a(1) stopped_later by (auto simp: tracks_def)
  next
    case False
    with h have "h \<in> {length (mc_procs r)..<length (mc_procs t)}" by simp
    with a(1) show ?thesis unfolding tracks_def by blast
  qed
  with a show "accounted t" by (simp add: accounted_def tracks_def)
qed

lemmas calm_accounted = calm_tracks [THEN tracks_accounted]

lemma calm_direct:
  fixes os :: sil_os
  shows "moves calm (send_direct os sg h)"
proof -
  have sent: "moves calm (send_sig os sg w h)" for w
    unfolding send_sig_def by (intro cm.mv_intros) (auto simp: calm_def launches_def later_def Let_def)
  show ?thesis unfolding send_direct_def by (intro cm.mv_intros calm_machine sent)
qed

lemma accounted_wait:
  "moves (\<lambda>r t. accounted r \<longrightarrow> accounted t) (seq_run (wait_proc os h) (alter (\<lambda>r. r\<lparr>rn_children := filter (\<lambda>c. ch_proc c \<noteq> h) (rn_children r)\<rparr>)))"
  unfolding moves_def
proof (intro allI impI)
  fix r v t
  assume run: "seq_run (wait_proc os h) (alter (\<lambda>r. r\<lparr>rn_children := filter (\<lambda>c. ch_proc c \<noteq> h) (rn_children r)\<rparr>)) r = Some (v, t)"
    and acc: "accounted r"
  then obtain rc s where s: "poll_proc os h r = Some (Inr rc, s)"
    and t: "t = (if rc = None then s else s\<lparr>rn_children := filter (\<lambda>c. ch_proc c \<noteq> h) (rn_children s)\<rparr>)"
    by (auto simp: wait_proc_def run_simps poll_proc_def split: option.splits sum.splits if_splits)
  have "accounted s" using movesD [OF calm_accounted [OF calm_machine(4)] s] acc by simp
  moreover have st: "rc \<noteq> None \<longrightarrow> stopped h s" if "h < length (mc_procs s)"
  proof -
    have "launches s = launches r" using movesD [OF calm_machine(4) s] by (simp add: calm_def)
    then have "length (mc_procs s) = length (mc_procs r)" unfolding launches_def by (rule map_eq_imp_length_eq)
    with that have "started h r" by (simp add: started_def)
    from yieldsD [OF poll_stops this s] show ?thesis by simp
  qed
  moreover have "stopped k t \<longleftrightarrow> stopped k s" "started k t \<longleftrightarrow> started k s" for k by (auto simp: t stopped_def started_def)
  moreover have "rc \<noteq> None \<Longrightarrow> ch_proc ` set (rn_children t) = ch_proc ` set (rn_children s) - {h}" by (auto simp: t)
  moreover have "rc = None \<Longrightarrow> t = s" "mc_procs t = mc_procs s" "set (rn_children t) \<subseteq> set (rn_children s)" by (auto simp: t)
  ultimately show "accounted t"
    by (cases "rc = None") (auto simp: accounted_def all_children_def)
qed

named_theorems bench_intros \<open>code of the benchmark keeps its processes accounted for\<close>

lemmas bench_calm [bench_intros] = calm_intros [THEN calm_accounted]

lemma accounted_agents [bench_intros]: "moves (\<lambda>r t. accounted r \<longrightarrow> accounted t) (bench_agents os args n hz tag via)"
proof -
  have one: "moves (\<lambda>r t. accounted r \<longrightarrow> accounted t) (start_agent os args d)" for d
    unfolding start_agent_def by (intro tracks_accounted tk.mv_intros track_intros)
  have "moves (\<lambda>r t. accounted r \<longrightarrow> accounted t) (bench_agents_from os args tag via hz is)" for "is"
    by (induction "is") (auto intro!: ac.mv_intros one)
  then show ?thesis by (simp add: bench_agents_def)
qed

lemma accounted_stop [bench_intros]: "moves (\<lambda>r t. accounted r \<longrightarrow> accounted t) (bench_stop os hs)"
  unfolding bench_stop_def by (intro ac.mv_intros accounted_wait calm_accounted calm_direct)

lemma accounted_throughput [bench_intros]: "moves (\<lambda>r t. accounted r \<longrightarrow> accounted t) (throughput os args read ls)"
proof (induction ls)
  case (Cons l ls)
  show ?case by (cases l) (auto intro!: ac.mv_intros bench_intros Cons)
qed (simp add: ac.mv_simple)

lemma accounted_latency [bench_intros]: "moves (\<lambda>r t. accounted r \<longrightarrow> accounted t) (latency os args transit refused found)"
proof -
  have alert: "moves calm (await_alert os found t0)" for found t0
    unfolding await_alert_def by (intro cm.mv_intros calm_intros) (simp add: calm_def launches_def later_def)
  have flag: "moves (\<lambda>r t. accounted r \<longrightarrow> accounted t) (flag_delays os refused found f ids)" for f ids
    by (induction ids) (auto intro!: ac.mv_intros bench_intros calm_accounted [OF alert])
  have "moves (\<lambda>r t. accounted r \<longrightarrow> accounted t) (fault_delays os refused found ids fs)" for ids fs
    by (induction fs) (auto intro!: ac.mv_intros bench_intros flag)
  then show ?thesis unfolding latency_def Let_def by (intro ac.mv_intros bench_intros)
qed

lemma accounted_loss [bench_intros]: "moves (\<lambda>r t. accounted r \<longrightarrow> accounted t) (bench_loss os args hz read)"
proof -
  have "moves (\<lambda>r t. accounted r \<longrightarrow> accounted t) (loss_rows os hz read rates)" for rates
    by (induction rates) (auto intro!: ac.mv_intros bench_intros)
  moreover have "moves (\<lambda>r t. accounted r \<longrightarrow> accounted t) (start_proxy os args)" by (rule tracks_accounted) (rule track_intros)
  ultimately show ?thesis unfolding bench_loss_def
    by (intro ac.mv_intros bench_intros) (simp_all add: accounted_def all_children_def started_def stopped_def)
qed

lemma accounted_work: "moves (\<lambda>r t. accounted r \<longrightarrow> accounted t) (bench_work os q only args)"
  unfolding bench_work_def Let_def by (intro ac.mv_intros bench_intros) (auto intro!: ac.mv_intros)

lemma accounted_init:
  assumes "bench_init os free agent r = Some (Inr args, t)" "mc_procs r = []"
  shows "accounted t"
proof -
  obtain base where b: "start_backend os (bench_args agent base) (r\<lparr>rn_sc := bench_scenario base, rn_children := []\<rparr>) = Some (Inr (), t)"
    using assms(1) by (auto simp: bench_init_def run_simps split: option.splits sum.splits)
  have "moves (\<lambda>r t. accounted r \<longrightarrow> accounted t) (start_backend os (bench_args agent base))" by (rule tracks_accounted) (rule track_intros)
  from movesD [OF this b] assms(2) show ?thesis by (simp add: accounted_def all_children_def)
qed

text \<open>When the benchmark ends with an exit code, every process it has started is stopped.\<close>

lemma bench_stops_all:
  assumes "bench_main os free agent (bench_work os q only) r = Some (Inr code, t)" "mc_procs r = []"
  shows "rn_children t = [] \<and> (\<forall>h<length (mc_procs t). stopped h t)"
proof -
  obtain args s u w where s: "bench_init os free agent r = Some (Inr args, s)" "bench_work os q only args s = Some (w, u)"
    "kill_all os u = Some (Inr (), t)"
    using assms(1) by (auto simp: bench_main_def run_simps split: option.splits sum.splits)
  have u: "accounted u" using movesD [OF accounted_work s(2)] accounted_init [OF s(1) assms(2)] by simp
  then have k: "rn_children t = []" "\<forall>c\<in>set (rn_children u). stopped (ch_proc c) t"
    using kill_all_stops [OF s(3)] by (simp_all add: accounted_def)
  have "moves later (kill_all os)"
    unfolding kill_all_def by (intro lt.mv_intros group_kill.later_stop) (simp add: later_def)
  from movesD [OF this s(3)] have "later u t" .
  have "length (mc_procs t) = length (mc_procs u)"
    using arg_cong [OF movesD [OF launches_kill_all s(3)], of length] by (simp add: launches_def)
  then show ?thesis using k u stopped_later [OF _ \<open>later u t\<close>] by (auto simp: accounted_def)
qed

text \<open>
  The benchmark may leave its backend running: it is started before the \<open>try\<close> that would stop it. An example is a backend that does not
  answer in time and does not end: \<open>main\<close> raises, and its process has got no signal.
\<close>

definition silent_os :: sil_os where
  "silent_os = \<lparr>os_clock = sample_clock, os_exit = (\<lambda>_ _. None), os_signal = (\<lambda>_. Delivered), os_interrupt = (\<lambda>_. False),
     os_start = (\<lambda>_. None), os_get = (\<lambda>_. None), os_accept = (\<lambda>_. True),
     os_answers = (\<lambda>_. \<lparr>an_device = None, an_alerts = None, an_open = None, an_diagnosis = None\<rparr>),
     os_exists = (\<lambda>_. True), os_unlink = (\<lambda>_. None), os_environ = [], os_root = lit ''/ecu'', os_executable = lit ''python3'',
     os_url_port = (\<lambda>_. Inr None)\<rparr>"

lemma bench_leaves_backend:
  "(case bench_main silent_os (\<lambda>_. Inr True) (lit ''ecu_agent'') (\<lambda>_. give ()) (sample_runner JNull) of
      Some (Inl e, t) \<Rightarrow> e = Raised RuntimeError \<and> length (mc_procs t) = 1 \<and> \<not> stopped 0 t \<and> mc_signals t = []
    | _ \<Rightarrow> False)"
proof -
  have "(case bench_main silent_os (\<lambda>_. Inr True) (lit ''ecu_agent'') (\<lambda>_. give ()) (sample_runner JNull) of
      Some (Inl e, t) \<Rightarrow> e = Raised RuntimeError \<and> length (mc_procs t) = 1 \<and> pr_rc (mc_procs t ! 0) = None \<and> mc_signals t = []
    | _ \<Rightarrow> False)" by code_simp
  then show ?thesis by (auto simp: stopped_def split: option.splits sum.splits)
qed

end
