(* ===== verification/Spec2Isabelle.thy ===== *)
theory Spec2Isabelle
  imports Telemetry_Path Telemetry_Store Deployments Api_Bodies Default_Rules Proxy_Main Sil_Main Bench
begin

text \<open>
  Verification of the ECU telemetry system: the Python backend (\<open>backend/app\<close>) and the Python programs of its
  software-in-the-loop environment (\<open>sim\<close>).

  \<^bold>\<open>The program.\<close> Devices send telemetry as UDP datagrams and keep one TCP connection for everything else. The server
  decodes the frames (\<open>protocol.py\<close>), counts them and keeps presence (\<open>ingest.py\<close>), stores samples (\<open>db.py\<close>), evaluates rules
  on them (\<open>anomaly.py\<close>), publishes events to browsers (\<open>bus.py\<close>), answers HTTP requests (\<open>api.py\<close>), and
  explains the state of a device (\<open>diagnostics.py\<close>). \<open>main.py\<close> builds and shuts down these parts. In \<open>sim\<close>, a proxy
  spoils the UDP traffic (\<open>lossy_proxy.py\<close>), a runner plays scenarios against a server and judges it
  (\<open>run_sil.py\<close>), and two programs start fleets of devices and measure the server (\<open>fleet.py\<close>, \<open>bench.py\<close>).

  \<^bold>\<open>Style of the model.\<close> Pure Python functions are HOL functions; one that may raise returns \<open>'a res\<close>, an exception on the left or a
  value on the right. Code that changes state has the type \<open>('s, 'a) pym\<close>, a function from the state to such a result and the new
  state, so that what was done before an exception remains done. The state grows by record extension: \<open>env\<close> (clock and
  database), \<open>engine\<close> (rules, bus, memory of the rule engine), \<open>server\<close> (statistics, connections, last samples). A coroutine is one
  atomic step up to the point where the code hands control back; a handler that awaits a writer is one step too, split at that
  point where what others do meanwhile matters (\<open>Deployments\<close>, the sending of the proxy, the wait at the end of the server). The
  tasks of the server that wait in a loop are modelled by one round. The tools under \<open>sim\<close> that start processes and wait for them are code of the type \<open>('s, 'a) run\<close>, which may also
  never return; the operating system is an argument, and the state counts what it has been asked. Python integers are \<open>int\<close>, bytes are \<open>8 word\<close>, strings are lists of code points, and floats are exact
  rationals with the special values of IEEE binary64, rounded as the hardware rounds.
\<close>

text \<open>
  \<^bold>\<open>Theories and what they model.\<close>

  \<^item> \<open>Prelude\<close>: exceptions, results, state-changing code and its combinators; the rule collections \<open>pym_simps\<close> (running code),
    \<open>keeps_intros\<close> (invariants) and the locale \<open>state_order\<close> (relations between the states before and after).
  \<^item> \<open>Py_Float\<close>, \<open>Py_Codec\<close>, \<open>Py_Text\<close>, \<open>Py_Json\<close>: what the code uses of Python: binary64 and binary32 arithmetic
    with rounding, \<open>struct\<close>, \<open>zlib.crc32\<close>, UTF-8, the methods of strings, numbers as text in both directions,
    dynamically typed values.
  \<^item> \<open>Protocol\<close>, \<open>Stream_Decoder\<close> (\<open>protocol.py\<close>): every constant, message class, \<open>pack\<close> and \<open>unpack\<close>, \<open>encode\<close>, \<open>decode\<close>,
    and the decoder of byte streams with its resynchronisation.
  \<^item> \<open>Event_Bus\<close> (\<open>bus.py\<close>): subscribers, bounded queues, the rate limit of telemetry events.
  \<^item> \<open>Device_Stats\<close>, \<open>Ingest\<close> (\<open>ingest.py\<close>): counters and loss of a device; datagrams, the TCP connection from its first to its
    last byte, dispatch of every message, commands to devices, presence, saving of statistics, the stop and its wait for the connections.
  \<^item> \<open>Database\<close>, \<open>Telemetry_Views\<close>, \<open>Times\<close> (\<open>db.py\<close>): a table is the list of its rows; every statement of SQL is an operation on
    lists; the telemetry buffer, the roll-up to minutes, retention, the views of telemetry, the maintenance task, and times as text.
    \<open>Telemetry_Store\<close>: the two critical sections of \<open>flush\<close> in several threads, with insertions that fail.
  \<^item> \<open>Anomaly\<close> (\<open>anomaly.py\<close>): rules as JSON with their merging, the four families of rules, the moving average, the life cycle of
    alerts.
  \<^item> \<open>Api\<close>, \<open>Api_Views\<close>, \<open>Api_Bodies\<close> (\<open>api.py\<close>): every handler, the stream of events, the requests to read as one function, the bodies with
    their defaults and bounds. \<open>Deployments\<close>: the steps of the whole server, a deployment in two halves.
  \<^item> \<open>Diagnostics\<close> (\<open>diagnostics.py\<close>): the context of a device, the heuristic with its texts, the entry point.
  \<^item> \<open>App\<close> (\<open>main.py\<close>): start and stop of the application.
  \<^item> \<open>Lossy_Proxy\<close>, \<open>Proxy_Http\<close>, \<open>Proxy_Main\<close> (\<open>lossy_proxy.py\<close>): the fate of a datagram, the control endpoint from the bytes of a
    request to the head of the answer, the arguments and the set-up, the relay for TCP as a step relation.
  \<^item> \<open>Run_Monad\<close>: code that waits, with its combinators and one rule for each of them in three ways of reasoning: that code comes to an
    end, how it moves the state, and what holds when it returns. \<open>Processes\<close> (\<open>kill_all\<close> of \<open>run_sil.py\<close>, \<open>shutdown\<close> of
    \<open>fleet.py\<close>): clock, processes and signals, and the way a group of processes is stopped.
  \<^item> \<open>Sil_Scenario\<close>, \<open>Sil_Checks\<close>, \<open>Sil_Runner\<close> (\<open>run_sil.py\<close>): validation, schedule, expectations, polling, actions, command lines,
    ports and the contents of the report. \<open>Sil_Run\<close>: the class \<open>Runner\<close>, from the start of the backend to the report.
    \<open>Sil_Main\<close>: \<open>main\<close> and the exit code.
  \<^item> \<open>Fleet\<close> (\<open>fleet.py\<close>): the command lines of a fleet, its start and its end. \<open>Bench\<close> (\<open>bench.py\<close>): the three measurements
    with the rows they give, and the life of the processes.
\<close>

text \<open>
  \<^bold>\<open>What the lemmas show.\<close> The theorems stand in the theory of the component they are about, or in a theory of laws
  (\<open>Alerting\<close>, \<open>Ingest_Laws\<close>, \<open>Presence\<close>, \<open>Api_Laws\<close>, \<open>Sil_Laws\<close>, \<open>Sil_Run_Laws\<close>, \<open>Default_Rules\<close>, \<open>Telemetry_Path\<close>) above it.

  \<^item> The wire: frames survive encoding and decoding (one locale, \<open>message_class\<close>, interpreted for each of the eleven messages), a changed
    byte is refused, \<open>decode\<close> raises protocol errors only, the stream decoder yields what was sent however it is cut, in bounded memory.
  \<^item> The queues: a subscriber's queue refines the unlimited stream (locale \<open>live_queue\<close>); telemetry is thinned per device.
  \<^item> The counters: every datagram is counted once under its kind, gaps of up to 10 000 frames are counted exactly, the loss is a percentage.
  \<^item> The store: buffered rows are stored once however flushes overlap, and lost only where an insertion fails; the roll-up counts each row once and is idempotent, the view of minutes has no
    minute twice, a new configuration is the newest, times can be read back.
  \<^item> The alerts: at most one open alert per device and rule, marking and resolving refine a set (locale \<open>alert_board\<close>), the
    tick closes exactly the stale ones, silent devices go offline under the default rule, and the default rules never raise.
  \<^item> The whole: a sample that arrives is among the rows a client gets for a window within its limit; a configuration a client puts is the
    frame the device decodes, up to the rounding of limits to binary32; reading changes nothing; a stop waits for the
    connections, and with them gone a restart keeps the counters; a finished firmware job is changed by nothing but the
    deployment that created it.
  \<^item> The environment: the proxy loses no datagram the operating system accepts, its settings stay in range, its control requests arrive as sent, its
    relay passes bytes on unchanged; validated scenarios are closed, up to the names of faults to clear; an expectation is polled for exactly its grace period.
  \<^item> Runs: a run comes to an end and leaves no process behind, and so does a fleet; its exit code says whether every expectation held;
    server, agents and proxy are told addresses that fit together. What the benchmark has started is stopped when it returns.

  A relation between states that many operations respect is treated once: \<open>state_order\<close> and, for code that waits, \<open>run_order\<close>
  have a rule for each combinator; the two ways to kill a process group are instances of the locale \<open>killer\<close>; \<open>eval_order\<close>, \<open>engine_order\<close>, \<open>server_order\<close>, \<open>wire_order\<close>, \<open>read_order\<close> and \<open>flush_order\<close> extend it by what a layer adds, and
  carry the lemmas on all its handlers; each is interpreted on the relations the properties need.

  \<^bold>\<open>Loops.\<close> The stream decoder recurses on the length of its buffer and the reading of headers on the bytes left. The loops of
  the tools that only time, a process or the operator ends are \<open>repeat_run\<close>, a partial function of option type; that they
  return is proved from the advance of the clock, which has to pass every time limit (\<open>passes\<close>), or from an interrupt in the end. No
  definition uses fuel for behaviour; the digits of \<open>repr\<close> are searched up to 17, which identify every binary64 number.
\<close>

text \<open>
  \<^bold>\<open>Parameters.\<close> Code outside the repository is an argument: the averages of SQLite, \<open>datetime.fromisoformat\<close>, \<open>json.loads\<close> of the
  proxy, the answer of the remote language model, the readings of the wall and monotonic clocks, the random numbers of
  the proxy, whether the system gives it an endpoint and takes a datagram, the answers of the server to the runner, free ports, whether a write to a connection fails, what a YAML file
  holds, how \<open>urlparse\<close> treats addresses that are not plain, and for the tools under \<open>sim\<close> the operating system: which file exists, which process can
  be started, when it ends, how a signal comes out, when the operator interrupts. An interrupt is seen where the code sleeps.

  \<^bold>\<open>Not modelled.\<close> The opening of sockets and tasks, the timeouts of sockets, printing, colours, the contents of log files, the writing of the
  report file and the parsing of command lines: input and output without logic. The texts of errors and of the details in a report. Routing, and the conversion of HTTP bodies to the declared types, which the web framework
  does. Locking and threads, apart from \<open>flush\<close> in \<open>Telemetry_Store\<close>: operations are atomic steps, and the tasks of one server are
  interleaved between them. Errors of the database other than violated constraints and values it cannot hold, again apart from
  \<open>Telemetry_Store\<close>: elsewhere a statement succeeds. What the transport does with a datagram it has taken. The
  text of the SQL schema apart from the columns. The call of the language model and the wording of its prompt. The HTTP
  client of the runner and the benchmark, whose answers are arguments. The browser dashboard and the tools
  written in JavaScript. The firmware, which is written in C++ and speaks the same protocol.
\<close>

end
